(* ===== verification/Prelude.thy ===== *)
theory Prelude
  imports Main "HOL-Library.Word" "HOL-Library.Sublist" "HOL-Library.List_Lexorder"
    "HOL-Library.Char_ord" "HOL-Library.Monad_Syntax"
begin

text \<open>
  Shared vocabulary of the development: names for the Rust types the sources use, the part of
  \<^verbatim>\<open>str\<close>, \<^verbatim>\<open>u32\<close>/\<^verbatim>\<open>u64\<close> and \<^verbatim>\<open>Iterator\<close> they rely on, the generic lemmas the component
  theories share, and the interface of a labelled state machine.

  A Rust \<^verbatim>\<open>String\<close> is the list of its UTF-8 bytes: \<open>length\<close> is \<^verbatim>\<open>str::len\<close> and every test the
  sources make on ASCII characters is the same test on the bytes, since no byte of a multi-byte
  character is an ASCII byte.
\<close>

section \<open>Type names\<close>

type_synonym u16 = "16 word"
type_synonym u32 = "32 word"
type_synonym u64 = "64 word"
type_synonym pid = u32
type_synonym usize = nat
type_synonym ('e, 'a) result = "'e + 'a"

section \<open>Results\<close>

abbreviation Ok :: "'a \<Rightarrow> ('e, 'a) result" where
  "Ok \<equiv> Inr"

abbreviation Err :: "'e \<Rightarrow> ('e, 'a) result" where
  "Err \<equiv> Inl"

definition is_ok :: "('e, 'a) result \<Rightarrow> bool" where
  "is_ok r = (case r of Inl _ \<Rightarrow> False | Inr _ \<Rightarrow> True)"

lemma is_ok_simps [simp]: "is_ok (Inr x)" "\<not> is_ok (Inl e)"
  by (simp_all add: is_ok_def)

lemma is_ok_iff: "is_ok r \<longleftrightarrow> (\<exists>x. r = Inr x)"
  by (cases r) auto

lemma is_ok_projr: "is_ok r \<Longrightarrow> r = Inr (projr r)"
  by (cases r) auto

lemma not_is_ok_iff: "\<not> is_ok r \<longleftrightarrow> (\<exists>e. r = Inl e)"
  by (cases r) auto

text \<open>\<^verbatim>\<open>Result::err\<close>.\<close>

definition err_of :: "('e, 'a) result \<Rightarrow> 'e option" where
  "err_of r = (case r of Inl e \<Rightarrow> Some e | Inr _ \<Rightarrow> None)"

lemma err_of_simps [simp]: "err_of (Inl e) = Some e" "err_of (Inr x) = None"
  by (simp_all add: err_of_def)

lemma err_of_None_iff: "err_of r = None \<longleftrightarrow> is_ok r"
  by (cases r) auto

section \<open>Strings\<close>

definition starts_with :: "string \<Rightarrow> string \<Rightarrow> bool" where
  "starts_with s p = (take (length p) s = p)"

definition strip_prefix :: "string \<Rightarrow> string \<Rightarrow> string option" where
  "strip_prefix p s = (if take (length p) s = p then Some (drop (length p) s) else None)"

definition ends_with :: "string \<Rightarrow> string \<Rightarrow> bool" where
  "ends_with s p = starts_with (rev s) (rev p)"

definition strip_suffix :: "string \<Rightarrow> string \<Rightarrow> string option" where
  "strip_suffix p s = map_option rev (strip_prefix (rev p) (rev s))"

fun contains_str :: "string \<Rightarrow> string \<Rightarrow> bool" where
  "contains_str [] p = (p = [])"
| "contains_str (c # s) p = (starts_with (c # s) p \<or> contains_str s p)"

lemma starts_with_iff_prefix: "starts_with s p \<longleftrightarrow> prefix p s"
  by (auto simp: starts_with_def prefix_def) (metis append_take_drop_id)

lemma starts_with_Nil [simp]: "starts_with s []"
  by (simp add: starts_with_def)

lemma starts_with_Nil_left [simp]: "starts_with [] p \<longleftrightarrow> p = []"
  by (auto simp: starts_with_def)

lemma starts_with_Cons [simp]: "starts_with (c # s) (d # p) \<longleftrightarrow> c = d \<and> starts_with s p"
  by (auto simp: starts_with_def)

lemma starts_with_refl [simp]: "starts_with s s"
  by (simp add: starts_with_def)

lemma starts_with_append [simp]: "starts_with (p @ s) p"
  by (simp add: starts_with_def)

lemma starts_with_trans: "starts_with s p \<Longrightarrow> starts_with p q \<Longrightarrow> starts_with s q"
  by (auto simp: starts_with_iff_prefix)

lemma starts_with_append_left: "starts_with s p \<Longrightarrow> starts_with (s @ t) p"
  by (auto simp: starts_with_iff_prefix)

lemma starts_with_append_cases:
  "starts_with (s @ [c]) p \<longleftrightarrow> starts_with s p \<or> p = s @ [c]"
  by (auto simp: starts_with_iff_prefix prefix_snoc)

lemma strip_prefix_Some_iff: "strip_prefix p s = Some r \<longleftrightarrow> s = p @ r"
  by (auto simp: strip_prefix_def) (metis append_take_drop_id)

lemma strip_prefix_None_iff: "strip_prefix p s = None \<longleftrightarrow> \<not> starts_with s p"
  by (auto simp: strip_prefix_def starts_with_def)

lemma strip_suffix_Some_iff: "strip_suffix p s = Some r \<longleftrightarrow> s = r @ p"
proof
  assume "strip_suffix p s = Some r"
  then obtain x where "rev s = rev p @ x" "r = rev x"
    by (auto simp: strip_suffix_def strip_prefix_Some_iff)
  then have "rev (rev s) = rev x @ p" by simp
  with \<open>r = rev x\<close> show "s = r @ p" by simp
next
  assume "s = r @ p"
  then have "strip_prefix (rev p) (rev s) = Some (rev r)"
    by (simp add: strip_prefix_Some_iff)
  then show "strip_suffix p s = Some r"
    by (simp add: strip_suffix_def)
qed

lemma strip_suffix_append [simp]: "strip_suffix p (r @ p) = Some r"
  by (simp add: strip_suffix_Some_iff)

lemma ends_with_iff: "ends_with s p \<longleftrightarrow> (\<exists>r. s = r @ p)"
proof
  assume "ends_with s p"
  then obtain r where "rev s = rev p @ r"
    by (auto simp: ends_with_def starts_with_iff_prefix prefix_def)
  then have "rev (rev s) = rev r @ p" by simp
  then show "\<exists>r. s = r @ p" by auto
qed (auto simp: ends_with_def)

lemma strip_suffix_None_iff: "strip_suffix p s = None \<longleftrightarrow> \<not> ends_with s p"
  by (metis ends_with_iff not_Some_eq strip_suffix_Some_iff)

lemma contains_str_iff: "contains_str s p \<longleftrightarrow> (\<exists>a b. s = a @ p @ b)"
proof (induction s)
  case Nil
  then show ?case by auto
next
  case (Cons c s)
  show ?case
  proof
    assume "contains_str (c # s) p"
    then consider "prefix p (c # s)" | "contains_str s p"
      by (auto simp: starts_with_iff_prefix)
    then show "\<exists>a b. c # s = a @ p @ b"
    proof cases
      case 1
      then show ?thesis by (auto simp: prefix_def intro: exI [of _ "[]"])
    next
      case 2
      then obtain a b where "s = a @ p @ b" using Cons.IH by auto
      then have "c # s = (c # a) @ p @ b" by simp
      then show ?thesis by blast
    qed
  next
    assume "\<exists>a b. c # s = a @ p @ b"
    then obtain a b where e: "c # s = a @ p @ b" by auto
    show "contains_str (c # s) p"
    proof (cases a)
      case Nil
      with e have "starts_with (c # s) p"
        by (simp add: starts_with_iff_prefix)
      then show ?thesis by simp
    next
      case (Cons x a')
      with e have "s = a' @ p @ b" by simp
      then show ?thesis using Cons.IH by auto
    qed
  qed
qed

text \<open>\<^verbatim>\<open>str::split\<close> on one character, and \<^verbatim>\<open>[String]::join\<close>.\<close>

fun split_on :: "char \<Rightarrow> string \<Rightarrow> string list" where
  "split_on d [] = [[]]"
| "split_on d (c # s) =
     (if c = d then [] # split_on d s
      else (case split_on d s of [] \<Rightarrow> [[c]] | w # ws \<Rightarrow> (c # w) # ws))"

fun join_with :: "string \<Rightarrow> string list \<Rightarrow> string" where
  "join_with sep [] = []"
| "join_with sep [w] = w"
| "join_with sep (w # v # ws) = w @ sep @ join_with sep (v # ws)"

lemma split_on_not_Nil [simp]: "split_on d s \<noteq> []"
  by (induction s) (auto split: list.splits)

lemma join_split_on: "join_with [d] (split_on d s) = s"
proof (induction s)
  case Nil
  then show ?case by simp
next
  case (Cons c s)
  obtain w ws where "split_on d s = w # ws"
    by (meson neq_Nil_conv split_on_not_Nil)
  with Cons.IH show ?case
    by (cases ws) auto
qed

lemma split_on_no_sep: "\<forall>w \<in> set (split_on d s). d \<notin> set w"
  by (induction s) (auto split: list.splits)

text \<open>\<^verbatim>\<open>{}\<close> on an unsigned integer: decimal digits, most significant first.\<close>

definition digit_char :: "nat \<Rightarrow> char" where
  "digit_char d = char_of (48 + d)"

fun show_nat :: "nat \<Rightarrow> string" where
  "show_nat n = (if n < 10 then [digit_char n] else show_nat (n div 10) @ [digit_char (n mod 10)])"

declare show_nat.simps [simp del]

definition show_int :: "int \<Rightarrow> string" where
  "show_int i = (if i < 0 then ''-'' @ show_nat (nat (- i)) else show_nat (nat i))"

text \<open>\<^verbatim>\<open>'{x}'\<close> in a format string.\<close>

definition quoted :: "string \<Rightarrow> string" where
  "quoted s = CHR 0x27 # s @ [CHR 0x27]"

text \<open>
  \<^verbatim>\<open>Path::join\<close>: an absolute second path replaces the first; \<open>path_key\<close> is what \<^verbatim>\<open>Path\<close> equality
  compares: whether it is absolute, and the components, without empty ones and without \<^verbatim>\<open>.\<close>
  except at the start of a relative path.
\<close>

definition path_join :: "string \<Rightarrow> string \<Rightarrow> string" where
  "path_join dir p =
     (if starts_with p ''/'' then p else if dir = [] \<or> ends_with dir ''/'' then dir @ p else dir @ ''/'' @ p)"

definition path_key :: "string \<Rightarrow> bool \<times> string list" where
  "path_key p =
     (let parts = split_on (CHR ''/'') p; rooted = starts_with p ''/''
      in (rooted, (if \<not> rooted \<and> hd parts = ''.'' then [''.''] else [])
            @ filter (\<lambda>w. w \<noteq> [] \<and> w \<noteq> ''.'') parts))"

definition path_eq :: "string \<Rightarrow> string \<Rightarrow> bool" where
  "path_eq a b = (path_key a = path_key b)"

section \<open>ASCII classes\<close>

definition is_ascii_lowercase :: "char \<Rightarrow> bool" where
  "is_ascii_lowercase c = (97 \<le> (of_char c :: nat) \<and> (of_char c :: nat) \<le> 122)"

definition is_ascii_uppercase :: "char \<Rightarrow> bool" where
  "is_ascii_uppercase c = (65 \<le> (of_char c :: nat) \<and> (of_char c :: nat) \<le> 90)"

definition is_ascii_digit :: "char \<Rightarrow> bool" where
  "is_ascii_digit c = (48 \<le> (of_char c :: nat) \<and> (of_char c :: nat) \<le> 57)"

definition is_ascii_hexdigit :: "char \<Rightarrow> bool" where
  "is_ascii_hexdigit c =
     (is_ascii_digit c \<or> (97 \<le> (of_char c :: nat) \<and> (of_char c :: nat) \<le> 102)
      \<or> (65 \<le> (of_char c :: nat) \<and> (of_char c :: nat) \<le> 70))"

definition is_ascii_whitespace :: "char \<Rightarrow> bool" where
  "is_ascii_whitespace c = ((of_char c :: nat) \<in> {9, 10, 12, 13, 32})"

definition to_ascii_lower_char :: "char \<Rightarrow> char" where
  "to_ascii_lower_char c = (if is_ascii_uppercase c then char_of ((of_char c :: nat) + 32) else c)"

definition to_ascii_lowercase :: "string \<Rightarrow> string" where
  "to_ascii_lowercase s = map to_ascii_lower_char s"

definition eq_ignore_ascii_case :: "string \<Rightarrow> string \<Rightarrow> bool" where
  "eq_ignore_ascii_case a b = (to_ascii_lowercase a = to_ascii_lowercase b)"

lemmas ascii_class_defs = is_ascii_lowercase_def is_ascii_uppercase_def is_ascii_digit_def
  is_ascii_hexdigit_def is_ascii_whitespace_def

lemma to_ascii_lower_char_idem [simp]:
  "to_ascii_lower_char (to_ascii_lower_char c) = to_ascii_lower_char c"
  by (auto simp: to_ascii_lower_char_def is_ascii_uppercase_def)

lemma to_ascii_lowercase_idem [simp]:
  "to_ascii_lowercase (to_ascii_lowercase s) = to_ascii_lowercase s"
  by (induction s) (simp_all add: to_ascii_lowercase_def)

lemma length_to_ascii_lowercase [simp]: "length (to_ascii_lowercase s) = length s"
  by (simp add: to_ascii_lowercase_def)

section \<open>White space and characters of a UTF-8 string\<close>

text \<open>
  \<^verbatim>\<open>str::trim\<close> removes the characters with the Unicode property \<^verbatim>\<open>White_Space\<close>; here they are as
  byte sequences.
\<close>

definition white_space_units :: "string list" where
  "white_space_units =
     [[CHR 0x09], [CHR 0x0A], [CHR 0x0B], [CHR 0x0C], [CHR 0x0D], [CHR 0x20],
      [CHR 0xC2, CHR 0x85], [CHR 0xC2, CHR 0xA0], [CHR 0xE1, CHR 0x9A, CHR 0x80]]
     @ map (\<lambda>b. [CHR 0xE2, CHR 0x80, char_of (b :: nat)]) ([128..<139] @ [168, 169, 175])
     @ [[CHR 0xE2, CHR 0x81, CHR 0x9F], [CHR 0xE3, CHR 0x80, CHR 0x80]]"

fun strip_units :: "string list \<Rightarrow> nat \<Rightarrow> string \<Rightarrow> string" where
  "strip_units us 0 s = s"
| "strip_units us (Suc n) s = (case List.find (\<lambda>u. starts_with s u) us of
      None \<Rightarrow> s | Some u \<Rightarrow> strip_units us n (drop (length u) s))"

definition trim :: "string \<Rightarrow> string" where
  "trim s =
     (let front = strip_units white_space_units (length s) s
      in rev (strip_units (map rev white_space_units) (length front) (rev front)))"

text \<open>A byte that continues a character; \<^verbatim>\<open>str::get(..n)\<close> and \<^verbatim>\<open>chars().count()\<close>.\<close>

definition is_continuation :: "char \<Rightarrow> bool" where
  "is_continuation c = (128 \<le> (of_char c :: nat) \<and> (of_char c :: nat) < 192)"

definition str_get_to :: "string \<Rightarrow> nat \<Rightarrow> string option" where
  "str_get_to s n =
     (if n = length s \<or> (n < length s \<and> \<not> is_continuation (s ! n)) then Some (take n s) else None)"

definition char_count :: "string \<Rightarrow> nat" where
  "char_count s = length (filter (\<lambda>c. \<not> is_continuation c) s)"

section \<open>Machine integers\<close>

definition sat_mul :: "'a::len word \<Rightarrow> 'a word \<Rightarrow> 'a word" where
  "sat_mul a b = (if unat a * unat b < 2 ^ LENGTH('a) then a * b else - 1)"

definition sat_add :: "'a::len word \<Rightarrow> 'a word \<Rightarrow> 'a word" where
  "sat_add a b = (if unat a + unat b < 2 ^ LENGTH('a) then a + b else - 1)"

definition sat_sub :: "'a::len word \<Rightarrow> 'a word \<Rightarrow> 'a word" where
  "sat_sub a b = (if b \<le> a then a - b else 0)"

lemma unat_max_word: "unat (- 1 :: 'a::len word) = 2 ^ LENGTH('a) - 1"
proof -
  have "unat (- 1 :: 'a word) = nat (2 ^ LENGTH('a) - 1)"
    by (simp add: unsigned_minus_1_eq_mask mask_eq_exp_minus_1 unat_eq_nat_uint)
  then show ?thesis
    by (simp add: nat_diff_distrib nat_power_eq)
qed

lemma le_pred_iff_less: "0 < n \<Longrightarrow> m \<le> n - 1 \<longleftrightarrow> m < (n::nat)"
  by auto

lemma unat_sat_mul: "unat (sat_mul a b) = min (unat a * unat b) (2 ^ LENGTH('a) - 1)"
  for a b :: "'a::len word"
  by (simp add: sat_mul_def unat_word_ariths unat_max_word min_def le_pred_iff_less del: One_nat_def)

lemma unat_sat_add: "unat (sat_add a b) = min (unat a + unat b) (2 ^ LENGTH('a) - 1)"
  for a b :: "'a::len word"
  by (simp add: sat_add_def unat_word_ariths unat_max_word min_def le_pred_iff_less del: One_nat_def)

lemma unat_sat_sub: "unat (sat_sub a b) = unat a - unat b"
  for a b :: "'a::len word"
  by (auto simp: sat_sub_def unat_sub word_le_nat_alt)

lemma unat_min: "unat (min a b) = min (unat a) (unat b)"
  by (auto simp: min_def word_le_nat_alt)

lemma unat_max: "unat (max a b) = max (unat a) (unat b)"
  by (auto simp: max_def word_le_nat_alt)

lemma unat_bound: "unat (w :: 'a::len word) < 2 ^ LENGTH('a)"
  by (rule unsigned_less)

lemma unat_two_power: "n < LENGTH('a) \<Longrightarrow> unat (2 ^ n :: 'a::len word) = 2 ^ n"
proof -
  assume "n < LENGTH('a)"
  then have "(2 :: nat) ^ n < 2 ^ LENGTH('a)" by simp
  then show ?thesis
    by (metis (no_types) of_nat_numeral of_nat_power take_bit_nat_eq_self unsigned_of_nat)
qed

text \<open>\<^verbatim>\<open>u32::try_from(len).unwrap_or(u32::MAX)\<close>.\<close>

definition u32_of_len :: "nat \<Rightarrow> u32" where
  "u32_of_len n = (if n < 2 ^ 32 then of_nat n else - 1)"

lemma unat_u32_of_len: "unat (u32_of_len n) = min n (2 ^ 32 - 1)"
  by (auto simp: u32_of_len_def unsigned_of_nat take_bit_nat_eq_self unat_max_word min_def)

section \<open>State machines\<close>

text \<open>
  A machine is a set of start states and a labelled step relation; \<open>reach\<close> is the least set of
  states that holds the start states and is closed under steps. The interface below is what a
  component promises when it gives an inductive invariant; the component's theory interprets it
  on its own start states and steps, and takes the reachability fact from there.
\<close>

inductive reach :: "('s \<Rightarrow> bool) \<Rightarrow> ('s \<Rightarrow> 'l \<Rightarrow> 's \<Rightarrow> bool) \<Rightarrow> 's \<Rightarrow> bool"
  for init :: "'s \<Rightarrow> bool" and step :: "'s \<Rightarrow> 'l \<Rightarrow> 's \<Rightarrow> bool" where
  reach_init: "init s \<Longrightarrow> reach init step s"
| reach_step: "reach init step s \<Longrightarrow> step s l t \<Longrightarrow> reach init step t"

locale machine_invariant =
  fixes init :: "'s \<Rightarrow> bool"
    and step :: "'s \<Rightarrow> 'l \<Rightarrow> 's \<Rightarrow> bool"
    and inv :: "'s \<Rightarrow> bool"
  assumes inv_init: "init s \<Longrightarrow> inv s"
    and inv_step: "inv s \<Longrightarrow> step s l t \<Longrightarrow> inv t"
begin

lemma reach_inv: "reach init step s \<Longrightarrow> inv s"
  by (induction rule: reach.induct) (auto intro: inv_init inv_step)

end

text \<open>A machine whose steps are a function of the label, run over a list of labels.\<close>

definition run_steps :: "('s \<Rightarrow> 'l \<Rightarrow> 's) \<Rightarrow> 's \<Rightarrow> 'l list \<Rightarrow> 's" where
  "run_steps f s ls = foldl f s ls"

lemma run_steps_simps [simp]:
  "run_steps f s [] = s"
  "run_steps f s (l # ls) = run_steps f (f s l) ls"
  "run_steps f s (ls @ ls') = run_steps f (run_steps f s ls) ls'"
  by (simp_all add: run_steps_def)

locale step_function =
  fixes f :: "'s \<Rightarrow> 'l \<Rightarrow> 's"
    and inv :: "'s \<Rightarrow> bool"
  assumes inv_fun: "inv s \<Longrightarrow> inv (f s l)"
begin

lemma run_inv: "inv s \<Longrightarrow> inv (run_steps f s ls)"
  by (induction ls arbitrary: s) (auto intro: inv_fun)

end

end
