(* ===== verification/Supervision.thy ===== *)
theory Supervision
  imports Prelude
begin

text \<open>
  Restart policy, from \<^verbatim>\<open>emergent-engine/src/supervision.rs\<close>: whether an exited primitive is
  respawned, and after which delay. A \<^verbatim>\<open>Duration\<close> of whole milliseconds is its millisecond count.

  The lemmas give the backoff as a closed form on natural numbers (with the saturation of the
  64-bit arithmetic), its bounds and monotonicity, the sliding window the budget counts over, and
  the decision on every branch.
\<close>

section \<open>Policies and outcomes\<close>

datatype restart_policy = Never | OnFailure | Always

definition restart_policy_default :: restart_policy where
  "restart_policy_default = Never"

definition restart_policy_as_str :: "restart_policy \<Rightarrow> string" where
  "restart_policy_as_str p = (case p of
      Never \<Rightarrow> ''never'' | OnFailure \<Rightarrow> ''on-failure'' | Always \<Rightarrow> ''always'')"

definition restart_policy_variants :: "string list" where
  "restart_policy_variants = [''never'', ''on-failure'', ''always'']"

definition parse_restart_policy :: "string \<Rightarrow> restart_policy option" where
  "parse_restart_policy v =
     (if v = ''never'' then Some Never
      else if v = ''on-failure'' then Some OnFailure
      else if v = ''always'' then Some Always
      else None)"

datatype exit_outcome = Clean | Failure

section \<open>Limits and defaults\<close>

record restart_limits =
  backoff_ms :: u64
  max_backoff_ms :: u64
  max_retries :: u32
  window_ms :: u64

definition default_restart_backoff_ms :: u64 where
  "default_restart_backoff_ms = 500"

definition default_restart_max_backoff_ms :: u64 where
  "default_restart_max_backoff_ms = 30000"

definition default_restart_max_retries :: u32 where
  "default_restart_max_retries = 5"

definition default_restart_window_ms :: u64 where
  "default_restart_window_ms = 60000"

definition restart_limits_default :: restart_limits where
  "restart_limits_default =
     \<lparr>backoff_ms = default_restart_backoff_ms, max_backoff_ms = default_restart_max_backoff_ms,
      max_retries = default_restart_max_retries, window_ms = default_restart_window_ms\<rparr>"

section \<open>The decisions\<close>

datatype restart_decision =
    NoRestart
  | SuppressedByShutdown
  | Restart (restart_delay: u64) (restart_attempt: u32)
  | Exhausted u32 u64

text \<open>
  \<^verbatim>\<open>1_u64.checked_shl(n)\<close> is \<open>None\<close> from 64 on, which the clamp to 62 never reaches.
\<close>

definition checked_shl_one :: "nat \<Rightarrow> u64 option" where
  "checked_shl_one n = (if n < 64 then Some (push_bit n 1) else None)"

definition backoff_delay :: "u32 \<Rightarrow> restart_limits \<Rightarrow> u64" where
  "backoff_delay attempt limits =
     (let step = max attempt 1 - 1;
          factor = (case checked_shl_one (unat (min step 62)) of Some f \<Rightarrow> f | None \<Rightarrow> - 1);
          raw = sat_mul (backoff_ms limits) factor
      in min raw (max_backoff_ms limits))"

definition prune_attempts :: "u64 list \<Rightarrow> u64 \<Rightarrow> u64 \<Rightarrow> u64 list" where
  "prune_attempts attempts now_ms window =
     (let cutoff = sat_sub now_ms window in filter (\<lambda>ts. ts > cutoff) attempts)"

definition decide_restart ::
  "restart_policy \<Rightarrow> exit_outcome \<Rightarrow> u64 list \<Rightarrow> restart_limits \<Rightarrow> u64 \<Rightarrow> bool \<Rightarrow> restart_decision" where
  "decide_restart policy outcome attempts limits now_ms shutting_down =
     (if shutting_down then SuppressedByShutdown
      else
        let wanted = (case (policy, outcome) of
                (Never, _) \<Rightarrow> False
              | (OnFailure, Clean) \<Rightarrow> False
              | (OnFailure, Failure) \<Rightarrow> True
              | (Always, _) \<Rightarrow> True)
        in if \<not> wanted then NoRestart
           else
             let recent = prune_attempts attempts now_ms (window_ms limits);
                 used = u32_of_len (length recent)
             in if used \<ge> max_retries limits then Exhausted used (window_ms limits)
                else let attempt = used + 1
                     in Restart (backoff_delay attempt limits) attempt)"

definition outcome_from_exit_code :: "int \<Rightarrow> exit_outcome" where
  "outcome_from_exit_code code = (if code = 0 \<or> code = 143 then Clean else Failure)"

section \<open>Policy names\<close>

lemma parse_restart_policy_as_str [simp]: "parse_restart_policy (restart_policy_as_str p) = Some p"
  by (cases p) (simp_all add: parse_restart_policy_def restart_policy_as_str_def)

lemma parse_restart_policy_Some_iff: "parse_restart_policy v = Some p \<longleftrightarrow> v = restart_policy_as_str p"
  by (cases p) (auto simp: parse_restart_policy_def restart_policy_as_str_def)

lemma parse_restart_policy_None_iff: "parse_restart_policy v = None \<longleftrightarrow> v \<notin> set restart_policy_variants"
  by (auto simp: parse_restart_policy_def restart_policy_variants_def)

section \<open>The backoff in closed form\<close>

lemma unat_shl_factor:
  "unat (case checked_shl_one (unat (min (step :: u32) 62)) of Some f \<Rightarrow> f | None \<Rightarrow> - 1) =
     2 ^ min (unat step) 62"
proof -
  have m: "unat (min step 62) = min (unat step) 62"
    by (simp add: unat_min)
  have lt: "min (unat step) 62 < 64" by simp
  then have "unat (push_bit (min (unat step) 62) (1::u64)) = 2 ^ min (unat step) 62"
    by (simp add: push_bit_of_1 unat_two_power)
  with lt show ?thesis by (simp only: m checked_shl_one_def if_True option.case)
qed

lemma unat_attempt_step: "unat (max attempt 1 - 1 :: u32) = unat attempt - 1"
proof -
  have "unat (max attempt 1 - 1 :: u32) = unat (max attempt 1) - 1"
    using unat_sub [of 1 "max attempt 1 :: u32"] by simp
  then show ?thesis by (simp add: unat_max)
qed

definition backoff_spec :: "nat \<Rightarrow> nat \<Rightarrow> nat \<Rightarrow> nat" where
  "backoff_spec backoff cap attempt = min (min (backoff * 2 ^ min (attempt - 1) 62) (2 ^ 64 - 1)) cap"

lemma unat_backoff_delay:
  "unat (backoff_delay attempt limits) =
     backoff_spec (unat (backoff_ms limits)) (unat (max_backoff_ms limits)) (unat attempt)"
  unfolding backoff_delay_def backoff_spec_def Let_def
  by (simp only: unat_min [where a = "sat_mul _ _"] unat_sat_mul unat_shl_factor unat_attempt_step) simp

lemma backoff_spec_mono: "i \<le> j \<Longrightarrow> backoff_spec b c i \<le> backoff_spec b c j"
  unfolding backoff_spec_def
  by (intro min.mono mult_le_mono power_increasing diff_le_mono order.refl) auto

lemma backoff_spec_first: "b < 2 ^ 64 \<Longrightarrow> i \<le> 1 \<Longrightarrow> backoff_spec b c i = min b c"
  by (auto simp: backoff_spec_def)

lemma backoff_delay_le_cap: "backoff_delay attempt limits \<le> max_backoff_ms limits"
  by (simp add: backoff_delay_def Let_def)

section \<open>The window\<close>

lemma prune_attempts_mem_iff:
  "t \<in> set (prune_attempts attempts now w) \<longleftrightarrow> t \<in> set attempts \<and> unat now - unat w < unat t"
  by (auto simp: prune_attempts_def Let_def word_less_nat_alt unat_sat_sub)

lemma prune_attempts_subset: "set (prune_attempts attempts now w) \<subseteq> set attempts"
  by (auto simp: prune_attempts_mem_iff)

lemma length_prune_attempts: "length (prune_attempts attempts now w) \<le> length attempts"
  by (simp add: prune_attempts_def Let_def)

lemma prune_attempts_idem [simp]:
  "prune_attempts (prune_attempts attempts now w) now w = prune_attempts attempts now w"
  by (simp add: prune_attempts_def Let_def)

lemma prune_attempts_append:
  "prune_attempts (xs @ ys) now w = prune_attempts xs now w @ prune_attempts ys now w"
  by (simp add: prune_attempts_def Let_def)

section \<open>The decision on every branch\<close>

definition restart_wanted :: "restart_policy \<Rightarrow> exit_outcome \<Rightarrow> bool" where
  "restart_wanted policy outcome \<longleftrightarrow> policy = Always \<or> (policy = OnFailure \<and> outcome = Failure)"

lemma decide_restart_shutdown [simp]:
  "decide_restart policy outcome attempts limits now True = SuppressedByShutdown"
  by (simp add: decide_restart_def)

lemma decide_restart_unwanted:
  "\<not> restart_wanted policy outcome \<Longrightarrow> decide_restart policy outcome attempts limits now False = NoRestart"
  by (cases policy; cases outcome) (simp_all add: decide_restart_def restart_wanted_def)

lemma decide_restart_wanted:
  "restart_wanted policy outcome \<Longrightarrow>
   decide_restart policy outcome attempts limits now False =
     (let used = u32_of_len (length (prune_attempts attempts now (window_ms limits)))
      in if used \<ge> max_retries limits then Exhausted used (window_ms limits)
         else Restart (backoff_delay (used + 1) limits) (used + 1))"
  by (cases policy; cases outcome) (simp_all add: decide_restart_def restart_wanted_def Let_def)

lemma decide_restart_cases:
  "decide_restart policy outcome attempts limits now down =
     (if down then SuppressedByShutdown
      else if \<not> restart_wanted policy outcome then NoRestart
      else let used = u32_of_len (length (prune_attempts attempts now (window_ms limits)))
           in if used \<ge> max_retries limits then Exhausted used (window_ms limits)
              else Restart (backoff_delay (used + 1) limits) (used + 1))"
  using decide_restart_wanted decide_restart_unwanted by auto

text \<open>The attempt counter of a restart is one more than the restarts in the window, in \<open>nat\<close>.\<close>

lemma decide_restart_Restart_D:
  assumes "decide_restart policy outcome attempts limits now down = Restart d k"
  shows "\<not> down" "restart_wanted policy outcome"
    "unat k = length (prune_attempts attempts now (window_ms limits)) + 1"
    "length (prune_attempts attempts now (window_ms limits)) < unat (max_retries limits)"
    "d = backoff_delay k limits"
proof -
  let ?n = "length (prune_attempts attempts now (window_ms limits))"
  from assms show "\<not> down" "restart_wanted policy outcome"
    by (auto simp: decide_restart_cases Let_def split: if_splits)
  from assms have k: "k = u32_of_len ?n + 1" and lt: "u32_of_len ?n < max_retries limits"
    and d: "d = backoff_delay k limits"
    by (auto simp: decide_restart_cases Let_def split: if_splits)
  show "d = backoff_delay k limits" by (rule d)
  from lt have "min ?n (2 ^ 32 - 1) < unat (max_retries limits)"
    by (simp add: word_less_nat_alt unat_u32_of_len)
  moreover have "unat (max_retries limits) \<le> 2 ^ 32 - 1"
    using unat_bound [of "max_retries limits"] by simp
  ultimately show n: "?n < unat (max_retries limits)" by linarith
  have "unat (u32_of_len ?n) = ?n"
    using n \<open>unat (max_retries limits) \<le> 2 ^ 32 - 1\<close> by (simp add: unat_u32_of_len)
  moreover from n \<open>unat (max_retries limits) \<le> 2 ^ 32 - 1\<close> have "?n + 1 < 2 ^ 32" by simp
  ultimately show "unat k = ?n + 1"
    by (simp add: k unat_word_ariths)
qed

section \<open>Properties\<close>

text \<open>
  C5. An exited primitive is restarted exactly when no shutdown is under way, its policy asks for a
  restart after that outcome, and fewer restarts than the budget are younger than the window. The
  attempt number is then one more than those restarts, computed without wrap-around, and the delay
  is the backoff of that attempt. A restart at or before the window's edge never counts.
\<close>

theorem decide_restart_iff:
  "decide_restart policy outcome attempts limits now down = Restart d k \<longleftrightarrow>
     (let recent = filter (\<lambda>t. unat now - unat (window_ms limits) < unat t) attempts in
      \<not> down \<and> (policy = Always \<or> (policy = OnFailure \<and> outcome = Failure))
      \<and> length recent < unat (max_retries limits)
      \<and> unat k = length recent + 1 \<and> d = backoff_delay k limits)"
proof -
  have recent: "filter (\<lambda>t. unat now - unat (window_ms limits) < unat t) attempts =
      prune_attempts attempts now (window_ms limits)"
    by (simp add: prune_attempts_def Let_def word_less_nat_alt unat_sat_sub)
  let ?n = "length (prune_attempts attempts now (window_ms limits))"
  have "decide_restart policy outcome attempts limits now down = Restart d k"
    if "\<not> down" "restart_wanted policy outcome" "?n < unat (max_retries limits)"
      "unat k = ?n + 1" "d = backoff_delay k limits"
  proof -
    have u: "unat (u32_of_len ?n) = ?n"
      using that(3) unat_bound [of "max_retries limits"] by (simp add: unat_u32_of_len)
    then have "unat (u32_of_len ?n + 1) = unat k"
      using that(4) unat_bound [of k] by (simp add: unat_word_ariths)
    then have "k = u32_of_len ?n + 1"
      by (simp add: word_unat_eq_iff)
    moreover have "u32_of_len ?n < max_retries limits"
      using that(3) u by (simp add: word_less_nat_alt)
    ultimately show ?thesis
      using that by (simp add: decide_restart_cases Let_def)
  qed
  then show ?thesis
    unfolding recent Let_def restart_wanted_def [symmetric]
    using decide_restart_Restart_D [of policy outcome attempts limits now down d k] by blast
qed

text \<open>
  The backoff is the base delay doubled once per earlier attempt (at most 62 doublings), cut off
  at the largest 64-bit value and then at the configured cap: no shift or product wraps for any
  attempt number and any limits, so it never exceeds the cap and never shrinks from one attempt to
  the next.
\<close>

theorem backoff_delay_closed_form:
  "unat (backoff_delay attempt limits) =
     min (min (unat (backoff_ms limits) * 2 ^ min (unat attempt - 1) 62) (2 ^ 64 - 1))
         (unat (max_backoff_ms limits))
   \<and> backoff_delay attempt limits \<le> backoff_delay (sat_add attempt 1) limits"
proof
  show "unat (backoff_delay attempt limits) =
     min (min (unat (backoff_ms limits) * 2 ^ min (unat attempt - 1) 62) (2 ^ 64 - 1))
         (unat (max_backoff_ms limits))"
    by (simp add: unat_backoff_delay backoff_spec_def)
  have "unat attempt \<le> unat (sat_add attempt 1)"
    using unat_bound [of attempt] by (simp add: unat_sat_add)
  then show "backoff_delay attempt limits \<le> backoff_delay (sat_add attempt 1) limits"
    by (simp add: word_le_nat_alt unat_backoff_delay backoff_spec_mono)
qed

end
