(* ===== verification/Lifecycle.thy ===== *)
theory Lifecycle
  imports Supervision
begin

text \<open>
  The lifecycle state machine of a managed primitive, from \<^verbatim>\<open>emergent-engine/src/lifecycle.rs\<close>,
  and the primitive data of \<^verbatim>\<open>emergent-engine/src/primitives.rs\<close>.

  The lemmas give the invariant the module documents (a pid exactly while a child runs, an error
  exactly when the primitive failed), that every event keeps it, and which events change the pid.
\<close>

section \<open>Primitives\<close>

datatype primitive_kind = Source | Handler | Sink

definition primitive_kind_as_str :: "primitive_kind \<Rightarrow> string" where
  "primitive_kind_as_str k = (case k of Source \<Rightarrow> ''source'' | Handler \<Rightarrow> ''handler'' | Sink \<Rightarrow> ''sink'')"

definition show_primitive_kind :: "primitive_kind \<Rightarrow> string" where
  "show_primitive_kind k = (case k of Source \<Rightarrow> ''Source'' | Handler \<Rightarrow> ''Handler'' | Sink \<Rightarrow> ''Sink'')"

datatype primitive_state =
  Configured | Starting | Running | Stopping | Stopped | Failed | External

definition show_primitive_state :: "primitive_state \<Rightarrow> string" where
  "show_primitive_state s = (case s of
      Configured \<Rightarrow> ''Configured'' | Starting \<Rightarrow> ''Starting'' | Running \<Rightarrow> ''Running''
    | Stopping \<Rightarrow> ''Stopping'' | Stopped \<Rightarrow> ''Stopped'' | Failed \<Rightarrow> ''Failed''
    | External \<Rightarrow> ''External'')"

record primitive_info =
  info_name :: string
  info_kind :: primitive_kind
  info_state :: primitive_state
  info_publishes :: "string list"
  info_subscribes :: "string list"
  info_pid :: "pid option"
  info_error :: "string option"

definition info_source :: "string \<Rightarrow> string list \<Rightarrow> primitive_info" where
  "info_source n publishes =
     \<lparr>info_name = n, info_kind = Source, info_state = Configured, info_publishes = publishes,
      info_subscribes = [], info_pid = None, info_error = None\<rparr>"

definition info_handler :: "string \<Rightarrow> string list \<Rightarrow> string list \<Rightarrow> primitive_info" where
  "info_handler n subscribes publishes =
     \<lparr>info_name = n, info_kind = Handler, info_state = Configured, info_publishes = publishes,
      info_subscribes = subscribes, info_pid = None, info_error = None\<rparr>"

definition info_sink :: "string \<Rightarrow> string list \<Rightarrow> primitive_info" where
  "info_sink n subscribes =
     \<lparr>info_name = n, info_kind = Sink, info_state = Configured, info_publishes = [],
      info_subscribes = subscribes, info_pid = None, info_error = None\<rparr>"

definition info_is_running :: "primitive_info \<Rightarrow> bool" where
  "info_is_running i = (info_state i = Running \<or> info_state i = External)"

definition info_can_start :: "primitive_info \<Rightarrow> bool" where
  "info_can_start i = (info_state i \<in> {Configured, Stopped, Failed})"

section \<open>Status and events\<close>

record primitive_status =
  st_state :: primitive_state
  st_pid :: "pid option"
  st_error :: "string option"

definition status_configured :: primitive_status where
  "status_configured = \<lparr>st_state = Configured, st_pid = None, st_error = None\<rparr>"

definition status_running :: "pid \<Rightarrow> primitive_status" where
  "status_running p = \<lparr>st_state = Running, st_pid = Some p, st_error = None\<rparr>"

datatype lifecycle_event =
    SpawnRequested
  | Spawned pid
  | SpawnFailed string
  | RestartsExhausted string
  | StopRequested
  | Exited pid int

definition is_clean_exit_code :: "int \<Rightarrow> bool" where
  "is_clean_exit_code code = (code = 0 \<or> code = 143)"

definition exit_error_message :: "int \<Rightarrow> string" where
  "exit_error_message code = ''Exited with status: '' @ show_int code"

fun next_status :: "primitive_status \<Rightarrow> lifecycle_event \<Rightarrow> primitive_status" where
  "next_status current SpawnRequested = \<lparr>st_state = Starting, st_pid = None, st_error = None\<rparr>"
| "next_status current (Spawned p) = status_running p"
| "next_status current (SpawnFailed e) = \<lparr>st_state = Failed, st_pid = None, st_error = Some e\<rparr>"
| "next_status current (RestartsExhausted reason) =
     \<lparr>st_state = Failed, st_pid = None, st_error = Some reason\<rparr>"
| "next_status current StopRequested =
     (if st_pid current = None then current
      else \<lparr>st_state = Stopping, st_pid = st_pid current, st_error = st_error current\<rparr>)"
| "next_status current (Exited p code) =
     (if st_pid current \<noteq> Some p then current
      else if is_clean_exit_code code then \<lparr>st_state = Stopped, st_pid = None, st_error = None\<rparr>
      else \<lparr>st_state = Failed, st_pid = None, st_error = Some (exit_error_message code)\<rparr>)"

section \<open>The invariant\<close>

text \<open>
  A status is consistent when it has a pid exactly in \<open>Running\<close> and \<open>Stopping\<close>, and an error
  exactly in \<open>Failed\<close>; \<open>External\<close> belongs to connections the engine does not manage.
\<close>

definition status_ok :: "primitive_status \<Rightarrow> bool" where
  "status_ok s \<longleftrightarrow>
     (st_pid s \<noteq> None \<longleftrightarrow> st_state s \<in> {Running, Stopping})
     \<and> (st_error s \<noteq> None \<longleftrightarrow> st_state s = Failed) \<and> st_state s \<noteq> External"

lemma status_ok_configured: "status_ok status_configured"
  by (simp add: status_ok_def status_configured_def)

lemma next_status_ok: "status_ok s \<Longrightarrow> status_ok (next_status s e)"
  by (cases e) (auto simp: status_ok_def status_running_def)

interpretation lifecycle: step_function next_status status_ok
  by unfold_locales (rule next_status_ok)

lemma clean_exit_iff_outcome: "is_clean_exit_code code \<longleftrightarrow> outcome_from_exit_code code = Clean"
  by (simp add: is_clean_exit_code_def outcome_from_exit_code_def)

lemma next_status_pid:
  "st_pid (next_status s e) = (case e of
      SpawnRequested \<Rightarrow> None | Spawned p \<Rightarrow> Some p | SpawnFailed _ \<Rightarrow> None | RestartsExhausted _ \<Rightarrow> None
    | StopRequested \<Rightarrow> st_pid s | Exited p _ \<Rightarrow> if st_pid s = Some p then None else st_pid s)"
  by (cases e) (auto simp: status_running_def)

lemma stale_exit_ignored: "st_pid s \<noteq> Some p \<Longrightarrow> next_status s (Exited p code) = s"
  by simp

lemma stop_without_child_ignored: "st_pid s = None \<Longrightarrow> next_status s StopRequested = s"
  by simp

section \<open>The pid of a running child\<close>

text \<open>The events after which the child \<open>p\<close> is still the one the status names.\<close>

definition keeps_child :: "pid \<Rightarrow> lifecycle_event \<Rightarrow> bool" where
  "keeps_child p e = (case e of StopRequested \<Rightarrow> True | Exited q _ \<Rightarrow> q \<noteq> p | _ \<Rightarrow> False)"

lemma next_status_pid_Some_iff:
  "st_pid (next_status s e) = Some p \<longleftrightarrow> e = Spawned p \<or> (st_pid s = Some p \<and> keeps_child p e)"
  by (cases e) (auto simp: keeps_child_def status_running_def)

lemma run_status_pid:
  "st_pid (run_steps next_status s es) = Some p \<longleftrightarrow>
     (\<exists>us vs. es = us @ Spawned p # vs \<and> list_all (keeps_child p) vs)
     \<or> (st_pid s = Some p \<and> list_all (keeps_child p) es)"
proof (induction es rule: rev_induct)
  case (snoc e es)
  have "(\<exists>us vs. es @ [e] = us @ Spawned p # vs \<and> list_all (keeps_child p) vs) \<longleftrightarrow>
      e = Spawned p \<or> (keeps_child p e \<and> (\<exists>us vs. es = us @ Spawned p # vs \<and> list_all (keeps_child p) vs))"
    (is "?l = ?r")
  proof
    assume ?l
    then obtain us vs where "es @ [e] = us @ Spawned p # vs" "list_all (keeps_child p) vs" by blast
    then show ?r by (cases vs rule: rev_cases) auto
  next
    assume ?r
    then show ?l
    proof (elim disjE conjE exE)
      fix us vs assume "keeps_child p e" "es = us @ Spawned p # vs" "list_all (keeps_child p) vs"
      then show ?l by (intro exI [of _ us] exI [of _ "vs @ [e]"]) simp
    qed (auto intro: exI [of _ es])
  qed
  then show ?case
    using snoc.IH by (auto simp: next_status_pid_Some_iff)
qed simp

section \<open>Properties\<close>

text \<open>
  Whatever events a primitive goes through, its status stays consistent (a pid exactly while it
  is running or stopping, an error message exactly while it has failed), and it names the process
  \<open>p\<close> exactly when \<open>p\<close> was spawned and since then nothing happened but stop requests and exit
  reports of other processes: a late report about an earlier process never takes the current one's
  pid away.
\<close>

theorem status_names_live_child:
  "status_ok (run_steps next_status status_configured es)
   \<and> (st_pid (run_steps next_status status_configured es) = Some p \<longleftrightarrow>
        (\<exists>us vs. es = us @ Spawned p # vs \<and> list_all (keeps_child p) vs))"
  using lifecycle.run_inv [OF status_ok_configured] by (simp add: run_status_pid status_configured_def)

end
