(* ===== verification/Topology.thy ===== *)
theory Topology
  imports Lifecycle "HOL-Library.Multiset" "HOL-Library.Product_Lexorder"
begin

text \<open>
  The topology answer both transports serialise, after \<^verbatim>\<open>emergent-engine/src/topology.rs\<close>.
  Kinds are ordered by their rank, so the comparison the code sorts by is the lexicographic order
  of kind and name, and \<^verbatim>\<open>sort_by\<close>, which is stable, is \<open>sort_key\<close>.
\<close>

section \<open>The order of kinds\<close>

definition kind_rank :: "primitive_kind \<Rightarrow> nat" where
  "kind_rank k = (case k of Source \<Rightarrow> 0 | Handler \<Rightarrow> 1 | Sink \<Rightarrow> 2)"

lemma kind_rank_inj: "kind_rank a = kind_rank b \<longleftrightarrow> a = b"
  by (cases a; cases b) (simp_all add: kind_rank_def)

instantiation primitive_kind :: linorder
begin

definition less_eq_primitive_kind :: "primitive_kind \<Rightarrow> primitive_kind \<Rightarrow> bool" where
  "a \<le> b \<longleftrightarrow> kind_rank a \<le> kind_rank b"

definition less_primitive_kind :: "primitive_kind \<Rightarrow> primitive_kind \<Rightarrow> bool" where
  "a < b \<longleftrightarrow> kind_rank a < kind_rank b"

instance
  by standard (auto simp: less_eq_primitive_kind_def less_primitive_kind_def kind_rank_inj)

end

section \<open>The payload\<close>

definition ENGINE_PRIMITIVE_NAME :: string where
  "ENGINE_PRIMITIVE_NAME = ''emergent-engine''"

record topology_primitive =
  tpp_name :: string
  tpp_kind :: string
  tpp_state :: string
  tpp_publishes :: "string list"
  tpp_subscribes :: "string list"
  tpp_pid :: "pid option"
  tpp_error :: "string option"

definition engine_primitive :: "pid \<Rightarrow> topology_primitive" where
  "engine_primitive engine_pid =
     \<lparr> tpp_name = ENGINE_PRIMITIVE_NAME, tpp_kind = ''source'', tpp_state = ''running'',
       tpp_publishes = [''system.started.*'', ''system.stopped.*'', ''system.error.*'', ''system.shutdown''],
       tpp_subscribes = [], tpp_pid = Some engine_pid, tpp_error = None \<rparr>"

definition topology_entry :: "primitive_info \<Rightarrow> topology_primitive" where
  "topology_entry p =
     \<lparr> tpp_name = info_name p, tpp_kind = to_ascii_lowercase (show_primitive_kind (info_kind p)),
       tpp_state = to_ascii_lowercase (show_primitive_state (info_state p)),
       tpp_publishes = info_publishes p, tpp_subscribes = info_subscribes p,
       tpp_pid = info_pid p, tpp_error = info_error p \<rparr>"

definition build_topology_payload :: "pid \<Rightarrow> primitive_info list \<Rightarrow> topology_primitive list" where
  "build_topology_payload engine_pid primitives =
     engine_primitive engine_pid
     # map topology_entry (sort_key (\<lambda>p. (info_kind p, info_name p)) primitives)"

section \<open>Properties\<close>

text \<open>
  The topology answer depends only on what the primitives are, not on the order the process
  manager's hash map gives them in: two collections of the same primitives with distinct names give
  the same answer, the engine first, then every primitive exactly once, by kind in data-flow order
  and by name within a kind.
\<close>

theorem topology_order_independent:
  assumes "mset ps = mset qs" and "distinct (map info_name ps)"
  shows "build_topology_payload e ps = build_topology_payload e qs
    \<and> (\<exists>rs. build_topology_payload e ps = engine_primitive e # map topology_entry rs \<and> mset rs = mset ps
        \<and> sorted (map (\<lambda>p. (info_kind p, info_name p)) rs))"
proof -
  let ?k = "\<lambda>p. (info_kind p, info_name p)"
  have inj: "inj_on ?k (set ps)"
    using assms(2) by (auto simp: distinct_map inj_on_def)
  have "sort_key ?k ps = sort_key ?k qs"
    by (rule sort_key_inj_key_eq [OF _ inj]) (simp_all add: assms(1))
  then show ?thesis
    using assms(1) by (auto simp: build_topology_payload_def intro!: exI [of _ "sort_key ?k ps"])
qed

theorem topology_order_independent_witness:
  "map tpp_name (build_topology_payload 1 [info_sink ''a'' [], info_source ''c'' [], info_source ''b'' []])
     = [''emergent-engine'', ''b'', ''c'', ''a'']"
proof -
  have e: "mset [info_sink ''a'' [], info_source ''c'' [], info_source ''b'' []]
      = mset [info_source ''b'' [], info_source ''c'' [], info_sink ''a'' []]"
    by simp
  have d: "distinct (map info_name [info_sink ''a'' [], info_source ''c'' [], info_source ''b'' []])"
    by (simp add: info_sink_def info_source_def)
  have "map tpp_name (build_topology_payload 1 [info_source ''b'' [], info_source ''c'' [], info_sink ''a'' []])
      = [''emergent-engine'', ''b'', ''c'', ''a'']"
    by code_simp
  then show ?thesis
    using topology_order_independent [OF e d, of 1] by simp
qed

end
