(* ===== verification/Ids.thy ===== *)
theory Ids
  imports Prelude
begin

text \<open>
  The validated newtypes of \<^verbatim>\<open>sdks/rust/src/types/\<close>: message types, primitive names, the three
  TypeID identifiers and timestamps.

  \<^verbatim>\<open>MessageType\<close> and \<^verbatim>\<open>PrimitiveName\<close> are the validated string itself. A TypeID is a value of the
  \<^verbatim>\<open>mti\<close> package, which is not part of the sources: \<open>'t\<close> stands for \<^verbatim>\<open>MagicTypeId\<close>, and the
  package's \<^verbatim>\<open>from_str\<close>, \<^verbatim>\<open>prefix\<close> and \<^verbatim>\<open>to_string\<close> are arguments of the definitions.

  The lemmas give the rule each constructor enforces as a predicate on the string, that a
  configured name always forms a valid lifecycle message type, and the round trip of the three
  identifier types through one interface.
\<close>

section \<open>Message types\<close>

type_synonym message_type = string

datatype invalid_message_type =
    MT_Empty
  | MT_InvalidCharacters string
  | MT_InvalidStructure string string

definition show_invalid_message_type :: "invalid_message_type \<Rightarrow> string" where
  "show_invalid_message_type e = (case e of
      MT_Empty \<Rightarrow> ''message type cannot be empty''
    | MT_InvalidCharacters v \<Rightarrow> ''message type '' @ quoted v @ '' contains invalid characters''
    | MT_InvalidStructure v reason \<Rightarrow> ''message type '' @ quoted v @ '' is invalid: '' @ reason)"

definition message_type_char :: "char \<Rightarrow> bool" where
  "message_type_char c =
     (is_ascii_lowercase c \<or> is_ascii_digit c \<or> c = CHR ''.'' \<or> c = CHR ''-'' \<or> c = CHR ''_'')"

definition MessageType_new :: "string \<Rightarrow> (invalid_message_type, message_type) result" where
  "MessageType_new v =
     (if v = [] then Err MT_Empty
      else if starts_with v ''.'' \<or> ends_with v ''.''
        then Err (MT_InvalidStructure v ''cannot start or end with dot'')
      else if contains_str v ''..''
        then Err (MT_InvalidStructure v ''cannot contain consecutive dots'')
      else if \<not> list_all message_type_char v then Err (MT_InvalidCharacters v)
      else Ok v)"

definition MessageType_parts :: "message_type \<Rightarrow> string list" where
  "MessageType_parts t = split_on CHR ''.'' t"

definition MessageType_category :: "message_type \<Rightarrow> string option" where
  "MessageType_category t = (case split_on CHR ''.'' t of [] \<Rightarrow> None | w # _ \<Rightarrow> Some w)"

section \<open>Primitive names\<close>

type_synonym primitive_name = string

datatype invalid_primitive_name =
    PN_Empty
  | PN_InvalidCharacters string
  | PN_InvalidStructure string string

definition show_invalid_primitive_name :: "invalid_primitive_name \<Rightarrow> string" where
  "show_invalid_primitive_name e = (case e of
      PN_Empty \<Rightarrow> ''primitive name cannot be empty''
    | PN_InvalidCharacters v \<Rightarrow> ''primitive name '' @ quoted v @ '' contains invalid characters''
    | PN_InvalidStructure v reason \<Rightarrow> ''primitive name '' @ quoted v @ '' is invalid: '' @ reason)"

definition PrimitiveName_MAX_LENGTH :: usize where
  "PrimitiveName_MAX_LENGTH = 64"

definition PrimitiveName_UNKNOWN :: string where
  "PrimitiveName_UNKNOWN = ''unknown''"

definition PrimitiveName_unknown :: primitive_name where
  "PrimitiveName_unknown = PrimitiveName_UNKNOWN"

definition primitive_name_char :: "char \<Rightarrow> bool" where
  "primitive_name_char c = (is_ascii_lowercase c \<or> is_ascii_digit c \<or> c = CHR ''-'' \<or> c = CHR ''_'')"

definition PrimitiveName_new :: "string \<Rightarrow> (invalid_primitive_name, primitive_name) result" where
  "PrimitiveName_new v =
     (if v = [] then Err PN_Empty
      else if length v > PrimitiveName_MAX_LENGTH
        then Err (PN_InvalidStructure v ''cannot exceed 64 characters'')
      else if (case v of [] \<Rightarrow> False | first # _ \<Rightarrow> \<not> is_ascii_lowercase first)
        then Err (PN_InvalidStructure v ''must start with lowercase letter'')
      else if \<not> list_all primitive_name_char v then Err (PN_InvalidCharacters v)
      else Ok v)"

definition PrimitiveName_is_default :: "primitive_name \<Rightarrow> bool" where
  "PrimitiveName_is_default n = (n = PrimitiveName_UNKNOWN)"

section \<open>TypeID identifiers\<close>

text \<open>\<open>IdParse e\<close> carries the package's own error; \<open>WrongPrefix expected actual\<close> is the SDK's.\<close>

datatype 'e invalid_id = IdParse 'e | WrongPrefix string string

definition MessageId_PREFIX :: string where
  "MessageId_PREFIX = ''msg''"

definition CorrelationId_PREFIX :: string where
  "CorrelationId_PREFIX = ''cor''"

definition CausationId_PREFIX :: string where
  "CausationId_PREFIX = ''cau''"

datatype 't message_id = MessageId 't

datatype 't correlation_id = CorrelationId 't

datatype 't causation_id = CausationId 't

definition MessageId_parse ::
  "(string \<Rightarrow> ('e, 't) result) \<Rightarrow> ('t \<Rightarrow> string) \<Rightarrow> string \<Rightarrow> ('e invalid_id, 't message_id) result" where
  "MessageId_parse from_str prefix_of s = (case from_str s of
      Inl e \<Rightarrow> Err (IdParse e)
    | Inr i \<Rightarrow> if prefix_of i \<noteq> MessageId_PREFIX
               then Err (WrongPrefix MessageId_PREFIX (prefix_of i)) else Ok (MessageId i))"

definition CorrelationId_parse ::
  "(string \<Rightarrow> ('e, 't) result) \<Rightarrow> ('t \<Rightarrow> string) \<Rightarrow> string \<Rightarrow> ('e invalid_id, 't correlation_id) result" where
  "CorrelationId_parse from_str prefix_of s = (case from_str s of
      Inl e \<Rightarrow> Err (IdParse e)
    | Inr i \<Rightarrow> if prefix_of i \<noteq> CorrelationId_PREFIX
               then Err (WrongPrefix CorrelationId_PREFIX (prefix_of i)) else Ok (CorrelationId i))"

definition CausationId_parse ::
  "(string \<Rightarrow> ('e, 't) result) \<Rightarrow> ('t \<Rightarrow> string) \<Rightarrow> string \<Rightarrow> ('e invalid_id, 't causation_id) result" where
  "CausationId_parse from_str prefix_of s = (case from_str s of
      Inl e \<Rightarrow> Err (IdParse e)
    | Inr i \<Rightarrow> if prefix_of i \<noteq> CausationId_PREFIX \<and> prefix_of i \<noteq> ''msg''
               then Err (WrongPrefix ''cau or msg'' (prefix_of i)) else Ok (CausationId i))"

primrec MessageId_inner :: "'t message_id \<Rightarrow> 't" where
  "MessageId_inner (MessageId i) = i"

primrec CorrelationId_inner :: "'t correlation_id \<Rightarrow> 't" where
  "CorrelationId_inner (CorrelationId i) = i"

primrec CausationId_inner :: "'t causation_id \<Rightarrow> 't" where
  "CausationId_inner (CausationId i) = i"

definition causation_from_message :: "'t message_id \<Rightarrow> 't causation_id" where
  "causation_from_message msg_id = CausationId (MessageId_inner msg_id)"

section \<open>Timestamps\<close>

datatype timestamp = Timestamp (as_millis: u64)

definition Timestamp_as_secs :: "timestamp \<Rightarrow> u64" where
  "Timestamp_as_secs t = as_millis t div 1000"

definition Timestamp_duration_since :: "timestamp \<Rightarrow> timestamp \<Rightarrow> u64 option" where
  "Timestamp_duration_since t other =
     (if as_millis t \<ge> as_millis other then Some (as_millis t - as_millis other) else None)"

definition Timestamp_add_millis :: "timestamp \<Rightarrow> u64 \<Rightarrow> timestamp" where
  "Timestamp_add_millis t millis = Timestamp (sat_add (as_millis t) millis)"

definition Timestamp_sub_millis :: "timestamp \<Rightarrow> u64 \<Rightarrow> timestamp" where
  "Timestamp_sub_millis t millis = Timestamp (sat_sub (as_millis t) millis)"

text \<open>
  \<^verbatim>\<open>Timestamp::now\<close>: the clock's milliseconds since the epoch (\<open>None\<close> for a clock before it),
  saturated into 64 bits.
\<close>

definition Timestamp_now :: "nat option \<Rightarrow> timestamp" where
  "Timestamp_now since_epoch = (case since_epoch of
      None \<Rightarrow> Timestamp 0
    | Some ms \<Rightarrow> Timestamp (if ms < 2 ^ 64 then of_nat ms else - 1))"

section \<open>The rule of each constructor\<close>

lemma MessageType_new_Ok_iff:
  "MessageType_new v = Ok t \<longleftrightarrow>
     t = v \<and> v \<noteq> [] \<and> hd v \<noteq> CHR ''.'' \<and> last v \<noteq> CHR ''.''
     \<and> \<not> contains_str v ''..'' \<and> list_all message_type_char v"
proof (cases "v = []")
  case True
  then show ?thesis by (auto simp: MessageType_new_def)
next
  case False
  then have "starts_with v ''.'' \<longleftrightarrow> hd v = CHR ''.''"
    by (cases v) auto
  moreover from False have "ends_with v ''.'' \<longleftrightarrow> last v = CHR ''.''"
    by (cases v rule: rev_cases) (auto simp: ends_with_iff)
  ultimately show ?thesis
    using False by (auto simp: MessageType_new_def)
qed

lemma PrimitiveName_new_Ok_iff:
  "PrimitiveName_new v = Ok n \<longleftrightarrow>
     n = v \<and> v \<noteq> [] \<and> length v \<le> PrimitiveName_MAX_LENGTH \<and> is_ascii_lowercase (hd v)
     \<and> list_all primitive_name_char v"
  by (cases v) (auto simp: PrimitiveName_new_def)

lemma PrimitiveName_unknown_valid: "PrimitiveName_new PrimitiveName_UNKNOWN = Ok PrimitiveName_unknown"
  by (simp add: PrimitiveName_new_Ok_iff PrimitiveName_unknown_def PrimitiveName_UNKNOWN_def
      PrimitiveName_MAX_LENGTH_def primitive_name_char_def is_ascii_lowercase_def)

lemma name_char_is_type_char: "primitive_name_char c \<Longrightarrow> message_type_char c \<and> c \<noteq> CHR ''.''"
  by (auto simp: primitive_name_char_def message_type_char_def ascii_class_defs)

text \<open>No two adjacent dots, read off the list: the form inductions use.\<close>

lemma contains_dots_append_dot_free:
  assumes "CHR ''.'' \<notin> set n" and "n \<noteq> []"
  shows "contains_str (p @ n) ''..'' \<longleftrightarrow> contains_str p ''..''"
proof (induction p)
  case Nil
  have "contains_str n ''..'' \<Longrightarrow> CHR ''.'' \<in> set n"
    by (auto simp: contains_str_iff)
  with assms show ?case by auto
next
  case (Cons c p)
  have "starts_with (p @ n) ''.'' \<longleftrightarrow> starts_with p ''.''"
    using assms by (cases p; cases n) auto
  with Cons show ?case by auto
qed

text \<open>Appending a valid name after a dotted prefix gives a valid message type.\<close>

lemma MessageType_new_append_name:
  assumes n: "is_ok (PrimitiveName_new n)"
    and p: "p \<noteq> []" "hd p \<noteq> CHR ''.''" "\<not> contains_str p ''..''" "list_all message_type_char p"
  shows "MessageType_new (p @ n) = Ok (p @ n)"
proof -
  from n have ne: "n \<noteq> []" and chars: "list_all primitive_name_char n"
    by (auto simp: is_ok_iff PrimitiveName_new_Ok_iff)
  from chars have dot_free: "CHR ''.'' \<notin> set n" and ok: "list_all message_type_char n"
    using name_char_is_type_char by (auto simp: list_all_iff)
  from dot_free ne have "last n \<noteq> CHR ''.''" by (metis last_in_set)
  with p ok ne contains_dots_append_dot_free [OF dot_free ne, of p] show ?thesis
    by (simp add: MessageType_new_Ok_iff)
qed

section \<open>The identifier interface\<close>

text \<open>
  The contract the three identifier newtypes share, over what the TypeID package documents: its
  \<^verbatim>\<open>from_str\<close> reads back what \<^verbatim>\<open>to_string\<close> wrote.
\<close>

locale type_id =
  fixes parse :: "(string \<Rightarrow> ('e, 't) result) \<Rightarrow> ('t \<Rightarrow> string) \<Rightarrow> string \<Rightarrow> ('e invalid_id, 'i) result"
    and mk :: "'t \<Rightarrow> 'i"
    and inner :: "'i \<Rightarrow> 't"
    and accepts :: "string \<Rightarrow> bool"
  assumes parse_Ok: "parse from_str prefix_of s = Ok i \<longleftrightarrow>
      (\<exists>t. from_str s = Ok t \<and> accepts (prefix_of t) \<and> i = mk t)"
    and inner_mk: "inner (mk t) = t"
begin

lemma parse_inner: "parse from_str prefix_of s = Ok i \<Longrightarrow> from_str s = Ok (inner i) \<and> accepts (prefix_of (inner i))"
  by (auto simp: parse_Ok inner_mk)

lemma parse_to_string:
  assumes "\<And>t. from_str (to_str t) = Ok t" and "parse from_str prefix_of s = Ok i"
  shows "parse from_str prefix_of (to_str (inner i)) = Ok i"
  using assms by (auto simp: parse_Ok inner_mk)

lemma parse_wrong_prefix:
  "from_str s = Ok t \<Longrightarrow> \<not> accepts (prefix_of t) \<Longrightarrow> \<not> is_ok (parse from_str prefix_of s)"
  by (auto simp: is_ok_iff parse_Ok)

end

interpretation msg_id: type_id MessageId_parse MessageId MessageId_inner "\<lambda>p. p = MessageId_PREFIX"
  by unfold_locales (auto simp: MessageId_parse_def split: sum.splits if_splits)

interpretation cor_id: type_id CorrelationId_parse CorrelationId CorrelationId_inner
  "\<lambda>p. p = CorrelationId_PREFIX"
  by unfold_locales (auto simp: CorrelationId_parse_def split: sum.splits if_splits)

interpretation cau_id: type_id CausationId_parse CausationId CausationId_inner
  "\<lambda>p. p = CausationId_PREFIX \<or> p = MessageId_PREFIX"
  by unfold_locales (auto simp: CausationId_parse_def MessageId_PREFIX_def split: sum.splits if_splits)

text \<open>A causation id made from a parsed message id is one the parser accepts back.\<close>

lemma causation_from_message_parses:
  assumes "\<And>t. from_str (to_str t) = Ok t" and "MessageId_parse from_str prefix_of s = Ok m"
  shows "CausationId_parse from_str prefix_of (to_str (CausationId_inner (causation_from_message m)))
    = Ok (causation_from_message m)"
proof -
  from assms(2) have "prefix_of (MessageId_inner m) = MessageId_PREFIX"
    by (simp add: msg_id.parse_inner)
  then show ?thesis
    using assms(1) by (simp add: cau_id.parse_Ok causation_from_message_def)
qed

section \<open>Timestamps\<close>

lemma duration_since_Some_iff:
  "Timestamp_duration_since t other = Some d \<longleftrightarrow>
     unat (as_millis t) = unat (as_millis other) + unat d"
  (is "?l \<longleftrightarrow> ?r")
proof
  assume ?l
  then have le: "as_millis other \<le> as_millis t" and d: "d = as_millis t - as_millis other"
    by (auto simp: Timestamp_duration_since_def split: if_splits)
  from d have "unat d = unat (as_millis t) - unat (as_millis other)"
    using unat_sub [OF le] by simp
  with le show ?r by (simp add: word_le_nat_alt)
next
  assume r: ?r
  then have le: "as_millis other \<le> as_millis t" by (simp add: word_le_nat_alt)
  have "unat (as_millis t - as_millis other) = unat d"
    using r unat_sub [OF le] by simp
  then have "as_millis t - as_millis other = d" by (rule unsigned_word_eqI)
  with le show ?l by (simp add: Timestamp_duration_since_def)
qed

lemma duration_since_add:
  assumes "Timestamp_duration_since t other = Some d"
  shows "Timestamp_add_millis other d = t"
proof -
  from assms have eq: "unat (as_millis t) = unat (as_millis other) + unat d"
    by (simp add: duration_since_Some_iff)
  have "unat (sat_add (as_millis other) d) = min (unat (as_millis t)) (2 ^ 64 - 1)"
    by (simp add: unat_sat_add eq)
  also have "\<dots> = unat (as_millis t)"
    using unat_bound [of "as_millis t"] by simp
  finally have "sat_add (as_millis other) d = as_millis t" by (rule unsigned_word_eqI)
  then show ?thesis by (simp add: Timestamp_add_millis_def)
qed

end
