(* ===== verification/Messages.thy ===== *)
theory Messages
  imports Ids
begin

text \<open>
  The message envelope of \<^verbatim>\<open>sdks/rust/src/message.rs\<close> and the JSON value it carries.

  \<^verbatim>\<open>serde_json::Value\<close> is \<open>json\<close>: integers and other numbers apart, an object as the list of its
  entries. \<open>'t\<close> is the TypeID package's identifier. Parsing JSON text (\<^verbatim>\<open>serde_json::from_str\<close>) is
  the argument \<open>parse_json\<close>; writing the envelope as a JSON value and reading it back follow the
  field attributes of the struct (an absent optional field is left out, and \<^verbatim>\<open>null\<close> reads as absent).
\<close>

section \<open>JSON values\<close>

datatype json =
    JNull
  | JBool bool
  | JInt int
  | JFloat string
  | JString string
  | JArray "json list"
  | JObject "(string \<times> json) list"

definition json_get :: "string \<Rightarrow> json \<Rightarrow> json option" where
  "json_get k v = (case v of JObject kvs \<Rightarrow> map_of kvs k | _ \<Rightarrow> None)"

definition json_as_str :: "json \<Rightarrow> string option" where
  "json_as_str v = (case v of JString s \<Rightarrow> Some s | _ \<Rightarrow> None)"

lemma json_get_simps [simp]:
  "json_get k (JObject kvs) = map_of kvs k" "json_get k JNull = None" "json_get k (JBool b) = None"
  "json_get k (JInt i) = None" "json_get k (JFloat f) = None" "json_get k (JString s) = None"
  "json_get k (JArray vs) = None"
  by (simp_all add: json_get_def)

lemma json_as_str_simps [simp]:
  "json_as_str (JString s) = Some s" "json_as_str JNull = None" "json_as_str (JBool b) = None"
  "json_as_str (JInt i) = None" "json_as_str (JFloat f) = None" "json_as_str (JArray vs) = None"
  "json_as_str (JObject kvs) = None"
  by (simp_all add: json_as_str_def)

lemma json_as_str_Some_iff: "json_as_str v = Some s \<longleftrightarrow> v = JString s"
  by (cases v) auto

section \<open>The envelope\<close>

record 't emergent_message =
  msg_id :: "'t message_id"
  msg_type :: message_type
  msg_source :: primitive_name
  msg_correlation_id :: "'t correlation_id option"
  msg_causation_id :: "'t causation_id option"
  msg_timestamp_ms :: timestamp
  msg_payload :: json
  msg_metadata :: "json option"

definition try_new_with_id_and_timestamp ::
  "string \<Rightarrow> 't message_id \<Rightarrow> timestamp \<Rightarrow> (invalid_message_type, 't emergent_message) result" where
  "try_new_with_id_and_timestamp mt i ts = (case MessageType_new mt of
      Inl e \<Rightarrow> Err e
    | Inr t \<Rightarrow> Ok \<lparr>msg_id = i, msg_type = t, msg_source = PrimitiveName_unknown,
        msg_correlation_id = None, msg_causation_id = None, msg_timestamp_ms = ts,
        msg_payload = JNull, msg_metadata = None\<rparr>)"

text \<open>The panicking twin: \<open>None\<close> is the panic.\<close>

definition new_with_id_and_timestamp ::
  "string \<Rightarrow> 't message_id \<Rightarrow> timestamp \<Rightarrow> 't emergent_message option" where
  "new_with_id_and_timestamp mt i ts = (case try_new_with_id_and_timestamp mt i ts of
      Inl _ \<Rightarrow> None | Inr m \<Rightarrow> Some m)"

definition try_with_source ::
  "string \<Rightarrow> 't emergent_message \<Rightarrow> (invalid_primitive_name, 't emergent_message) result" where
  "try_with_source source m = (case PrimitiveName_new source of
      Inl e \<Rightarrow> Err e | Inr n \<Rightarrow> Ok (m\<lparr>msg_source := n\<rparr>))"

text \<open>The panicking form of the same.\<close>

definition with_source :: "string \<Rightarrow> 't emergent_message \<Rightarrow> 't emergent_message option" where
  "with_source source m = (case try_with_source source m of Inl _ \<Rightarrow> None | Inr m \<Rightarrow> Some m)"

definition with_source_name :: "primitive_name \<Rightarrow> 't emergent_message \<Rightarrow> 't emergent_message" where
  "with_source_name n m = m\<lparr>msg_source := n\<rparr>"

definition with_payload :: "json \<Rightarrow> 't emergent_message \<Rightarrow> 't emergent_message" where
  "with_payload v m = m\<lparr>msg_payload := v\<rparr>"

definition with_correlation_id :: "'t correlation_id \<Rightarrow> 't emergent_message \<Rightarrow> 't emergent_message" where
  "with_correlation_id c m = m\<lparr>msg_correlation_id := Some c\<rparr>"

definition with_correlation_id_option ::
  "'t correlation_id option \<Rightarrow> 't emergent_message \<Rightarrow> 't emergent_message" where
  "with_correlation_id_option c m = m\<lparr>msg_correlation_id := c\<rparr>"

definition with_causation_id :: "'t causation_id \<Rightarrow> 't emergent_message \<Rightarrow> 't emergent_message" where
  "with_causation_id c m = m\<lparr>msg_causation_id := Some c\<rparr>"

definition with_causation_from_message :: "'t message_id \<Rightarrow> 't emergent_message \<Rightarrow> 't emergent_message" where
  "with_causation_from_message i m = m\<lparr>msg_causation_id := Some (causation_from_message i)\<rparr>"

definition with_metadata :: "json \<Rightarrow> 't emergent_message \<Rightarrow> 't emergent_message" where
  "with_metadata v m = m\<lparr>msg_metadata := Some v\<rparr>"

definition has_stdout_payload :: "'t emergent_message \<Rightarrow> bool" where
  "has_stdout_payload m = (case json_get ''stdout'' (msg_payload m) of
      Some (JString _) \<Rightarrow> True | _ \<Rightarrow> False)"

definition unwrap_stdout :: "(string \<Rightarrow> json option) \<Rightarrow> 't emergent_message \<Rightarrow> 't emergent_message" where
  "unwrap_stdout parse_json m =
     (case Option.bind (json_get ''stdout'' (msg_payload m)) json_as_str of
        None \<Rightarrow> m
      | Some out \<Rightarrow> m\<lparr>msg_payload := (case parse_json out of Some v \<Rightarrow> v | None \<Rightarrow> JString out)\<rparr>)"

section \<open>The envelope as a JSON value\<close>

definition opt_field :: "string \<Rightarrow> json option \<Rightarrow> (string \<times> json) list" where
  "opt_field k v = (case v of None \<Rightarrow> [] | Some x \<Rightarrow> [(k, x)])"

definition message_to_value :: "('t \<Rightarrow> string) \<Rightarrow> 't emergent_message \<Rightarrow> json" where
  "message_to_value to_str m = JObject
     ([(''id'', JString (to_str (MessageId_inner (msg_id m)))),
       (''message_type'', JString (msg_type m)),
       (''source'', JString (msg_source m))]
      @ opt_field ''correlation_id''
          (map_option (\<lambda>c. JString (to_str (CorrelationId_inner c))) (msg_correlation_id m))
      @ opt_field ''causation_id''
          (map_option (\<lambda>c. JString (to_str (CausationId_inner c))) (msg_causation_id m))
      @ [(''timestamp_ms'', JInt (uint (as_millis (msg_timestamp_ms m)))),
         (''payload'', msg_payload m)]
      @ opt_field ''metadata'' (msg_metadata m))"

text \<open>
  Reading one field: a required string, and an optional one, where \<^verbatim>\<open>null\<close> and absence both mean
  \<^verbatim>\<open>None\<close> and anything else must parse.
\<close>

definition read_str :: "(string \<Rightarrow> ('e, 'a) result) \<Rightarrow> json option \<Rightarrow> 'a option" where
  "read_str parse v = (case v of
      Some (JString s) \<Rightarrow> (case parse s of Inr x \<Rightarrow> Some x | Inl _ \<Rightarrow> None)
    | _ \<Rightarrow> None)"

definition read_opt_str :: "(string \<Rightarrow> ('e, 'a) result) \<Rightarrow> json option \<Rightarrow> 'a option option" where
  "read_opt_str parse v = (case v of
      None \<Rightarrow> Some None
    | Some JNull \<Rightarrow> Some None
    | Some w \<Rightarrow> map_option Some (read_str parse (Some w)))"

definition read_u64 :: "json option \<Rightarrow> u64 option" where
  "read_u64 v = (case v of
      Some (JInt i) \<Rightarrow> if 0 \<le> i \<and> i < 2 ^ 64 then Some (word_of_int i) else None
    | _ \<Rightarrow> None)"

definition read_opt_value :: "json option \<Rightarrow> json option" where
  "read_opt_value v = (case v of Some JNull \<Rightarrow> None | _ \<Rightarrow> v)"

definition message_from_value ::
  "(string \<Rightarrow> ('e, 't) result) \<Rightarrow> ('t \<Rightarrow> string) \<Rightarrow> json \<Rightarrow> 't emergent_message option" where
  "message_from_value from_str prefix_of v = do {
     i \<leftarrow> read_str (MessageId_parse from_str prefix_of) (json_get ''id'' v);
     t \<leftarrow> read_str MessageType_new (json_get ''message_type'' v);
     s \<leftarrow> read_str PrimitiveName_new (json_get ''source'' v);
     cor \<leftarrow> read_opt_str (CorrelationId_parse from_str prefix_of) (json_get ''correlation_id'' v);
     cau \<leftarrow> read_opt_str (CausationId_parse from_str prefix_of) (json_get ''causation_id'' v);
     ts \<leftarrow> read_u64 (json_get ''timestamp_ms'' v);
     p \<leftarrow> json_get ''payload'' v;
     Some \<lparr>msg_id = i, msg_type = t, msg_source = s, msg_correlation_id = cor,
       msg_causation_id = cau, msg_timestamp_ms = Timestamp ts, msg_payload = p,
       msg_metadata = read_opt_value (json_get ''metadata'' v)\<rparr>
   }"

section \<open>Well-formed messages\<close>

text \<open>
  What the newtypes' private fields guarantee of every message a program can hold: a valid type
  and source, and identifiers whose prefix the parser accepts.
\<close>

definition message_ok :: "('t \<Rightarrow> string) \<Rightarrow> 't emergent_message \<Rightarrow> bool" where
  "message_ok prefix_of m \<longleftrightarrow>
     is_ok (MessageType_new (msg_type m)) \<and> is_ok (PrimitiveName_new (msg_source m))
     \<and> prefix_of (MessageId_inner (msg_id m)) = MessageId_PREFIX
     \<and> (case msg_correlation_id m of None \<Rightarrow> True
          | Some c \<Rightarrow> prefix_of (CorrelationId_inner c) = CorrelationId_PREFIX)
     \<and> (case msg_causation_id m of None \<Rightarrow> True
          | Some c \<Rightarrow> prefix_of (CausationId_inner c) = CausationId_PREFIX
              \<or> prefix_of (CausationId_inner c) = MessageId_PREFIX)"

lemma try_new_ok:
  assumes "try_new_with_id_and_timestamp mt i ts = Ok m" and "prefix_of (MessageId_inner i) = MessageId_PREFIX"
  shows "message_ok prefix_of m \<and> msg_type m = mt"
  using assms PrimitiveName_unknown_valid
  by (auto simp: try_new_with_id_and_timestamp_def message_ok_def MessageType_new_Ok_iff is_ok_iff
      PrimitiveName_unknown_def split: sum.splits)

lemma try_new_is_ok_iff: "is_ok (try_new_with_id_and_timestamp mt i ts) \<longleftrightarrow> is_ok (MessageType_new mt)"
  by (auto simp: try_new_with_id_and_timestamp_def is_ok_def split: sum.splits)

lemma unwrap_stdout_other:
  "\<not> has_stdout_payload m \<Longrightarrow> unwrap_stdout parse_json m = m"
  by (auto simp: unwrap_stdout_def has_stdout_payload_def json_as_str_def split: option.splits json.splits)

lemma unwrap_stdout_frame:
  "message_ok prefix_of (unwrap_stdout parse_json m) = message_ok prefix_of m"
  "msg_type (unwrap_stdout parse_json m) = msg_type m"
  "msg_id (unwrap_stdout parse_json m) = msg_id m"
  by (simp_all add: unwrap_stdout_def message_ok_def split: option.splits)

section \<open>Round trip\<close>

lemma read_opt_str_field:
  "(\<And>c. x = Some c \<Longrightarrow> parse (f c) = Ok c) \<Longrightarrow>
   read_opt_str parse (map_option (\<lambda>c. JString (f c)) x) = Some x"
  by (cases x) (auto simp: read_opt_str_def read_str_def)

lemma read_u64_uint: "read_u64 (Some (JInt (uint w))) = Some w"
  using uint_lt2p [of w] by (simp add: read_u64_def)

lemma opt_field_get:
  "map_of (opt_field k v @ r) k' = (if k' = k \<and> v \<noteq> None then v else map_of r k')"
  by (auto simp: opt_field_def split: option.splits)

lemma opt_field_get_last: "map_of (opt_field k v) k' = (if k' = k then v else None)"
  by (auto simp: opt_field_def split: option.splits)

lemma message_value_fields:
  "json_get ''id'' (message_to_value to_str m) = Some (JString (to_str (MessageId_inner (msg_id m))))"
  "json_get ''message_type'' (message_to_value to_str m) = Some (JString (msg_type m))"
  "json_get ''source'' (message_to_value to_str m) = Some (JString (msg_source m))"
  "json_get ''correlation_id'' (message_to_value to_str m) =
     map_option (\<lambda>c. JString (to_str (CorrelationId_inner c))) (msg_correlation_id m)"
  "json_get ''causation_id'' (message_to_value to_str m) =
     map_option (\<lambda>c. JString (to_str (CausationId_inner c))) (msg_causation_id m)"
  "json_get ''timestamp_ms'' (message_to_value to_str m) = Some (JInt (uint (as_millis (msg_timestamp_ms m))))"
  "json_get ''payload'' (message_to_value to_str m) = Some (msg_payload m)"
  "json_get ''metadata'' (message_to_value to_str m) = msg_metadata m"
  by (simp_all add: message_to_value_def opt_field_get opt_field_get_last del: map_of_append)

lemma message_ok_parses:
  assumes ids: "\<And>t. from_str (to_str t) = Ok t" and ok: "message_ok prefix_of m"
  shows "MessageId_parse from_str prefix_of (to_str (MessageId_inner (msg_id m))) = Ok (msg_id m)"
    and "msg_correlation_id m = Some c \<Longrightarrow>
      CorrelationId_parse from_str prefix_of (to_str (CorrelationId_inner c)) = Ok c"
    and "msg_causation_id m = Some k \<Longrightarrow>
      CausationId_parse from_str prefix_of (to_str (CausationId_inner k)) = Ok k"
    and "MessageType_new (msg_type m) = Ok (msg_type m)"
    and "PrimitiveName_new (msg_source m) = Ok (msg_source m)"
  using ids ok
  by (cases "msg_id m"; cases c; cases k;
      auto simp: message_ok_def MessageId_parse_def CorrelationId_parse_def CausationId_parse_def
        MessageId_PREFIX_def is_ok_iff MessageType_new_Ok_iff PrimitiveName_new_Ok_iff)+

lemma message_value_roundtrip:
  assumes ids: "\<And>t. from_str (to_str t) = Ok t"
    and ok: "message_ok prefix_of m" and meta: "msg_metadata m \<noteq> Some JNull"
  shows "message_from_value from_str prefix_of (message_to_value to_str m) = Some m"
proof -
  note p = message_ok_parses [OF ids ok]
  have meta': "read_opt_value (msg_metadata m) = msg_metadata m"
    using meta by (auto simp: read_opt_value_def split: option.splits json.splits)
  show ?thesis
    by (simp add: message_from_value_def message_value_fields read_str_def p(1,4,5)
        read_opt_str_field [OF p(2)] read_opt_str_field [OF p(3)] read_u64_uint meta')
qed

lemma null_metadata_reads_as_none:
  "msg_metadata m = Some JNull \<Longrightarrow> message_from_value from_str prefix_of (message_to_value to_str m)
     = message_from_value from_str prefix_of (message_to_value to_str (m\<lparr> msg_metadata := None \<rparr>))"
  by (simp add: message_from_value_def message_value_fields read_opt_value_def)

section \<open>Properties\<close>

text \<open>
  C39. A valid envelope survives the wire. Written as a JSON value and read back it is the same in
  every field, for every message whose identifiers carry their own prefixes and whose metadata, if
  any, is not the JSON null (which reads back as no metadata at all).
\<close>

theorem envelope_roundtrip:
  assumes "\<And>t. from_str (to_str t) = Ok t" and "message_ok prefix_of m"
  shows "message_from_value from_str prefix_of (message_to_value to_str m) =
     Some (if msg_metadata m = Some JNull then m\<lparr> msg_metadata := None \<rparr> else m)"
proof (cases "msg_metadata m = Some JNull")
  case True
  have "message_ok prefix_of (m\<lparr> msg_metadata := None \<rparr>)"
    using assms(2) by (simp add: message_ok_def)
  from message_value_roundtrip [OF assms(1) this] True show ?thesis
    by (simp add: null_metadata_reads_as_none)
qed (use message_value_roundtrip [OF assms] in simp)

theorem envelope_roundtrip_witness:
  "let m = \<lparr> msg_id = MessageId ''msg_1'', msg_type = ''timer.tick'', msg_source = ''timer'',
         msg_correlation_id = Some (CorrelationId ''cor_9''), msg_causation_id = Some (CausationId ''msg_0''),
         msg_timestamp_ms = Timestamp 7, msg_payload = JInt 3, msg_metadata = None \<rparr>
   in message_from_value (\<lambda>s. Ok s :: (unit, string) result) (take 3) (message_to_value id m) = Some m"
proof -
  let ?m = "\<lparr> msg_id = MessageId ''msg_1'', msg_type = ''timer.tick'', msg_source = ''timer'',
         msg_correlation_id = Some (CorrelationId ''cor_9''), msg_causation_id = Some (CausationId ''msg_0''),
         msg_timestamp_ms = Timestamp 7, msg_payload = JInt 3, msg_metadata = None \<rparr>"
  have ok: "message_ok (take 3) ?m"
    by code_simp
  have i: "Ok (id t) = (Ok t :: (unit, string) result)" for t
    by simp
  show ?thesis
    using envelope_roundtrip [where from_str = "\<lambda>s. Ok s :: (unit, string) result" and to_str = id, OF i ok]
    by (simp add: Let_def del: id_apply)
qed

end
