(* ===== verification/Primitive_Actor.thy ===== *)
theory Primitive_Actor
  imports Messages Topology
begin

text \<open>
  The actor that supervises one child process, after \<^verbatim>\<open>emergent-engine/src/primitive_actor.rs\<close>.

  A handler is a function of the actor's state, the clock and the message; besides the new state it
  returns the effects it hands to the runtime (a delayed message to itself, a spawn, a broadcast, a
  signal). The process around it is the step relation \<open>actor_step\<close>: a mailbox, the futures the
  handlers returned, the children that are alive, the watch the process manager reads. It lets
  every interleaving happen that the runtime could produce, and more.

  The published status of the actor is the copy its watch channel last received. The message id and
  time an event is stamped with are arguments of the function that builds it.
\<close>

section \<open>Event payloads\<close>

record system_event_payload =
  sep_name :: string
  sep_kind :: string
  sep_pid :: "pid option"
  sep_publishes :: "string list"
  sep_subscribes :: "string list"
  sep_error :: "string option"
  sep_restart_attempt :: "u32 option"

definition payload_base :: "primitive_info \<Rightarrow> system_event_payload" where
  "payload_base i = \<lparr> sep_name = info_name i, sep_kind = primitive_kind_as_str (info_kind i), sep_pid = None,
     sep_publishes = info_publishes i, sep_subscribes = info_subscribes i, sep_error = None,
     sep_restart_attempt = None \<rparr>"

definition payload_started :: "primitive_info \<Rightarrow> pid \<Rightarrow> system_event_payload" where
  "payload_started i p = (payload_base i)\<lparr> sep_pid := Some p \<rparr>"

definition payload_stopped :: "primitive_info \<Rightarrow> pid option \<Rightarrow> system_event_payload" where
  "payload_stopped i p = (payload_base i)\<lparr> sep_pid := p \<rparr>"

definition payload_error :: "primitive_info \<Rightarrow> pid option \<Rightarrow> string \<Rightarrow> system_event_payload" where
  "payload_error i p msg = (payload_base i)\<lparr> sep_pid := p, sep_error := Some msg \<rparr>"

definition payload_restarted :: "primitive_info \<Rightarrow> pid \<Rightarrow> u32 \<Rightarrow> system_event_payload" where
  "payload_restarted i p attempt = (payload_base i)\<lparr> sep_pid := Some p, sep_restart_attempt := Some attempt \<rparr>"

definition payload_shutdown :: "string \<Rightarrow> json" where
  "payload_shutdown kind = JObject [(''kind'', JString kind)]"

definition json_strings :: "string \<Rightarrow> string list \<Rightarrow> (string \<times> json) list" where
  "json_strings k vs = (if vs = [] then [] else [(k, JArray (map JString vs))])"

text \<open>\<^verbatim>\<open>json!(payload)\<close> under the struct's \<^verbatim>\<open>skip_serializing_if\<close> attributes.\<close>

definition payload_to_json :: "system_event_payload \<Rightarrow> json" where
  "payload_to_json p = JObject
     ([(''name'', JString (sep_name p)), (''kind'', JString (sep_kind p))]
      @ opt_field ''pid'' (map_option (\<lambda>x. JInt (uint x)) (sep_pid p))
      @ json_strings ''publishes'' (sep_publishes p)
      @ json_strings ''subscribes'' (sep_subscribes p)
      @ opt_field ''error'' (map_option JString (sep_error p))
      @ opt_field ''restart_attempt'' (map_option (\<lambda>x. JInt (uint x)) (sep_restart_attempt p)))"

section \<open>Events\<close>

definition engine_source :: primitive_name where
  "engine_source = (case PrimitiveName_new ENGINE_PRIMITIVE_NAME of Inr n \<Rightarrow> n | Inl _ \<Rightarrow> PrimitiveName_unknown)"

definition SHUTDOWN_EVENT_TYPE :: string where
  "SHUTDOWN_EVENT_TYPE = ''system.shutdown''"

definition system_payload :: "string \<Rightarrow> primitive_info \<Rightarrow> pid option \<Rightarrow> string option \<Rightarrow> system_event_payload" where
  "system_payload event_type i p err =
     (case err of
        Some e \<Rightarrow> payload_error i p e
      | None \<Rightarrow> if event_type = ''system.started'' then payload_started i (case p of Some x \<Rightarrow> x | None \<Rightarrow> 0)
                else payload_stopped i p)"

definition create_system_event ::
  "'t message_id \<Rightarrow> timestamp \<Rightarrow> string \<Rightarrow> primitive_info \<Rightarrow> pid option \<Rightarrow> string option
     \<Rightarrow> (invalid_message_type, 't emergent_message) result" where
  "create_system_event mid ts event_type i p err =
     (case try_new_with_id_and_timestamp (event_type @ ''.'' @ info_name i) mid ts of
        Inl e \<Rightarrow> Err e
      | Inr m \<Rightarrow> Ok (with_payload (payload_to_json (system_payload event_type i p err)) (with_source_name engine_source m)))"

definition create_restarted_event ::
  "'t message_id \<Rightarrow> timestamp \<Rightarrow> primitive_info \<Rightarrow> pid \<Rightarrow> u32 \<Rightarrow> (invalid_message_type, 't emergent_message) result" where
  "create_restarted_event mid ts i p attempt =
     (case try_new_with_id_and_timestamp (''system.restarted.'' @ info_name i) mid ts of
        Inl e \<Rightarrow> Err e
      | Inr m \<Rightarrow> Ok (with_payload (payload_to_json (payload_restarted i p attempt)) (with_source_name engine_source m)))"

text \<open>\<^verbatim>\<open>EmergentMessage::new\<close> panics on an invalid type: \<open>None\<close>.\<close>

definition create_shutdown_event :: "'t message_id \<Rightarrow> timestamp \<Rightarrow> string \<Rightarrow> 't emergent_message option" where
  "create_shutdown_event mid ts kind =
     map_option (\<lambda>m. with_payload (payload_shutdown kind) (with_source_name engine_source m))
       (new_with_id_and_timestamp SHUTDOWN_EVENT_TYPE mid ts)"

section \<open>Exit status\<close>

text \<open>How a Unix process ended: an exit code, a signal, or neither.\<close>

datatype exit_status = ExitCode "8 word" | Signaled "7 word" | OtherStatus

definition status_code :: "exit_status \<Rightarrow> int option" where
  "status_code s = (case s of ExitCode c \<Rightarrow> Some (uint c) | _ \<Rightarrow> None)"

definition status_signal :: "exit_status \<Rightarrow> int option" where
  "status_signal s = (case s of Signaled c \<Rightarrow> Some (uint c) | _ \<Rightarrow> None)"

definition is_clean_exit :: "exit_status \<Rightarrow> bool" where
  "is_clean_exit s =
     (if status_code s = Some 0 then True
      else if status_code s = Some 143 then True
      else if status_signal s = Some 15 then True
      else False)"

definition exit_code_from_status :: "exit_status \<Rightarrow> int" where
  "exit_code_from_status s = (case status_code s of
      Some code \<Rightarrow> code
    | None \<Rightarrow> (case status_signal s of Some sig \<Rightarrow> 128 + sig | None \<Rightarrow> - 1))"

section \<open>The actor\<close>

datatype actor_msg =
    ChildSpawning
  | ChildSpawned pid
  | ChildSpawnFailed string
  | ChildExited pid int
  | HealthCheck
  | StopPrimitive
  | RestartChild u32
  | EngineShuttingDown

record actor_state =
  as_info :: primitive_info
  as_child_pid :: "pid option"
  as_shutting_down :: bool
  as_restart_attempts :: "u64 list"
  as_published :: primitive_info

record actor_config =
  ac_info :: primitive_info
  ac_path :: string
  ac_args :: "string list"
  ac_env :: "string \<rightharpoonup> string"
  ac_socket_path :: string
  ac_api_port :: u16
  ac_restart :: restart_policy
  ac_restart_limits :: restart_limits

datatype actor_effect =
    SleepThenRestart u64 u32
  | SpawnChild "u32 option"
  | BroadcastSystem string primitive_info "pid option" "string option"
  | SigTerm pid

definition actor_initial :: "actor_config \<Rightarrow> actor_state" where
  "actor_initial cfg = \<lparr> as_info = ac_info cfg, as_child_pid = None, as_shutting_down = False,
     as_restart_attempts = [], as_published = ac_info cfg \<rparr>"

definition actor_status :: "actor_state \<Rightarrow> primitive_status" where
  "actor_status st = \<lparr> st_state = info_state (as_info st), st_pid = info_pid (as_info st), st_error = info_error (as_info st) \<rparr>"

definition actor_apply :: "actor_state \<Rightarrow> lifecycle_event \<Rightarrow> actor_state" where
  "actor_apply st ev =
     (let next = next_status (actor_status st) ev;
          info = (as_info st)\<lparr> info_state := st_state next, info_pid := st_pid next, info_error := st_error next \<rparr>
      in st\<lparr> as_info := info, as_child_pid := st_pid next, as_published := info \<rparr>)"

definition on_child_exited :: "actor_config \<Rightarrow> u64 \<Rightarrow> pid \<Rightarrow> int \<Rightarrow> actor_state \<Rightarrow> actor_state \<times> actor_effect list" where
  "on_child_exited cfg now_ms p status st =
     (if as_child_pid st \<noteq> Some p then (st, [])
      else
        let st = actor_apply st (Exited p status);
            limits = ac_restart_limits cfg;
            st = st\<lparr> as_restart_attempts := prune_attempts (as_restart_attempts st) now_ms (window_ms limits) \<rparr>
        in case decide_restart (ac_restart cfg) (outcome_from_exit_code status) (as_restart_attempts st)
                  limits now_ms (as_shutting_down st) of
             NoRestart \<Rightarrow> (st, [])
           | SuppressedByShutdown \<Rightarrow> (st, [])
           | Restart delay attempt \<Rightarrow>
               (actor_apply (st\<lparr> as_restart_attempts := as_restart_attempts st @ [now_ms] \<rparr>) SpawnRequested,
                [SleepThenRestart delay attempt])
           | Exhausted attempts window \<Rightarrow>
               let reason = ''Restarts exhausted: '' @ show_nat (unat attempts) @ '' attempts within ''
                     @ show_nat (unat window) @ '' ms'';
                   st = actor_apply st (RestartsExhausted reason)
               in (st, [BroadcastSystem ''system.error'' (as_info st) None (Some reason)]))"

definition handle :: "actor_config \<Rightarrow> u64 \<Rightarrow> actor_msg \<Rightarrow> actor_state \<Rightarrow> actor_state \<times> actor_effect list" where
  "handle cfg now_ms msg st = (case msg of
      ChildSpawning \<Rightarrow> (actor_apply st SpawnRequested, [])
    | ChildSpawned p \<Rightarrow> (actor_apply st (Spawned p), [])
    | ChildSpawnFailed e \<Rightarrow> (actor_apply st (SpawnFailed e), [])
    | ChildExited p status \<Rightarrow> on_child_exited cfg now_ms p status st
    | RestartChild attempt \<Rightarrow>
        if as_shutting_down st \<or> as_child_pid st \<noteq> None then (st, []) else (st, [SpawnChild (Some attempt)])
    | HealthCheck \<Rightarrow> (st, [])
    | EngineShuttingDown \<Rightarrow> (st\<lparr> as_shutting_down := True \<rparr>, [])
    | StopPrimitive \<Rightarrow>
        let st = st\<lparr> as_shutting_down := True \<rparr>; child_pid = as_child_pid st; st = actor_apply st StopRequested
        in (st, case child_pid of Some p \<Rightarrow> [SigTerm p] | None \<Rightarrow> []))"

text \<open>The hooks: what starting and stopping the actor does.\<close>

definition after_start :: "actor_effect list" where
  "after_start = [SpawnChild None]"

definition before_stop :: "actor_state \<Rightarrow> actor_effect list" where
  "before_stop st = (case as_child_pid st of Some p \<Rightarrow> [SigTerm p] | None \<Rightarrow> [])"

section \<open>Spawning\<close>

text \<open>The environment of the child: the configured variables, then the engine's over them.\<close>

definition child_env :: "actor_config \<Rightarrow> string \<rightharpoonup> string" where
  "child_env cfg = (ac_env cfg)
     (''EMERGENT_SOCKET'' \<mapsto> ac_socket_path cfg,
      ''EMERGENT_NAME'' \<mapsto> info_name (ac_info cfg),
      ''EMERGENT_API_PORT'' \<mapsto> show_nat (unat (ac_api_port cfg)),
      ''EMERGENT_PUBLISHES'' \<mapsto> join_with '','' (info_publishes (ac_info cfg)),
      ''EMERGENT_SUBSCRIBES'' \<mapsto> join_with '','' (info_subscribes (ac_info cfg)))"

datatype spawn_result = SpawnOk pid | SpawnError string | SpawnNoPid

text \<open>An event on the broker, before its message is built.\<close>

datatype lifecycle_broadcast =
    SystemEvent string primitive_info "pid option" "string option"
  | RestartedEvent primitive_info pid u32

text \<open>After \<^verbatim>\<open>cmd.spawn()\<close>: the write to the pid watch, the messages to the actor, the events, in order.\<close>

definition spawn_outcome ::
  "actor_config \<Rightarrow> u32 option \<Rightarrow> spawn_result \<Rightarrow> pid option \<times> actor_msg list \<times> lifecycle_broadcast list" where
  "spawn_outcome cfg attempt r = (case r of
      SpawnError e \<Rightarrow> (None, [ChildSpawnFailed e], [SystemEvent ''system.error'' (ac_info cfg) None (Some e)])
    | SpawnNoPid \<Rightarrow> (None, [ChildSpawnFailed ''Spawned child reported no PID''], [])
    | SpawnOk p \<Rightarrow> (Some p, [ChildSpawned p],
        [case attempt of None \<Rightarrow> SystemEvent ''system.started'' (ac_info cfg) (Some p) None
                       | Some n \<Rightarrow> RestartedEvent (ac_info cfg) p n]))"

text \<open>The monitor task, once \<^verbatim>\<open>child.wait()\<close> answers: an error of the wait itself sends nothing.\<close>

definition monitor_outcome ::
  "actor_config \<Rightarrow> pid \<Rightarrow> exit_status option \<Rightarrow> actor_msg list \<times> lifecycle_broadcast list" where
  "monitor_outcome cfg p waited = (case waited of
      None \<Rightarrow> ([], [])
    | Some status \<Rightarrow>
        let exit_code = exit_code_from_status status; clean = is_clean_exit status
        in ([ChildExited p exit_code],
            [SystemEvent (if clean then ''system.stopped'' else ''system.error'') (ac_info cfg) (Some p)
               (if clean then None else Some (exit_error_message exit_code))]))"

section \<open>The actor in its process\<close>

record actor_sys =
  sy_actor :: actor_state
  sy_mailbox :: "actor_msg list"
  sy_to_spawn :: "u32 option list"
  sy_spawning :: "u32 option list"
  sy_sleeping :: "u32 list"
  sy_children :: "pid list"
  sy_watch :: "pid option"
  sy_broadcasts :: "lifecycle_broadcast list"
  sy_sigterms :: "pid list"

definition sys_effect :: "actor_sys \<Rightarrow> actor_effect \<Rightarrow> actor_sys" where
  "sys_effect s e = (case e of
      SleepThenRestart d k \<Rightarrow> s\<lparr> sy_sleeping := sy_sleeping s @ [k] \<rparr>
    | SpawnChild a \<Rightarrow> s\<lparr> sy_to_spawn := sy_to_spawn s @ [a] \<rparr>
    | BroadcastSystem t i p err \<Rightarrow> s\<lparr> sy_broadcasts := sy_broadcasts s @ [SystemEvent t i p err] \<rparr>
    | SigTerm p \<Rightarrow> s\<lparr> sy_sigterms := sy_sigterms s @ [p] \<rparr>)"

definition sys_initial :: "actor_config \<Rightarrow> actor_sys" where
  "sys_initial cfg = foldl sys_effect
     \<lparr> sy_actor = actor_initial cfg, sy_mailbox = [], sy_to_spawn = [], sy_spawning = [], sy_sleeping = [],
       sy_children = [], sy_watch = None, sy_broadcasts = [], sy_sigterms = [] \<rparr> after_start"

datatype actor_label =
    Deliver u64
  | Wake
  | SpawnBegin
  | SpawnDone spawn_result
  | ChildGone pid "exit_status option"
  | FromManager actor_msg

text \<open>
  One step: the actor takes the next message; a backoff ends; a spawn future starts and announces
  itself; the spawn returns; a child ends and its monitor reports; the process manager sends one of
  its three messages.
\<close>

inductive actor_step :: "actor_config \<Rightarrow> actor_sys \<Rightarrow> actor_label \<Rightarrow> actor_sys \<Rightarrow> bool" for cfg where
  deliver: "sy_mailbox s = m # ms \<Longrightarrow> handle cfg now m (sy_actor s) = (st, es) \<Longrightarrow>
     actor_step cfg s (Deliver now) (foldl sys_effect (s\<lparr> sy_actor := st, sy_mailbox := ms \<rparr>) es)"
| wake: "sy_sleeping s = us @ k # vs \<Longrightarrow>
     actor_step cfg s Wake (s\<lparr> sy_sleeping := us @ vs, sy_mailbox := sy_mailbox s @ [RestartChild k] \<rparr>)"
| spawn_begin: "sy_to_spawn s = us @ a # vs \<Longrightarrow>
     actor_step cfg s SpawnBegin (s\<lparr> sy_to_spawn := us @ vs, sy_spawning := sy_spawning s @ [a],
       sy_mailbox := sy_mailbox s @ [ChildSpawning] \<rparr>)"
| spawn_done: "sy_spawning s = us @ a # vs \<Longrightarrow> spawn_outcome cfg a r = (w, msgs, evs) \<Longrightarrow>
     actor_step cfg s (SpawnDone r) (s\<lparr> sy_spawning := us @ vs, sy_watch := w,
       sy_children := sy_children s @ (case r of SpawnOk p \<Rightarrow> [p] | _ \<Rightarrow> []),
       sy_mailbox := sy_mailbox s @ msgs, sy_broadcasts := sy_broadcasts s @ evs \<rparr>)"
| child_gone: "sy_children s = us @ p # vs \<Longrightarrow> monitor_outcome cfg p waited = (msgs, evs) \<Longrightarrow>
     actor_step cfg s (ChildGone p waited) (s\<lparr> sy_children := us @ vs, sy_watch := None,
       sy_mailbox := sy_mailbox s @ msgs, sy_broadcasts := sy_broadcasts s @ evs \<rparr>)"
| from_manager: "m \<in> {HealthCheck, StopPrimitive, EngineShuttingDown} \<Longrightarrow>
     actor_step cfg s (FromManager m) (s\<lparr> sy_mailbox := sy_mailbox s @ [m] \<rparr>)"

inductive_cases actor_stepE: "actor_step cfg s l t"

section \<open>The invariant\<close>

text \<open>What each message does to the pid the actor holds, and that every exit notice finds its pid.\<close>

definition pid_step :: "pid option \<Rightarrow> actor_msg \<Rightarrow> pid option" where
  "pid_step q m = (case m of
      ChildSpawning \<Rightarrow> None | ChildSpawned p \<Rightarrow> Some p | ChildSpawnFailed _ \<Rightarrow> None
    | ChildExited p _ \<Rightarrow> if q = Some p then None else q | _ \<Rightarrow> q)"

definition pid_after :: "pid option \<Rightarrow> actor_msg list \<Rightarrow> pid option" where
  "pid_after q ms = foldl pid_step q ms"

fun exits_ok :: "pid option \<Rightarrow> actor_msg list \<Rightarrow> bool" where
  "exits_ok q [] = True"
| "exits_ok q (m # ms) = ((case m of ChildExited p _ \<Rightarrow> q = Some p | _ \<Rightarrow> True) \<and> exits_ok (pid_step q m) ms)"

lemma exits_ok_append: "exits_ok q (xs @ ys) \<longleftrightarrow> exits_ok q xs \<and> exits_ok (pid_after q xs) ys"
  by (induction xs arbitrary: q) (auto simp: pid_after_def)

lemma pid_after_simps [simp]:
  "pid_after q [] = q" "pid_after q (m # ms) = pid_after (pid_step q m) ms"
  "pid_after q (xs @ ys) = pid_after (pid_after q xs) ys"
  by (simp_all add: pid_after_def)

definition is_token :: "actor_msg \<Rightarrow> bool" where
  "is_token m = (case m of ChildExited _ _ \<Rightarrow> True | RestartChild _ \<Rightarrow> True | _ \<Rightarrow> False)"

text \<open>The places where the one life of the primitive can be.\<close>

definition lives :: "actor_sys \<Rightarrow> nat" where
  "lives s = length (sy_to_spawn s) + length (sy_spawning s) + length (sy_sleeping s) + length (sy_children s)
     + length (filter is_token (sy_mailbox s))"

definition actor_ok :: "actor_state \<Rightarrow> bool" where
  "actor_ok st \<longleftrightarrow> as_child_pid st = info_pid (as_info st) \<and> as_published st = as_info st \<and> status_ok (actor_status st)"

definition sys_ok :: "actor_sys \<Rightarrow> bool" where
  "sys_ok s \<longleftrightarrow> lives s \<le> 1 \<and> actor_ok (sy_actor s)
     \<and> sy_watch s = (case sy_children s of [] \<Rightarrow> None | p # _ \<Rightarrow> Some p)
     \<and> exits_ok (as_child_pid (sy_actor s)) (sy_mailbox s)
     \<and> (case sy_children s of [] \<Rightarrow> True | p # _ \<Rightarrow> pid_after (as_child_pid (sy_actor s)) (sy_mailbox s) = Some p)"

section \<open>Lemmas on the handlers\<close>

lemma actor_status_apply [simp]: "actor_status (actor_apply st ev) = next_status (actor_status st) ev"
  by (simp add: actor_apply_def actor_status_def Let_def)

lemma actor_status_update [simp]:
  "actor_status (st\<lparr> as_shutting_down := b \<rparr>) = actor_status st"
  "actor_status (st\<lparr> as_restart_attempts := xs \<rparr>) = actor_status st"
  by (simp_all add: actor_status_def)

lemma actor_apply_copies:
  "as_child_pid (actor_apply st ev) = info_pid (as_info (actor_apply st ev))"
  "as_published (actor_apply st ev) = as_info (actor_apply st ev)"
  by (simp_all add: actor_apply_def Let_def)

lemma actor_apply_ok: "actor_ok st \<Longrightarrow> actor_ok (actor_apply st ev)"
  using next_status_ok [of "actor_status st" ev] unfolding actor_ok_def actor_status_apply
  by (simp only: actor_apply_copies simp_thms)

lemma actor_ok_update [simp]:
  "actor_ok (st\<lparr> as_shutting_down := b \<rparr>) = actor_ok st"
  "actor_ok (st\<lparr> as_restart_attempts := xs \<rparr>) = actor_ok st"
  by (simp_all add: actor_ok_def actor_status_def)

lemma as_child_pid_apply: "as_child_pid (actor_apply st ev) = st_pid (next_status (actor_status st) ev)"
  by (simp add: actor_apply_def Let_def)

lemma actor_apply_frame [simp]:
  "as_shutting_down (actor_apply st ev) = as_shutting_down st"
  "as_restart_attempts (actor_apply st ev) = as_restart_attempts st"
  by (simp_all add: actor_apply_def Let_def)

lemma handle_ok: "actor_ok st \<Longrightarrow> actor_ok (fst (handle cfg now m st))"
  by (auto simp: handle_def on_child_exited_def Let_def actor_apply_ok split: actor_msg.splits restart_decision.splits)

lemma handle_pid:
  assumes "actor_ok st"
  shows "as_child_pid (fst (handle cfg now m st)) = pid_step (as_child_pid st) m"
proof -
  have p: "st_pid (actor_status st) = as_child_pid st"
    using assms by (simp add: actor_ok_def actor_status_def)
  show ?thesis
  proof (cases m)
    case (ChildExited q status)
    then show ?thesis
      by (simp add: handle_def on_child_exited_def Let_def as_child_pid_apply next_status_pid p pid_step_def
          split: restart_decision.split)
  qed (simp_all add: handle_def Let_def as_child_pid_apply next_status_pid p pid_step_def status_running_def)
qed

definition is_life :: "actor_effect \<Rightarrow> bool" where
  "is_life e = (case e of SleepThenRestart _ _ \<Rightarrow> True | SpawnChild _ \<Rightarrow> True | _ \<Rightarrow> False)"

lemma handle_lives: "length (filter is_life (snd (handle cfg now m st))) \<le> (if is_token m then 1 else 0)"
  by (auto simp: handle_def on_child_exited_def Let_def is_life_def is_token_def
      split: actor_msg.splits restart_decision.splits option.splits)

lemma sys_effects_frame:
  "sy_actor (foldl sys_effect s es) = sy_actor s"
  "sy_mailbox (foldl sys_effect s es) = sy_mailbox s"
  "sy_spawning (foldl sys_effect s es) = sy_spawning s"
  "sy_children (foldl sys_effect s es) = sy_children s"
  "sy_watch (foldl sys_effect s es) = sy_watch s"
  by (induction es arbitrary: s) (auto simp: sys_effect_def split: actor_effect.splits)

lemma sys_effects_lives:
  "length (sy_to_spawn (foldl sys_effect s es)) + length (sy_sleeping (foldl sys_effect s es)) =
     length (sy_to_spawn s) + length (sy_sleeping s) + length (filter is_life es)"
  by (induction es arbitrary: s) (auto simp: sys_effect_def is_life_def split: actor_effect.splits)

definition fresh_info :: "primitive_info \<Rightarrow> bool" where
  "fresh_info i = (info_state i = Configured \<and> info_pid i = None \<and> info_error i = None)"

lemma sys_initial_ok: "fresh_info (ac_info cfg) \<Longrightarrow> sys_ok (sys_initial cfg)"
  by (simp add: sys_ok_def sys_initial_def after_start_def sys_effect_def lives_def actor_ok_def actor_initial_def
      actor_status_def status_ok_def fresh_info_def)

lemma deliver_ok:
  assumes ok: "sys_ok s" and mb: "sy_mailbox s = m # ms" and h: "handle cfg now m (sy_actor s) = (st, es)"
  shows "sys_ok (foldl sys_effect (s\<lparr> sy_actor := st, sy_mailbox := ms \<rparr>) es)"
proof -
  have st: "st = fst (handle cfg now m (sy_actor s))" "es = snd (handle cfg now m (sy_actor s))"
    by (simp_all add: h)
  have a: "actor_ok (sy_actor s)" and l: "lives s \<le> 1"
    using ok by (simp_all add: sys_ok_def)
  have pid: "as_child_pid st = pid_step (as_child_pid (sy_actor s)) m"
    unfolding st by (rule handle_pid [OF a])
  have "lives (foldl sys_effect (s\<lparr> sy_actor := st, sy_mailbox := ms \<rparr>) es) + (if is_token m then 1 else 0)
      = lives s + length (filter is_life es)"
    using sys_effects_lives [of "s\<lparr> sy_actor := st, sy_mailbox := ms \<rparr>" es]
    by (simp add: lives_def sys_effects_frame mb)
  moreover have "length (filter is_life es) \<le> (if is_token m then 1 else 0)"
    unfolding st by (rule handle_lives)
  ultimately have "lives (foldl sys_effect (s\<lparr> sy_actor := st, sy_mailbox := ms \<rparr>) es) \<le> 1"
    using l by linarith
  moreover have "actor_ok st"
    unfolding st by (rule handle_ok [OF a])
  ultimately show ?thesis
    using ok pid by (cases "sy_children s") (simp_all add: sys_ok_def sys_effects_frame mb)
qed

lemma appended_ok:
  assumes "sys_ok s" "\<not> is_token m" "\<And>q. pid_step q m = q"
  shows "sys_ok (s\<lparr> sy_mailbox := sy_mailbox s @ [m] \<rparr>)"
proof -
  have "(case m of ChildExited p _ \<Rightarrow> q = Some p | _ \<Rightarrow> True)" for q
    using assms(2) by (simp add: is_token_def split: actor_msg.splits)
  then show ?thesis
    using assms by (auto simp: sys_ok_def lives_def exits_ok_append split: list.splits)
qed

lemma one_life:
  assumes "lives s \<le> 1" "sy_children s = us @ p # vs"
  shows "sy_children s = [p]" "sy_to_spawn s = []" "sy_spawning s = []" "sy_sleeping s = []"
    "filter is_token (sy_mailbox s) = []"
  using assms by (auto simp: lives_def)

lemma no_child:
  assumes "lives s \<le> 1" "sy_to_spawn s \<noteq> [] \<or> sy_spawning s \<noteq> [] \<or> sy_sleeping s \<noteq> []"
  shows "sy_children s = []"
proof -
  have "0 < length (sy_to_spawn s) + length (sy_spawning s) + length (sy_sleeping s)"
    using assms(2) by auto
  then have "length (sy_children s) = 0"
    using assms(1) unfolding lives_def by linarith
  then show ?thesis by simp
qed

lemma actor_step_ok: "sys_ok s \<Longrightarrow> actor_step cfg s l t \<Longrightarrow> sys_ok t"
proof (erule actor_stepE)
  fix m ms now st es
  assume "sys_ok s" "sy_mailbox s = m # ms" "handle cfg now m (sy_actor s) = (st, es)"
    "t = foldl sys_effect (s\<lparr>sy_actor := st, sy_mailbox := ms\<rparr>) es"
  then show "sys_ok t" by (simp add: deliver_ok)
next
  fix us k vs
  assume ok: "sys_ok s" and w: "sy_sleeping s = us @ k # vs"
    "t = s\<lparr>sy_sleeping := us @ vs, sy_mailbox := sy_mailbox s @ [RestartChild k]\<rparr>"
  have "sy_children s = []" using ok w no_child [of s] by (auto simp: sys_ok_def)
  then show "sys_ok t"
    using ok w by (auto simp: sys_ok_def lives_def exits_ok_append is_token_def)
next
  fix us a vs
  assume ok: "sys_ok s" and w: "sy_to_spawn s = us @ a # vs"
    "t = s\<lparr>sy_to_spawn := us @ vs, sy_spawning := sy_spawning s @ [a], sy_mailbox := sy_mailbox s @ [ChildSpawning]\<rparr>"
  have "sy_children s = []" using ok w no_child [of s] by (auto simp: sys_ok_def)
  then show "sys_ok t"
    using ok w by (auto simp: sys_ok_def lives_def exits_ok_append is_token_def)
next
  fix us a vs r w msgs evs
  assume ok: "sys_ok s" and w: "sy_spawning s = us @ a # vs" and o: "spawn_outcome cfg a r = (w, msgs, evs)"
    and t: "t = s\<lparr>sy_spawning := us @ vs, sy_watch := w,
       sy_children := sy_children s @ (case r of SpawnOk p \<Rightarrow> [p] | _ \<Rightarrow> []),
       sy_mailbox := sy_mailbox s @ msgs, sy_broadcasts := sy_broadcasts s @ evs\<rparr>"
  have "sy_children s = []" using ok w no_child [of s] by (auto simp: sys_ok_def)
  then show "sys_ok t"
    using ok w o t
    by (cases r) (auto simp: sys_ok_def lives_def exits_ok_append is_token_def spawn_outcome_def pid_step_def)
next
  fix us p vs waited msgs evs
  assume ok: "sys_ok s" and c: "sy_children s = us @ p # vs" and o: "monitor_outcome cfg p waited = (msgs, evs)"
    and t: "t = s\<lparr>sy_children := us @ vs, sy_watch := None, sy_mailbox := sy_mailbox s @ msgs,
       sy_broadcasts := sy_broadcasts s @ evs\<rparr>"
  have l: "lives s \<le> 1" using ok by (simp add: sys_ok_def)
  note one = one_life [OF l c]
  have "us = []" "vs = []" using one(1) c by (auto simp: append_eq_Cons_conv)
  then show "sys_ok t"
    using ok o t one
    by (cases waited)
       (auto simp: sys_ok_def lives_def exits_ok_append is_token_def monitor_outcome_def Let_def)
next
  fix m
  assume "sys_ok s" "m = HealthCheck \<or> m = StopPrimitive \<or> m = EngineShuttingDown"
    "t = s\<lparr>sy_mailbox := sy_mailbox s @ [m]\<rparr>"
  then show "sys_ok t"
    using appended_ok [of s m] by (auto simp: is_token_def pid_step_def)
qed

interpretation actor_machine: machine_invariant
  "\<lambda>s. fresh_info (ac_info cfg) \<and> s = sys_initial cfg" "actor_step cfg" sys_ok for cfg
  by unfold_locales (auto intro: sys_initial_ok actor_step_ok)

section \<open>The restart history\<close>

text \<open>A run of the actor's handlers, with the times at which a restart was scheduled.\<close>

definition schedules_restart :: "actor_effect list \<Rightarrow> bool" where
  "schedules_restart es = list_ex (\<lambda>e. case e of SleepThenRestart _ _ \<Rightarrow> True | _ \<Rightarrow> False) es"

definition history_step :: "actor_config \<Rightarrow> actor_state \<times> u64 list \<Rightarrow> u64 \<times> actor_msg \<Rightarrow> actor_state \<times> u64 list" where
  "history_step cfg sh tm =
     (case handle cfg (fst tm) (snd tm) (fst sh) of (st, es) \<Rightarrow>
        (st, if schedules_restart es then snd sh @ [fst tm] else snd sh))"

definition actor_history :: "actor_config \<Rightarrow> (u64 \<times> actor_msg) list \<Rightarrow> actor_state \<times> u64 list" where
  "actor_history cfg ms = foldl (history_step cfg) (actor_initial cfg, []) ms"

text \<open>The restarts a window of length \<open>w\<close> that ends at \<open>t\<close> counts.\<close>

definition in_window :: "u64 \<Rightarrow> u64 \<Rightarrow> u64 \<Rightarrow> bool" where
  "in_window w t s = (unat t - unat w < unat s \<and> s \<le> t)"

lemma handle_attempts:
  "(handle cfg now m st = (st', es) \<Longrightarrow> \<not> schedules_restart es \<Longrightarrow>
     as_restart_attempts st' = as_restart_attempts st
     \<or> as_restart_attempts st' = prune_attempts (as_restart_attempts st) now (window_ms (ac_restart_limits cfg)))"
  "(handle cfg now m st = (st', es) \<Longrightarrow> schedules_restart es \<Longrightarrow>
     as_restart_attempts st' = prune_attempts (as_restart_attempts st) now (window_ms (ac_restart_limits cfg)) @ [now]
     \<and> length (prune_attempts (as_restart_attempts st) now (window_ms (ac_restart_limits cfg)))
        < unat (max_retries (ac_restart_limits cfg))
     \<and> \<not> as_shutting_down st)"
  using decide_restart_Restart_D
  by (auto simp: handle_def on_child_exited_def Let_def schedules_restart_def
      split: actor_msg.splits restart_decision.splits if_splits option.splits; fastforce)+

text \<open>The kept attempts and the whole history agree above the last cutoff.\<close>

definition history_ok :: "u64 \<Rightarrow> nat \<Rightarrow> u64 \<Rightarrow> u64 list \<Rightarrow> u64 list \<Rightarrow> bool" where
  "history_ok w budget last_ms attempts hist \<longleftrightarrow>
     (\<forall>c \<ge> unat last_ms - unat w. filter (\<lambda>s. c < unat s) attempts = filter (\<lambda>s. c < unat s) hist)
     \<and> (\<forall>t. length (filter (in_window w t) hist) \<le> budget)"

lemma prune_attempts_eq: "prune_attempts xs now w = filter (\<lambda>s. unat now - unat w < unat s) xs"
  by (simp add: prune_attempts_def Let_def word_less_nat_alt unat_sat_sub)

lemma filter_above: "a \<le> c \<Longrightarrow> filter (\<lambda>s. c < unat s) (filter (\<lambda>s. a < unat s) xs) = filter (\<lambda>s. c < unat s) xs"
  by (simp add: filter_filter) (metis (no_types, lifting) filter_cong le_less_trans)

lemma history_ok_keep:
  "history_ok w b l xs h \<Longrightarrow> l \<le> now \<Longrightarrow> history_ok w b now xs h"
  unfolding history_ok_def word_le_nat_alt by (meson diff_le_mono order_trans)

lemma history_ok_prune:
  "history_ok w b l xs h \<Longrightarrow> l \<le> now \<Longrightarrow> history_ok w b now (prune_attempts xs now w) h"
  using history_ok_keep [of w b l xs h now] by (simp add: history_ok_def prune_attempts_eq filter_above del: filter_filter)

lemma history_ok_restart:
  assumes h: "history_ok w b l xs h" and le: "l \<le> now" and budget: "length (prune_attempts xs now w) < b"
  shows "history_ok w b now (prune_attempts xs now w @ [now]) (h @ [now])"
proof -
  have k: "history_ok w b now xs h" by (rule history_ok_keep [OF h le])
  then have n: "length (filter (\<lambda>s. unat now - unat w < unat s) h) < b"
    using budget by (simp add: history_ok_def prune_attempts_eq)
  have "length (filter (in_window w t) (h @ [now])) \<le> b" for t
  proof (cases "in_window w t now")
    case True
    then have "unat now - unat w \<le> unat t - unat w"
      by (simp add: in_window_def word_le_nat_alt diff_le_mono)
    then have "length (filter (in_window w t) h) \<le> length (filter (\<lambda>s. unat now - unat w < unat s) h)"
      by (induction h) (auto simp: in_window_def)
    with n True show ?thesis by simp
  next
    case False
    then show ?thesis using k by (simp add: history_ok_def)
  qed
  then show ?thesis
    using history_ok_prune [OF h le] by (simp add: history_ok_def)
qed

lemma actor_history_snoc: "actor_history cfg (ms @ [tm]) = history_step cfg (actor_history cfg ms) tm"
  by (simp add: actor_history_def)

lemma actor_history_ok:
  assumes "sorted (map fst ms)" and "ms \<noteq> [] \<Longrightarrow> last_ms = fst (last ms)"
  shows "history_ok (window_ms (ac_restart_limits cfg)) (unat (max_retries (ac_restart_limits cfg))) last_ms
    (as_restart_attempts (fst (actor_history cfg ms))) (snd (actor_history cfg ms))"
  using assms
proof (induction ms arbitrary: last_ms rule: rev_induct)
  case Nil
  then show ?case
    by (simp add: history_ok_def actor_history_def actor_initial_def)
next
  case (snoc tm ms)
  obtain now m where tm: "tm = (now, m)" by (cases tm)
  obtain st hist where sh: "actor_history cfg ms = (st, hist)" by (cases "actor_history cfg ms")
  obtain st' es where h: "handle cfg now m st = (st', es)" by (cases "handle cfg now m st")
  define l where "l = (if ms = [] then 0 else fst (last ms))"
  have "l \<le> now"
    using snoc.prems(1) tm by (auto simp: l_def sorted_append)
  moreover have "history_ok (window_ms (ac_restart_limits cfg)) (unat (max_retries (ac_restart_limits cfg))) l
      (as_restart_attempts st) hist"
    using snoc.IH [of l] snoc.prems(1) sh by (simp add: l_def sorted_append)
  moreover have "last_ms = now" using snoc.prems(2) tm by simp
  ultimately show ?case
    using handle_attempts [OF h] history_ok_keep history_ok_prune history_ok_restart
    by (auto simp: actor_history_snoc history_step_def sh tm h)
qed

section \<open>Properties\<close>

text \<open>
  C7. A crash loop is bounded. However the messages to the actor interleave, as long as the clock
  does not run backwards, no window of the configured length, ending at any time, contains more
  scheduled restarts than the budget: pruning the attempts never forgets one that still counts.
\<close>

theorem restarts_within_budget:
  assumes "sorted (map fst ms)"
  shows "length (filter (in_window (window_ms (ac_restart_limits cfg)) t) (snd (actor_history cfg ms)))
    \<le> unat (max_retries (ac_restart_limits cfg))"
  using actor_history_ok [OF assms refl] by (simp add: history_ok_def)

definition sample_actor :: actor_config where
  "sample_actor = \<lparr> ac_info = info_source ''timer'' [''timer.tick''], ac_path = ''/bin/timer'', ac_args = [],
     ac_env = Map.empty, ac_socket_path = ''/tmp/e.sock'', ac_api_port = 8891, ac_restart = Always,
     ac_restart_limits = \<lparr> backoff_ms = 500, max_backoff_ms = 30000, max_retries = 1, window_ms = 100 \<rparr> \<rparr>"

definition sample_crashes :: "(u64 \<times> actor_msg) list" where
  "sample_crashes = [(1000, ChildSpawned 7), (1010, ChildExited 7 1), (1020, ChildSpawned 8), (1030, ChildExited 8 1)]"

lemma sample_history: "snd (actor_history sample_actor sample_crashes) = [1010]"
  by (simp add: actor_history_def sample_crashes_def sample_actor_def history_step_def handle_def actor_initial_def
      on_child_exited_def actor_apply_def actor_status_def status_running_def info_source_def Let_def
      outcome_from_exit_code_def is_clean_exit_code_def decide_restart_def prune_attempts_def sat_sub_def
      u32_of_len_def schedules_restart_def)

theorem restarts_within_budget_witness:
  "length (filter (in_window 100 1030) (snd (actor_history sample_actor sample_crashes))) \<le> 1
   \<and> snd (actor_history sample_actor sample_crashes) = [1010]"
proof -
  have "sorted (map fst sample_crashes)"
    by (simp add: sample_crashes_def)
  note budget = restarts_within_budget [OF this, of sample_actor 1030]
  have "window_ms (ac_restart_limits sample_actor) = 100" "max_retries (ac_restart_limits sample_actor) = 1"
    by (simp_all add: sample_actor_def)
  with budget show ?thesis
    by (simp add: sample_history)
qed

text \<open>
  C1. One child at a time. In every state the actor's process can reach, under every interleaving
  of messages, backoffs, spawns and exits, at most one child of the primitive is alive, and the pid
  the process manager waits on and kills is exactly that child's; the status the actor publishes is
  its own, consistent in state, pid and error; and once the engine is shutting the primitive down,
  a backoff that ends starts nothing.
\<close>

theorem one_child_at_a_time:
  assumes "reach (\<lambda>s. fresh_info (ac_info cfg) \<and> s = sys_initial cfg) (actor_step cfg) s"
  shows "length (sy_children s) \<le> 1
    \<and> sy_watch s = (case sy_children s of [] \<Rightarrow> None | p # _ \<Rightarrow> Some p)
    \<and> as_published (sy_actor s) = as_info (sy_actor s) \<and> status_ok (actor_status (sy_actor s))
    \<and> (as_shutting_down (sy_actor s) \<longrightarrow> handle cfg now (RestartChild k) (sy_actor s) = (sy_actor s, []))"
  using actor_machine.reach_inv [OF assms]
  by (auto simp: sys_ok_def actor_ok_def lives_def handle_def)

theorem one_child_at_a_time_witness:
  "length (sy_children (sys_initial sample_actor)) \<le> 1 \<and> sy_watch (sys_initial sample_actor) = None"
proof -
  have "fresh_info (ac_info sample_actor) \<and> sys_initial sample_actor = sys_initial sample_actor"
    by (simp add: sample_actor_def fresh_info_def info_source_def)
  from one_child_at_a_time [OF reach_init [where init = "\<lambda>s. fresh_info (ac_info sample_actor) \<and> s = sys_initial sample_actor", OF this]]
  show ?thesis
    by (auto simp: sys_initial_def after_start_def sys_effect_def)
qed

text \<open>
  No exit is lost. In every reachable state an exit notice at the head of the mailbox is about
  the very pid the actor holds, so it is acted on and never dropped as stale: the status leaves
  \<^verbatim>\<open>running\<close> and the restart policy is applied, whatever else was sent in between.
\<close>

theorem exit_notice_is_acted_on:
  assumes "reach (\<lambda>s. fresh_info (ac_info cfg) \<and> s = sys_initial cfg) (actor_step cfg) s"
    and "sy_mailbox s = ChildExited p code # ms"
  shows "as_child_pid (sy_actor s) = Some p
    \<and> info_pid (as_info (fst (handle cfg now (ChildExited p code) (sy_actor s)))) = None"
proof -
  have ok: "sys_ok s" by (rule actor_machine.reach_inv [OF assms(1)])
  then have a: "actor_ok (sy_actor s)" and p: "as_child_pid (sy_actor s) = Some p"
    using assms(2) by (simp_all add: sys_ok_def)
  have "as_child_pid (fst (handle cfg now (ChildExited p code) (sy_actor s))) = None"
    unfolding handle_pid [OF a] by (simp add: pid_step_def p)
  moreover have "actor_ok (fst (handle cfg now (ChildExited p code) (sy_actor s)))"
    by (rule handle_ok [OF a])
  ultimately show ?thesis
    using p by (simp add: actor_ok_def)
qed

text \<open>The states of a first spawn that exits at once, with nothing delivered in between.\<close>

definition sample_sys :: actor_sys where
  "sample_sys = (sys_initial sample_actor)\<lparr> sy_to_spawn := [],
     sy_actor := fst (handle sample_actor 2 (ChildSpawned 7) (fst (handle sample_actor 1 ChildSpawning (actor_initial sample_actor)))),
     sy_mailbox := [ChildExited 7 1],
     sy_broadcasts := [SystemEvent ''system.started'' (ac_info sample_actor) (Some 7) None,
       SystemEvent ''system.error'' (ac_info sample_actor) (Some 7) (Some (exit_error_message 1))] \<rparr>"

abbreviation sample_reach :: "actor_sys \<Rightarrow> bool" where
  "sample_reach \<equiv> reach (\<lambda>s. fresh_info (ac_info sample_actor) \<and> s = sys_initial sample_actor) (actor_step sample_actor)"

lemma sample_sys_reachable: "sample_reach sample_sys"
proof -
  define s0 where "s0 = sys_initial sample_actor"
  define a1 where "a1 = fst (handle sample_actor 1 ChildSpawning (actor_initial sample_actor))"
  define a2 where "a2 = fst (handle sample_actor 2 (ChildSpawned 7) a1)"
  define s1 where "s1 = s0\<lparr> sy_to_spawn := [], sy_spawning := [None], sy_mailbox := [ChildSpawning] \<rparr>"
  define s2 where "s2 = s1\<lparr> sy_actor := a1, sy_mailbox := [] \<rparr>"
  define s3 where "s3 = s2\<lparr> sy_spawning := [], sy_watch := Some 7, sy_children := [7], sy_mailbox := [ChildSpawned 7],
      sy_broadcasts := [SystemEvent ''system.started'' (ac_info sample_actor) (Some 7) None] \<rparr>"
  define s4 where "s4 = s3\<lparr> sy_actor := a2, sy_mailbox := [] \<rparr>"
  have i: "sy_actor s0 = actor_initial sample_actor" "sy_mailbox s0 = []" "sy_to_spawn s0 = [None]"
    "sy_spawning s0 = []" "sy_children s0 = []" "sy_broadcasts s0 = []"
    by (simp_all add: s0_def sys_initial_def after_start_def sys_effect_def)
  have "sample_reach s0"
    by (rule reach_init) (simp add: s0_def sample_actor_def fresh_info_def info_source_def)
  moreover have "actor_step sample_actor s0 SpawnBegin s1"
    using spawn_begin [of s0 "[]" None "[]" sample_actor] by (simp add: i s1_def)
  ultimately have "sample_reach s1" by (rule reach_step)
  moreover have "actor_step sample_actor s1 (Deliver 1) s2"
    using deliver [of s1 ChildSpawning "[]" sample_actor 1 a1 "[]"] by (simp add: s1_def s2_def i a1_def handle_def)
  ultimately have "sample_reach s2" by (rule reach_step)
  moreover have "actor_step sample_actor s2 (SpawnDone (SpawnOk 7)) s3"
    using spawn_done [of s2 "[]" None "[]" sample_actor "SpawnOk 7"]
    by (simp add: s3_def s2_def s1_def i spawn_outcome_def)
  ultimately have "sample_reach s3" by (rule reach_step)
  moreover have "actor_step sample_actor s3 (Deliver 2) s4"
    using deliver [of s3 "ChildSpawned 7" "[]" sample_actor 2 a2 "[]"]
    by (simp add: s4_def s3_def s2_def i a2_def handle_def)
  ultimately have "sample_reach s4" by (rule reach_step)
  moreover have "actor_step sample_actor s4 (ChildGone 7 (Some (ExitCode 1))) sample_sys"
    using child_gone [of s4 "[]" 7 "[]" sample_actor "Some (ExitCode 1)"]
    by (simp add: sample_sys_def s4_def s3_def s2_def s1_def a1_def a2_def monitor_outcome_def
        exit_code_from_status_def is_clean_exit_def status_code_def status_signal_def Let_def)
       (simp add: s0_def sys_initial_def after_start_def sys_effect_def)
  ultimately show ?thesis by (rule reach_step)
qed

theorem exit_notice_is_acted_on_witness:
  "as_child_pid (sy_actor sample_sys) = Some 7
   \<and> info_pid (as_info (fst (handle sample_actor 3 (ChildExited 7 1) (sy_actor sample_sys)))) = None"
proof -
  have "sy_mailbox sample_sys = ChildExited 7 1 # []"
    by (simp add: sample_sys_def)
  then show ?thesis
    by (rule exit_notice_is_acted_on [OF sample_sys_reachable])
qed

text \<open>
  The two classifications of an exit agree for every way a process can end: the event the
  monitor broadcasts says stopped exactly when the status the actor computes from the reported code
  is stopped and not failed, and exactly when the restart policy counts the exit as clean. A child
  killed by SIGTERM and one that exits with 143 are the same.
\<close>

theorem exit_classifiers_agree:
  "(is_clean_exit s \<longleftrightarrow> is_clean_exit_code (exit_code_from_status s))
   \<and> (is_clean_exit s \<longleftrightarrow> outcome_from_exit_code (exit_code_from_status s) = Clean)
   \<and> (snd (monitor_outcome cfg p (Some s)) = [SystemEvent ''system.stopped'' (ac_info cfg) (Some p) None] \<longleftrightarrow>
       st_state (next_status (status_running p) (Exited p (exit_code_from_status s))) = Stopped)"
proof -
  have "uint (c :: 7 word) \<noteq> 15 \<Longrightarrow> 128 + uint c \<noteq> 143" "128 + uint (c :: 7 word) \<noteq> 0" for c
    using uint_ge_0 [of c] by linarith+
  then have a: "is_clean_exit s \<longleftrightarrow> is_clean_exit_code (exit_code_from_status s)"
    by (cases s) (auto simp: is_clean_exit_def is_clean_exit_code_def exit_code_from_status_def status_code_def status_signal_def)
  then show ?thesis
    by (auto simp: clean_exit_iff_outcome [symmetric] monitor_outcome_def Let_def status_running_def)
qed

text \<open>
  A primitive with a valid name never loses a lifecycle event: its started, stopped, error and
  restarted events all form valid messages of the type \<^verbatim>\<open>system.<what>.<name>\<close> from the engine, and
  the shutdown event is built without a panic.
\<close>

theorem lifecycle_events_are_valid:
  assumes "is_ok (PrimitiveName_new (info_name i))" and "et \<in> {''system.started'', ''system.stopped'', ''system.error''}"
  shows "(\<exists>m. create_system_event mid ts et i p err = Ok m \<and> msg_type m = et @ ''.'' @ info_name i
        \<and> is_ok (MessageType_new (msg_type m)) \<and> msg_source m = ''emergent-engine'')
    \<and> (\<exists>m. create_restarted_event mid ts i q k = Ok m \<and> msg_type m = ''system.restarted.'' @ info_name i
        \<and> is_ok (MessageType_new (msg_type m)) \<and> msg_source m = ''emergent-engine'')
    \<and> (\<exists>m. create_shutdown_event mid ts kind = Some m \<and> msg_type m = ''system.shutdown'')"
proof -
  have t: "MessageType_new (x @ info_name i) = Ok (x @ info_name i)"
    if "x \<in> {''system.started.'', ''system.stopped.'', ''system.error.'', ''system.restarted.''}" for x
    using that
    by (intro MessageType_new_append_name [OF assms(1)])
       (auto simp: message_type_char_def ascii_class_defs)
  have e: "engine_source = ''emergent-engine''"
    by code_simp
  have s: "MessageType_new ''system.shutdown'' = Ok ''system.shutdown''"
    by code_simp
  have m: "create_system_event mid ts et i p err = Ok (with_payload (payload_to_json (system_payload et i p err))
      (with_source_name engine_source \<lparr>msg_id = mid, msg_type = et @ ''.'' @ info_name i, msg_source = PrimitiveName_unknown,
        msg_correlation_id = None, msg_causation_id = None, msg_timestamp_ms = ts,
        msg_payload = JNull, msg_metadata = None\<rparr>))"
    using assms(2) t [of "et @ ''.''"] by (auto simp: create_system_event_def try_new_with_id_and_timestamp_def)
  show ?thesis
    using m assms(2) t [of "et @ ''.''"] t [of "''system.restarted.''"] s
    by (auto simp: create_restarted_event_def create_shutdown_event_def new_with_id_and_timestamp_def
        try_new_with_id_and_timestamp_def with_payload_def with_source_name_def e SHUTDOWN_EVENT_TYPE_def)
qed

theorem lifecycle_events_are_valid_witness:
  "\<exists>m. create_system_event (MessageId ()) (Timestamp 0) ''system.started'' (info_source ''timer'' []) (Some 7) None = Ok m
     \<and> msg_type m = ''system.started.timer''"
proof -
  have "is_ok (PrimitiveName_new (info_name (info_source ''timer'' [])))"
    by code_simp
  note valid = lifecycle_events_are_valid [OF this, of "''system.started''" "MessageId ()" "Timestamp 0" "Some 7" None 0 0 "[]"]
  have "info_name (info_source ''timer'' []) = ''timer''"
    by (simp add: info_source_def)
  with valid show ?thesis
    by auto
qed

end
