(* ===== verification/Ipc_Identity.thy ===== *)
theory Ipc_Identity
  imports Prelude
begin

text \<open>
  Who a connection is, from \<^verbatim>\<open>emergent-engine/src/ipc_identity.rs\<close>: the walk up a peer's process
  ancestry, the admission decision, the resolver that combines them, and the registry of
  connections that are revoked when a primitive's child exits.

  Parameters: \<open>parent_of\<close> is the platform's parent lookup (\<^verbatim>\<open>/proc\<close>), the child table is a map from
  pid to primitive name, and the resolver's repeated reads of that table are a sequence of tables,
  one per attempt. Closing a socket is acton's \<^verbatim>\<open>revoke_connection\<close>: \<open>is_open\<close> says whether the
  connection was still open when it was asked.
\<close>

section \<open>Identities\<close>

datatype connection_identity =
    Primitive string
  | Unmanaged "pid option" u32

definition primitive_name_of :: "connection_identity \<Rightarrow> string option" where
  "primitive_name_of i = (case i of Primitive n \<Rightarrow> Some n | Unmanaged _ _ \<Rightarrow> None)"

definition is_managed :: "connection_identity \<Rightarrow> bool" where
  "is_managed i = (case i of Primitive _ \<Rightarrow> True | Unmanaged _ _ \<Rightarrow> False)"

definition show_identity :: "connection_identity \<Rightarrow> string" where
  "show_identity i = (case i of
      Primitive n \<Rightarrow> n
    | Unmanaged (Some p) _ \<Rightarrow> ''<unmanaged pid '' @ show_nat (unat p) @ ''>''
    | Unmanaged None _ \<Rightarrow> ''<unmanaged>'')"

definition unmanaged_from :: "pid option \<Rightarrow> u32 \<Rightarrow> connection_identity" where
  "unmanaged_from p uid = Unmanaged p uid"

section \<open>Admission\<close>

datatype authentication_mode = AM_Off | AM_Warn | AM_Strict

definition authentication_mode_as_str :: "authentication_mode \<Rightarrow> string" where
  "authentication_mode_as_str m = (case m of AM_Off \<Rightarrow> ''off'' | AM_Warn \<Rightarrow> ''warn'' | AM_Strict \<Rightarrow> ''strict'')"

definition authentication_mode_is_enforcing :: "authentication_mode \<Rightarrow> bool" where
  "authentication_mode_is_enforcing m = (m \<noteq> AM_Off)"

datatype admission_decision = Admit | AdmitUnmanaged | Deny string

definition is_admitted :: "admission_decision \<Rightarrow> bool" where
  "is_admitted d = (case d of Deny _ \<Rightarrow> False | _ \<Rightarrow> True)"

definition admission_for ::
  "authentication_mode \<Rightarrow> connection_identity \<Rightarrow> u32 option \<Rightarrow> u32 \<Rightarrow> admission_decision" where
  "admission_for mode ident peer_uid engine_uid =
     (if is_managed ident then Admit
      else (case mode of
          AM_Off \<Rightarrow> Admit
        | AM_Warn \<Rightarrow> AdmitUnmanaged
        | AM_Strict \<Rightarrow> (case peer_uid of
              Some uid \<Rightarrow>
                if uid = engine_uid then AdmitUnmanaged
                else Deny (''connections are restricted to uid '' @ show_nat (unat engine_uid)
                       @ '' and this peer is uid '' @ show_nat (unat uid))
            | None \<Rightarrow> Deny
                ''connections are restricted by user id and this platform reported no peer credentials'')))"

section \<open>The ancestry walk\<close>

definition MAX_ANCESTRY_DEPTH :: usize where
  "MAX_ANCESTRY_DEPTH = 16"

datatype resolution = ResolvedPrimitive string | UnrecordedChild | Foreign

text \<open>The \<^verbatim>\<open>for _ in 0..MAX_ANCESTRY_DEPTH\<close> loop: the first argument counts the rounds left.\<close>

fun ancestry_loop :: "nat \<Rightarrow> pid \<Rightarrow> pid \<Rightarrow> (pid \<rightharpoonup> string) \<Rightarrow> (pid \<Rightarrow> pid option) \<Rightarrow> resolution" where
  "ancestry_loop 0 p engine_pid children parent_of = Foreign"
| "ancestry_loop (Suc n) p engine_pid children parent_of =
     (case children p of
        Some name \<Rightarrow> ResolvedPrimitive name
      | None \<Rightarrow>
          if p = engine_pid then UnrecordedChild
          else if p \<le> 1 then Foreign
          else (case parent_of p of
              Some parent \<Rightarrow> ancestry_loop n parent engine_pid children parent_of
            | None \<Rightarrow> Foreign))"

definition resolve_ancestry ::
  "pid option \<Rightarrow> pid \<Rightarrow> (pid \<rightharpoonup> string) \<Rightarrow> (pid \<Rightarrow> pid option) \<Rightarrow> resolution" where
  "resolve_ancestry peer_pid engine_pid children parent_of = (case peer_pid of
      None \<Rightarrow> Foreign
    | Some p \<Rightarrow> ancestry_loop MAX_ANCESTRY_DEPTH p engine_pid children parent_of)"

section \<open>The resolver\<close>

definition DEFAULT_ADMISSION_ATTEMPTS :: nat where
  "DEFAULT_ADMISSION_ATTEMPTS = 5"

record ancestry_resolver =
  ar_mode :: authentication_mode
  ar_engine_pid :: pid
  ar_engine_uid :: u32
  ar_attempts :: nat

text \<open>
  One look at the child table and the process tree: what \<^verbatim>\<open>child_names_by_pid\<close> and
  \<^verbatim>\<open>proc_parent_of\<close> report at that moment.
\<close>

type_synonym process_view = "(pid \<rightharpoonup> string) \<times> (pid \<Rightarrow> pid option)"

text \<open>
  The retry loop of \<^verbatim>\<open>AncestryResolver::walk\<close>. \<open>view k\<close> is what the resolver sees on attempt \<open>k\<close>
  (from 1); between two attempts it sleeps.
\<close>

fun walk_from :: "ancestry_resolver \<Rightarrow> (nat \<Rightarrow> process_view) \<Rightarrow> pid option \<Rightarrow> nat \<Rightarrow> nat \<Rightarrow> resolution" where
  "walk_from r view peer_pid k 0 = Foreign"
| "walk_from r view peer_pid k (Suc left) =
     (let res = resolve_ancestry peer_pid (ar_engine_pid r) (fst (view k)) (snd (view k))
      in if res \<noteq> UnrecordedChild \<or> k = ar_attempts r then res
         else walk_from r view peer_pid (Suc k) left)"

definition walk :: "ancestry_resolver \<Rightarrow> (nat \<Rightarrow> process_view) \<Rightarrow> pid option \<Rightarrow> resolution" where
  "walk r view peer_pid = walk_from r view peer_pid 1 (ar_attempts r)"

text \<open>\<open>peer\<close> is the kernel's credentials: a uid always, a pid where the platform reports one.\<close>

definition resolve ::
  "ancestry_resolver \<Rightarrow> (nat \<Rightarrow> process_view) \<Rightarrow> (pid option \<times> u32) option
     \<Rightarrow> (string, connection_identity) result" where
  "resolve r view peer =
     (let peer_pid = Option.bind peer fst;
          peer_uid = map_option snd peer;
          ident = (case walk r view peer_pid of
              ResolvedPrimitive n \<Rightarrow> Primitive n
            | UnrecordedChild \<Rightarrow> unmanaged_from peer_pid (case peer_uid of Some u \<Rightarrow> u | None \<Rightarrow> 0)
            | Foreign \<Rightarrow> unmanaged_from peer_pid (case peer_uid of Some u \<Rightarrow> u | None \<Rightarrow> 0))
      in case admission_for (ar_mode r) ident peer_uid (ar_engine_uid r) of
           Admit \<Rightarrow> Ok ident
         | AdmitUnmanaged \<Rightarrow> Ok ident
         | Deny reason \<Rightarrow> Err reason)"

section \<open>The connection registry\<close>

definition MAX_CONNECTIONS_PER_PRIMITIVE :: usize where
  "MAX_CONNECTIONS_PER_PRIMITIVE = 64"

text \<open>The updated ids, and the id evicted to stay under \<open>cap\<close>.\<close>

definition remember :: "usize list \<Rightarrow> usize \<Rightarrow> usize \<Rightarrow> usize list \<times> usize option" where
  "remember ids connection_id cap =
     (if connection_id \<in> set ids then (ids, None)
      else if cap > 0 \<and> length ids \<ge> cap
        then (tl ids @ [connection_id], Some (hd ids))
        else (ids @ [connection_id], None))"

record connection_registry =
  cr_connections :: "string \<rightharpoonup> usize list"
  cr_revoker_installed :: bool

definition registry_new :: connection_registry where
  "registry_new = \<lparr>cr_connections = Map.empty, cr_revoker_installed = False\<rparr>"

definition install_revoker :: "connection_registry \<Rightarrow> connection_registry" where
  "install_revoker reg = reg\<lparr>cr_revoker_installed := True\<rparr>"

definition connections_for :: "connection_registry \<Rightarrow> string \<Rightarrow> usize list" where
  "connections_for reg n = (case cr_connections reg n of Some ids \<Rightarrow> ids | None \<Rightarrow> [])"

definition registry_record :: "connection_registry \<Rightarrow> connection_identity \<Rightarrow> usize \<Rightarrow> connection_registry" where
  "registry_record reg ident connection_id = (case primitive_name_of ident of
      None \<Rightarrow> reg
    | Some n \<Rightarrow> reg\<lparr>cr_connections := (cr_connections reg)
        (n \<mapsto> fst (remember (connections_for reg n) connection_id MAX_CONNECTIONS_PER_PRIMITIVE))\<rparr>)"

text \<open>The new registry, the ids asked to be closed, and how many were still open.\<close>

definition revoke_all ::
  "(usize \<Rightarrow> bool) \<Rightarrow> connection_registry \<Rightarrow> string \<Rightarrow> connection_registry \<times> usize list \<times> nat" where
  "revoke_all is_open reg n =
     (let ids = connections_for reg n;
          reg' = reg\<lparr>cr_connections := (cr_connections reg)(n := None)\<rparr>
      in if ids = [] then (reg', [], 0)
         else if \<not> cr_revoker_installed reg then (reg', [], 0)
         else (reg', ids, length (filter is_open ids)))"

definition on_child_exit ::
  "(usize \<Rightarrow> bool) \<Rightarrow> connection_registry \<Rightarrow> string \<Rightarrow> pid \<Rightarrow> connection_registry \<times> usize list" where
  "on_child_exit is_open reg n p = (let (reg', ids, _) = revoke_all is_open reg n in (reg', ids))"

section \<open>Ancestry as a relation\<close>

text \<open>\<open>ancestor parent_of p q n\<close>: climbing \<open>n\<close> parents from \<open>p\<close> reaches \<open>q\<close>.\<close>

fun climb :: "(pid \<Rightarrow> pid option) \<Rightarrow> nat \<Rightarrow> pid \<Rightarrow> pid option" where
  "climb parent_of 0 p = Some p"
| "climb parent_of (Suc n) p = Option.bind (parent_of p) (climb parent_of n)"

text \<open>
  The walk stops at \<open>p\<close> for one of its three reasons, and passes it otherwise.
\<close>

definition passes :: "pid \<Rightarrow> (pid \<rightharpoonup> string) \<Rightarrow> pid \<Rightarrow> bool" where
  "passes engine_pid children p \<longleftrightarrow> children p = None \<and> p \<noteq> engine_pid \<and> \<not> p \<le> 1"

text \<open>
  Within \<open>n\<close> processes counted from \<open>p\<close> itself, the first one the walk does not pass is a recorded
  child of this name.
\<close>

definition nearest_child ::
  "nat \<Rightarrow> pid \<Rightarrow> pid \<Rightarrow> (pid \<rightharpoonup> string) \<Rightarrow> (pid \<Rightarrow> pid option) \<Rightarrow> string \<Rightarrow> bool" where
  "nearest_child n p e ch par name \<longleftrightarrow>
     (\<exists>k < n. \<exists>q. climb par k p = Some q \<and> ch q = Some name
        \<and> (\<forall>j < k. \<forall>q'. climb par j p = Some q' \<longrightarrow> passes e ch q'))"

lemma nearest_child_0 [simp]: "\<not> nearest_child 0 p e ch par name"
  by (simp add: nearest_child_def)

lemma nearest_child_Suc:
  "nearest_child (Suc n) p e ch par name \<longleftrightarrow>
     ch p = Some name
     \<or> (passes e ch p \<and> (\<exists>pp. par p = Some pp \<and> nearest_child n pp e ch par name))"
proof (cases "par p")
  case None
  then show ?thesis
    by (auto simp: nearest_child_def Ex_less_Suc2)
next
  case (Some pp)
  then show ?thesis
    by (auto simp: nearest_child_def Ex_less_Suc2 All_less_Suc2)
qed

lemma ancestry_loop_Primitive_iff:
  "ancestry_loop n p e ch par = ResolvedPrimitive name \<longleftrightarrow> nearest_child n p e ch par name"
proof (induction n arbitrary: p)
  case (Suc n)
  then show ?case
    by (auto simp: nearest_child_Suc passes_def split: option.splits)
qed simp

lemma resolve_ancestry_Primitive_iff:
  "resolve_ancestry peer e ch par = ResolvedPrimitive name \<longleftrightarrow>
     (\<exists>p. peer = Some p \<and> nearest_child MAX_ANCESTRY_DEPTH p e ch par name)"
  by (auto simp: resolve_ancestry_def ancestry_loop_Primitive_iff split: option.splits)

lemma ancestry_loop_UnrecordedChild:
  "ancestry_loop n p e ch par = UnrecordedChild \<Longrightarrow> ch e = None \<and> (\<exists>k < n. climb par k p = Some e)"
proof (induction n arbitrary: p)
  case (Suc n)
  show ?case
  proof (cases "p = e")
    case True
    with Suc.prems show ?thesis by (auto simp: Ex_less_Suc2 split: option.splits)
  next
    case False
    with Suc.prems obtain pp where "par p = Some pp" "ancestry_loop n pp e ch par = UnrecordedChild"
      by (auto split: option.splits if_splits)
    with Suc.IH [of pp] show ?thesis by (auto simp: Ex_less_Suc2)
  qed
qed simp

section \<open>The retry loop\<close>

text \<open>
  With at least one attempt the walk returns what one of its looks saw, and a look that found the
  peer neither unnamed inside the engine's tree nor last ends it.
\<close>

lemma walk_from_result:
  "0 < left \<Longrightarrow> k + left = Suc (ar_attempts r) \<Longrightarrow>
   \<exists>j. k \<le> j \<and> j \<le> ar_attempts r
     \<and> walk_from r view p k left = resolve_ancestry p (ar_engine_pid r) (fst (view j)) (snd (view j))
     \<and> (\<forall>i. k \<le> i \<and> i < j \<longrightarrow>
          resolve_ancestry p (ar_engine_pid r) (fst (view i)) (snd (view i)) = UnrecordedChild)
     \<and> (j < ar_attempts r \<longrightarrow> walk_from r view p k left \<noteq> UnrecordedChild)"
proof (induction left arbitrary: k)
  case (Suc l)
  let ?res = "\<lambda>i. resolve_ancestry p (ar_engine_pid r) (fst (view i)) (snd (view i))"
  show ?case
  proof (cases "?res k \<noteq> UnrecordedChild \<or> k = ar_attempts r")
    case True
    with Suc.prems show ?thesis by (intro exI [of _ k]) (auto simp: Let_def)
  next
    case False
    with Suc.prems have "0 < l" "Suc k + l = Suc (ar_attempts r)" by auto
    from Suc.IH [OF this] obtain j where "Suc k \<le> j" "j \<le> ar_attempts r"
      "walk_from r view p (Suc k) l = ?res j"
      "\<forall>i. Suc k \<le> i \<and> i < j \<longrightarrow> ?res i = UnrecordedChild"
      "j < ar_attempts r \<longrightarrow> walk_from r view p (Suc k) l \<noteq> UnrecordedChild" by blast
    with False show ?thesis
      by (intro exI [of _ j]) (auto simp: Let_def le_Suc_eq dest: le_neq_implies_less)
  qed
qed simp

lemma walk_first_look:
  assumes "0 < ar_attempts r"
    and "resolve_ancestry p (ar_engine_pid r) (fst (view 1)) (snd (view 1)) \<noteq> UnrecordedChild"
  shows "walk r view p = resolve_ancestry p (ar_engine_pid r) (fst (view 1)) (snd (view 1))"
  using assms by (cases "ar_attempts r") (simp_all add: walk_def Let_def)

lemma walk_Primitive:
  assumes "walk r view p = ResolvedPrimitive n"
  shows "\<exists>j. 1 \<le> j \<and> j \<le> ar_attempts r
    \<and> resolve_ancestry p (ar_engine_pid r) (fst (view j)) (snd (view j)) = ResolvedPrimitive n"
proof (cases "ar_attempts r")
  case 0
  with assms show ?thesis by (simp add: walk_def)
next
  case (Suc m)
  with walk_from_result [of "ar_attempts r" 1 r view p] assms show ?thesis
    unfolding walk_def by (metis One_nat_def add.commute plus_1_eq_Suc zero_less_Suc)
qed

section \<open>Admission\<close>

lemma admission_denied_iff:
  "\<not> is_admitted (admission_for mode i peer_uid engine_uid) \<longleftrightarrow>
     mode = AM_Strict \<and> \<not> is_managed i \<and> peer_uid \<noteq> Some engine_uid"
  by (auto simp: admission_for_def is_admitted_def split: authentication_mode.splits option.splits)

lemma resolve_Ok_iff:
  "resolve r view peer = Ok i \<longleftrightarrow>
     i = (case walk r view (Option.bind peer fst) of
              ResolvedPrimitive n \<Rightarrow> Primitive n
            | _ \<Rightarrow> Unmanaged (Option.bind peer fst) (case map_option snd peer of Some u \<Rightarrow> u | None \<Rightarrow> 0))
     \<and> is_admitted (admission_for (ar_mode r) i (map_option snd peer) (ar_engine_uid r))"
  by (auto simp: resolve_def Let_def is_admitted_def unmanaged_from_def
      split: admission_decision.splits resolution.splits)

lemma resolve_Primitive:
  "resolve r view peer = Ok (Primitive n) \<Longrightarrow> walk r view (Option.bind peer fst) = ResolvedPrimitive n"
  by (auto simp: resolve_Ok_iff split: resolution.splits)

section \<open>The registry\<close>

lemma remember_mem: "connection_id \<in> set (fst (remember ids connection_id cap))"
  by (simp add: remember_def)

lemma remember_length:
  "length ids \<le> cap \<Longrightarrow> 0 < cap \<Longrightarrow> length (fst (remember ids c cap)) \<le> cap"
  by (auto simp: remember_def)

lemma remember_distinct: "distinct ids \<Longrightarrow> distinct (fst (remember ids c cap))"
  by (cases ids) (auto simp: remember_def)

lemma remember_keeps:
  "x \<in> set ids \<Longrightarrow> x \<in> set (fst (remember ids c cap)) \<or> snd (remember ids c cap) = Some x"
  by (cases ids) (auto simp: remember_def)

text \<open>The registry's invariant: the ids of a primitive are distinct and at most the cap.\<close>

definition registry_ok :: "connection_registry \<Rightarrow> bool" where
  "registry_ok reg \<longleftrightarrow>
     (\<forall>n. distinct (connections_for reg n)
        \<and> length (connections_for reg n) \<le> MAX_CONNECTIONS_PER_PRIMITIVE)"

datatype registry_event =
    Admitted connection_identity usize
  | ChildExit string pid
  | InstallRevoker

text \<open>What the engine does to the registry over its life, one event at a time.\<close>

definition registry_step :: "(usize \<Rightarrow> bool) \<Rightarrow> connection_registry \<Rightarrow> registry_event \<Rightarrow> connection_registry" where
  "registry_step is_open reg ev = (case ev of
      Admitted i c \<Rightarrow> registry_record reg i c
    | ChildExit n p \<Rightarrow> fst (on_child_exit is_open reg n p)
    | InstallRevoker \<Rightarrow> install_revoker reg)"

lemma connections_for_record:
  "connections_for (registry_record reg i c) n =
     (if primitive_name_of i = Some n
      then fst (remember (connections_for reg n) c MAX_CONNECTIONS_PER_PRIMITIVE)
      else connections_for reg n)"
  by (auto simp: connections_for_def registry_record_def split: option.splits)

lemma connections_for_exit:
  "connections_for (fst (on_child_exit is_open reg m p)) n = (if n = m then [] else connections_for reg n)"
  by (auto simp: connections_for_def on_child_exit_def revoke_all_def Let_def)

lemma connections_for_install [simp]: "connections_for (install_revoker reg) n = connections_for reg n"
  by (simp add: connections_for_def install_revoker_def)

lemma registry_new_ok: "registry_ok registry_new"
  by (simp add: registry_ok_def registry_new_def connections_for_def)

lemma registry_step_ok: "registry_ok reg \<Longrightarrow> registry_ok (registry_step is_open reg ev)"
  by (cases ev)
     (auto simp: registry_ok_def registry_step_def connections_for_record connections_for_exit
       remember_distinct remember_length MAX_CONNECTIONS_PER_PRIMITIVE_def)

interpretation registry: step_function "registry_step is_open" registry_ok for is_open
  by unfold_locales (rule registry_step_ok)

lemma exit_revokes:
  "cr_revoker_installed reg \<Longrightarrow> snd (on_child_exit is_open reg n p) = connections_for reg n"
  by (simp add: on_child_exit_def revoke_all_def Let_def)

section \<open>Properties\<close>

text \<open>
  C14. A connection is named after a primitive only on evidence of the process tree. Where the
  resolver binds the name \<open>n\<close> to a peer, some look it took found the peer's pid or an ancestor of
  it, within the 16 processes the walk looks at, recorded as the child spawned for \<open>n\<close>, with every process below
  it neither recorded, nor the engine, nor an init process: the nearest recorded child names the
  connection.
\<close>

theorem identity_is_nearest_child:
  assumes "resolve r view peer = Ok (Primitive n)"
  shows "\<exists>j p k q. 1 \<le> j \<and> j \<le> ar_attempts r \<and> Option.bind peer fst = Some p \<and> k < MAX_ANCESTRY_DEPTH
    \<and> climb (snd (view j)) k p = Some q \<and> fst (view j) q = Some n
    \<and> (\<forall>i < k. \<forall>q'. climb (snd (view j)) i p = Some q' \<longrightarrow> passes (ar_engine_pid r) (fst (view j)) q')"
proof -
  from walk_Primitive [OF resolve_Primitive [OF assms]] obtain j where "1 \<le> j" "j \<le> ar_attempts r"
      "resolve_ancestry (Option.bind peer fst) (ar_engine_pid r) (fst (view j)) (snd (view j)) = ResolvedPrimitive n"
    by blast
  then show ?thesis
    unfolding resolve_ancestry_Primitive_iff nearest_child_def by blast
qed

definition sample_resolver :: ancestry_resolver where
  "sample_resolver = \<lparr> ar_mode = AM_Strict, ar_engine_pid = 10, ar_engine_uid = 1000, ar_attempts = 2 \<rparr>"

text \<open>The launcher case: pid 21 is the interpreter the recorded child 20 started.\<close>

definition sample_view :: "nat \<Rightarrow> process_view" where
  "sample_view j = ([20 \<mapsto> ''timer''], [21 \<mapsto> 20, 20 \<mapsto> 10])"

theorem identity_is_nearest_child_witness:
  "resolve sample_resolver sample_view (Some (Some 21, 1000)) = Ok (Primitive ''timer'')
   \<and> (\<exists>j p k q. 1 \<le> j \<and> j \<le> 2 \<and> Option.bind (Some (Some 21, 1000 :: u32)) fst = Some p \<and> k < MAX_ANCESTRY_DEPTH
     \<and> climb (snd (sample_view j)) k p = Some q \<and> fst (sample_view j) q = Some ''timer'')"
proof -
  have r: "resolve sample_resolver sample_view (Some (Some 21, 1000)) = Ok (Primitive ''timer'')"
    by code_simp
  have "ar_attempts sample_resolver = 2"
    by (simp add: sample_resolver_def)
  then show ?thesis
    using identity_is_nearest_child [OF r] r by auto
qed

text \<open>
  Admission refuses a peer exactly in strict mode, when the process tree did not name it and it
  runs under a user other than the engine's or under one the kernel did not report; and what it
  refuses is never bound to an identity.
\<close>

theorem admission_refuses_iff:
  "\<not> is_ok (resolve r view peer) \<longleftrightarrow>
     ar_mode r = AM_Strict \<and> (\<forall>n. walk r view (Option.bind peer fst) \<noteq> ResolvedPrimitive n)
     \<and> map_option snd peer \<noteq> Some (ar_engine_uid r)"
proof -
  define i where "i = (case walk r view (Option.bind peer fst) of
      ResolvedPrimitive n \<Rightarrow> Primitive n
    | _ \<Rightarrow> Unmanaged (Option.bind peer fst) (case map_option snd peer of Some u \<Rightarrow> u | None \<Rightarrow> 0))"
  have "is_ok (resolve r view peer) \<longleftrightarrow>
      is_admitted (admission_for (ar_mode r) i (map_option snd peer) (ar_engine_uid r))"
    unfolding is_ok_iff resolve_Ok_iff i_def by auto
  moreover have "is_managed i \<longleftrightarrow> (\<exists>n. walk r view (Option.bind peer fst) = ResolvedPrimitive n)"
    by (auto simp: i_def is_managed_def split: resolution.splits)
  ultimately show ?thesis
    using admission_denied_iff [of "ar_mode r" i "map_option snd peer" "ar_engine_uid r"] by blast
qed

text \<open>
  C9. A dead primitive keeps no connection. Over any sequence of admissions, child exits and the
  installation of the revoker, the connections recorded for a primitive are distinct and within the
  cap; and once the revoker is there, the exit of a primitive's child revokes every connection
  recorded for it, the last one admitted among them, leaves none recorded, and keeps every other
  primitive's.
\<close>

theorem exit_leaves_no_connection:
  assumes "reg = run_steps (registry_step is_open) registry_new evs" and "cr_revoker_installed reg"
  shows "length (connections_for reg n) \<le> MAX_CONNECTIONS_PER_PRIMITIVE \<and> distinct (connections_for reg n)
    \<and> snd (on_child_exit is_open reg n p) = connections_for reg n
    \<and> c \<in> set (snd (on_child_exit is_open (registry_record reg (Primitive n) c) n p))
    \<and> connections_for (fst (on_child_exit is_open reg n p)) n' = (if n' = n then [] else connections_for reg n')"
proof -
  have "registry_ok reg"
    using registry.run_inv [OF registry_new_ok] by (simp add: assms(1))
  moreover have "cr_revoker_installed (registry_record reg (Primitive n) c)"
    using assms(2) by (simp add: registry_record_def primitive_name_of_def split: option.splits)
  ultimately show ?thesis
    using assms(2) remember_mem
    by (auto simp: registry_ok_def exit_revokes connections_for_exit connections_for_record primitive_name_of_def)
qed

theorem exit_leaves_no_connection_witness:
  "snd (on_child_exit (\<lambda>_. True) (run_steps (registry_step (\<lambda>_. True)) registry_new
      [InstallRevoker, Admitted (Primitive ''timer'') 3, Admitted (Primitive ''log'') 4, Admitted (Primitive ''timer'') 5])
     ''timer'' 20) = [3, 5]"
  using exit_leaves_no_connection [OF refl, of "\<lambda>_. True"
      "[InstallRevoker, Admitted (Primitive ''timer'') 3, Admitted (Primitive ''log'') 4, Admitted (Primitive ''timer'') 5]"
      "''timer''" 20 0 "''timer''"]
  by (simp add: registry_step_def registry_record_def install_revoker_def registry_new_def primitive_name_of_def
      remember_def MAX_CONNECTIONS_PER_PRIMITIVE_def connections_for_def)

end
