(* ===== verification/Readiness.thy ===== *)
theory Readiness
  imports Ipc_Identity "HOL-Library.Multiset"
begin

text \<open>
  The decision of when a startup tier may be left behind, after
  \<^verbatim>\<open>emergent-engine/src/readiness.rs\<close>: the evidence about one primitive, the verdict on a tier,
  the ledger of authorised subscribes, and the channel the security policy reports them on.

  A \<^verbatim>\<open>BTreeSet\<close> is a set, a \<^verbatim>\<open>HashMap\<close> a partial map, and the unbounded channel is the list of
  the observations sent and not yet drained, or \<open>None\<close> once its receiver is gone.
\<close>

section \<open>Evidence and the verdict on a tier\<close>

definition DISCOVERY_RESPONSE_TOPIC :: string where
  "DISCOVERY_RESPONSE_TOPIC = ''system.response.subscriptions''"

datatype evidence = Subscribed | Waiting | NotRunning

definition is_primitive_subscription :: "string list \<Rightarrow> bool" where
  "is_primitive_subscription subscribed_types = list_ex (\<lambda>t. t \<noteq> DISCOVERY_RESPONSE_TOPIC) subscribed_types"

definition classify :: "bool \<Rightarrow> bool \<Rightarrow> evidence" where
  "classify running subscription_confirmed =
     (if subscription_confirmed then Subscribed else if running then Waiting else NotRunning)"

record tier_member =
  tm_name :: string
  tm_declares_subscriptions :: bool
  tm_evidence :: evidence

record tier_verdict =
  tv_ready :: bool
  tv_waiting_on :: "string list"

definition evaluate_tier :: "tier_member list \<Rightarrow> tier_verdict" where
  "evaluate_tier members =
     (let waiting_on =
        sort (map tm_name
          (filter (\<lambda>m. tm_evidence m = Waiting) (filter tm_declares_subscriptions members)))
      in \<lparr> tv_ready = (waiting_on = []), tv_waiting_on = waiting_on \<rparr>)"

section \<open>The ledger of authorised subscribes\<close>

datatype observed_subscriber_kind = Named string | Pid pid | Anonymous

definition attribute :: "observed_subscriber_kind \<Rightarrow> (pid \<rightharpoonup> string) \<Rightarrow> string option" where
  "attribute subscriber children =
     (case subscriber of
        Named name \<Rightarrow> Some name
      | Pid pid \<Rightarrow> children pid
      | Anonymous \<Rightarrow> None)"

definition UNATTRIBUTED_CAP :: usize where
  "UNATTRIBUTED_CAP = 64"

record ledger =
  lg_confirmed :: "string set"
  lg_unattributed :: "observed_subscriber_kind list"

definition ledger_default :: ledger where
  "ledger_default = \<lparr> lg_confirmed = {}, lg_unattributed = [] \<rparr>"

text \<open>The body of the loop of \<^verbatim>\<open>absorb\<close>, on the two collections it builds.\<close>

definition absorb_one :: "(pid \<rightharpoonup> string) \<Rightarrow> ledger \<Rightarrow> observed_subscriber_kind \<Rightarrow> ledger" where
  "absorb_one children l subscriber =
     (case attribute subscriber children of
        Some name \<Rightarrow> l\<lparr> lg_confirmed := insert name (lg_confirmed l) \<rparr>
      | None \<Rightarrow>
          if length (lg_unattributed l) < UNATTRIBUTED_CAP
          then l\<lparr> lg_unattributed := lg_unattributed l @ [subscriber] \<rparr> else l)"

definition absorb :: "ledger \<Rightarrow> observed_subscriber_kind list \<Rightarrow> (pid \<rightharpoonup> string) \<Rightarrow> ledger" where
  "absorb l observed children =
     foldl (absorb_one children) (l\<lparr> lg_unattributed := [] \<rparr>) (lg_unattributed l @ observed)"

section \<open>The signal\<close>

type_synonym subscribe_signals = "observed_subscriber_kind list option"

definition startup_channel :: subscribe_signals where
  "startup_channel = Some []"

definition note_subscribe :: "subscribe_signals \<Rightarrow> observed_subscriber_kind \<Rightarrow> string list \<Rightarrow> subscribe_signals" where
  "note_subscribe ch subscriber topics =
     (if \<not> is_primitive_subscription topics then ch
      else map_option (\<lambda>q. q @ [subscriber]) ch)"

definition drain :: "subscribe_signals \<Rightarrow> observed_subscriber_kind list \<times> subscribe_signals" where
  "drain ch = (case ch of None \<Rightarrow> ([], None) | Some q \<Rightarrow> (q, Some []))"

definition observed_subscriber :: "connection_identity \<Rightarrow> observed_subscriber_kind" where
  "observed_subscriber identity =
     (case identity of
        Primitive name \<Rightarrow> Named name
      | Unmanaged (Some pid) uid \<Rightarrow> Pid pid
      | Unmanaged None uid \<Rightarrow> Anonymous)"

definition startup_on_subscribed ::
    "subscribe_signals \<Rightarrow> connection_identity \<Rightarrow> string list \<Rightarrow> subscribe_signals" where
  "startup_on_subscribed ch identity topics = note_subscribe ch (observed_subscriber identity) topics"

section \<open>Lemmas on the verdict\<close>

text \<open>A member holds its tier when it declares subscriptions and only waiting was seen of it.\<close>

definition holds_tier :: "tier_member \<Rightarrow> bool" where
  "holds_tier m = (tm_declares_subscriptions m \<and> tm_evidence m = Waiting)"

lemma waiting_on_eq: "tv_waiting_on (evaluate_tier ms) = sort (map tm_name (filter holds_tier ms))"
  by (simp add: evaluate_tier_def Let_def holds_tier_def [abs_def] conj_commute cong: filter_cong)

lemma tier_ready_eq: "tv_ready (evaluate_tier ms) \<longleftrightarrow> tv_waiting_on (evaluate_tier ms) = []"
  by (simp add: evaluate_tier_def Let_def)

lemma sort_eq_Nil_iff [simp]: "sort xs = [] \<longleftrightarrow> xs = []"
  by (metis length_0_conv length_sort)

lemma tier_ready_iff: "tv_ready (evaluate_tier ms) \<longleftrightarrow> (\<forall>m \<in> set ms. \<not> holds_tier m)"
  by (auto simp: tier_ready_eq waiting_on_eq filter_empty_conv)

lemma sort_mset_cong: "mset xs = mset ys \<Longrightarrow> sort xs = sort ys"
  by (rule properties_for_sort) simp_all

lemma evaluate_tier_perm: "mset ms = mset ms' \<Longrightarrow> evaluate_tier ms = evaluate_tier ms'"
proof -
  assume "mset ms = mset ms'"
  then have "mset (map tm_name (filter holds_tier ms)) = mset (map tm_name (filter holds_tier ms'))"
    by simp
  then have "tv_waiting_on (evaluate_tier ms) = tv_waiting_on (evaluate_tier ms')"
    unfolding waiting_on_eq by (rule sort_mset_cong)
  then show ?thesis
    by (simp add: tier_ready_eq)
qed

section \<open>Lemmas on the ledger\<close>

definition unattributable :: "(pid \<rightharpoonup> string) \<Rightarrow> observed_subscriber_kind \<Rightarrow> bool" where
  "unattributable children s = (attribute s children = None)"

definition attributed :: "(pid \<rightharpoonup> string) \<Rightarrow> observed_subscriber_kind list \<Rightarrow> string set" where
  "attributed children ss = {n. \<exists>s \<in> set ss. attribute s children = Some n}"

lemma attributed_simps [simp]:
  "attributed ch [] = {}"
  "attributed ch (xs @ ys) = attributed ch xs \<union> attributed ch ys"
  by (auto simp: attributed_def)

lemma attributed_Cons:
  "attributed ch (x # xs) = set_option (attribute x ch) \<union> attributed ch xs"
  by (auto simp: attributed_def)

lemma attributed_unattributable: "attributed ch (take n (filter (unattributable ch) xs)) = {}"
  by (auto simp: attributed_def unattributable_def dest!: in_set_takeD)

lemma foldl_absorb_one:
  "length (lg_unattributed l) \<le> UNATTRIBUTED_CAP \<Longrightarrow>
   foldl (absorb_one ch) l xs =
     l\<lparr> lg_confirmed := lg_confirmed l \<union> attributed ch xs,
        lg_unattributed := take UNATTRIBUTED_CAP (lg_unattributed l @ filter (unattributable ch) xs) \<rparr>"
  by (induction xs arbitrary: l)
     (auto simp: absorb_one_def attributed_Cons unattributable_def take_Cons' split: option.splits)

lemma absorb_eq:
  "absorb l xs ch =
     l\<lparr> lg_confirmed := lg_confirmed l \<union> attributed ch (lg_unattributed l @ xs),
        lg_unattributed := take UNATTRIBUTED_CAP (filter (unattributable ch) (lg_unattributed l @ xs)) \<rparr>"
  by (simp add: absorb_def foldl_absorb_one del: foldl_append filter_append attributed_simps)

lemma take_append_take: "take n (take n xs @ ys) = take n (xs @ ys)"
  by (simp add: min_def)

lemma filter_take_filter: "filter P (take n (filter P xs)) = take n (filter P xs)"
  by (rule filter_True) (auto dest: in_set_takeD)

lemma absorb_absorb: "absorb (absorb l xs ch) ys ch = absorb l (xs @ ys) ch"
proof -
  let ?seen = "filter (unattributable ch) (lg_unattributed l @ xs)"
  have "filter (unattributable ch) (take UNATTRIBUTED_CAP ?seen @ ys)
      = take UNATTRIBUTED_CAP ?seen @ filter (unattributable ch) ys"
    by (simp only: filter_append [of _ "take _ _"] filter_take_filter)
  then have "take UNATTRIBUTED_CAP (filter (unattributable ch) (take UNATTRIBUTED_CAP ?seen @ ys))
      = take UNATTRIBUTED_CAP (?seen @ filter (unattributable ch) ys)"
    by (simp only: take_append_take)
  moreover have "attributed ch (take UNATTRIBUTED_CAP ?seen @ ys) = attributed ch ys"
    by (simp only: attributed_simps attributed_unattributable Un_empty_left)
  ultimately show ?thesis
    by (simp add: absorb_eq Un_assoc del: take_append)
qed

section \<open>Properties\<close>

text \<open>
  A startup tier is left behind exactly when no member that declares subscriptions is still only
  waiting, a primitive that exited or never spawned holding nothing up; otherwise the verdict names
  exactly the members that hold it, sorted. The verdict does not depend on the order the members
  are listed in.
\<close>

theorem evaluate_tier_verdict:
  "(tv_ready (evaluate_tier ms) \<longleftrightarrow>
      list_all (\<lambda>m. tm_declares_subscriptions m \<longrightarrow> tm_evidence m \<noteq> Waiting) ms)
   \<and> mset (tv_waiting_on (evaluate_tier ms)) =
       image_mset tm_name {#m \<in># mset ms. tm_declares_subscriptions m \<and> tm_evidence m = Waiting#}
   \<and> sorted (tv_waiting_on (evaluate_tier ms))
   \<and> evaluate_tier (rev ms) = evaluate_tier ms"
proof -
  have "evaluate_tier (rev ms) = evaluate_tier ms"
    by (rule evaluate_tier_perm) simp
  then show ?thesis
    by (auto simp: tier_ready_iff waiting_on_eq holds_tier_def [abs_def] list_all_iff)
qed

text \<open>The verdict on one waiting sink and one that exited: the tier waits for the first only.\<close>

theorem evaluate_tier_verdict_witness:
  "tv_waiting_on (evaluate_tier
     [\<lparr> tm_name = ''b'', tm_declares_subscriptions = True, tm_evidence = Waiting \<rparr>,
      \<lparr> tm_name = ''a'', tm_declares_subscriptions = True, tm_evidence = NotRunning \<rparr>]) = [''b'']"
  using evaluate_tier_verdict [of
     "[\<lparr> tm_name = ''b'', tm_declares_subscriptions = True, tm_evidence = Waiting \<rparr>,
      \<lparr> tm_name = ''a'', tm_declares_subscriptions = True, tm_evidence = NotRunning \<rparr>]"]
  by simp

text \<open>
  The ledger does not depend on how the subscribe signals are batched: folding in one drain and
  then the next gives what one fold of both gives, the observations kept for a retry included, the
  names confirmed are exactly those the attribution gives, and at most 64 observations are kept.
\<close>

theorem absorb_batches:
  "absorb (absorb l xs children) ys children = absorb l (xs @ ys) children
   \<and> lg_confirmed (absorb l xs children) =
       lg_confirmed l \<union> {n. \<exists>s \<in> set (lg_unattributed l @ xs). attribute s children = Some n}
   \<and> length (lg_unattributed (absorb l xs children)) \<le> 64"
  by (simp only: absorb_absorb) (simp add: absorb_eq attributed_def UNATTRIBUTED_CAP_def del: take_append)

end
