(* ===== verification/Topics.thy ===== *)
theory Topics
  imports Prelude
begin

text \<open>
  Subscription topics, from \<^verbatim>\<open>sdks/rust/src/subscribe.rs\<close>. The SDK, the configuration checks and
  the declaration table all decide topics through the functions modelled here: a topic is a
  literal message type or a prefix selector ending in a single \<^verbatim>\<open>*\<close>.

  The lemmas give the declarative reading of each function (what a topic denotes), that the
  partition the SDK sends to the engine keeps the caller's order and denotes the same set of
  message types, and the interface \<open>topic_language\<close> through which the declaration table uses them.
\<close>

section \<open>Definitions\<close>

definition MAX_PATTERN_LEN :: usize where
  "MAX_PATTERN_LEN = 256"

datatype topic_kind = Exact | Pattern

datatype invalid_topic =
    EmptyTopic
  | MisplacedWildcard string
  | PatternTooLong string usize

abbreviation star :: char where
  "star \<equiv> CHR 0x2A"

definition show_invalid_topic :: "invalid_topic \<Rightarrow> string" where
  "show_invalid_topic e = (case e of
      EmptyTopic \<Rightarrow> ''subscription topic cannot be empty''
    | MisplacedWildcard topic \<Rightarrow>
        ''subscription topic '' @ quoted topic @ '' can never match: '' @ quoted [star]
        @ '' is only a wildcard as the final character, so write a prefix selector such as ''
        @ quoted (hd (split_on star topic) @ [star]) @ '' instead''
    | PatternTooLong topic len \<Rightarrow>
        ''subscription topic '' @ quoted topic @ '' is '' @ show_nat len
        @ '' bytes, over the '' @ show_nat MAX_PATTERN_LEN
        @ ''-byte limit for a wildcard topic'')"

definition pattern_prefix :: "string \<Rightarrow> string option" where
  "pattern_prefix topic = (case strip_suffix [star] topic of
      None \<Rightarrow> None
    | Some pre \<Rightarrow> if star \<in> set pre then None else Some pre)"

definition classify_topic :: "string \<Rightarrow> (invalid_topic, topic_kind) result" where
  "classify_topic topic =
     (if topic = [] then Err EmptyTopic
      else if star \<notin> set topic then Ok Exact
      else if pattern_prefix topic = None then Err (MisplacedWildcard topic)
      else if length topic > MAX_PATTERN_LEN then Err (PatternTooLong topic (length topic))
      else Ok Pattern)"

definition topic_matches :: "string \<Rightarrow> string \<Rightarrow> bool" where
  "topic_matches topic message_type = (case pattern_prefix topic of
      None \<Rightarrow> star \<notin> set topic \<and> topic = message_type
    | Some pre \<Rightarrow> starts_with message_type pre)"

record topic_partition =
  tp_exact :: "string list"
  tp_patterns :: "string list"

fun partition_topics_from :: "topic_partition \<Rightarrow> string list \<Rightarrow> (invalid_topic, topic_partition) result" where
  "partition_topics_from part [] = Ok part"
| "partition_topics_from part (topic # topics) = (case classify_topic topic of
      Inl e \<Rightarrow> Err e
    | Inr Exact \<Rightarrow> partition_topics_from (part\<lparr>tp_exact := tp_exact part @ [topic]\<rparr>) topics
    | Inr Pattern \<Rightarrow>
        partition_topics_from (part\<lparr>tp_patterns := tp_patterns part @ [topic]\<rparr>) topics)"

definition partition_topics :: "string list \<Rightarrow> (invalid_topic, topic_partition) result" where
  "partition_topics topics = partition_topics_from \<lparr>tp_exact = [], tp_patterns = []\<rparr> topics"

definition needs_configured_topics :: "string list \<Rightarrow> bool" where
  "needs_configured_topics requested = (requested = [])"

definition resolve_topics :: "string list \<Rightarrow> string list \<Rightarrow> string list" where
  "resolve_topics requested configured = (if requested = [] then configured else requested)"

section \<open>What a topic denotes\<close>

lemma pattern_prefix_Some_iff:
  "pattern_prefix topic = Some pre \<longleftrightarrow> topic = pre @ [star] \<and> star \<notin> set pre"
  by (auto simp: pattern_prefix_def strip_suffix_Some_iff split: option.splits)

lemma pattern_prefix_snoc [simp]: "star \<notin> set pre \<Longrightarrow> pattern_prefix (pre @ [star]) = Some pre"
  by (simp add: pattern_prefix_Some_iff)

lemma pattern_prefix_literal: "star \<notin> set topic \<Longrightarrow> pattern_prefix topic = None"
  by (metis in_set_conv_decomp not_Some_eq pattern_prefix_Some_iff)

lemma classify_Exact_iff: "classify_topic topic = Ok Exact \<longleftrightarrow> topic \<noteq> [] \<and> star \<notin> set topic"
  by (auto simp: classify_topic_def split: if_splits)

lemma classify_Pattern_iff:
  "classify_topic topic = Ok Pattern \<longleftrightarrow>
     (\<exists>pre. topic = pre @ [star] \<and> star \<notin> set pre \<and> length pre < MAX_PATTERN_LEN)"
proof
  assume "classify_topic topic = Ok Pattern"
  then have "pattern_prefix topic \<noteq> None" "length topic \<le> MAX_PATTERN_LEN"
    by (auto simp: classify_topic_def split: if_splits)
  then show "\<exists>pre. topic = pre @ [star] \<and> star \<notin> set pre \<and> length pre < MAX_PATTERN_LEN"
    by (auto simp: pattern_prefix_Some_iff)
next
  assume "\<exists>pre. topic = pre @ [star] \<and> star \<notin> set pre \<and> length pre < MAX_PATTERN_LEN"
  then show "classify_topic topic = Ok Pattern"
    by (auto simp: classify_topic_def)
qed

lemma topic_matches_literal: "star \<notin> set topic \<Longrightarrow> topic_matches topic m \<longleftrightarrow> topic = m"
  by (simp add: topic_matches_def pattern_prefix_literal)

lemma topic_matches_pattern: "star \<notin> set pre \<Longrightarrow> topic_matches (pre @ [star]) m \<longleftrightarrow> starts_with m pre"
  by (simp add: topic_matches_def)

lemma topic_matches_misplaced:
  "star \<in> set topic \<Longrightarrow> pattern_prefix topic = None \<Longrightarrow> \<not> topic_matches topic m"
  by (simp add: topic_matches_def)

lemma topic_matches_self: "is_ok (classify_topic topic) \<Longrightarrow> topic_matches topic topic"
  by (auto simp: is_ok_iff classify_topic_def topic_matches_def pattern_prefix_Some_iff
      split: if_splits option.splits)

text \<open>
  Both spellings a classified topic can have, as a case rule: every client of the classification
  argues by it.
\<close>

lemma classify_ok_cases:
  assumes "is_ok (classify_topic topic)"
  obtains (exact) "classify_topic topic = Ok Exact" "topic \<noteq> []" "star \<notin> set topic"
    | (pattern) pre where "classify_topic topic = Ok Pattern" "topic = pre @ [star]" "star \<notin> set pre"
proof -
  from assms obtain k where k: "classify_topic topic = Ok k" by (auto simp: is_ok_iff)
  show thesis
  proof (cases k)
    case Exact
    with k show thesis using classify_Exact_iff exact by blast
  next
    case Pattern
    with k show thesis using classify_Pattern_iff pattern by metis
  qed
qed

section \<open>The interface other components use\<close>

text \<open>
  What the declaration table and the configuration checks rely on: a valid topic is either a
  literal, which denotes itself, or has a prefix, which denotes its extensions; an invalid one has
  no kind at all.
\<close>

locale topic_language =
  fixes classify :: "string \<Rightarrow> ('e, topic_kind) result"
    and prefix_of :: "string \<Rightarrow> string option"
    and matches :: "string \<Rightarrow> string \<Rightarrow> bool"
  assumes exact_matches: "classify t = Ok Exact \<Longrightarrow> matches t m \<longleftrightarrow> t = m"
    and pattern_matches: "classify t = Ok Pattern \<Longrightarrow> \<exists>p. prefix_of t = Some p \<and> (\<forall>m. matches t m \<longleftrightarrow> starts_with m p)"
begin

text \<open>The message types a list of topics covers, valid topics only.\<close>

definition covers :: "string list \<Rightarrow> string \<Rightarrow> bool" where
  "covers ts m \<longleftrightarrow> (\<exists>t \<in> set ts. is_ok (classify t) \<and> matches t m)"

lemma covers_simps [simp]:
  "\<not> covers [] m"
  "covers (t # ts) m \<longleftrightarrow> (is_ok (classify t) \<and> matches t m) \<or> covers ts m"
  "covers (ts @ us) m \<longleftrightarrow> covers ts m \<or> covers us m"
  by (auto simp: covers_def)

lemma covers_split:
  "covers ts m \<longleftrightarrow>
     (\<exists>t \<in> set ts. classify t = Ok Exact \<and> t = m)
     \<or> (\<exists>t \<in> set ts. \<exists>p. classify t = Ok Pattern \<and> prefix_of t = Some p \<and> starts_with m p)"
proof -
  have "is_ok (classify t) \<and> matches t m \<longleftrightarrow>
      (classify t = Ok Exact \<and> t = m) \<or> (\<exists>p. classify t = Ok Pattern \<and> prefix_of t = Some p \<and> starts_with m p)"
    for t
  proof (cases "classify t")
    case (Inr k)
    show ?thesis
    proof (cases k)
      case Exact
      with Inr show ?thesis by (simp add: exact_matches)
    next
      case Pattern
      with Inr pattern_matches [of t] obtain p where "prefix_of t = Some p" "\<forall>m. matches t m \<longleftrightarrow> starts_with m p"
        by blast
      with Inr Pattern show ?thesis by simp
    qed
  qed simp
  then show ?thesis unfolding covers_def by blast
qed

end

interpretation topics: topic_language classify_topic pattern_prefix topic_matches
  by unfold_locales (auto simp: classify_Exact_iff classify_Pattern_iff topic_matches_literal
      topic_matches_pattern)

section \<open>The partition the SDK sends\<close>

lemma partition_topics_from_Ok:
  "partition_topics_from p ts = Ok q \<Longrightarrow>
     tp_exact q = tp_exact p @ filter (\<lambda>t. classify_topic t = Ok Exact) ts
     \<and> tp_patterns q = tp_patterns p @ filter (\<lambda>t. classify_topic t = Ok Pattern) ts
     \<and> (\<forall>t \<in> set ts. is_ok (classify_topic t))"
proof (induction ts arbitrary: p)
  case (Cons t ts)
  then show ?case
    by (auto split: sum.splits topic_kind.splits)
qed simp

lemma partition_topics_from_Err:
  "partition_topics_from p ts = Err e \<Longrightarrow>
     \<exists>us t vs. ts = us @ t # vs \<and> (\<forall>u \<in> set us. is_ok (classify_topic u)) \<and> classify_topic t = Err e"
proof (induction ts arbitrary: p)
  case (Cons t ts)
  show ?case
  proof (cases "classify_topic t")
    case (Inl e')
    with Cons.prems have "t # ts = [] @ t # ts \<and> (\<forall>u \<in> set []. is_ok (classify_topic u)) \<and> classify_topic t = Err e"
      by simp
    then show ?thesis by blast
  next
    case (Inr k)
    with Cons.prems obtain q where "partition_topics_from q ts = Err e"
      by (cases k) auto
    then obtain us t' vs where "ts = us @ t' # vs" "\<forall>u \<in> set us. is_ok (classify_topic u)"
        "classify_topic t' = Err e"
      using Cons.IH by blast
    with Inr have "t # ts = (t # us) @ t' # vs \<and> (\<forall>u \<in> set (t # us). is_ok (classify_topic u))
        \<and> classify_topic t' = Err e"
      by simp
    then show ?thesis by blast
  qed
qed simp

lemma partition_topics_total:
  "\<forall>t \<in> set ts. is_ok (classify_topic t) \<Longrightarrow> is_ok (partition_topics ts)"
  by (metis is_ok_simps(2) not_is_ok_iff in_set_conv_decomp partition_topics_def partition_topics_from_Err)

lemma partition_topics_split:
  assumes "partition_topics ts = Ok p"
  shows "tp_exact p = filter (\<lambda>t. classify_topic t = Ok Exact) ts"
    "tp_patterns p = filter (\<lambda>t. classify_topic t = Ok Pattern) ts"
    "\<forall>t \<in> set ts. is_ok (classify_topic t)"
    "(\<exists>t \<in> set ts. topic_matches t m) \<longleftrightarrow>
       m \<in> set (tp_exact p) \<or> (\<exists>t \<in> set (tp_patterns p). \<exists>pre. pattern_prefix t = Some pre \<and> starts_with m pre)"
proof -
  show p: "tp_exact p = filter (\<lambda>t. classify_topic t = Ok Exact) ts"
      "tp_patterns p = filter (\<lambda>t. classify_topic t = Ok Pattern) ts"
      "\<forall>t \<in> set ts. is_ok (classify_topic t)"
    using partition_topics_from_Ok assms by (force simp: partition_topics_def)+
  have "(\<exists>t \<in> set ts. topic_matches t m) \<longleftrightarrow> topics.covers ts m"
    using p(3) by (auto simp: topics.covers_def)
  then show "(\<exists>t \<in> set ts. topic_matches t m) \<longleftrightarrow>
       m \<in> set (tp_exact p) \<or> (\<exists>t \<in> set (tp_patterns p). \<exists>pre. pattern_prefix t = Some pre \<and> starts_with m pre)"
    using p by (auto simp: topics.covers_split)
qed

section \<open>Properties\<close>

text \<open>
  Partitioning a subscription into the two frames the wire has changes nothing about what is
  selected. It fails exactly when some topic is invalid, and then with the error of the first
  invalid one; otherwise a message type is selected by the exact topics (equality) or by the
  patterns (prefix test) exactly when some configured topic matches it.
\<close>

theorem partition_topics_selects:
  "case partition_topics ts of
     Inr p \<Rightarrow> list_all (\<lambda>t. is_ok (classify_topic t)) ts
       \<and> (\<forall>m. (\<exists>t \<in> set ts. topic_matches t m) \<longleftrightarrow>
            m \<in> set (tp_exact p)
            \<or> (\<exists>t \<in> set (tp_patterns p). \<exists>pre. pattern_prefix t = Some pre \<and> starts_with m pre))
   | Inl e \<Rightarrow> \<exists>us t vs. ts = us @ t # vs \<and> list_all (\<lambda>u. is_ok (classify_topic u)) us
       \<and> classify_topic t = Err e"
proof (cases "partition_topics ts")
  case (Inl e)
  then show ?thesis
    using partition_topics_from_Err by (force simp: partition_topics_def list_all_iff)
next
  case (Inr p)
  then show ?thesis
    using partition_topics_split [OF Inr] by (simp add: list_all_iff)
qed

end
