(* ===== verification/Declarations.thy ===== *)
theory Declarations
  imports Topics Lifecycle
begin

text \<open>
  What a primitive declared, and whether an operation falls inside it: the model of
  \<^verbatim>\<open>emergent-engine/src/declarations.rs\<close>. A \<^verbatim>\<open>HashSet\<close> is a set, a \<^verbatim>\<open>HashMap\<close> a map built by
  inserting the pairs in order, so a repeated key keeps its last value.

  The lemmas relate the prepared lookup sets to the declared topic lists (through the
  \<open>topic_language\<close> interface), give each verdict as a condition on the configuration, and state
  the contract \<open>enforcement_table\<close> the connection policy relies on.
\<close>

section \<open>Modes, operations, verdicts\<close>

datatype enforcement_mode = EM_Off | EM_Warn | EM_Strict

definition enforcement_mode_default :: enforcement_mode where
  "enforcement_mode_default = EM_Off"

definition enforcement_mode_as_str :: "enforcement_mode \<Rightarrow> string" where
  "enforcement_mode_as_str m = (case m of EM_Off \<Rightarrow> ''off'' | EM_Warn \<Rightarrow> ''warn'' | EM_Strict \<Rightarrow> ''strict'')"

definition enforcement_mode_is_enforcing :: "enforcement_mode \<Rightarrow> bool" where
  "enforcement_mode_is_enforcing m = (m \<noteq> EM_Off)"

datatype operation = Publish | Subscribe

definition operation_as_str :: "operation \<Rightarrow> string" where
  "operation_as_str op = (case op of Publish \<Rightarrow> ''publish'' | Subscribe \<Rightarrow> ''subscribe'')"

definition operation_config_key :: "operation \<Rightarrow> string" where
  "operation_config_key op = (case op of Publish \<Rightarrow> ''publishes'' | Subscribe \<Rightarrow> ''subscribes'')"

datatype verdict =
  Declared | Protocol | Undeclared | KindCannot | UnknownPrimitive | Unauthenticated | SourceMismatch

definition is_violation :: "verdict \<Rightarrow> bool" where
  "is_violation v =
     (v \<in> {Undeclared, KindCannot, UnknownPrimitive, Unauthenticated, SourceMismatch})"

datatype enforcement = Accept | Warn | Reject

definition enforcement_for :: "enforcement_mode \<Rightarrow> verdict \<Rightarrow> enforcement" where
  "enforcement_for mode v =
     (if \<not> is_violation v then Accept
      else (case mode of EM_Off \<Rightarrow> Accept | EM_Warn \<Rightarrow> Warn | EM_Strict \<Rightarrow> Reject))"

definition PROTOCOL_PUBLISHES :: "string list" where
  "PROTOCOL_PUBLISHES = [''system.request.subscriptions'', ''system.request.topology'']"

definition PROTOCOL_SUBSCRIBES :: "string list" where
  "PROTOCOL_SUBSCRIBES =
     [''system.shutdown'', ''system.response.subscriptions'', ''system.response.topology'']"

definition is_protocol_topic :: "operation \<Rightarrow> string \<Rightarrow> bool" where
  "is_protocol_topic op message_type = (case op of
      Publish \<Rightarrow> message_type \<in> set PROTOCOL_PUBLISHES
    | Subscribe \<Rightarrow> message_type \<in> set PROTOCOL_SUBSCRIBES)"

section \<open>Topic sets\<close>

record topic_set =
  ts_exact :: "string set"
  ts_prefixes :: "string list"

definition topic_set_default :: topic_set where
  "topic_set_default = \<lparr>ts_exact = {}, ts_prefixes = []\<rparr>"

definition topic_set_add :: "topic_set \<Rightarrow> string \<Rightarrow> topic_set" where
  "topic_set_add S topic = (case classify_topic topic of
      Inr Exact \<Rightarrow> S\<lparr>ts_exact := insert topic (ts_exact S)\<rparr>
    | Inr Pattern \<Rightarrow> (case pattern_prefix topic of
          Some pre \<Rightarrow> S\<lparr>ts_prefixes := ts_prefixes S @ [pre]\<rparr>
        | None \<Rightarrow> S)
    | Inl _ \<Rightarrow> S)"

definition topic_set_new :: "string list \<Rightarrow> topic_set" where
  "topic_set_new topics = foldl topic_set_add topic_set_default topics"

definition permits :: "topic_set \<Rightarrow> string \<Rightarrow> bool" where
  "permits S message_type =
     (message_type \<in> ts_exact S \<or> list_ex (\<lambda>pre. starts_with message_type pre) (ts_prefixes S))"

definition topic_set_is_empty :: "topic_set \<Rightarrow> bool" where
  "topic_set_is_empty S = (ts_exact S = {} \<and> ts_prefixes S = [])"

section \<open>Declarations of one primitive\<close>

record declarations =
  decl_kind :: primitive_kind
  decl_publishes :: topic_set
  decl_subscribes :: topic_set

definition declarations_new :: "primitive_kind \<Rightarrow> string list \<Rightarrow> string list \<Rightarrow> declarations" where
  "declarations_new k publishes subscribes =
     \<lparr>decl_kind = k, decl_publishes = topic_set_new publishes,
      decl_subscribes = topic_set_new subscribes\<rparr>"

definition kind_permits :: "declarations \<Rightarrow> operation \<Rightarrow> bool" where
  "kind_permits d op =
     (\<not> ((decl_kind d = Sink \<and> op = Publish) \<or> (decl_kind d = Source \<and> op = Subscribe)))"

definition topics_for :: "declarations \<Rightarrow> operation \<Rightarrow> topic_set" where
  "topics_for d op = (case op of Publish \<Rightarrow> decl_publishes d | Subscribe \<Rightarrow> decl_subscribes d)"

definition decide :: "declarations option \<Rightarrow> operation \<Rightarrow> string \<Rightarrow> verdict" where
  "decide decls op message_type =
     (if is_protocol_topic op message_type then Protocol
      else (case decls of
          None \<Rightarrow> UnknownPrimitive
        | Some d \<Rightarrow> if \<not> kind_permits d op then KindCannot
                    else if permits (topics_for d op) message_type then Declared
                    else Undeclared))"

definition violation_reason :: "verdict \<Rightarrow> string \<Rightarrow> operation \<Rightarrow> string \<Rightarrow> string" where
  "violation_reason v n op message_type =
     (let o' = operation_as_str op; field = operation_config_key op in
      case v of
        UnknownPrimitive \<Rightarrow> quoted n @ '' tried to '' @ o' @ '' '' @ quoted message_type
          @ '' but no primitive of that name is configured''
      | Unauthenticated \<Rightarrow> ''a connection the engine could not tie to a configured primitive tried to ''
          @ o' @ '' '' @ quoted message_type
      | KindCannot \<Rightarrow> quoted n @ '' tried to '' @ o' @ '' '' @ quoted message_type
          @ '' but its kind cannot '' @ o'
      | Undeclared \<Rightarrow> quoted n @ '' tried to '' @ o' @ '' '' @ quoted message_type
          @ '', which is not in its declared '' @ field @ '' list''
      | SourceMismatch \<Rightarrow> ''a message published as '' @ quoted message_type
          @ '' on the connection belonging to '' @ quoted n @ '' named a different source''
      | Declared \<Rightarrow> quoted n @ '' may '' @ o' @ '' '' @ quoted message_type
      | Protocol \<Rightarrow> quoted n @ '' may '' @ o' @ '' '' @ quoted message_type)"

definition decide_source :: "string option \<Rightarrow> string option \<Rightarrow> verdict" where
  "decide_source ident source = (case (ident, source) of
      (Some n, Some claimed) \<Rightarrow> if claimed \<noteq> n then SourceMismatch else Declared
    | _ \<Rightarrow> Declared)"

definition rejection_event_type :: "string \<Rightarrow> string" where
  "rejection_event_type n = ''system.error.'' @ n"

record rejection_report =
  rr_primitive :: string
  rr_operation :: string
  rr_message_type :: string
  rr_reason :: string
  rr_mode :: string

definition rejection_report_new ::
  "verdict \<Rightarrow> string \<Rightarrow> operation \<Rightarrow> string \<Rightarrow> enforcement_mode \<Rightarrow> rejection_report" where
  "rejection_report_new v n op message_type mode =
     \<lparr>rr_primitive = n, rr_operation = operation_as_str op, rr_message_type = message_type,
      rr_reason = violation_reason v n op message_type, rr_mode = enforcement_mode_as_str mode\<rparr>"

section \<open>The table\<close>

record declaration_table =
  dt_mode :: enforcement_mode
  dt_primitives :: "string \<rightharpoonup> declarations"

definition declaration_table_new ::
  "enforcement_mode \<Rightarrow> (string \<times> declarations) list \<Rightarrow> declaration_table" where
  "declaration_table_new mode prims =
     \<lparr>dt_mode = mode, dt_primitives = foldl (\<lambda>m (k, v). m(k \<mapsto> v)) Map.empty prims\<rparr>"

definition declaration_table_len :: "declaration_table \<Rightarrow> nat" where
  "declaration_table_len t = card (dom (dt_primitives t))"

record checked =
  ck_verdict :: verdict
  ck_enforcement :: enforcement

definition check_source :: "declaration_table \<Rightarrow> string option \<Rightarrow> string option \<Rightarrow> checked" where
  "check_source t ident source =
     (if \<not> enforcement_mode_is_enforcing (dt_mode t)
      then \<lparr>ck_verdict = Declared, ck_enforcement = Accept\<rparr>
      else let v = decide_source ident source
           in \<lparr>ck_verdict = v, ck_enforcement = enforcement_for (dt_mode t) v\<rparr>)"

definition check :: "declaration_table \<Rightarrow> string option \<Rightarrow> operation \<Rightarrow> string \<Rightarrow> checked" where
  "check t n op message_type =
     (if \<not> enforcement_mode_is_enforcing (dt_mode t)
      then \<lparr>ck_verdict = Declared, ck_enforcement = Accept\<rparr>
      else let v = (case n of
                None \<Rightarrow> if is_protocol_topic op message_type then Protocol else Unauthenticated
              | Some name \<Rightarrow> decide (dt_primitives t name) op message_type)
           in \<lparr>ck_verdict = v, ck_enforcement = enforcement_for (dt_mode t) v\<rparr>)"

section \<open>Verdicts\<close>

lemma is_violation_simps [simp]:
  "\<not> is_violation Declared" "\<not> is_violation Protocol" "is_violation Undeclared"
  "is_violation KindCannot" "is_violation UnknownPrimitive" "is_violation Unauthenticated"
  "is_violation SourceMismatch"
  by (simp_all add: is_violation_def)

lemma enforcement_for_Reject_iff:
  "enforcement_for mode v = Reject \<longleftrightarrow> mode = EM_Strict \<and> is_violation v"
  by (auto simp: enforcement_for_def split: enforcement_mode.splits)

lemma enforcement_for_ok [simp]: "\<not> is_violation v \<Longrightarrow> enforcement_for mode v = Accept"
  by (simp add: enforcement_for_def)

lemma enforcement_for_Warn_iff:
  "enforcement_for mode v = Warn \<longleftrightarrow> mode = EM_Warn \<and> is_violation v"
  by (auto simp: enforcement_for_def split: enforcement_mode.splits)

section \<open>Prepared sets cover what the topics cover\<close>

lemma topic_set_add_permits:
  "permits (topic_set_add S t) m \<longleftrightarrow> permits S m \<or> (is_ok (classify_topic t) \<and> topic_matches t m)"
proof (cases "is_ok (classify_topic t)")
  case True
  then show ?thesis
  proof (cases rule: classify_ok_cases)
    case exact
    then show ?thesis
      by (auto simp: topic_set_add_def permits_def topic_matches_literal)
  next
    case (pattern pre)
    then show ?thesis
      by (auto simp: topic_set_add_def permits_def topic_matches_pattern)
  qed
next
  case False
  then show ?thesis
    by (auto simp: topic_set_add_def not_is_ok_iff)
qed

lemma foldl_topic_set_add_permits:
  "permits (foldl topic_set_add S ts) m \<longleftrightarrow> permits S m \<or> topics.covers ts m"
  by (induction ts arbitrary: S) (auto simp: topic_set_add_permits)

lemma topic_set_new_permits: "permits (topic_set_new ts) m \<longleftrightarrow> topics.covers ts m"
  by (simp add: topic_set_new_def foldl_topic_set_add_permits)
     (simp add: permits_def topic_set_default_def)

text \<open>The sets hold no star: the exact topics are literals and the prefixes lost theirs.\<close>

definition star_free :: "topic_set \<Rightarrow> bool" where
  "star_free S \<longleftrightarrow> (\<forall>t \<in> ts_exact S. star \<notin> set t) \<and> (\<forall>p \<in> set (ts_prefixes S). star \<notin> set p)"

lemma topic_set_add_star_free: "star_free S \<Longrightarrow> star_free (topic_set_add S t)"
  by (auto simp: topic_set_add_def star_free_def classify_Exact_iff pattern_prefix_Some_iff
      split: sum.splits topic_kind.splits option.splits)

interpretation topic_sets: step_function topic_set_add star_free
  by unfold_locales (rule topic_set_add_star_free)

lemma topic_set_new_star_free: "star_free (topic_set_new ts)"
  using topic_sets.run_inv [of topic_set_default ts]
  by (simp add: topic_set_new_def run_steps_def star_free_def topic_set_default_def)

lemma starts_with_star_free:
  "star \<notin> set p \<Longrightarrow> starts_with (pre @ [star]) p \<longleftrightarrow> starts_with pre p"
  by (auto simp: starts_with_append_cases)

text \<open>A permitted selector permits everything it selects.\<close>

lemma permits_selector:
  assumes "star_free S" and "permits S (pre @ [star])" and "starts_with m pre"
  shows "permits S m"
proof -
  from assms(1,2) obtain p where "p \<in> set (ts_prefixes S)" "star \<notin> set p" "starts_with pre p"
    by (auto simp: permits_def star_free_def list_ex_iff starts_with_star_free)
  with assms(3) show ?thesis
    by (auto simp: permits_def list_ex_iff intro: starts_with_trans)
qed

section \<open>The table's contents\<close>

lemma foldl_map_upd:
  "foldl (\<lambda>m (k, v). m(k \<mapsto> v)) m prims = m ++ map_of (rev prims)"
  by (induction prims arbitrary: m) (auto simp: map_add_def fun_eq_iff split: option.splits)

lemma dt_primitives_new: "dt_primitives (declaration_table_new mode prims) = map_of (rev prims)"
  by (simp add: declaration_table_new_def foldl_map_upd)

lemma dt_mode_new [simp]: "dt_mode (declaration_table_new mode prims) = mode"
  by (simp add: declaration_table_new_def)

lemma dt_lookup_distinct:
  assumes "distinct (map fst prims)" and "(n, d) \<in> set prims"
  shows "dt_primitives (declaration_table_new mode prims) n = Some d"
proof -
  have "distinct (map fst (rev prims))"
    using assms(1) by (simp flip: rev_map)
  with assms(2) show ?thesis by (simp add: dt_primitives_new)
qed

section \<open>The contract of a table\<close>

text \<open>
  What the connection policy relies on: each mode's reaction to a verdict, whatever the question
  was. \<open>reaction\<close> is one checked operation.
\<close>

locale enforcement_table =
  fixes mode :: "'t \<Rightarrow> enforcement_mode"
    and reaction :: "'t \<Rightarrow> 'q \<Rightarrow> checked"
  assumes off_accepts: "mode t = EM_Off \<Longrightarrow> \<not> is_violation (ck_verdict (reaction t q))"
    and reject_iff: "ck_enforcement (reaction t q) = Reject \<longleftrightarrow> mode t = EM_Strict \<and> is_violation (ck_verdict (reaction t q))"
    and accept_ok: "\<not> is_violation (ck_verdict (reaction t q)) \<Longrightarrow> ck_enforcement (reaction t q) = Accept"
begin

lemma never_rejects: "mode t \<noteq> EM_Strict \<Longrightarrow> ck_enforcement (reaction t q) \<noteq> Reject"
  by (simp add: reject_iff)

lemma strict_accept_iff:
  "mode t = EM_Strict \<Longrightarrow> ck_enforcement (reaction t q) = Accept \<longleftrightarrow> \<not> is_violation (ck_verdict (reaction t q))"
  using reject_iff [of t q] accept_ok [of t q] by (cases "ck_enforcement (reaction t q)") auto

end

lemma check_enforcement:
  "ck_enforcement (check t n op m) = enforcement_for (dt_mode t) (ck_verdict (check t n op m))"
  by (simp add: check_def Let_def)

lemma check_source_enforcement:
  "ck_enforcement (check_source t i s) = enforcement_for (dt_mode t) (ck_verdict (check_source t i s))"
  by (simp add: check_source_def Let_def)

lemma check_off: "dt_mode t = EM_Off \<Longrightarrow> ck_verdict (check t n op m) = Declared"
  by (simp add: check_def enforcement_mode_is_enforcing_def)

lemma check_source_off: "dt_mode t = EM_Off \<Longrightarrow> ck_verdict (check_source t i s) = Declared"
  by (simp add: check_source_def enforcement_mode_is_enforcing_def)

interpretation op_table: enforcement_table dt_mode "\<lambda>t (n, op, m). check t n op m"
  by unfold_locales
     (auto simp: check_off check_enforcement enforcement_for_Reject_iff)

interpretation source_table: enforcement_table dt_mode "\<lambda>t (i, s). check_source t i s"
  by unfold_locales
     (auto simp: check_source_off check_source_enforcement enforcement_for_Reject_iff)

lemmas check_rejects_iff = op_table.reject_iff [of t "(n, op, m)" for t n op m, simplified]
lemmas check_source_rejects_iff = source_table.reject_iff [of t "(i, s)" for t i s, simplified]

section \<open>Verdicts as conditions on the configuration\<close>

lemma decide_not_violation_iff:
  "\<not> is_violation (decide d op m) \<longleftrightarrow>
     is_protocol_topic op m \<or> (\<exists>x. d = Some x \<and> kind_permits x op \<and> permits (topics_for x op) m)"
  by (auto simp: decide_def split: option.splits)

lemma check_violation_iff:
  "dt_mode t \<noteq> EM_Off \<Longrightarrow>
   is_violation (ck_verdict (check t n op m)) \<longleftrightarrow>
     \<not> is_protocol_topic op m
     \<and> (\<forall>x d. n = Some x \<longrightarrow> dt_primitives t x = Some d \<longrightarrow>
          \<not> (kind_permits d op \<and> permits (topics_for d op) m))"
  using decide_not_violation_iff
  by (auto simp: check_def enforcement_mode_is_enforcing_def Let_def split: option.splits)

lemma decide_source_violation_iff:
  "is_violation (decide_source i s) \<longleftrightarrow> (\<exists>n c. i = Some n \<and> s = Some c \<and> c \<noteq> n)"
  by (auto simp: decide_source_def split: option.splits)

section \<open>Properties\<close>

text \<open>
  A prepared set of declared topics permits a message type exactly when one of the topics that
  are valid matches it, an invalid topic permitting nothing; and where it permits a pattern as a
  selector it permits every message type the pattern selects, so holding a subscribe frame to the
  declarations bounds what will be delivered on it.
\<close>

theorem topic_set_permits:
  "(permits (topic_set_new ts) m \<longleftrightarrow> (\<exists>t \<in> set ts. is_ok (classify_topic t) \<and> topic_matches t m))
   \<and> (permits (topic_set_new ts) (pre @ [star]) \<and> starts_with m' pre \<longrightarrow> permits (topic_set_new ts) m')"
  using permits_selector [OF topic_set_new_star_free, of ts pre m']
  by (auto simp: topic_set_new_permits topics.covers_def)

theorem topic_set_permits_witness:
  "permits (topic_set_new [''timer.*'']) ''timer.tick'' \<and> \<not> permits (topic_set_new [''timer.*'']) ''tick''"
  using topic_set_permits [of "[''timer.*'']" "''timer.tick''"] topic_set_permits [of "[''timer.*'']" "''tick''"]
  by (simp add: classify_topic_def topic_matches_def pattern_prefix_def strip_suffix_def strip_prefix_def
      MAX_PATTERN_LEN_def)

end
