(* ===== verification/Api_Host.thy ===== *)
theory Api_Host
  imports Prelude
begin

text \<open>
  Which host the HTTP API answers to, after \<^verbatim>\<open>emergent-engine/src/api_host.rs\<close>.

  The URL parser is the argument \<open>url_host\<close>: the host of \<^verbatim>\<open>http://<value>/\<close>, if that parses and has
  one. The standard library's parser of IPv6 addresses, which the code calls, is modelled
  (\<open>read_ipv6_addr\<close> and what it calls, with the IPv4 tail it allows). A request is the list of its
  \<^verbatim>\<open>Host\<close> header values, \<open>None\<close> for one that is not visible ASCII, and the authority of its URI.
\<close>

section \<open>Decisions\<close>

definition ALLOWED_HOSTS_KEY :: string where
  "ALLOWED_HOSTS_KEY = ''[engine].api_allowed_hosts''"

datatype host_decision = HostAccept | HostRefuse

definition is_accept :: "host_decision \<Rightarrow> bool" where
  "is_accept d = (d = HostAccept)"

definition canonical_name :: "string \<Rightarrow> string" where
  "canonical_name name =
     (let lower = to_ascii_lowercase name
      in case strip_suffix ''.'' lower of Some s \<Rightarrow> s | None \<Rightarrow> lower)"

section \<open>Addresses\<close>

definition digit_value :: "char \<Rightarrow> nat" where
  "digit_value c = of_char c - 48"

definition dec_value :: "string \<Rightarrow> nat" where
  "dec_value ds = foldl (\<lambda>v c. v * 10 + digit_value c) 0 ds"

text \<open>\<^verbatim>\<open>part.parse::<u16>()\<close> of a string of digits.\<close>

definition parse_u16 :: "string \<Rightarrow> nat option" where
  "parse_u16 ds = (if ds = [] \<or> \<not> list_all is_ascii_digit ds \<or> dec_value ds \<ge> 65536 then None else Some (dec_value ds))"

definition ipv4_part :: "string \<Rightarrow> bool" where
  "ipv4_part part =
     (let digits = part \<noteq> [] \<and> length part \<le> 3 \<and> list_all is_ascii_digit part
      in \<not> (\<not> digits \<or> (case parse_u16 part of Some v \<Rightarrow> v > 255 | None \<Rightarrow> False)))"

definition is_ipv4 :: "string \<Rightarrow> bool" where
  "is_ipv4 name =
     (let parts = split_on (CHR ''.'') name in list_all ipv4_part parts \<and> length parts = 4)"

text \<open>
  \<^verbatim>\<open>core::net\<close>'s parser: a number reader takes the digits there are and fails on none, on too many,
  and, for an IPv4 octet, on a leading zero or a value over 255.
\<close>

definition read_octet :: "string \<Rightarrow> string option" where
  "read_octet s =
     (let ds = takeWhile is_ascii_digit s
      in if ds = [] \<or> length ds > 3 \<or> dec_value ds > 255 \<or> (length ds > 1 \<and> hd ds = CHR ''0'') then None
         else Some (dropWhile is_ascii_digit s))"

definition read_hex_group :: "string \<Rightarrow> string option" where
  "read_hex_group s =
     (let ds = takeWhile is_ascii_hexdigit s
      in if ds = [] \<or> length ds > 4 then None else Some (dropWhile is_ascii_hexdigit s))"

definition read_given :: "string \<Rightarrow> string \<Rightarrow> string option" where
  "read_given p s = strip_prefix p s"

definition read_separator :: "char \<Rightarrow> nat \<Rightarrow> string \<Rightarrow> string option" where
  "read_separator c index s = (if index > 0 then read_given [c] s else Some s)"

definition read_ipv4_addr :: "string \<Rightarrow> string option" where
  "read_ipv4_addr s =
     do { a \<leftarrow> read_octet s; a \<leftarrow> read_given ''.'' a; b \<leftarrow> read_octet a; b \<leftarrow> read_given ''.'' b;
          c \<leftarrow> read_octet b; c \<leftarrow> read_given ''.'' c; read_octet c }"

text \<open>Groups from index \<open>i\<close> on, at most the given number more: how many are read, whether the last two
  were an IPv4 address, and the rest.\<close>

fun read_groups :: "nat \<Rightarrow> nat \<Rightarrow> string \<Rightarrow> nat \<times> bool \<times> string" where
  "read_groups i 0 s = (i, False, s)"
| "read_groups i (Suc k) s =
     (case (if k \<ge> 1 then Option.bind (read_separator (CHR '':'') i s) read_ipv4_addr else None) of
        Some rest \<Rightarrow> (i + 2, True, rest)
      | None \<Rightarrow>
          (case Option.bind (read_separator (CHR '':'') i s) read_hex_group of
             Some rest \<Rightarrow> read_groups (Suc i) k rest
           | None \<Rightarrow> (i, False, s)))"

definition read_ipv6_addr :: "string \<Rightarrow> string option" where
  "read_ipv6_addr s =
     (case read_groups 0 8 s of (head_size, head_ipv4, rest) \<Rightarrow>
        if head_size = 8 then Some rest
        else if head_ipv4 then None
        else (case read_given ''::'' rest of
                None \<Rightarrow> None
              | Some rest' \<Rightarrow> (case read_groups 0 (8 - (head_size + 1)) rest' of (_, _, r) \<Rightarrow> Some r)))"

definition ipv6_parse_ok :: "string \<Rightarrow> bool" where
  "ipv6_parse_ok s = (read_ipv6_addr s = Some [])"

definition is_bracketed_ipv6 :: "string \<Rightarrow> bool" where
  "is_bracketed_ipv6 name =
     (case Option.bind (strip_prefix ''['' name) (strip_suffix '']'') of
        None \<Rightarrow> False
      | Some inner \<Rightarrow>
          list_all (\<lambda>b. is_ascii_hexdigit b \<or> b = CHR '':'' \<or> b = CHR ''.'') inner \<and> ipv6_parse_ok inner)"

section \<open>The host of an authority\<close>

definition before :: "char \<Rightarrow> string \<Rightarrow> string" where
  "before c s = takeWhile (\<lambda>x. x \<noteq> c) s"

definition from_char :: "char \<Rightarrow> string \<Rightarrow> string" where
  "from_char c s = dropWhile (\<lambda>x. x \<noteq> c) s"

definition plain_host_char :: "char \<Rightarrow> bool" where
  "plain_host_char b = (\<not> (is_ascii_whitespace b \<or> b = CHR '','' \<or> b = CHR ''/'' \<or> b = CHR '':''))"

definition split_authority :: "string \<Rightarrow> (string \<times> string) option" where
  "split_authority v =
     (if CHR '']'' \<in> set v then
        (if \<not> starts_with v ''['' then None
         else Some (before (CHR '']'') v @ '']'', tl (from_char (CHR '']'') v)))
      else if CHR '':'' \<in> set v then Some (before (CHR '':'') v, from_char (CHR '':'') v)
      else Some (v, []))"

definition port_ok :: "string \<Rightarrow> bool" where
  "port_ok port = (case strip_prefix '':'' port of
      Some p \<Rightarrow> list_all is_ascii_digit p
    | None \<Rightarrow> port = [])"

definition host_of :: "string \<Rightarrow> string option" where
  "host_of v =
     (case split_authority v of
        None \<Rightarrow> None
      | Some (host, port) \<Rightarrow>
          if \<not> port_ok port then None
          else if starts_with host ''['' \<or> (host \<noteq> [] \<and> list_all plain_host_char host)
               then Some (canonical_name host) else None)"

section \<open>Requests\<close>

definition known_host :: "string list \<Rightarrow> string \<Rightarrow> bool" where
  "known_host allowed h = (is_ipv4 h \<or> is_bracketed_ipv6 h \<or> h = ''localhost'' \<or> h \<in> set allowed)"

definition decide_host :: "string \<Rightarrow> string list \<Rightarrow> host_decision" where
  "decide_host v allowed =
     (case host_of v of
        None \<Rightarrow> HostRefuse
      | Some h \<Rightarrow> if known_host allowed h then HostAccept else HostRefuse)"

fun decide_named :: "string list \<Rightarrow> bool \<Rightarrow> string list \<Rightarrow> host_decision" where
  "decide_named allowed any [] = (if any then HostAccept else HostRefuse)"
| "decide_named allowed any (h # hs) =
     (if decide_host h allowed = HostRefuse then HostRefuse else decide_named allowed True hs)"

definition decide_request_host :: "string list \<Rightarrow> string option \<Rightarrow> string list \<Rightarrow> host_decision" where
  "decide_request_host host_headers authority allowed =
     (if length host_headers > 1 then HostRefuse
      else decide_named allowed False (host_headers @ (case authority of Some a \<Rightarrow> [a] | None \<Rightarrow> [])))"

datatype guard_response = Answered | Misdirected421

definition guard_host :: "string list \<Rightarrow> string option list \<Rightarrow> string option \<Rightarrow> guard_response" where
  "guard_host allowed header_values authority =
     (let headers = List.map_filter id header_values
      in if is_accept (decide_request_host headers authority allowed) then Answered else Misdirected421)"

section \<open>The configured names\<close>

definition name_forbidden :: "char \<Rightarrow> bool" where
  "name_forbidden b = (is_ascii_whitespace b \<or> b \<in> set ''/?#@:*,[]'' \<or> b = CHR 0x5C)"

definition parse_host_name :: "(string \<Rightarrow> string option) \<Rightarrow> string \<Rightarrow> string option" where
  "parse_host_name url_host v =
     (if v = [] \<or> starts_with v ''-'' then None
      else if list_ex name_forbidden v then None
      else Option.bind (url_host v) (\<lambda>parsed.
        let host = canonical_name parsed in if host \<noteq> [] then Some host else None))"

definition parse_allowed_host :: "(string \<Rightarrow> string option) \<Rightarrow> string \<Rightarrow> (string, string) result" where
  "parse_allowed_host url_host v =
     (case parse_host_name url_host v of
        Some h \<Rightarrow> Ok h
      | None \<Rightarrow> Err (''Invalid '' @ ALLOWED_HOSTS_KEY @ '' entry '' @ [CHR 0x22] @ v @ [CHR 0x22]
          @ '': expected a host name with no scheme, port or path, such as app.example''))"

fun parse_allowed_hosts_from :: "(string \<Rightarrow> string option) \<Rightarrow> string list \<Rightarrow> string list \<Rightarrow> (string, string list) result" where
  "parse_allowed_hosts_from url_host hosts [] = Ok hosts"
| "parse_allowed_hosts_from url_host hosts (v # vs) =
     (case parse_allowed_host url_host v of
        Inl e \<Rightarrow> Err e
      | Inr h \<Rightarrow> parse_allowed_hosts_from url_host (if h \<in> set hosts then hosts else hosts @ [h]) vs)"

definition parse_allowed_hosts :: "(string \<Rightarrow> string option) \<Rightarrow> string list \<Rightarrow> (string, string list) result" where
  "parse_allowed_hosts url_host vs = parse_allowed_hosts_from url_host [] vs"

definition describe_allowed_hosts :: "string list \<Rightarrow> string" where
  "describe_allowed_hosts allowed =
     ''any IP address, '' @ join_with '', ''
       (foldl (\<lambda>names h. if h \<in> set names then names else names @ [h]) [''localhost''] allowed)"

section \<open>Lemmas on spelling\<close>

definition caseless :: "char \<Rightarrow> bool" where
  "caseless c = (\<not> is_ascii_lowercase c \<and> \<not> is_ascii_uppercase c)"

lemma lower_char_cases:
  obtains "to_ascii_lower_char c = c" | "is_ascii_uppercase c" "is_ascii_lowercase (to_ascii_lower_char c)"
  by (cases "is_ascii_uppercase c")
     (auto simp: to_ascii_lower_char_def is_ascii_uppercase_def is_ascii_lowercase_def)

lemma lower_char_eq_iff: "caseless d \<Longrightarrow> to_ascii_lower_char c = d \<longleftrightarrow> c = d"
  by (cases c rule: lower_char_cases) (auto simp: caseless_def)

lemma caseless_punctuation [simp]:
  "caseless (CHR ''.'')" "caseless (CHR '':'')" "caseless (CHR '']'')" "caseless (CHR ''['')"
  "caseless (CHR '','')" "caseless (CHR ''/'')"
  by (simp_all add: caseless_def ascii_class_defs)

lemma lower_char_digit [simp]: "is_ascii_digit (to_ascii_lower_char c) = is_ascii_digit c"
  by (cases c rule: lower_char_cases) (auto simp: ascii_class_defs)

lemma lower_char_whitespace [simp]: "is_ascii_whitespace (to_ascii_lower_char c) = is_ascii_whitespace c"
  by (cases c rule: lower_char_cases) (auto simp: ascii_class_defs)

lemma lower_char_plain [simp]: "plain_host_char (to_ascii_lower_char c) = plain_host_char c"
  by (simp add: plain_host_char_def lower_char_eq_iff)

lemma lower_mem [simp]: "caseless d \<Longrightarrow> d \<in> set (to_ascii_lowercase s) \<longleftrightarrow> d \<in> set s"
  using lower_char_eq_iff [of d] by (auto simp: to_ascii_lowercase_def image_iff eq_commute [of d])

lemma lower_eq_Nil [simp]: "to_ascii_lowercase s = [] \<longleftrightarrow> s = []"
  by (simp add: to_ascii_lowercase_def)

lemma list_all_lower: "list_all P (to_ascii_lowercase s) = list_all (\<lambda>c. P (to_ascii_lower_char c)) s"
  by (simp add: to_ascii_lowercase_def list_all_iff)

lemma lower_append [simp]: "to_ascii_lowercase (a @ b) = to_ascii_lowercase a @ to_ascii_lowercase b"
  by (simp add: to_ascii_lowercase_def)

lemma lower_starts_with [simp]: "caseless d \<Longrightarrow> starts_with (to_ascii_lowercase s) [d] = starts_with s [d]"
  by (cases s) (simp_all add: to_ascii_lowercase_def lower_char_eq_iff)

lemma lower_caseless: "caseless d \<Longrightarrow> to_ascii_lowercase [d] = [d]"
  by (simp add: to_ascii_lowercase_def to_ascii_lower_char_def caseless_def)

lemma before_lower [simp]: "caseless d \<Longrightarrow> before d (to_ascii_lowercase s) = to_ascii_lowercase (before d s)"
  by (simp add: before_def to_ascii_lowercase_def takeWhile_map comp_def lower_char_eq_iff)

lemma from_char_lower [simp]: "caseless d \<Longrightarrow> from_char d (to_ascii_lowercase s) = to_ascii_lowercase (from_char d s)"
  by (simp add: from_char_def to_ascii_lowercase_def dropWhile_map comp_def lower_char_eq_iff)

lemma canonical_name_lower [simp]: "canonical_name (to_ascii_lowercase s) = canonical_name s"
  by (simp add: canonical_name_def)

lemma strip_prefix_lower:
  "caseless d \<Longrightarrow> strip_prefix [d] (to_ascii_lowercase s) = map_option to_ascii_lowercase (strip_prefix [d] s)"
  by (cases s) (auto simp: strip_prefix_def to_ascii_lowercase_def lower_char_eq_iff)

lemma port_ok_lower [simp]: "port_ok (to_ascii_lowercase s) = port_ok s"
  by (auto simp: port_ok_def strip_prefix_lower list_all_lower split: option.splits)

lemma split_authority_lower:
  "split_authority (to_ascii_lowercase v) =
     map_option (\<lambda>(h, p). (to_ascii_lowercase h, to_ascii_lowercase p)) (split_authority v)"
  by (auto simp: split_authority_def lower_caseless) (auto simp: to_ascii_lowercase_def map_tl)

lemma host_of_lower: "host_of (to_ascii_lowercase v) = host_of v"
  by (auto simp: host_of_def split_authority_lower list_all_lower split: option.splits)

section \<open>Lemmas on requests\<close>

lemma decide_named_Accept_iff:
  "decide_named allowed any hs = HostAccept \<longleftrightarrow> (any \<or> hs \<noteq> []) \<and> list_all (\<lambda>h. decide_host h allowed = HostAccept) hs"
  by (induction hs arbitrary: any) (auto intro: host_decision.exhaust)

lemma decide_host_Accept_iff:
  "decide_host v allowed = HostAccept \<longleftrightarrow> (\<exists>h. host_of v = Some h \<and> known_host allowed h)"
  by (auto simp: decide_host_def split: option.splits)

lemma ipv4_part_digits: "ipv4_part w \<Longrightarrow> list_all is_ascii_digit w"
  by (simp add: ipv4_part_def Let_def)

lemma is_ipv4_chars: "is_ipv4 h \<Longrightarrow> list_all (\<lambda>c. is_ascii_digit c \<or> c = CHR ''.'') h"
proof -
  assume "is_ipv4 h"
  then have "\<forall>w \<in> set (split_on (CHR ''.'') h). list_all is_ascii_digit w"
    using ipv4_part_digits by (auto simp: is_ipv4_def Let_def list_all_iff)
  moreover have "\<forall>w \<in> set (split_on d s). list_all P w \<Longrightarrow> list_all (\<lambda>c. P c \<or> c = d) s" for d s and P :: "char \<Rightarrow> bool"
    by (induction s) (auto split: if_splits list.splits)
  ultimately show ?thesis by blast
qed

lemma canonical_name_chars:
  "set (canonical_name s) \<subseteq> set (to_ascii_lowercase s)"
  "c \<in> set s \<Longrightarrow> c \<noteq> CHR ''.'' \<Longrightarrow> to_ascii_lower_char c \<in> set (canonical_name s)"
proof -
  have e: "to_ascii_lowercase s = canonical_name s \<or> to_ascii_lowercase s = canonical_name s @ ''.''"
    by (auto simp: canonical_name_def Let_def strip_suffix_Some_iff split: option.splits)
  then show "set (canonical_name s) \<subseteq> set (to_ascii_lowercase s)" by auto
  assume "c \<in> set s" "c \<noteq> CHR ''.''"
  then have "to_ascii_lower_char c \<in> set (to_ascii_lowercase s)" "to_ascii_lower_char c \<noteq> CHR ''.''"
    by (auto simp: to_ascii_lowercase_def lower_char_eq_iff)
  then show "to_ascii_lower_char c \<in> set (canonical_name s)"
    using e by auto
qed

lemma host_of_plain:
  assumes "n \<noteq> []" "list_all plain_host_char n" "CHR '']'' \<notin> set n"
  shows "host_of n = Some (canonical_name n)"
    and "list_all is_ascii_digit ds \<Longrightarrow> host_of (n @ '':'' @ ds) = Some (canonical_name n)"
proof -
  have colon: "CHR '':'' \<notin> set n"
    using assms(2) by (auto simp: list_all_iff plain_host_char_def)
  show "host_of n = Some (canonical_name n)"
    using assms colon by (simp add: host_of_def split_authority_def port_ok_def strip_prefix_def)
  assume d: "list_all is_ascii_digit ds"
  then have "CHR '']'' \<notin> set ds"
    by (auto simp: list_all_iff is_ascii_digit_def)
  moreover have "takeWhile (\<lambda>x. x \<noteq> CHR '':'') (n @ CHR '':'' # ds) = n"
    "dropWhile (\<lambda>x. x \<noteq> CHR '':'') (n @ CHR '':'' # ds) = CHR '':'' # ds"
    using colon by (simp_all add: takeWhile_append2 dropWhile_append2 takeWhile_append dropWhile_append)
  ultimately show "host_of (n @ '':'' @ ds) = Some (canonical_name n)"
    using assms d by (simp add: host_of_def split_authority_def before_def from_char_def port_ok_def strip_prefix_def)
qed

lemma decide_host_lower: "decide_host (to_ascii_lowercase v) allowed = decide_host v allowed"
  by (simp add: decide_host_def host_of_lower)

lemma map_filter_Some: "List.map_filter id (map Some xs) = xs"
  by (induction xs) (simp_all add: map_filter_simps)

lemma decide_request_Accept_iff:
  "decide_request_host hs a allowed = HostAccept \<longleftrightarrow>
     length hs \<le> 1 \<and> hs @ (case a of Some x \<Rightarrow> [x] | None \<Rightarrow> []) \<noteq> []
     \<and> list_all (\<lambda>v. decide_host v allowed = HostAccept) (hs @ (case a of Some x \<Rightarrow> [x] | None \<Rightarrow> []))"
  by (auto simp: decide_request_host_def decide_named_Accept_iff)

lemma parse_allowed_hosts_from_Ok:
  "parse_allowed_hosts_from uh hosts vs = Ok hs \<Longrightarrow>
     set hs = set hosts \<union> {h. \<exists>v \<in> set vs. parse_host_name uh v = Some h}
     \<and> (\<forall>v \<in> set vs. parse_host_name uh v \<noteq> None)"
proof (induction vs arbitrary: hosts)
  case (Cons v vs)
  then obtain h where h: "parse_host_name uh v = Some h"
    by (auto simp: parse_allowed_host_def split: option.splits)
  then have "parse_allowed_hosts_from uh (if h \<in> set hosts then hosts else hosts @ [h]) vs = Ok hs"
    using Cons.prems by (simp add: parse_allowed_host_def)
  from Cons.IH [OF this] h show ?case
    by (auto split: if_splits)
qed simp

section \<open>Properties\<close>

text \<open>
  A request is answered exactly when it carries at most one \<^verbatim>\<open>Host\<close> value, names some host in
  the header or the request line, and every host it names is an IPv4 dotted quad, a bracketed IPv6
  address, \<^verbatim>\<open>localhost\<close> or a listed name; and neither letter case nor a port changes the answer.
\<close>

theorem request_answered_iff:
  "(decide_request_host hs a allowed = HostAccept \<longleftrightarrow>
     length hs \<le> 1 \<and> hs @ (case a of Some x \<Rightarrow> [x] | None \<Rightarrow> []) \<noteq> []
     \<and> list_all (\<lambda>v. \<exists>h. host_of v = Some h
          \<and> (is_ipv4 h \<or> is_bracketed_ipv6 h \<or> h = ''localhost'' \<or> h \<in> set allowed))
        (hs @ (case a of Some x \<Rightarrow> [x] | None \<Rightarrow> [])))
   \<and> decide_host (to_ascii_lowercase v) allowed = decide_host v allowed"
  by (simp add: decide_request_Accept_iff decide_host_Accept_iff known_host_def decide_host_lower)

text \<open>
  DNS rebinding is refused. A name an attacker can own (a host name with some character that is
  neither a digit nor a dot, in any letter case, with or without a port) that is not
  \<^verbatim>\<open>localhost\<close> and not listed gets the 421 wherever the request carries it, in the header or in the
  request line, and no second value next to it helps.
\<close>

theorem rebinding_refused:
  assumes name: "n \<noteq> []" "list_all plain_host_char n" "CHR '']'' \<notin> set n" "CHR ''['' \<notin> set n"
    and owned: "c \<in> set n" "\<not> is_ascii_digit c" "c \<noteq> CHR ''.''"
    and not_ours: "canonical_name n \<noteq> ''localhost''" "canonical_name n \<notin> set allowed"
    and port: "v = n \<or> (v = n @ '':'' @ ds \<and> list_all is_ascii_digit ds)"
    and carried: "v \<in> set hs \<or> a = Some v"
  shows "guard_host allowed (map Some hs) a = Misdirected421"
proof -
  have h: "host_of v = Some (canonical_name n)"
    using port host_of_plain [OF name(1-3)] by auto
  have "\<not> is_ipv4 (canonical_name n)"
  proof
    assume "is_ipv4 (canonical_name n)"
    then have "is_ascii_digit (to_ascii_lower_char c) \<or> to_ascii_lower_char c = CHR ''.''"
      using canonical_name_chars(2) [OF owned(1,3)] is_ipv4_chars by (fastforce simp: list_all_iff)
    with owned show False by (simp add: lower_char_eq_iff)
  qed
  moreover have "CHR ''['' \<notin> set (canonical_name n)"
    using canonical_name_chars(1) [of n] name(4) by auto
  then have "\<not> is_bracketed_ipv6 (canonical_name n)"
    by (auto simp: is_bracketed_ipv6_def strip_prefix_Some_iff split: option.splits bind_splits)
  ultimately have "decide_host v allowed \<noteq> HostAccept"
    using not_ours by (simp add: decide_host_Accept_iff h known_host_def)
  moreover have "v \<in> set (hs @ (case a of Some x \<Rightarrow> [x] | None \<Rightarrow> []))"
    using carried by auto
  ultimately have "decide_request_host hs a allowed \<noteq> HostAccept"
    unfolding decide_request_Accept_iff list_all_iff by blast
  then show ?thesis
    by (simp add: guard_host_def is_accept_def map_filter_Some)
qed

theorem rebinding_refused_witness:
  "guard_host [''app.example''] [Some ''Attacker.example:8891''] None = Misdirected421"
proof -
  have a: "''Attacker.example'' \<noteq> []" "list_all plain_host_char ''Attacker.example''"
    "CHR '']'' \<notin> set ''Attacker.example''" "CHR ''['' \<notin> set ''Attacker.example''"
    by (simp_all add: plain_host_char_def is_ascii_whitespace_def)
  have b: "CHR ''x'' \<in> set ''Attacker.example''" "\<not> is_ascii_digit (CHR ''x'')" "CHR ''x'' \<noteq> CHR ''.''"
    by (simp_all add: is_ascii_digit_def)
  have c: "canonical_name ''Attacker.example'' \<noteq> ''localhost''" "canonical_name ''Attacker.example'' \<notin> set [''app.example'']"
    by code_simp+
  have d: "''Attacker.example:8891'' = ''Attacker.example'' \<or>
      (''Attacker.example:8891'' = ''Attacker.example'' @ '':'' @ ''8891'' \<and> list_all is_ascii_digit ''8891'')"
    by (simp add: is_ascii_digit_def)
  show ?thesis
    using rebinding_refused [OF a b c d, of "[''Attacker.example:8891'']" None] by simp
qed

text \<open>
  A listed name is answered. Where the configured list is accepted, a request whose one
  \<^verbatim>\<open>Host\<close> value is an entry of the parsed list, with any letter case and with or without a port,
  is answered. (Assumed of the URL parser: the host it returns has no white space, comma, slash,
  colon or bracket, and not two dots at its end.)
\<close>

theorem listed_host_answered:
  assumes url: "\<And>s h. url_host s = Some h \<Longrightarrow> list_all plain_host_char h \<and> CHR '']'' \<notin> set h \<and> \<not> ends_with h ''..''"
    and hosts: "parse_allowed_hosts url_host values = Ok hosts" and h: "h \<in> set hosts"
    and v: "to_ascii_lowercase v = h \<or> (to_ascii_lowercase v = h @ '':'' @ ds \<and> list_all is_ascii_digit ds)"
  shows "guard_host hosts [Some v] None = Answered"
proof -
  obtain x s where "url_host s = Some x" and hx: "h = canonical_name x" "h \<noteq> []"
    using parse_allowed_hosts_from_Ok [OF hosts [unfolded parse_allowed_hosts_def]] h
    by (auto simp: parse_host_name_def Let_def bind_eq_Some_conv split: if_splits)
  with url have x: "list_all plain_host_char x" "CHR '']'' \<notin> set x" "\<not> ends_with x ''..''" by auto
  have e: "to_ascii_lowercase x = h \<or> to_ascii_lowercase x = h @ ''.''"
    by (auto simp: hx canonical_name_def Let_def strip_suffix_Some_iff split: option.splits)
  then have "set h \<subseteq> set (to_ascii_lowercase x)" by auto
  then have "CHR '']'' \<notin> set h"
    using x(2) lower_mem [OF caseless_punctuation(3), of x] by blast
  then have plain: "list_all plain_host_char h" "CHR '']'' \<notin> set h"
    using e x(1) list_all_lower [of plain_host_char x] by auto
  have "\<not> ends_with h ''.''"
  proof
    assume "ends_with h ''.''"
    then obtain r where r: "h = r @ ''.''" by (auto simp: ends_with_iff)
    then have "to_ascii_lowercase x = r @ ''..''"
      using e by (auto simp: hx(1) canonical_name_def Let_def strip_suffix_Some_iff split: option.splits)
    then obtain r' p q where "x = r' @ [p, q]" "to_ascii_lower_char p = CHR ''.''" "to_ascii_lower_char q = CHR ''.''"
      by (auto simp: to_ascii_lowercase_def map_eq_append_conv map_eq_Cons_conv)
    with x(3) show False by (auto simp: ends_with_iff lower_char_eq_iff)
  qed
  moreover have "to_ascii_lowercase h = h"
    using e by (metis lower_append append_same_eq lower_caseless caseless_punctuation(1) to_ascii_lowercase_idem)
  ultimately have "canonical_name h = h"
    by (simp add: canonical_name_def Let_def strip_suffix_None_iff [THEN iffD2])
  then have "host_of (to_ascii_lowercase v) = Some h"
    using v host_of_plain [OF hx(2) plain] by auto
  then have "decide_host v hosts = HostAccept"
    using h by (simp add: host_of_lower decide_host_Accept_iff known_host_def)
  then show ?thesis
    by (simp add: guard_host_def is_accept_def decide_request_Accept_iff map_filter_simps)
qed

definition sample_url_host :: "string \<Rightarrow> string option" where
  "sample_url_host s = (if s = ''App.Example.'' then Some ''app.example.'' else None)"

theorem listed_host_answered_witness:
  "guard_host [''app.example''] [Some ''APP.example:443''] None = Answered"
proof -
  have u: "list_all plain_host_char h \<and> CHR '']'' \<notin> set h \<and> \<not> ends_with h ''..''"
    if "sample_url_host s = Some h" for s h
    using that
    by (auto simp: sample_url_host_def plain_host_char_def is_ascii_whitespace_def ends_with_def split: if_splits)
  have p: "parse_allowed_hosts sample_url_host [''App.Example.''] = Ok [''app.example'']"
    by code_simp
  have v: "to_ascii_lowercase ''APP.example:443'' = ''app.example''
      \<or> (to_ascii_lowercase ''APP.example:443'' = ''app.example'' @ '':'' @ ''443'' \<and> list_all is_ascii_digit ''443'')"
    by code_simp
  show ?thesis
    using listed_host_answered [OF u p _ v] by simp
qed

end
