(* ===== verification/Config.thy ===== *)
theory Config
  imports Declarations Ipc_Identity Api_Host Ids
begin

text \<open>
  The configuration and its validation, after \<^verbatim>\<open>emergent-engine/src/config.rs\<close>.

  A path is its string; \<^verbatim>\<open>HashMap\<close> of environment variables a partial map; \<^verbatim>\<open>usize\<close> a natural
  number, saturating at \<open>2 ^ 64 - 1\<close> where the code saturates. The TOML parser, the file system
  (\<open>path_exists\<close>, \<open>read_to_string\<close>), the lookup on the search path (\<open>which\<close>), the platform's
  directories and the URL parser are arguments of the definitions that use them. The trait
  \<^verbatim>\<open>PrimitiveConfig\<close> is the record of its four accessors.
\<close>

section \<open>Errors and small types\<close>

datatype config_error =
    CE_ReadError string
  | CE_ParseError string
  | CE_ValidationError string
  | CE_PathNotFound string

datatype wire_format = Json | Messagepack

definition wire_format_as_str :: "wire_format \<Rightarrow> string" where
  "wire_format_as_str f = (case f of Json \<Rightarrow> ''json'' | Messagepack \<Rightarrow> ''messagepack'')"

definition wire_format_warning :: "wire_format option \<Rightarrow> string option" where
  "wire_format_warning fmt = map_option (\<lambda>format.
     ''[engine] wire_format = '' @ [CHR 0x22] @ wire_format_as_str format @ [CHR 0x22]
     @ '' has no effect: IPC is always MessagePack. Remove the key. For human-readable events, read the JSON event log.'') fmt"

section \<open>The engine table\<close>

record engine_config =
  ec_name :: string
  ec_socket_path :: string
  ec_wire_format :: "wire_format option"
  ec_api_port :: u16
  ec_max_connections :: "usize option"
  ec_shutdown_drain_ms :: u64
  ec_shutdown_grace_ms :: u64
  ec_startup_ready_timeout_ms :: u64
  ec_enforce_declarations :: enforcement_mode
  ec_authenticate_connections :: authentication_mode
  ec_api_allowed_hosts :: "string list"

definition default_engine_name :: string where "default_engine_name = ''emergent''"
definition default_socket_path :: string where "default_socket_path = ''auto''"
definition default_api_port :: u16 where "default_api_port = 8891"
definition default_shutdown_drain_ms :: u64 where "default_shutdown_drain_ms = 500"
definition default_shutdown_grace_ms :: u64 where "default_shutdown_grace_ms = 2000"
definition default_startup_ready_timeout_ms :: u64 where "default_startup_ready_timeout_ms = 5000"

definition engine_config_default :: engine_config where
  "engine_config_default =
     \<lparr> ec_name = default_engine_name, ec_socket_path = default_socket_path, ec_wire_format = None,
       ec_api_port = default_api_port, ec_max_connections = None,
       ec_shutdown_drain_ms = default_shutdown_drain_ms, ec_shutdown_grace_ms = default_shutdown_grace_ms,
       ec_startup_ready_timeout_ms = default_startup_ready_timeout_ms,
       ec_enforce_declarations = enforcement_mode_default,
       ec_authenticate_connections = AM_Off, ec_api_allowed_hosts = [] \<rparr>"

definition api_enabled :: "engine_config \<Rightarrow> bool" where
  "api_enabled e = (ec_api_port e \<noteq> 0)"

section \<open>The event store table\<close>

record event_store_config =
  es_json_log_dir :: string
  es_sqlite_path :: string
  es_retention_days :: u32

definition EVENT_STORE_SENTINEL_LOG_DIR :: string where "EVENT_STORE_SENTINEL_LOG_DIR = ''auto''"
definition EVENT_STORE_SENTINEL_SQLITE :: string where "EVENT_STORE_SENTINEL_SQLITE = ''auto''"
definition default_retention_days :: u32 where "default_retention_days = 30"

definition event_store_config_default :: event_store_config where
  "event_store_config_default =
     \<lparr> es_json_log_dir = EVENT_STORE_SENTINEL_LOG_DIR, es_sqlite_path = EVENT_STORE_SENTINEL_SQLITE,
       es_retention_days = default_retention_days \<rparr>"

section \<open>Supervision settings\<close>

record restart_config =
  rc_restart :: string
  rc_backoff_ms :: u64
  rc_max_backoff_ms :: u64
  rc_max_retries :: u32
  rc_window_ms :: u64

definition default_restart :: string where
  "default_restart = restart_policy_as_str restart_policy_default"

definition restart_config_default :: restart_config where
  "restart_config_default =
     \<lparr> rc_restart = default_restart, rc_backoff_ms = default_restart_backoff_ms,
       rc_max_backoff_ms = default_restart_max_backoff_ms, rc_max_retries = default_restart_max_retries,
       rc_window_ms = default_restart_window_ms \<rparr>"

definition restart_config_policy :: "restart_config \<Rightarrow> restart_policy option" where
  "restart_config_policy r = parse_restart_policy (rc_restart r)"

definition restart_config_limits :: "restart_config \<Rightarrow> restart_limits" where
  "restart_config_limits r =
     \<lparr> backoff_ms = rc_backoff_ms r, max_backoff_ms = rc_max_backoff_ms r,
       max_retries = rc_max_retries r, window_ms = rc_window_ms r \<rparr>"

section \<open>The primitive tables\<close>

record source_config =
  src_name :: string
  src_path :: string
  src_args :: "string list"
  src_enabled :: bool
  src_publishes :: "string list"
  src_env :: "string \<rightharpoonup> string"
  src_restart :: restart_config

record handler_config =
  hdl_name :: string
  hdl_path :: string
  hdl_args :: "string list"
  hdl_enabled :: bool
  hdl_subscribes :: "string list"
  hdl_publishes :: "string list"
  hdl_env :: "string \<rightharpoonup> string"
  hdl_unwrap_stdout :: bool
  hdl_restart :: restart_config

record sink_config =
  snk_name :: string
  snk_path :: string
  snk_args :: "string list"
  snk_enabled :: bool
  snk_subscribes :: "string list"
  snk_env :: "string \<rightharpoonup> string"
  snk_unwrap_stdout :: bool
  snk_restart :: restart_config

record emergent_config =
  cfg_engine :: engine_config
  cfg_event_store :: event_store_config
  cfg_sources :: "source_config list"
  cfg_handlers :: "handler_config list"
  cfg_sinks :: "sink_config list"

text \<open>The trait object: its accessors.\<close>

record primitive_config =
  pc_name :: string
  pc_path :: string
  pc_is_enabled :: bool
  pc_restart_config :: restart_config

definition source_primitive :: "source_config \<Rightarrow> primitive_config" where
  "source_primitive s = \<lparr> pc_name = src_name s, pc_path = src_path s, pc_is_enabled = src_enabled s,
     pc_restart_config = src_restart s \<rparr>"

definition handler_primitive :: "handler_config \<Rightarrow> primitive_config" where
  "handler_primitive h = \<lparr> pc_name = hdl_name h, pc_path = hdl_path h, pc_is_enabled = hdl_enabled h,
     pc_restart_config = hdl_restart h \<rparr>"

definition sink_primitive :: "sink_config \<Rightarrow> primitive_config" where
  "sink_primitive s = \<lparr> pc_name = snk_name s, pc_path = snk_path s, pc_is_enabled = snk_enabled s,
     pc_restart_config = snk_restart s \<rparr>"

section \<open>Paths\<close>

definition expand_tilde :: "string option \<Rightarrow> string \<Rightarrow> string" where
  "expand_tilde home_dir path =
     (if \<not> starts_with path ''~'' then path
      else (case home_dir of
          None \<Rightarrow> path
        | Some home \<Rightarrow>
            if path = ''~'' then home
            else (case strip_prefix ''~/'' path of
                Some rest \<Rightarrow> path_join home rest
              | None \<Rightarrow> path)))"

definition resolve_command_path :: "(string \<Rightarrow> bool) \<Rightarrow> (string \<Rightarrow> string option) \<Rightarrow> string \<Rightarrow> string" where
  "resolve_command_path path_exists which path =
     (if CHR ''/'' \<in> set path then path
      else if path_exists path then path
      else (case which path of Some resolved \<Rightarrow> resolved | None \<Rightarrow> path))"

definition map_paths :: "(string \<Rightarrow> string) \<Rightarrow> emergent_config \<Rightarrow> emergent_config" where
  "map_paths f c = c\<lparr>
     cfg_sources := map (\<lambda>s. s\<lparr> src_path := f (src_path s) \<rparr>) (cfg_sources c),
     cfg_handlers := map (\<lambda>h. h\<lparr> hdl_path := f (hdl_path h) \<rparr>) (cfg_handlers c),
     cfg_sinks := map (\<lambda>s. s\<lparr> snk_path := f (snk_path s) \<rparr>) (cfg_sinks c) \<rparr>"

definition with_expanded_paths :: "string option \<Rightarrow> emergent_config \<Rightarrow> emergent_config" where
  "with_expanded_paths home_dir c = map_paths (expand_tilde home_dir) c"

definition resolve_path_commands ::
  "(string \<Rightarrow> bool) \<Rightarrow> (string \<Rightarrow> string option) \<Rightarrow> emergent_config \<Rightarrow> emergent_config" where
  "resolve_path_commands path_exists which c = map_paths (resolve_command_path path_exists which) c"

definition resolve_event_store_paths :: "string option \<Rightarrow> emergent_config \<Rightarrow> emergent_config" where
  "resolve_event_store_paths data_dir c =
     (let es = cfg_event_store c;
          es = (if path_eq (es_json_log_dir es) EVENT_STORE_SENTINEL_LOG_DIR
                then es\<lparr> es_json_log_dir := (case data_dir of
                    Some dir \<Rightarrow> path_join (path_join dir (ec_name (cfg_engine c))) ''logs''
                  | None \<Rightarrow> ''./logs'') \<rparr>
                else es);
          es = (if path_eq (es_sqlite_path es) EVENT_STORE_SENTINEL_SQLITE
                then es\<lparr> es_sqlite_path := (case data_dir of
                    Some dir \<Rightarrow> path_join (path_join dir (ec_name (cfg_engine c))) ''events.db''
                  | None \<Rightarrow> ''./events.db'') \<rparr>
                else es)
      in c\<lparr> cfg_event_store := es \<rparr>)"

definition resolve_socket_path :: "string option \<Rightarrow> emergent_config \<Rightarrow> string" where
  "resolve_socket_path runtime_dir c =
     (if ec_socket_path (cfg_engine c) = ''auto'' then
        (case runtime_dir of
           Some dir \<Rightarrow> path_join dir (ec_name (cfg_engine c) @ ''.sock'')
         | None \<Rightarrow> ''/tmp/'' @ ec_name (cfg_engine c) @ ''.sock'')
      else ec_socket_path (cfg_engine c))"

section \<open>Issues\<close>

datatype issue_code =
    ConfigNotFound | ReadError | ParseError | UnknownField | InvalidName | DuplicateName
  | InvalidRestartPolicy | InvalidSubscriptionTopic | InvalidApiAllowedHost | PathNotFound
  | ConnectionCapacity | WireFormatIgnored

definition issue_code_as_str :: "issue_code \<Rightarrow> string" where
  "issue_code_as_str c = (case c of
      ConfigNotFound \<Rightarrow> ''config_not_found'' | ReadError \<Rightarrow> ''read_error'' | ParseError \<Rightarrow> ''parse_error''
    | UnknownField \<Rightarrow> ''unknown_field'' | InvalidName \<Rightarrow> ''invalid_name'' | DuplicateName \<Rightarrow> ''duplicate_name''
    | InvalidRestartPolicy \<Rightarrow> ''invalid_restart_policy''
    | InvalidSubscriptionTopic \<Rightarrow> ''invalid_subscription_topic''
    | InvalidApiAllowedHost \<Rightarrow> ''invalid_api_allowed_host'' | PathNotFound \<Rightarrow> ''path_not_found''
    | ConnectionCapacity \<Rightarrow> ''connection_capacity'' | WireFormatIgnored \<Rightarrow> ''wire_format_ignored'')"

record config_issue =
  ci_code :: issue_code
  ci_message :: string
  ci_path :: "string option"
  ci_missing :: "string option"

definition config_issue_new :: "issue_code \<Rightarrow> string \<Rightarrow> config_issue" where
  "config_issue_new code message = \<lparr> ci_code = code, ci_message = message, ci_path = None, ci_missing = None \<rparr>"

definition issue_at :: "config_issue \<Rightarrow> string \<Rightarrow> config_issue" where
  "issue_at i path = i\<lparr> ci_path := Some path \<rparr>"

definition into_error :: "config_issue \<Rightarrow> config_error" where
  "into_error i = (case ci_missing i of
      Some path \<Rightarrow> CE_PathNotFound path | None \<Rightarrow> CE_ValidationError (ci_message i))"

datatype path_check = PathCheck_Check | PathCheck_Skip

definition first_error :: "config_issue list \<Rightarrow> (config_error, unit) result" where
  "first_error issues = (case issues of [] \<Rightarrow> Ok () | i # _ \<Rightarrow> Err (into_error i))"

definition indexed :: "string \<Rightarrow> nat \<Rightarrow> string" where
  "indexed table i = table @ ''['' @ show_nat i @ '']''"

type_synonym located = "string \<times> primitive_config"

definition locate :: "string \<Rightarrow> ('a \<Rightarrow> primitive_config) \<Rightarrow> 'a list \<Rightarrow> located list" where
  "locate table view ps = map (\<lambda>(i, p). (indexed table i, view p)) (List.enumerate 0 ps)"

definition located_primitives :: "emergent_config \<Rightarrow> located list" where
  "located_primitives c =
     locate ''sources'' source_primitive (cfg_sources c)
     @ locate ''handlers'' handler_primitive (cfg_handlers c)
     @ locate ''sinks'' sink_primitive (cfg_sinks c)"

text \<open>The filter with the growing set of names seen.\<close>

fun repeats :: "string set \<Rightarrow> located list \<Rightarrow> located list" where
  "repeats seen [] = []"
| "repeats seen ((at, p) # ps) =
     (if pc_name p \<in> seen then (at, p) # repeats seen ps else repeats (insert (pc_name p) seen) ps)"

definition duplicate_name_issues :: "located list \<Rightarrow> config_issue list" where
  "duplicate_name_issues ps = map (\<lambda>(at, p).
     issue_at (config_issue_new DuplicateName (''Duplicate name: '' @ pc_name p)) (at @ ''.name'')) (repeats {} ps)"

definition restart_policy_issues :: "located list \<Rightarrow> config_issue list" where
  "restart_policy_issues ps = map (\<lambda>(at, p).
     issue_at (config_issue_new InvalidRestartPolicy
       (''Invalid restart policy for primitive '' @ quoted (pc_name p) @ '': ''
        @ quoted (rc_restart (pc_restart_config p)) @ '' (expected one of ''
        @ join_with '', '' restart_policy_variants @ '')'')) (at @ ''.restart''))
     (filter (\<lambda>(at, p). restart_config_policy (pc_restart_config p) = None) ps)"

definition validate_primitive_name :: "string \<Rightarrow> (config_error, unit) result" where
  "validate_primitive_name name = (case PrimitiveName_new name of
      Inr _ \<Rightarrow> Ok ()
    | Inl e \<Rightarrow> Err (CE_ValidationError (show_invalid_primitive_name e
        @ ''. A primitive name becomes the last segment of its system.started.<name> event, so it must start with a lowercase letter and use only lowercase letters, digits, hyphens, or underscores, at most ''
        @ show_nat PrimitiveName_MAX_LENGTH @ '' characters'')))"

definition show_config_error :: "config_error \<Rightarrow> string" where
  "show_config_error e = (case e of
      CE_ReadError s \<Rightarrow> ''Failed to read config file: '' @ s
    | CE_ParseError s \<Rightarrow> ''Failed to parse config: '' @ s
    | CE_ValidationError s \<Rightarrow> ''Invalid config: '' @ s
    | CE_PathNotFound p \<Rightarrow> ''Path does not exist: '' @ p)"

definition name_issues :: "located list \<Rightarrow> config_issue list" where
  "name_issues ps = List.map_filter (\<lambda>(at, p).
     map_option (\<lambda>e. issue_at (config_issue_new InvalidName
        (case e of CE_ValidationError m \<Rightarrow> m | other \<Rightarrow> show_config_error other)) (at @ ''.name''))
       (err_of (validate_primitive_name (pc_name p)))) ps"

definition subscription_topic_issues :: "string \<Rightarrow> string \<Rightarrow> string \<Rightarrow> string list \<Rightarrow> config_issue list" where
  "subscription_topic_issues at name kind subscribes = List.map_filter (\<lambda>(i, topic).
     map_option (\<lambda>e. issue_at (config_issue_new InvalidSubscriptionTopic
        (kind @ '' '' @ quoted name @ '' subscribes to an invalid topic: '' @ show_invalid_topic e))
        (at @ ''.subscribes['' @ show_nat i @ '']''))
       (err_of (classify_topic topic))) (List.enumerate 0 subscribes)"

definition missing_path_issues :: "(string \<Rightarrow> bool) \<Rightarrow> located list \<Rightarrow> config_issue list" where
  "missing_path_issues path_exists ps = map (\<lambda>(at, p).
     \<lparr> ci_code = PathNotFound,
       ci_message = ''Path does not exist: '' @ pc_path p @ '' (primitive '' @ quoted (pc_name p) @ '')'',
       ci_path = Some (at @ ''.path''), ci_missing = Some (pc_path p) \<rparr>)
     (filter (\<lambda>(at, p). pc_is_enabled p \<and> \<not> path_exists (pc_path p)) ps)"

definition config_topic_issues :: "emergent_config \<Rightarrow> config_issue list" where
  "config_topic_issues c =
     concat (map (\<lambda>(i, h). subscription_topic_issues (indexed ''handlers'' i) (hdl_name h) ''handler'' (hdl_subscribes h))
       (List.enumerate 0 (cfg_handlers c)))
     @ concat (map (\<lambda>(i, s). subscription_topic_issues (indexed ''sinks'' i) (snk_name s) ''sink'' (snk_subscribes s))
       (List.enumerate 0 (cfg_sinks c)))"

definition allowed_host_issues :: "(string \<Rightarrow> string option) \<Rightarrow> emergent_config \<Rightarrow> config_issue list" where
  "allowed_host_issues url_host c = List.map_filter (\<lambda>(i, v).
     map_option (\<lambda>message. issue_at (config_issue_new InvalidApiAllowedHost message)
        (indexed ''engine.api_allowed_hosts'' i)) (err_of (parse_allowed_host url_host v)))
     (List.enumerate 0 (ec_api_allowed_hosts (cfg_engine c)))"

definition issues :: "(string \<Rightarrow> bool) \<Rightarrow> (string \<Rightarrow> string option) \<Rightarrow> path_check \<Rightarrow> emergent_config \<Rightarrow> config_issue list" where
  "issues path_exists url_host paths c =
     (let ps = located_primitives c
      in name_issues ps @ duplicate_name_issues ps @ restart_policy_issues ps @ config_topic_issues c
         @ allowed_host_issues url_host c
         @ (if paths = PathCheck_Check then missing_path_issues path_exists ps else []))"

section \<open>Validation\<close>

definition validate_unique_names :: "emergent_config \<Rightarrow> (config_error, unit) result" where
  "validate_unique_names c = first_error (duplicate_name_issues (located_primitives c))"

definition validate_restart_policies :: "emergent_config \<Rightarrow> (config_error, unit) result" where
  "validate_restart_policies c = first_error (restart_policy_issues (located_primitives c))"

definition validate_names :: "emergent_config \<Rightarrow> (config_error, unit) result" where
  "validate_names c = first_error (name_issues (located_primitives c))"

definition validate_paths :: "(string \<Rightarrow> bool) \<Rightarrow> emergent_config \<Rightarrow> (config_error, unit) result" where
  "validate_paths path_exists c = first_error (missing_path_issues path_exists (located_primitives c))"

definition validate_subscription_topics :: "emergent_config \<Rightarrow> (config_error, unit) result" where
  "validate_subscription_topics c = first_error (config_topic_issues c)"

definition validate_allowed_hosts :: "(string \<Rightarrow> string option) \<Rightarrow> emergent_config \<Rightarrow> (config_error, unit) result" where
  "validate_allowed_hosts url_host c = first_error (allowed_host_issues url_host c)"

definition validate :: "(string \<Rightarrow> bool) \<Rightarrow> (string \<Rightarrow> string option) \<Rightarrow> emergent_config \<Rightarrow> (config_error, unit) result" where
  "validate path_exists url_host c = first_error (issues path_exists url_host PathCheck_Check c)"

definition allowed_api_hosts :: "(string \<Rightarrow> string option) \<Rightarrow> emergent_config \<Rightarrow> string list" where
  "allowed_api_hosts url_host c =
     (case parse_allowed_hosts url_host (ec_api_allowed_hosts (cfg_engine c)) of Inr hs \<Rightarrow> hs | Inl _ \<Rightarrow> [])"

text \<open>The platform: its directories, search path, files and TOML parser.\<close>

record platform =
  pf_home_dir :: "string option"
  pf_data_dir :: "string option"
  pf_which :: "string \<Rightarrow> string option"
  pf_exists :: "string \<Rightarrow> bool"
  pf_read_to_string :: "string \<Rightarrow> (string, string) result"
  pf_toml :: "string \<Rightarrow> (string, emergent_config) result"
  pf_url_host :: "string \<Rightarrow> string option"

definition parse_unchecked :: "platform \<Rightarrow> string \<Rightarrow> (config_error, emergent_config) result" where
  "parse_unchecked pf content = (case pf_toml pf content of
      Inl e \<Rightarrow> Err (CE_ParseError e)
    | Inr c \<Rightarrow> Ok (resolve_event_store_paths (pf_data_dir pf)
        (resolve_path_commands (pf_exists pf) (pf_which pf)
          (with_expanded_paths (pf_home_dir pf) c))))"

definition read_config :: "platform \<Rightarrow> string \<Rightarrow> (config_error, emergent_config) result" where
  "read_config pf path = (case pf_read_to_string pf path of
      Inl e \<Rightarrow> Err (CE_ReadError e) | Inr content \<Rightarrow> parse_unchecked pf content)"

definition checked_config :: "platform \<Rightarrow> (config_error, emergent_config) result \<Rightarrow> (config_error, emergent_config) result" where
  "checked_config pf r = (case r of
      Inl e \<Rightarrow> Err e
    | Inr c \<Rightarrow> (case validate (pf_exists pf) (pf_url_host pf) c of Inl e \<Rightarrow> Err e | Inr _ \<Rightarrow> Ok c))"

definition load_config :: "platform \<Rightarrow> string \<Rightarrow> (config_error, emergent_config) result" where
  "load_config pf path = checked_config pf (read_config pf path)"

definition parse_config :: "platform \<Rightarrow> string \<Rightarrow> (config_error, emergent_config) result" where
  "parse_config pf content = checked_config pf (parse_unchecked pf content)"

section \<open>Capacity\<close>

definition RESERVED_IPC_CONNECTIONS :: usize where
  "RESERVED_IPC_CONNECTIONS = 4"

definition required_ipc_connections :: "usize \<Rightarrow> usize" where
  "required_ipc_connections enabled_primitives = min (enabled_primitives + RESERVED_IPC_CONNECTIONS) (2 ^ 64 - 1)"

definition check_connection_capacity :: "usize \<Rightarrow> usize \<Rightarrow> (config_error, unit) result" where
  "check_connection_capacity enabled_primitives max_connections =
     (let required = required_ipc_connections enabled_primitives
      in if max_connections \<ge> required then Ok ()
         else Err (CE_ValidationError
           (''IPC connection limit of '' @ show_nat max_connections @ '' is too low for ''
            @ show_nat enabled_primitives
            @ '' enabled primitive(s). Each enabled primitive holds one connection for the life of its process, and the engine reserves ''
            @ show_nat RESERVED_IPC_CONNECTIONS
            @ '' more for a restarting primitive and for CLI or topology-viewer queries, so this topology needs at least ''
            @ show_nat required @ '' connections. Raise [engine].max_connections to '' @ show_nat required @ '' or more.'')))"

definition enabled_sources :: "emergent_config \<Rightarrow> source_config list" where
  "enabled_sources c = filter src_enabled (cfg_sources c)"

definition enabled_handlers :: "emergent_config \<Rightarrow> handler_config list" where
  "enabled_handlers c = filter hdl_enabled (cfg_handlers c)"

definition enabled_sinks :: "emergent_config \<Rightarrow> sink_config list" where
  "enabled_sinks c = filter snk_enabled (cfg_sinks c)"

definition enabled_primitive_count :: "emergent_config \<Rightarrow> usize" where
  "enabled_primitive_count c =
     length (enabled_sources c) + length (enabled_handlers c) + length (enabled_sinks c)"

definition config_check_connection_capacity :: "emergent_config \<Rightarrow> usize \<Rightarrow> (config_error, unit) result" where
  "config_check_connection_capacity c max_connections =
     check_connection_capacity (enabled_primitive_count c) max_connections"

section \<open>The declaration table\<close>

definition config_declarations :: "emergent_config \<Rightarrow> (string \<times> declarations) list" where
  "config_declarations c =
     map (\<lambda>s. (src_name s, declarations_new Source (src_publishes s) [])) (cfg_sources c)
     @ map (\<lambda>h. (hdl_name h, declarations_new Handler (hdl_publishes h) (hdl_subscribes h))) (cfg_handlers c)
     @ map (\<lambda>s. (snk_name s, declarations_new Sink [] (snk_subscribes s))) (cfg_sinks c)"

definition config_declaration_table :: "emergent_config \<Rightarrow> declaration_table" where
  "config_declaration_table c =
     declaration_table_new (ec_enforce_declarations (cfg_engine c)) (config_declarations c)"

section \<open>The contract of a check\<close>

text \<open>
  Every \<^verbatim>\<open>validate_*\<close> method reports the first issue of a list of issues, so it passes exactly when
  the list is empty; the interpretations below give that for each of them.
\<close>

locale issue_check =
  fixes issues_of :: "'c \<Rightarrow> config_issue list"
    and validator :: "'c \<Rightarrow> (config_error, unit) result"
  assumes validator_eq: "validator c = first_error (issues_of c)"
begin

lemma passes_iff: "is_ok (validator c) \<longleftrightarrow> issues_of c = []"
  by (simp add: validator_eq first_error_def split: list.split)

lemma error_is_first: "validator c = Err e \<longleftrightarrow> (\<exists>i rest. issues_of c = i # rest \<and> e = into_error i)"
  by (auto simp: validator_eq first_error_def split: list.split)

end

interpretation unique_names_check: issue_check "\<lambda>c. duplicate_name_issues (located_primitives c)" validate_unique_names
  by unfold_locales (rule validate_unique_names_def)

interpretation restart_check: issue_check "\<lambda>c. restart_policy_issues (located_primitives c)" validate_restart_policies
  by unfold_locales (rule validate_restart_policies_def)

interpretation names_check: issue_check "\<lambda>c. name_issues (located_primitives c)" validate_names
  by unfold_locales (rule validate_names_def)

interpretation paths_check: issue_check "\<lambda>c. missing_path_issues path_exists (located_primitives c)" "validate_paths path_exists"
  for path_exists by unfold_locales (rule validate_paths_def)

interpretation topics_check: issue_check config_topic_issues validate_subscription_topics
  by unfold_locales (rule validate_subscription_topics_def)

interpretation hosts_check: issue_check "allowed_host_issues url_host" "validate_allowed_hosts url_host" for url_host
  by unfold_locales (rule validate_allowed_hosts_def)

interpretation config_check: issue_check "issues path_exists url_host PathCheck_Check" "validate path_exists url_host"
  for path_exists url_host by unfold_locales (rule validate_def)

section \<open>When a list of issues is empty\<close>

definition config_primitives :: "emergent_config \<Rightarrow> primitive_config list" where
  "config_primitives c = map source_primitive (cfg_sources c) @ map handler_primitive (cfg_handlers c)
     @ map sink_primitive (cfg_sinks c)"

definition config_names :: "emergent_config \<Rightarrow> string list" where
  "config_names c = map src_name (cfg_sources c) @ map hdl_name (cfg_handlers c) @ map snk_name (cfg_sinks c)"

definition config_subscriptions :: "emergent_config \<Rightarrow> string list" where
  "config_subscriptions c = concat (map hdl_subscribes (cfg_handlers c)) @ concat (map snk_subscribes (cfg_sinks c))"

lemma map_filter_Nil_iff: "List.map_filter f xs = [] \<longleftrightarrow> (\<forall>x \<in> set xs. f x = None)"
  by (induction xs) (auto simp: map_filter_simps split: option.splits)

lemma ball_enumerate: "(\<forall>x \<in> set (List.enumerate n xs). P (snd x)) \<longleftrightarrow> (\<forall>x \<in> set xs. P x)"
  by (induction xs arbitrary: n) auto

lemma map_snd_enumerate: "map (\<lambda>x. f (snd x)) (List.enumerate n xs) = map f xs"
  by (induction xs arbitrary: n) auto

lemma map_snd_locate: "map snd (locate table view ps) = map view ps"
  by (simp add: locate_def comp_def case_prod_unfold map_snd_enumerate)

lemma located_views: "map snd (located_primitives c) = config_primitives c"
  by (simp add: located_primitives_def config_primitives_def map_snd_locate)

lemma primitive_names: "map pc_name (config_primitives c) = config_names c"
  by (simp add: config_primitives_def config_names_def source_primitive_def handler_primitive_def sink_primitive_def)

lemma ball_located: "(\<forall>x \<in> set (located_primitives c). P (snd x)) \<longleftrightarrow> list_all P (config_primitives c)"
  by (simp add: list_all_iff flip: located_views)

lemma repeats_Nil_iff:
  "repeats seen ps = [] \<longleftrightarrow> distinct (map (pc_name \<circ> snd) ps) \<and> set (map (pc_name \<circ> snd) ps) \<inter> seen = {}"
  by (induction seen ps rule: repeats.induct) auto

lemma length_repeats:
  "finite seen \<Longrightarrow> length (repeats seen ps) + card (seen \<union> set (map (pc_name \<circ> snd) ps)) = length ps + card seen"
proof (induction seen ps rule: repeats.induct)
  case (2 seen at p ps)
  show ?case
  proof (cases "pc_name p \<in> seen")
    case True
    then have "seen \<union> set (map (pc_name \<circ> snd) ((at, p) # ps)) = seen \<union> set (map (pc_name \<circ> snd) ps)"
      by auto
    with 2 True show ?thesis by simp
  next
    case False
    have e: "seen \<union> set (map (pc_name \<circ> snd) ((at, p) # ps)) = insert (pc_name p) seen \<union> set (map (pc_name \<circ> snd) ps)"
      by auto
    show ?thesis
      using 2(2) [OF False] 2(3) False unfolding e by simp
  qed
qed simp

lemma duplicate_name_issues_Nil_iff:
  "duplicate_name_issues (located_primitives c) = [] \<longleftrightarrow> distinct (config_names c)"
  by (simp add: duplicate_name_issues_def repeats_Nil_iff primitive_names located_views flip: map_map)

lemma length_duplicate_name_issues:
  "length (duplicate_name_issues (located_primitives c)) = length (config_names c) - card (set (config_names c))"
proof -
  have "length (located_primitives c) = length (config_names c)"
    by (metis length_map located_views primitive_names)
  then show ?thesis
    using length_repeats [of "{}" "located_primitives c"]
    by (simp add: duplicate_name_issues_def primitive_names located_views flip: map_map set_map)
qed

lemma validate_primitive_name_err: "err_of (validate_primitive_name n) = None \<longleftrightarrow> is_ok (PrimitiveName_new n)"
  by (simp add: validate_primitive_name_def split: sum.split)

lemma name_issues_Nil_iff:
  "name_issues (located_primitives c) = [] \<longleftrightarrow> list_all (\<lambda>n. is_ok (PrimitiveName_new n)) (config_names c)"
proof -
  have "name_issues (located_primitives c) = [] \<longleftrightarrow>
      (\<forall>x \<in> set (located_primitives c). is_ok (PrimitiveName_new (pc_name (snd x))))"
    by (auto simp: name_issues_def map_filter_Nil_iff validate_primitive_name_err case_prod_unfold)
  then show ?thesis
    by (simp add: ball_located [of c "\<lambda>p. is_ok (PrimitiveName_new (pc_name p))"] list_all_iff flip: primitive_names)
qed

lemma restart_policy_issues_Nil_iff:
  "restart_policy_issues (located_primitives c) = [] \<longleftrightarrow>
     list_all (\<lambda>p. restart_config_policy (pc_restart_config p) \<noteq> None) (config_primitives c)"
  using ball_located [of c "\<lambda>p. restart_config_policy (pc_restart_config p) \<noteq> None"]
  by (simp add: restart_policy_issues_def filter_empty_conv case_prod_unfold)

lemma missing_path_issues_Nil_iff:
  "missing_path_issues ex (located_primitives c) = [] \<longleftrightarrow>
     list_all (\<lambda>p. ex (pc_path p)) (filter pc_is_enabled (config_primitives c))"
proof -
  have "missing_path_issues ex (located_primitives c) = [] \<longleftrightarrow>
      (\<forall>x \<in> set (located_primitives c). pc_is_enabled (snd x) \<longrightarrow> ex (pc_path (snd x)))"
    by (auto simp: missing_path_issues_def filter_empty_conv case_prod_unfold)
  then show ?thesis
    by (simp add: ball_located [of c "\<lambda>p. pc_is_enabled p \<longrightarrow> ex (pc_path p)"]) (auto simp: list_all_iff)
qed

lemma topic_issues_Nil_iff:
  "subscription_topic_issues at n k ts = [] \<longleftrightarrow> (\<forall>t \<in> set ts. is_ok (classify_topic t))"
  using ball_enumerate [of 0 ts "\<lambda>t. is_ok (classify_topic t)"]
  by (simp add: subscription_topic_issues_def map_filter_Nil_iff case_prod_unfold err_of_None_iff)

lemma config_topic_issues_Nil_iff:
  "config_topic_issues c = [] \<longleftrightarrow> list_all (\<lambda>t. is_ok (classify_topic t)) (config_subscriptions c)"
  using ball_enumerate [of 0 "cfg_handlers c" "\<lambda>h. \<forall>t \<in> set (hdl_subscribes h). is_ok (classify_topic t)"]
    ball_enumerate [of 0 "cfg_sinks c" "\<lambda>s. \<forall>t \<in> set (snk_subscribes s). is_ok (classify_topic t)"]
  by (simp add: config_topic_issues_def config_subscriptions_def case_prod_unfold topic_issues_Nil_iff list_all_iff)
     blast

lemma allowed_host_issues_Nil_iff:
  "allowed_host_issues uh c = [] \<longleftrightarrow>
     list_all (\<lambda>v. is_ok (parse_allowed_host uh v)) (ec_api_allowed_hosts (cfg_engine c))"
  using ball_enumerate [of 0 "ec_api_allowed_hosts (cfg_engine c)" "\<lambda>v. is_ok (parse_allowed_host uh v)"]
  by (simp add: allowed_host_issues_def map_filter_Nil_iff case_prod_unfold err_of_None_iff list_all_iff)

lemmas issues_Nil_iffs = duplicate_name_issues_Nil_iff name_issues_Nil_iff restart_policy_issues_Nil_iff
  missing_path_issues_Nil_iff config_topic_issues_Nil_iff allowed_host_issues_Nil_iff

section \<open>The declaration table of a valid configuration\<close>

lemma config_declarations_names: "map fst (config_declarations c) = config_names c"
  by (simp add: config_declarations_def config_names_def)

lemma config_lookup_None:
  "dt_primitives (config_declaration_table c) n = None \<longleftrightarrow> n \<notin> set (config_names c)"
proof -
  have "fst ` set (config_declarations c) = set (config_names c)"
    by (metis config_declarations_names list.set_map)
  then show ?thesis
    by (simp add: config_declaration_table_def dt_primitives_new map_of_eq_None_iff)
qed

lemma config_lookup_mem:
  assumes "distinct (config_names c)" and "(n, d) \<in> set (config_declarations c)"
  shows "dt_primitives (config_declaration_table c) n = Some d"
  using dt_lookup_distinct [of "config_declarations c"] assms
  by (simp add: config_declaration_table_def config_declarations_names)

section \<open>Properties\<close>

text \<open>
  C6. What validation accepts. A configuration passes exactly when every name is a valid primitive
  name and no two primitives share one, every restart policy is a known one, every subscription
  topic of a handler or sink is valid, every allowed host parses, and the executable of every
  enabled primitive exists, disabled primitives included in everything but the last.
\<close>

theorem validate_accepts_iff:
  "is_ok (validate path_exists url_host c) \<longleftrightarrow>
     list_all (\<lambda>n. is_ok (PrimitiveName_new n)) (config_names c) \<and> distinct (config_names c)
     \<and> list_all (\<lambda>p. restart_config_policy (pc_restart_config p) \<noteq> None) (config_primitives c)
     \<and> list_all (\<lambda>t. is_ok (classify_topic t)) (config_subscriptions c)
     \<and> list_all (\<lambda>v. is_ok (parse_allowed_host url_host v)) (ec_api_allowed_hosts (cfg_engine c))
     \<and> list_all (\<lambda>p. path_exists (pc_path p)) (filter pc_is_enabled (config_primitives c))"
  by (simp add: config_check.passes_iff issues_def Let_def issues_Nil_iffs)

text \<open>
  Startup and the listing of every issue cannot disagree. Loading fails with the error of the
  first issue the full list has; every repeat of a name is one issue, so there are as many as the
  names exceed the distinct ones; and skipping the path check only drops issues at the end.
\<close>

theorem validate_reports_first_issue:
  "(validate path_exists url_host c = Err e \<longleftrightarrow>
      (\<exists>i rest. issues path_exists url_host PathCheck_Check c = i # rest \<and> e = into_error i))
   \<and> length (filter (\<lambda>i. ci_code i = DuplicateName) (issues path_exists url_host paths c)) =
       length (config_names c) - card (set (config_names c))
   \<and> issues path_exists url_host PathCheck_Check c =
       issues path_exists url_host PathCheck_Skip c @ missing_path_issues path_exists (located_primitives c)"
proof -
  have "filter (\<lambda>i. ci_code i = DuplicateName) (name_issues ps) = []"
    "filter (\<lambda>i. ci_code i = DuplicateName) (restart_policy_issues ps) = []"
    "filter (\<lambda>i. ci_code i = DuplicateName) (subscription_topic_issues at n k ts) = []"
    "filter (\<lambda>i. ci_code i = DuplicateName) (config_topic_issues c) = []"
    "filter (\<lambda>i. ci_code i = DuplicateName) (allowed_host_issues url_host c) = []"
    "filter (\<lambda>i. ci_code i = DuplicateName) (missing_path_issues path_exists ps) = []"
    "filter (\<lambda>i. ci_code i = DuplicateName) (duplicate_name_issues ps) = duplicate_name_issues ps" for ps at n k ts
    by (auto simp: filter_empty_conv filter_id_conv name_issues_def restart_policy_issues_def
        subscription_topic_issues_def config_topic_issues_def allowed_host_issues_def missing_path_issues_def
        duplicate_name_issues_def map_filter_def issue_at_def config_issue_new_def)
  then show ?thesis
    by (auto simp: config_check.error_is_first issues_def Let_def length_duplicate_name_issues)
qed

text \<open>
  In a valid configuration the table that enforcement consults gives each primitive its own
  declarations, with its own kind, and knows nobody else: no primitive is shadowed by another, and
  an undeclared name has none.
\<close>

theorem valid_config_table:
  assumes "is_ok (validate path_exists url_host c)"
  shows "list_all (\<lambda>s. dt_primitives (config_declaration_table c) (src_name s)
        = Some (declarations_new Source (src_publishes s) [])) (cfg_sources c)
    \<and> list_all (\<lambda>h. dt_primitives (config_declaration_table c) (hdl_name h)
        = Some (declarations_new Handler (hdl_publishes h) (hdl_subscribes h))) (cfg_handlers c)
    \<and> list_all (\<lambda>s. dt_primitives (config_declaration_table c) (snk_name s)
        = Some (declarations_new Sink [] (snk_subscribes s))) (cfg_sinks c)
    \<and> (dt_primitives (config_declaration_table c) n = None \<longleftrightarrow> n \<notin> set (config_names c))"
proof -
  have "distinct (config_names c)"
    using assms by (simp add: config_check.passes_iff issues_def Let_def issues_Nil_iffs)
  note look = config_lookup_mem [OF this]
  have "list_all (\<lambda>s. dt_primitives (config_declaration_table c) (src_name s)
        = Some (declarations_new Source (src_publishes s) [])) (cfg_sources c)"
    "list_all (\<lambda>h. dt_primitives (config_declaration_table c) (hdl_name h)
        = Some (declarations_new Handler (hdl_publishes h) (hdl_subscribes h))) (cfg_handlers c)"
    "list_all (\<lambda>s. dt_primitives (config_declaration_table c) (snk_name s)
        = Some (declarations_new Sink [] (snk_subscribes s))) (cfg_sinks c)"
    unfolding list_all_iff by (rule ballI, rule look, simp add: config_declarations_def)+
  then show ?thesis
    by (simp add: config_lookup_None)
qed

definition sample_config :: emergent_config where
  "sample_config =
     \<lparr> cfg_engine = engine_config_default, cfg_event_store = event_store_config_default,
       cfg_sources = [\<lparr> src_name = ''timer'', src_path = ''/bin/timer'', src_args = [], src_enabled = True,
          src_publishes = [''timer.*''], src_env = Map.empty, src_restart = restart_config_default \<rparr>],
       cfg_handlers = [],
       cfg_sinks = [\<lparr> snk_name = ''log'', snk_path = ''/bin/log'', snk_args = [], snk_enabled = False,
          snk_subscribes = [''timer.tick''], snk_env = Map.empty, snk_unwrap_stdout = False,
          snk_restart = restart_config_default \<rparr>] \<rparr>"

lemma sample_config_valid: "is_ok (validate (\<lambda>p. p = ''/bin/timer'') (\<lambda>_. None) sample_config)"
  by code_simp

theorem valid_config_table_witness:
  "dt_primitives (config_declaration_table sample_config) ''timer'' = Some (declarations_new Source [''timer.*''] [])
   \<and> dt_primitives (config_declaration_table sample_config) ''nobody'' = None"
  using valid_config_table [OF sample_config_valid, of "''nobody''"]
  by (simp add: sample_config_def config_names_def)

text \<open>
  The capacity check accepts a connection limit exactly when it holds one connection for each
  enabled primitive and the four in reserve, and a limit it refuses is refused by every larger
  topology too.
\<close>

theorem capacity_accepts_iff:
  "n < 2 ^ 64 - 4 \<Longrightarrow>
   (is_ok (check_connection_capacity n limit) \<longleftrightarrow> n + 4 \<le> limit)
   \<and> (\<not> is_ok (check_connection_capacity n limit) \<longrightarrow> \<not> is_ok (check_connection_capacity (n + k) limit))"
  by (auto simp: check_connection_capacity_def required_ipc_connections_def RESERVED_IPC_CONNECTIONS_def Let_def)

theorem capacity_accepts_iff_witness:
  "\<not> is_ok (check_connection_capacity 5 8) \<and> is_ok (check_connection_capacity 4 8)"
  using capacity_accepts_iff [of 5 8 0] capacity_accepts_iff [of 4 8 0] by simp

end
