(* ===== verification/Process_Manager.thy ===== *)
theory Process_Manager
  imports Primitive_Actor Readiness Config "HOL-Library.Sublist"
begin

text \<open>
  The process manager, after \<^verbatim>\<open>emergent-engine/src/process_manager.rs\<close>, with the wait on children and
  the kill of a process group from \<^verbatim>\<open>primitive_actor.rs\<close>: registration, the tiered start with its
  bounded wait, the queries, the notices of child exits, and the three phases of shutdown.

  The map of actors is the list of its entries in the order the hash map iterates. An entry holds
  what the manager can read of its actor: the info it last published and the pid watch. What the
  actors and the kernel do meanwhile are \<open>world_event\<close>s on these watches; a wait is given the events
  that happen before its deadline, so the end of the list is the deadline. What the manager does to
  its actors and children is a list of \<open>pm_effect\<close>s.
\<close>

section \<open>State\<close>

record shutdown_timings =
  sd_drain :: u64
  sd_grace :: u64

definition timings_from_engine :: "engine_config \<Rightarrow> shutdown_timings" where
  "timings_from_engine e = \<lparr> sd_drain = ec_shutdown_drain_ms e, sd_grace = ec_shutdown_grace_ms e \<rparr>"

record startup_readiness =
  sr_timeout :: u64
  sr_signals :: bool

text \<open>\<open>observed\<close> is what the channel of subscribe signals holds at that moment.\<close>

definition readiness_drain :: "startup_readiness \<Rightarrow> observed_subscriber_kind list \<Rightarrow> observed_subscriber_kind list" where
  "readiness_drain r observed = (if sr_signals r then observed else [])"

datatype process_manager_error =
    PM_NotFound string
  | PM_AlreadyExists string
  | PM_RuntimeUnavailable
  | PM_StartError string

record actor_entry =
  ae_actor :: actor_config
  ae_kind :: primitive_kind
  ae_status :: primitive_info
  ae_pid :: "pid option"
  ae_closed :: bool

type_synonym actors = "(string \<times> actor_entry) list"

record process_manager =
  pm_socket_path :: string
  pm_api_port :: u16
  pm_actors :: actors
  pm_child_exits :: bool

definition process_manager_new :: "string \<Rightarrow> u16 \<Rightarrow> process_manager" where
  "process_manager_new socket_path api_port =
     \<lparr> pm_socket_path = socket_path, pm_api_port = api_port, pm_actors = [], pm_child_exits = False \<rparr>"

definition observing_child_exits :: "process_manager \<Rightarrow> process_manager" where
  "observing_child_exits pm = pm\<lparr> pm_child_exits := True \<rparr>"

section \<open>What happens to the watches\<close>

datatype world_event =
    PidChanged string "pid option"
  | InfoPublished string primitive_info
  | SenderDropped string

definition on_entry :: "string \<Rightarrow> (actor_entry \<Rightarrow> actor_entry) \<Rightarrow> actors \<Rightarrow> actors" where
  "on_entry n f = map (\<lambda>(m, e). (m, if m = n then f e else e))"

definition world_step :: "actors \<Rightarrow> world_event \<Rightarrow> actors" where
  "world_step as ev = (case ev of
      PidChanged n p \<Rightarrow> on_entry n (\<lambda>e. e\<lparr> ae_pid := p \<rparr>) as
    | InfoPublished n i \<Rightarrow> on_entry n (\<lambda>e. e\<lparr> ae_status := i \<rparr>) as
    | SenderDropped n \<Rightarrow> on_entry n (\<lambda>e. e\<lparr> ae_closed := True \<rparr>) as)"

definition watch_pid :: "actors \<Rightarrow> string \<Rightarrow> pid option" where
  "watch_pid as n = Option.bind (map_of as n) ae_pid"

definition watch_closed :: "actors \<Rightarrow> string \<Rightarrow> bool" where
  "watch_closed as n = (case map_of as n of None \<Rightarrow> True | Some e \<Rightarrow> ae_closed e)"

section \<open>Registration\<close>

definition new_entry ::
  "process_manager \<Rightarrow> primitive_info \<Rightarrow> string \<Rightarrow> string list \<Rightarrow> (string \<rightharpoonup> string) \<Rightarrow> restart_config \<Rightarrow> actor_entry" where
  "new_entry pm info path args env supervision =
     (let cfg = \<lparr> ac_info = info, ac_path = path, ac_args = args, ac_env = env,
            ac_socket_path = pm_socket_path pm, ac_api_port = pm_api_port pm,
            ac_restart = (case restart_config_policy supervision of Some p \<Rightarrow> p | None \<Rightarrow> restart_policy_default),
            ac_restart_limits = restart_config_limits supervision \<rparr>
      in \<lparr> ae_actor = cfg, ae_kind = info_kind info, ae_status = info, ae_pid = None, ae_closed = False \<rparr>)"

definition register_primitive ::
  "process_manager \<Rightarrow> primitive_info \<Rightarrow> string \<Rightarrow> string list \<Rightarrow> (string \<rightharpoonup> string) \<Rightarrow> restart_config
     \<Rightarrow> (process_manager_error, process_manager) result" where
  "register_primitive pm info path args env supervision =
     (if map_of (pm_actors pm) (info_name info) \<noteq> None then Err (PM_AlreadyExists (info_name info))
      else Ok (pm\<lparr> pm_actors := pm_actors pm @ [(info_name info, new_entry pm info path args env supervision)] \<rparr>))"

definition unwrap_env :: "bool \<Rightarrow> (string \<rightharpoonup> string) \<Rightarrow> (string \<rightharpoonup> string)" where
  "unwrap_env unwrap env = (if unwrap then env(''EMERGENT_UNWRAP_STDOUT'' \<mapsto> ''true'') else env)"

definition register_source :: "process_manager \<Rightarrow> source_config \<Rightarrow> (process_manager_error, process_manager) result" where
  "register_source pm c =
     register_primitive pm (info_source (src_name c) (src_publishes c)) (src_path c) (src_args c) (src_env c) (src_restart c)"

definition register_handler :: "process_manager \<Rightarrow> handler_config \<Rightarrow> (process_manager_error, process_manager) result" where
  "register_handler pm c =
     register_primitive pm (info_handler (hdl_name c) (hdl_subscribes c) (hdl_publishes c)) (hdl_path c) (hdl_args c)
       (unwrap_env (hdl_unwrap_stdout c) (hdl_env c)) (hdl_restart c)"

definition register_sink :: "process_manager \<Rightarrow> sink_config \<Rightarrow> (process_manager_error, process_manager) result" where
  "register_sink pm c =
     register_primitive pm (info_sink (snk_name c) (snk_subscribes c)) (snk_path c) (snk_args c)
       (unwrap_env (snk_unwrap_stdout c) (snk_env c)) (snk_restart c)"

text \<open>One of the loops of \<^verbatim>\<open>start_all\<close>: what was registered before an error stays registered.\<close>

fun register_each ::
  "(process_manager \<Rightarrow> 'c \<Rightarrow> (process_manager_error, process_manager) result) \<Rightarrow> 'c list \<Rightarrow> process_manager
     \<Rightarrow> process_manager \<times> (process_manager_error, unit) result" where
  "register_each reg [] pm = (pm, Ok ())"
| "register_each reg (c # cs) pm = (case reg pm c of
      Inl e \<Rightarrow> (pm, Err e)
    | Inr pm' \<Rightarrow> register_each reg cs pm')"

section \<open>Queries\<close>

definition live_child_pids :: "actors \<Rightarrow> pid \<rightharpoonup> string" where
  "live_child_pids as =
     map_of (rev (List.map_filter (\<lambda>(n, e). map_option (\<lambda>p. (p, n)) (ae_pid e)) as))"

definition list_all_infos :: "process_manager \<Rightarrow> primitive_info list" where
  "list_all_infos pm = map (\<lambda>(_, e). ae_status e) (pm_actors pm)"

definition get_info :: "process_manager \<Rightarrow> string \<Rightarrow> primitive_info option" where
  "get_info pm n = map_option ae_status (map_of (pm_actors pm) n)"

definition pm_count :: "process_manager \<Rightarrow> usize" where
  "pm_count pm = length (pm_actors pm)"

definition pm_contains :: "process_manager \<Rightarrow> string \<Rightarrow> bool" where
  "pm_contains pm n = (map_of (pm_actors pm) n \<noteq> None)"

definition get_by_kind :: "process_manager \<Rightarrow> primitive_kind \<Rightarrow> primitive_info list" where
  "get_by_kind pm kind = map (\<lambda>(_, e). ae_status e) (filter (\<lambda>(_, e). ae_kind e = kind) (pm_actors pm))"

section \<open>The wait for a tier\<close>

definition tier_members :: "primitive_kind \<Rightarrow> string set \<Rightarrow> actors \<Rightarrow> tier_member list" where
  "tier_members kind confirmed as =
     map (\<lambda>(_, e). let info = ae_status e; running = info_state info \<notin> {Stopped, Failed}
        in \<lparr> tm_name = info_name info, tm_declares_subscriptions = (info_subscribes info \<noteq> []),
             tm_evidence = classify running (info_name info \<in> confirmed) \<rparr>)
       (filter (\<lambda>(_, e). ae_kind e = kind) as)"

text \<open>
  One round of the loop: what happened to the watches since the last look, the subscribes the policy
  reported, and the time since the wait started, in milliseconds.
\<close>

record tier_poll =
  tp_events :: "world_event list"
  tp_observed :: "observed_subscriber_kind list"
  tp_elapsed :: nat

datatype tier_outcome = TierSkipped | TierReady | TierTimedOut "string list"

fun tier_loop ::
  "primitive_kind \<Rightarrow> startup_readiness \<Rightarrow> ledger \<Rightarrow> actors \<Rightarrow> tier_poll list \<Rightarrow> actors \<times> tier_outcome option" where
  "tier_loop kind r l as [] = (as, None)"
| "tier_loop kind r l as (p # ps) =
     (let as = foldl world_step as (tp_events p);
          l = absorb l (readiness_drain r (tp_observed p)) (live_child_pids as);
          verdict = evaluate_tier (tier_members kind (lg_confirmed l) as)
      in if tv_ready verdict then (as, Some TierReady)
         else if unat (sr_timeout r) \<le> tp_elapsed p then (as, Some (TierTimedOut (tv_waiting_on verdict)))
         else tier_loop kind r l as ps)"

definition wait_for_tier ::
  "primitive_kind \<Rightarrow> startup_readiness \<Rightarrow> actors \<Rightarrow> tier_poll list \<Rightarrow> actors \<times> tier_outcome option" where
  "wait_for_tier kind r as polls =
     (if sr_timeout r = 0 then (as, Some TierSkipped) else tier_loop kind r ledger_default as polls)"

section \<open>Starting\<close>

datatype start_outcome = Started | StartFailed process_manager_error | StillWaiting primitive_kind

definition start_all ::
  "process_manager \<Rightarrow> sink_config list \<Rightarrow> handler_config list \<Rightarrow> source_config list \<Rightarrow> startup_readiness
     \<Rightarrow> tier_poll list \<Rightarrow> tier_poll list \<Rightarrow> process_manager \<times> start_outcome" where
  "start_all pm sinks handlers sources r sink_polls handler_polls =
     (case register_each register_sink sinks pm of
        (pm, Inl e) \<Rightarrow> (pm, StartFailed e)
      | (pm, Inr _) \<Rightarrow> (case wait_for_tier Sink r (pm_actors pm) sink_polls of
          (as, None) \<Rightarrow> (pm\<lparr> pm_actors := as \<rparr>, StillWaiting Sink)
        | (as, Some _) \<Rightarrow> (case register_each register_handler handlers (pm\<lparr> pm_actors := as \<rparr>) of
            (pm, Inl e) \<Rightarrow> (pm, StartFailed e)
          | (pm, Inr _) \<Rightarrow> (case wait_for_tier Handler r (pm_actors pm) handler_polls of
              (as, None) \<Rightarrow> (pm\<lparr> pm_actors := as \<rparr>, StillWaiting Handler)
            | (as, Some _) \<Rightarrow> (case register_each register_source sources (pm\<lparr> pm_actors := as \<rparr>) of
                (pm, Inl e) \<Rightarrow> (pm, StartFailed e)
              | (pm, Inr _) \<Rightarrow> (pm, Started))))))"

section \<open>Notices of child exits\<close>

text \<open>
  The task that watches one primitive: \<open>live\<close> is the value it saw last, the list the values it reads
  on each wake-up. A watch keeps only the latest value, so values in between can be missed.
\<close>

fun exit_notices :: "pid option \<Rightarrow> pid option list \<Rightarrow> pid list" where
  "exit_notices live [] = []"
| "exit_notices live (current # rest) =
     (case (live, current) of (Some p, None) \<Rightarrow> [p] | _ \<Rightarrow> []) @ exit_notices current rest"

definition watch_child_exits :: "process_manager \<Rightarrow> pid option \<Rightarrow> pid option list \<Rightarrow> pid list" where
  "watch_child_exits pm first seen = (if pm_child_exits pm then exit_notices first seen else [])"

section \<open>Waiting for children and killing them\<close>

fun wait_one :: "string \<Rightarrow> actors \<Rightarrow> world_event list \<Rightarrow> actors \<times> world_event list" where
  "wait_one n as [] = (as, [])"
| "wait_one n as (ev # evs) =
     (if watch_pid as n = None \<or> watch_closed as n then (as, ev # evs) else wait_one n (world_step as ev) evs)"

definition still_running :: "string list \<Rightarrow> actors \<Rightarrow> (string \<times> pid) list" where
  "still_running watched as = List.map_filter (\<lambda>n. map_option (\<lambda>p. (n, p)) (watch_pid as n)) watched"

fun wait_each :: "string list \<Rightarrow> actors \<Rightarrow> world_event list \<Rightarrow> actors" where
  "wait_each [] as evs = as"
| "wait_each (n # ns) as evs = (case wait_one n as evs of (as', evs') \<Rightarrow> wait_each ns as' evs')"

definition wait_for_children_exit :: "string list \<Rightarrow> actors \<Rightarrow> world_event list \<Rightarrow> actors \<times> (string \<times> pid) list" where
  "wait_for_children_exit watched as window =
     (let as' = wait_each watched as window in (as', still_running watched as'))"

datatype kill_answer = KillOk | KillNoSuchProcess | KillError

definition sigkill_process_group :: "(int \<Rightarrow> kill_answer) \<Rightarrow> pid \<Rightarrow> int list" where
  "sigkill_process_group kill p =
     (if uint p \<ge> 2 ^ 31 then []
      else case kill (- uint p) of
        KillOk \<Rightarrow> [- uint p] | KillNoSuchProcess \<Rightarrow> [- uint p] | KillError \<Rightarrow> [- uint p, uint p])"

section \<open>Shutdown\<close>

datatype pm_effect =
    BroadcastShutdown string
  | SendTo string actor_msg
  | SigKillGroup pid
  | StopActor string

definition announce_shutdown :: "actors \<Rightarrow> pm_effect list" where
  "announce_shutdown as = map (\<lambda>(n, _). SendTo n EngineShuttingDown) as"

definition targets_of_kind :: "actors \<Rightarrow> primitive_kind \<Rightarrow> string list" where
  "targets_of_kind as kind = map fst (filter (\<lambda>(_, e). ae_kind e = kind) as)"

record phase_windows =
  pw_drain :: "world_event list"
  pw_grace :: "world_event list"
  pw_reap :: "world_event list"

definition shutdown_phase ::
  "primitive_kind \<Rightarrow> shutdown_timings \<Rightarrow> bool \<Rightarrow> phase_windows \<Rightarrow> actors \<Rightarrow> actors \<times> pm_effect list" where
  "shutdown_phase kind timings allow_voluntary_exit w as =
     (let targets = targets_of_kind as kind
      in if targets = [] then (as, [BroadcastShutdown (primitive_kind_as_str kind)])
         else
           let (as, alive) = (if allow_voluntary_exit \<and> sd_drain timings \<noteq> 0
                 then wait_for_children_exit targets as (pw_drain w) else (as, still_running targets as));
               (as, terms, alive) = (if alive \<noteq> []
                 then (let (as, alive) = wait_for_children_exit targets as (pw_grace w)
                       in (as, map (\<lambda>n. SendTo n StopPrimitive) targets, alive))
                 else (as, [], alive));
               (as, kills) = (if alive \<noteq> []
                 then (fst (wait_for_children_exit targets as (pw_reap w)), map (\<lambda>(_, p). SigKillGroup p) alive)
                 else (as, []))
           in (as, BroadcastShutdown (primitive_kind_as_str kind) # terms @ kills @ map StopActor targets))"

definition graceful_shutdown ::
  "shutdown_timings \<Rightarrow> (primitive_kind \<Rightarrow> phase_windows) \<Rightarrow> actors \<Rightarrow> actors \<times> pm_effect list" where
  "graceful_shutdown timings w as =
     (let announced = announce_shutdown as;
          (as, sources) = shutdown_phase Source timings False (w Source) as;
          (as, handlers) = shutdown_phase Handler timings True (w Handler) as;
          (as, sinks) = shutdown_phase Sink timings True (w Sink) as
      in (as, announced @ sources @ handlers @ sinks))"

section \<open>The roster\<close>

text \<open>What no event on a watch changes: who is registered, with which actor, as which kind.\<close>

definition roster :: "actors \<Rightarrow> (string \<times> actor_config \<times> primitive_kind) list" where
  "roster as = map (\<lambda>(n, e). (n, ae_actor e, ae_kind e)) as"

lemma roster_simps [simp]:
  "roster [] = []" "roster ((n, e) # as) = (n, ae_actor e, ae_kind e) # roster as" "roster (as @ bs) = roster as @ roster bs"
  by (simp_all add: roster_def)

lemma roster_names: "map fst as = map fst (roster as)"
  by (induction as) auto

lemma map_of_on_entry [simp]:
  "map_of (on_entry n f as) m = (if m = n then map_option f (map_of as m) else map_of as m)"
  by (induction as) (auto simp: on_entry_def)

lemma roster_on_entry:
  "(\<And>e. ae_actor (f e) = ae_actor e \<and> ae_kind (f e) = ae_kind e) \<Longrightarrow> roster (on_entry n f as) = roster as"
  by (induction as) (auto simp: on_entry_def)

lemma roster_world_step: "roster (world_step as ev) = roster as"
  by (cases ev) (simp_all add: world_step_def roster_on_entry)

interpretation watches: step_function world_step "\<lambda>as. roster as = R" for R
  by unfold_locales (simp add: roster_world_step)

lemma roster_foldl [simp]: "roster (foldl world_step as evs) = roster as"
  using watches.run_inv [of as "roster as" evs] by (simp add: run_steps_def)

lemma targets_of_kind_eq: "targets_of_kind as kind = map fst (filter (\<lambda>(_, _, k). k = kind) (roster as))"
  by (induction as) (auto simp: targets_of_kind_def)

lemma targets_cong: "roster as = roster bs \<Longrightarrow> targets_of_kind as = targets_of_kind bs"
  by (simp add: targets_of_kind_eq fun_eq_iff)

section \<open>The contract of registration\<close>

text \<open>
  What the start sequence relies on: registering adds one entry under a new name and refuses a name
  that is taken. The three kinds of primitive share it.
\<close>

locale registrar =
  fixes reg :: "process_manager \<Rightarrow> 'c \<Rightarrow> (process_manager_error, process_manager) result"
    and name_of :: "'c \<Rightarrow> string"
    and entry_of :: "process_manager \<Rightarrow> 'c \<Rightarrow> actor_entry"
  assumes reg_eq: "reg pm c = (if map_of (pm_actors pm) (name_of c) \<noteq> None then Err (PM_AlreadyExists (name_of c))
      else Ok (pm\<lparr> pm_actors := pm_actors pm @ [(name_of c, entry_of pm c)] \<rparr>))"
    and entry_frame [simp]: "entry_of (pm\<lparr> pm_actors := as \<rparr>) c = entry_of pm c"
begin

lemma each_fresh:
  "distinct (map name_of cs) \<Longrightarrow> set (map name_of cs) \<inter> fst ` set (pm_actors pm) = {} \<Longrightarrow>
   register_each reg cs pm = (pm\<lparr> pm_actors := pm_actors pm @ map (\<lambda>c. (name_of c, entry_of pm c)) cs \<rparr>, Ok ())"
proof (induction cs arbitrary: pm)
  case (Cons c cs)
  then have "map_of (pm_actors pm) (name_of c) = None"
    by (simp add: map_of_eq_None_iff)
  with Cons show ?case
    by (simp add: reg_eq)
qed simp

lemma each_keeps_names_distinct:
  "distinct (map fst (pm_actors pm)) \<Longrightarrow> distinct (map fst (pm_actors (fst (register_each reg cs pm))))"
proof (induction cs arbitrary: pm)
  case (Cons c cs)
  then show ?case
    by (cases "map_of (pm_actors pm) (name_of c)") (auto simp: reg_eq map_of_eq_None_iff)
qed simp

lemma each_refuses:
  "snd (register_each reg cs pm) = Err e \<Longrightarrow>
   \<exists>n. e = PM_AlreadyExists n \<and> n \<in> fst ` set (pm_actors (fst (register_each reg cs pm)))"
proof (induction cs arbitrary: pm)
  case (Cons c cs)
  show ?case
  proof (cases "map_of (pm_actors pm) (name_of c)")
    case None
    with Cons show ?thesis
      by (simp add: reg_eq [of pm c])
  next
    case (Some x)
    then have "name_of c \<in> fst ` set (pm_actors pm)"
      by (metis map_of_eq_None_iff option.distinct(1))
    with Cons.prems Some show ?thesis
      by (auto simp: reg_eq [of pm c])
  qed
qed simp

end

definition source_entry :: "process_manager \<Rightarrow> source_config \<Rightarrow> actor_entry" where
  "source_entry pm c = new_entry pm (info_source (src_name c) (src_publishes c)) (src_path c) (src_args c) (src_env c) (src_restart c)"

definition handler_entry :: "process_manager \<Rightarrow> handler_config \<Rightarrow> actor_entry" where
  "handler_entry pm c = new_entry pm (info_handler (hdl_name c) (hdl_subscribes c) (hdl_publishes c)) (hdl_path c) (hdl_args c)
     (unwrap_env (hdl_unwrap_stdout c) (hdl_env c)) (hdl_restart c)"

definition sink_entry :: "process_manager \<Rightarrow> sink_config \<Rightarrow> actor_entry" where
  "sink_entry pm c = new_entry pm (info_sink (snk_name c) (snk_subscribes c)) (snk_path c) (snk_args c)
     (unwrap_env (snk_unwrap_stdout c) (snk_env c)) (snk_restart c)"

lemmas registration_defs = register_primitive_def new_entry_def Let_def

interpretation sources: registrar register_source src_name source_entry
  by unfold_locales (simp_all add: register_source_def source_entry_def info_source_def registration_defs)

interpretation handlers: registrar register_handler hdl_name handler_entry
  by unfold_locales (simp_all add: register_handler_def handler_entry_def info_handler_def registration_defs)

interpretation sinks: registrar register_sink snk_name sink_entry
  by unfold_locales (simp_all add: register_sink_def sink_entry_def info_sink_def registration_defs)

section \<open>Lemmas on the wait for a tier\<close>

text \<open>One look of the loop, apart from its verdict.\<close>

definition tier_look :: "startup_readiness \<Rightarrow> ledger \<times> actors \<Rightarrow> tier_poll \<Rightarrow> ledger \<times> actors" where
  "tier_look r la p = (let as = foldl world_step (snd la) (tp_events p)
     in (absorb (fst la) (readiness_drain r (tp_observed p)) (live_child_pids as), as))"

definition tier_verdict_after :: "primitive_kind \<Rightarrow> ledger \<times> actors \<Rightarrow> tier_verdict" where
  "tier_verdict_after kind la = evaluate_tier (tier_members kind (lg_confirmed (fst la)) (snd la))"

lemma tier_loop_Cons:
  "tier_loop kind r l as (p # ps) =
     (let la = tier_look r (l, as) p; v = tier_verdict_after kind la
      in if tv_ready v then (snd la, Some TierReady)
         else if unat (sr_timeout r) \<le> tp_elapsed p then (snd la, Some (TierTimedOut (tv_waiting_on v)))
         else tier_loop kind r (fst la) (snd la) ps)"
  by (simp add: tier_look_def tier_verdict_after_def Let_def)

declare tier_loop.simps(2) [simp del]

lemma tier_loop_roster: "roster (fst (tier_loop kind r l as ps)) = roster as"
  by (induction ps arbitrary: l as) (simp_all add: tier_loop_Cons tier_look_def Let_def)

lemma wait_for_tier_roster: "wait_for_tier kind r as ps = (as', out) \<Longrightarrow> roster as' = roster as"
  using tier_loop_roster [of kind r ledger_default as ps] by (auto simp: wait_for_tier_def split: if_splits)

lemma tier_loop_returns:
  "list_ex (\<lambda>p. unat (sr_timeout r) \<le> tp_elapsed p) ps \<Longrightarrow> \<exists>out. snd (tier_loop kind r l as ps) = Some out"
  by (induction ps arbitrary: l as) (auto simp: tier_loop_Cons Let_def)

definition tier_deadline :: "startup_readiness \<Rightarrow> tier_poll list \<Rightarrow> bool" where
  "tier_deadline r ps \<longleftrightarrow> sr_timeout r = 0 \<or> list_ex (\<lambda>p. unat (sr_timeout r) \<le> tp_elapsed p) ps"

lemma wait_for_tier_returns: "tier_deadline r ps \<Longrightarrow> \<exists>as' out. wait_for_tier kind r as ps = (as', Some out)"
  using tier_loop_returns [of r ps kind ledger_default as]
  by (cases "tier_loop kind r ledger_default as ps") (auto simp: wait_for_tier_def tier_deadline_def)

text \<open>The loop ends at the first look that finds the tier ready or the deadline passed.\<close>

lemma tier_loop_split:
  "tier_loop kind r l as ps = (as', Some out) \<Longrightarrow>
   \<exists>pre p post la. ps = pre @ p # post \<and> la = foldl (tier_look r) (l, as) (pre @ [p]) \<and> as' = snd la
     \<and> (if tv_ready (tier_verdict_after kind la) then out = TierReady
        else unat (sr_timeout r) \<le> tp_elapsed p \<and> out = TierTimedOut (tv_waiting_on (tier_verdict_after kind la)))
     \<and> list_all (\<lambda>q. tp_elapsed q < unat (sr_timeout r)) pre"
proof (induction ps arbitrary: l as)
  case (Cons p ps)
  let ?la = "tier_look r (l, as) p"
  show ?case
  proof (cases "tv_ready (tier_verdict_after kind ?la) \<or> unat (sr_timeout r) \<le> tp_elapsed p")
    case True
    with Cons.prems show ?thesis
      by (intro exI [of _ "[]"] exI [of _ p] exI [of _ ps] exI [of _ ?la])
         (auto simp: tier_loop_Cons Let_def split: if_splits)
  next
    case False
    with Cons.prems have "tier_loop kind r (fst ?la) (snd ?la) ps = (as', Some out)"
      by (simp add: tier_loop_Cons Let_def)
    then obtain pre q post la where
      "ps = pre @ q # post" "la = foldl (tier_look r) ?la (pre @ [q])" "as' = snd la"
      "if tv_ready (tier_verdict_after kind la) then out = TierReady
        else unat (sr_timeout r) \<le> tp_elapsed q \<and> out = TierTimedOut (tv_waiting_on (tier_verdict_after kind la))"
      "list_all (\<lambda>q. tp_elapsed q < unat (sr_timeout r)) pre"
      using Cons.IH [of "fst ?la" "snd ?la"] unfolding prod.collapse by blast
    with False show ?thesis
      by (intro exI [of _ "p # pre"] exI [of _ q] exI [of _ post] exI [of _ la]) auto
  qed
qed simp

text \<open>Who was heard from by a look: an observation up to it, attributed by the children it sees.\<close>

definition children_at :: "actors \<Rightarrow> tier_poll list \<Rightarrow> pid \<rightharpoonup> string" where
  "children_at as ps = live_child_pids (foldl world_step as (concat (map tp_events ps)))"

definition heard :: "startup_readiness \<Rightarrow> actors \<Rightarrow> tier_poll list \<Rightarrow> string \<Rightarrow> bool" where
  "heard r as ps n \<longleftrightarrow> sr_signals r
     \<and> (\<exists>pre post. ps = pre @ post
          \<and> (\<exists>s \<in> set (concat (map tp_observed pre)). attribute s (children_at as pre) = Some n))"

lemma heard_append: "heard r as ps n \<Longrightarrow> heard r as (ps @ qs) n"
  by (fastforce simp: heard_def)

lemma tier_looks:
  "snd (foldl (tier_look r) (ledger_default, as) ps) = foldl world_step as (concat (map tp_events ps))
   \<and> set (lg_unattributed (fst (foldl (tier_look r) (ledger_default, as) ps)))
       \<subseteq> (if sr_signals r then set (concat (map tp_observed ps)) else {})
   \<and> (\<forall>n \<in> lg_confirmed (fst (foldl (tier_look r) (ledger_default, as) ps)). heard r as ps n)"
proof (induction ps rule: rev_induct)
  case (snoc p ps)
  let ?la = "foldl (tier_look r) (ledger_default, as) ps"
  let ?as = "foldl world_step as (concat (map tp_events (ps @ [p])))"
  have la: "tier_look r ?la p = (absorb (fst ?la) (readiness_drain r (tp_observed p)) (live_child_pids ?as), ?as)"
    using snoc by (simp add: tier_look_def [of r ?la] Let_def)
  have seen: "set (lg_unattributed (fst ?la) @ readiness_drain r (tp_observed p))
      \<subseteq> (if sr_signals r then set (concat (map tp_observed (ps @ [p]))) else {})"
    using snoc by (auto simp: readiness_drain_def split: if_splits)
  have "heard r as (ps @ [p]) n"
    if at: "n \<in> attributed (live_child_pids ?as) (lg_unattributed (fst ?la) @ readiness_drain r (tp_observed p))" for n
  proof -
    obtain s where s: "s \<in> set (lg_unattributed (fst ?la) @ readiness_drain r (tp_observed p))"
      "attribute s (children_at as (ps @ [p])) = Some n"
      using at unfolding attributed_def children_at_def by blast
    with seen have "sr_signals r" "s \<in> set (concat (map tp_observed (ps @ [p])))"
      by (auto split: if_splits)
    with s(2) show ?thesis
      unfolding heard_def by (intro conjI exI [of _ "ps @ [p]"] exI [of _ "[]"]) auto
  qed
  then have "\<forall>n \<in> lg_confirmed (fst (tier_look r ?la p)). heard r as (ps @ [p]) n"
    using snoc heard_append unfolding la absorb_eq by auto
  moreover have "set (lg_unattributed (fst (tier_look r ?la p)))
      \<subseteq> set (lg_unattributed (fst ?la) @ readiness_drain r (tp_observed p))"
    unfolding la absorb_eq by (auto dest!: in_set_takeD)
  ultimately show ?case
    using seen la by (auto simp del: set_append)
qed (simp add: ledger_default_def)

lemma tier_members_iff:
  "m \<in> set (tier_members kind confirmed as) \<and> holds_tier m \<longleftrightarrow>
   (\<exists>n e. (n, e) \<in> set as \<and> ae_kind e = kind \<and> info_subscribes (ae_status e) \<noteq> []
      \<and> info_state (ae_status e) \<notin> {Stopped, Failed} \<and> info_name (ae_status e) \<notin> confirmed
      \<and> m = \<lparr> tm_name = info_name (ae_status e), tm_declares_subscriptions = True, tm_evidence = Waiting \<rparr>)"
  by (force simp: tier_members_def holds_tier_def classify_def Let_def split: if_splits)

section \<open>Lemmas on exit notices\<close>

text \<open>The pids among the values of a watch.\<close>

fun pids_seen :: "pid option list \<Rightarrow> pid list" where
  "pids_seen [] = []"
| "pids_seen (None # vs) = pids_seen vs"
| "pids_seen (Some p # vs) = p # pids_seen vs"

lemma exit_notices_subseq: "subseq (exit_notices live seen) (pids_seen (live # seen))"
proof (induction seen arbitrary: live)
  case (Cons current rest)
  have "subseq (exit_notices current rest) (pids_seen (current # rest))"
    by (rule Cons)
  then show ?case
    by (cases live; cases current) (auto intro: subseq_Cons')
qed simp

lemma subseq_pids_seen: "subseq xs ys \<Longrightarrow> subseq (pids_seen xs) (pids_seen ys)"
proof (induction rule: list_emb.induct)
  case (list_emb_Cons xs ys y)
  then show ?case by (cases y) auto
next
  case (list_emb_Cons2 x y xs ys)
  then show ?case by (cases y) auto
qed simp

lemma pids_seen_lives: "pids_seen (concat (map (\<lambda>p. [Some p, None]) ps)) = ps"
  by (induction ps) auto

section \<open>Lemmas on the start\<close>

definition sink_roster :: "process_manager \<Rightarrow> emergent_config \<Rightarrow> (string \<times> actor_config \<times> primitive_kind) list" where
  "sink_roster pm c = map (\<lambda>s. (snk_name s, ae_actor (sink_entry pm s), Sink)) (enabled_sinks c)"

definition handler_roster :: "process_manager \<Rightarrow> emergent_config \<Rightarrow> (string \<times> actor_config \<times> primitive_kind) list" where
  "handler_roster pm c = map (\<lambda>h. (hdl_name h, ae_actor (handler_entry pm h), Handler)) (enabled_handlers c)"

definition source_roster :: "process_manager \<Rightarrow> emergent_config \<Rightarrow> (string \<times> actor_config \<times> primitive_kind) list" where
  "source_roster pm c = map (\<lambda>s. (src_name s, ae_actor (source_entry pm s), Source)) (enabled_sources c)"

lemma entry_kinds [simp]:
  "ae_kind (sink_entry pm s) = Sink" "ae_kind (handler_entry pm h) = Handler" "ae_kind (source_entry pm q) = Source"
  by (simp_all add: sink_entry_def handler_entry_def source_entry_def new_entry_def Let_def
      info_sink_def info_handler_def info_source_def)

lemma rosters_of_entries:
  "roster (map (\<lambda>s. (snk_name s, sink_entry pm s)) (enabled_sinks c)) = sink_roster pm c"
  "roster (map (\<lambda>h. (hdl_name h, handler_entry pm h)) (enabled_handlers c)) = handler_roster pm c"
  "roster (map (\<lambda>s. (src_name s, source_entry pm s)) (enabled_sources c)) = source_roster pm c"
  by (simp_all add: roster_def sink_roster_def handler_roster_def source_roster_def)

lemma enabled_names_distinct:
  assumes "distinct (config_names c)"
  shows "distinct (map snk_name (enabled_sinks c) @ map hdl_name (enabled_handlers c) @ map src_name (enabled_sources c))"
  using assms
  by (auto simp: config_names_def enabled_sinks_def enabled_handlers_def enabled_sources_def distinct_map_filter)

lemma roster_keys: "roster bs = roster as \<Longrightarrow> fst ` set bs = fst ` set as"
  using roster_names [of as] roster_names [of bs] by (metis list.set_map)

definition sink_entries :: "process_manager \<Rightarrow> emergent_config \<Rightarrow> actors" where
  "sink_entries pm c = map (\<lambda>s. (snk_name s, sink_entry pm s)) (enabled_sinks c)"

definition handler_entries :: "process_manager \<Rightarrow> emergent_config \<Rightarrow> actors" where
  "handler_entries pm c = map (\<lambda>h. (hdl_name h, handler_entry pm h)) (enabled_handlers c)"

definition source_entries :: "process_manager \<Rightarrow> emergent_config \<Rightarrow> actors" where
  "source_entries pm c = map (\<lambda>s. (src_name s, source_entry pm s)) (enabled_sources c)"

lemma entries_rosters [simp]:
  "roster (sink_entries pm c) = sink_roster pm c" "roster (handler_entries pm c) = handler_roster pm c"
  "roster (source_entries pm c) = source_roster pm c"
  by (simp_all add: sink_entries_def handler_entries_def source_entries_def rosters_of_entries)

lemma entries_names [simp]:
  "fst ` set (sink_entries pm c) = snk_name ` set (enabled_sinks c)"
  "fst ` set (handler_entries pm c) = hdl_name ` set (enabled_handlers c)"
  by (simp_all add: sink_entries_def handler_entries_def image_image)

text \<open>
  The whole start from a manager with no actors: each stage registers its enabled primitives beside
  what the wait before it left, and no registration is refused.
\<close>

lemma start_all_exact:
  fixes c :: emergent_config and sp :: string and port :: u16
  defines "pm0 \<equiv> process_manager_new sp port"
  assumes d: "distinct (config_names c)"
  shows "start_all pm0 (enabled_sinks c) (enabled_handlers c) (enabled_sources c) r ps qs =
    (case wait_for_tier Sink r (sink_entries pm0 c) ps of
       (as1, None) \<Rightarrow> (pm0\<lparr> pm_actors := as1 \<rparr>, StillWaiting Sink)
     | (as1, Some _) \<Rightarrow>
        (case wait_for_tier Handler r (as1 @ handler_entries pm0 c) qs of
           (as2, None) \<Rightarrow> (pm0\<lparr> pm_actors := as2 \<rparr>, StillWaiting Handler)
         | (as2, Some _) \<Rightarrow> (pm0\<lparr> pm_actors := as2 @ source_entries pm0 c \<rparr>, Started)))"
proof -
  note names = enabled_names_distinct [OF d]
  have a0: "pm_actors pm0 = []"
    by (simp add: pm0_def process_manager_new_def)
  have s1: "register_each register_sink (enabled_sinks c) pm0 = (pm0\<lparr> pm_actors := sink_entries pm0 c \<rparr>, Ok ())"
    using names by (subst sinks.each_fresh) (auto simp: a0 sink_entries_def)
  obtain as1 o1 where w1: "wait_for_tier Sink r (sink_entries pm0 c) ps = (as1, o1)" by fastforce
  have k1: "fst ` set as1 = snk_name ` set (enabled_sinks c)"
    using roster_keys [OF wait_for_tier_roster [OF w1]] by simp
  have s2: "register_each register_handler (enabled_handlers c) (pm0\<lparr> pm_actors := as1 \<rparr>) =
      (pm0\<lparr> pm_actors := as1 @ handler_entries pm0 c \<rparr>, Ok ())"
    using names by (subst handlers.each_fresh) (auto simp: k1 handler_entries_def)
  obtain as2 o2 where w2: "wait_for_tier Handler r (as1 @ handler_entries pm0 c) qs = (as2, o2)" by fastforce
  have k2: "fst ` set as2 = snk_name ` set (enabled_sinks c) \<union> hdl_name ` set (enabled_handlers c)"
    using roster_keys [OF wait_for_tier_roster [OF w2]] by (simp add: k1 image_Un)
  have s3: "register_each register_source (enabled_sources c) (pm0\<lparr> pm_actors := as2 \<rparr>) =
      (pm0\<lparr> pm_actors := as2 @ source_entries pm0 c \<rparr>, Ok ())"
    using names by (subst sources.each_fresh) (auto simp: k2 source_entries_def)
  show ?thesis
    by (simp add: start_all_def s1 s2 s3 w1 w2 split: option.splits)
qed

section \<open>Properties\<close>

text \<open>
  C8. Startup is bounded and complete. From a validated configuration and a manager with no actors,
  starting never fails, and it goes in this order: the enabled sinks are registered and waited for; only
  when that wait has ended, and beside the actors it left, the enabled handlers are registered and
  waited for; and only when that wait has ended are the enabled sources registered and the start
  complete. A wait that has not ended leaves what is registered so far. Once each of the two waits has a
  deadline (or the timeout is zero), whatever the primitives do or fail to do, the start ends with
  exactly the enabled primitives registered, each once, with the actor its configuration describes.
\<close>

theorem start_all_outcome:
  assumes "is_ok (validate path_exists url_host c)"
    and "start_all (process_manager_new sp port) (enabled_sinks c) (enabled_handlers c) (enabled_sources c) r ps qs = (pm, out)"
  shows "(\<forall>e. out \<noteq> StartFailed e)
    \<and> (case wait_for_tier Sink r (sink_entries (process_manager_new sp port) c) ps of
         (as1, None) \<Rightarrow> out = StillWaiting Sink \<and> pm_actors pm = as1
       | (as1, Some _) \<Rightarrow>
          (case wait_for_tier Handler r (as1 @ handler_entries (process_manager_new sp port) c) qs of
             (as2, None) \<Rightarrow> out = StillWaiting Handler \<and> pm_actors pm = as2
           | (as2, Some _) \<Rightarrow> out = Started
               \<and> pm_actors pm = as2 @ source_entries (process_manager_new sp port) c))
    \<and> (out = StillWaiting Sink \<longrightarrow> roster (pm_actors pm) = sink_roster (process_manager_new sp port) c)
    \<and> (out = StillWaiting Handler \<longrightarrow> roster (pm_actors pm) =
         sink_roster (process_manager_new sp port) c @ handler_roster (process_manager_new sp port) c)
    \<and> (out = Started \<longrightarrow> roster (pm_actors pm) = sink_roster (process_manager_new sp port) c
         @ handler_roster (process_manager_new sp port) c @ source_roster (process_manager_new sp port) c)
    \<and> (tier_deadline r ps \<and> tier_deadline r qs \<longrightarrow> out = Started)"
proof -
  let ?pm0 = "process_manager_new sp port"
  have "distinct (config_names c)"
    using assms(1) by (simp add: config_check.passes_iff issues_def Let_def issues_Nil_iffs)
  note exact = assms(2) [unfolded start_all_exact [OF this]]
  obtain as1 o1 where w1: "wait_for_tier Sink r (sink_entries ?pm0 c) ps = (as1, o1)" by fastforce
  obtain as2 o2 where w2: "wait_for_tier Handler r (as1 @ handler_entries ?pm0 c) qs = (as2, o2)" by fastforce
  have r: "roster as1 = sink_roster ?pm0 c" "roster as2 = sink_roster ?pm0 c @ handler_roster ?pm0 c"
    using wait_for_tier_roster [OF w1] wait_for_tier_roster [OF w2] by simp_all
  have t: "tier_deadline r ps \<Longrightarrow> o1 \<noteq> None" "tier_deadline r qs \<Longrightarrow> o2 \<noteq> None"
    using wait_for_tier_returns [of r ps Sink "sink_entries ?pm0 c"]
      wait_for_tier_returns [of r qs Handler "as1 @ handler_entries ?pm0 c"] w1 w2 by auto
  show ?thesis
    using exact t by (cases o1; cases o2) (auto simp: w1 w2 r)
qed

theorem start_all_outcome_witness:
  "snd (start_all (process_manager_new ''s'' 0) (enabled_sinks sample_config) (enabled_handlers sample_config)
      (enabled_sources sample_config) \<lparr> sr_timeout = 0, sr_signals = False \<rparr> [] []) = Started"
proof -
  let ?r = "\<lparr> sr_timeout = 0, sr_signals = False \<rparr>"
  obtain pm out where s: "start_all (process_manager_new ''s'' 0) (enabled_sinks sample_config)
      (enabled_handlers sample_config) (enabled_sources sample_config) ?r [] [] = (pm, out)"
    by fastforce
  have "tier_deadline ?r []"
    by (simp add: tier_deadline_def)
  then have "out = Started"
    using start_all_outcome [OF sample_config_valid s] by blast
  with s show ?thesis
    by simp
qed

definition sample_actors :: actors where
  "sample_actors = [(''log'', sink_entry (process_manager_new ''s'' 0) \<lparr> snk_name = ''log'', snk_path = ''/bin/log'',
     snk_args = [], snk_enabled = True, snk_subscribes = [''timer.tick''], snk_env = Map.empty,
     snk_unwrap_stdout = False, snk_restart = restart_config_default \<rparr>)]"

text \<open>Why the wait of a tier ended, for either outcome.\<close>

lemma ready_tier_heard:
  assumes "wait_for_tier kind r as ps = (as', Some TierReady)"
    and e: "(n, e) \<in> set as'" "ae_kind e = kind" "info_subscribes (ae_status e) \<noteq> []"
      "info_state (ae_status e) \<notin> {Stopped, Failed}"
  shows "heard r as ps (info_name (ae_status e))"
proof -
  have "tier_loop kind r ledger_default as ps = (as', Some TierReady)"
    using assms(1) by (auto simp: wait_for_tier_def split: if_splits)
  then obtain pre p post la where s: "ps = pre @ p # post" "la = foldl (tier_look r) (ledger_default, as) (pre @ [p])"
    "as' = snd la" "tv_ready (tier_verdict_after kind la)"
    by (fastforce dest!: tier_loop_split split: if_splits)
  have "info_name (ae_status e) \<in> lg_confirmed (fst la)"
  proof (rule ccontr)
    assume "info_name (ae_status e) \<notin> lg_confirmed (fst la)"
    with e s(3) obtain m where "m \<in> set (tier_members kind (lg_confirmed (fst la)) (snd la))" "holds_tier m"
      using tier_members_iff [of _ kind "lg_confirmed (fst la)" "snd la"] by blast
    with s(4) show False
      by (auto simp: tier_verdict_after_def tier_ready_iff)
  qed
  then show ?thesis
    using tier_looks [of r as "pre @ [p]"] s(2) heard_append [of r as "pre @ [p]" _ post] s(1) by simp
qed

lemma timed_out_tier:
  assumes "wait_for_tier kind r as ps = (as', Some (TierTimedOut names))"
  shows "names \<noteq> []" "tier_deadline r ps"
    "n \<in> set names \<Longrightarrow> \<exists>k e. (k, e) \<in> set as' \<and> ae_kind e = kind \<and> info_subscribes (ae_status e) \<noteq> []
      \<and> info_state (ae_status e) \<notin> {Stopped, Failed} \<and> info_name (ae_status e) = n"
proof -
  have "tier_loop kind r ledger_default as ps = (as', Some (TierTimedOut names))"
    using assms by (auto simp: wait_for_tier_def split: if_splits)
  from tier_loop_split [OF this] obtain pre p post la where s: "ps = pre @ p # post" "as' = snd la"
    and v: "if tv_ready (tier_verdict_after kind la) then TierTimedOut names = TierReady
        else unat (sr_timeout r) \<le> tp_elapsed p
          \<and> TierTimedOut names = TierTimedOut (tv_waiting_on (tier_verdict_after kind la))"
    by blast
  from v have out: "\<not> tv_ready (tier_verdict_after kind la)" "unat (sr_timeout r) \<le> tp_elapsed p"
    "names = tv_waiting_on (tier_verdict_after kind la)"
    by (simp_all split: if_splits)
  with s(1) show "names \<noteq> []" "tier_deadline r ps"
    by (auto simp: tier_verdict_after_def tier_ready_eq tier_deadline_def)
  assume "n \<in> set names"
  then obtain m where "m \<in> set (tier_members kind (lg_confirmed (fst la)) (snd la))" "holds_tier m" "n = tm_name m"
    using out(3) by (auto simp: tier_verdict_after_def waiting_on_eq)
  then show "\<exists>k e. (k, e) \<in> set as' \<and> ae_kind e = kind \<and> info_subscribes (ae_status e) \<noteq> []
      \<and> info_state (ae_status e) \<notin> {Stopped, Failed} \<and> info_name (ae_status e) = n"
    using tier_members_iff [of m kind "lg_confirmed (fst la)" "snd la"] unfolding s(2) by force
qed

text \<open>
  C19. What leaving a tier means. When the wait ends on readiness, every primitive of that kind that
  declares subscriptions has stopped, has failed, or was heard from: a subscribe the policy allowed
  was observed and attributed to its name by the children of that moment. When it ends on the
  deadline, the deadline had passed, and the warning names at least one primitive, each of them
  running, of that kind and declaring subscriptions.
\<close>

theorem tier_left_for_a_reason:
  "(wait_for_tier kind r as ps = (as', Some TierReady) \<longrightarrow>
      list_all (\<lambda>(n, e). ae_kind e = kind \<and> info_subscribes (ae_status e) \<noteq> [] \<longrightarrow>
        info_state (ae_status e) \<in> {Stopped, Failed} \<or> heard r as ps (info_name (ae_status e))) as')
   \<and> (wait_for_tier kind r as ps = (as', Some (TierTimedOut names)) \<longrightarrow>
      names \<noteq> [] \<and> tier_deadline r ps
      \<and> list_all (\<lambda>n. list_ex (\<lambda>(_, e). ae_kind e = kind \<and> info_subscribes (ae_status e) \<noteq> []
          \<and> info_state (ae_status e) \<notin> {Stopped, Failed} \<and> info_name (ae_status e) = n) as') names)"
proof (intro conjI impI)
  assume w: "wait_for_tier kind r as ps = (as', Some TierReady)"
  then show "list_all (\<lambda>(n, e). ae_kind e = kind \<and> info_subscribes (ae_status e) \<noteq> [] \<longrightarrow>
        info_state (ae_status e) \<in> {Stopped, Failed} \<or> heard r as ps (info_name (ae_status e))) as'"
    using ready_tier_heard [OF w] by (auto simp: list_all_iff)
next
  assume w: "wait_for_tier kind r as ps = (as', Some (TierTimedOut names))"
  show "names \<noteq> []" "tier_deadline r ps"
    using timed_out_tier [OF w] by blast+
  show "list_all (\<lambda>n. list_ex (\<lambda>(_, e). ae_kind e = kind \<and> info_subscribes (ae_status e) \<noteq> []
          \<and> info_state (ae_status e) \<notin> {Stopped, Failed} \<and> info_name (ae_status e) = n) as') names"
    using timed_out_tier(3) [OF w] by (simp add: list_all_iff list_ex_iff Bex_def)
qed

theorem tier_left_for_a_reason_witness:
  "snd (wait_for_tier Sink \<lparr> sr_timeout = 50, sr_signals = True \<rparr> sample_actors
      [\<lparr> tp_events = [], tp_observed = [Named ''log''], tp_elapsed = 2 \<rparr>]) = Some TierReady
   \<and> heard \<lparr> sr_timeout = 50, sr_signals = True \<rparr> sample_actors
       [\<lparr> tp_events = [], tp_observed = [Named ''log''], tp_elapsed = 2 \<rparr>] ''log''
   \<and> snd (wait_for_tier Sink \<lparr> sr_timeout = 50, sr_signals = True \<rparr> sample_actors
      [\<lparr> tp_events = [], tp_observed = [], tp_elapsed = 60 \<rparr>]) = Some (TierTimedOut [''log''])"
proof -
  let ?r = "\<lparr> sr_timeout = 50, sr_signals = True \<rparr>"
  let ?ps = "[\<lparr> tp_events = [], tp_observed = [Named ''log''], tp_elapsed = 2 \<rparr>]"
  have ready: "wait_for_tier Sink ?r sample_actors ?ps = (sample_actors, Some TierReady)"
    by (simp add: wait_for_tier_def tier_loop_Cons tier_look_def tier_verdict_after_def sample_actors_def
        absorb_eq attributed_def attribute_def readiness_drain_def ledger_default_def tier_members_def
        sink_entry_def new_entry_def info_sink_def evaluate_tier_def classify_def Let_def)
  have late: "snd (wait_for_tier Sink ?r sample_actors [\<lparr> tp_events = [], tp_observed = [], tp_elapsed = 60 \<rparr>])
      = Some (TierTimedOut [''log''])"
    by (simp add: wait_for_tier_def tier_loop_Cons tier_look_def tier_verdict_after_def sample_actors_def
        absorb_eq attributed_def attribute_def readiness_drain_def ledger_default_def tier_members_def
        sink_entry_def new_entry_def info_sink_def evaluate_tier_def classify_def Let_def)
  have "heard ?r sample_actors ?ps ''log''"
    using tier_left_for_a_reason [of Sink ?r sample_actors ?ps sample_actors] ready
    by (simp add: sample_actors_def sink_entry_def new_entry_def info_sink_def Let_def)
  with ready late show ?thesis
    by simp
qed

text \<open>
  The registry of connections is told of the exits it sees. If the watching task reads every
  value of the pid watch, each child that exits is reported, once and in order; whatever it misses,
  because a watch keeps only the latest value, what it reports is always the pid of a child that was
  there, in order and never twice. An exit can be missed: when a replacement is spawned before the
  task runs, nothing is reported for the child before it.
\<close>

theorem exit_notices_of_lives:
  "exit_notices None (concat (map (\<lambda>p. [Some p, None]) ps)) = ps
   \<and> (subseq seen (concat (map (\<lambda>p. [Some p, None]) ps)) \<longrightarrow> subseq (exit_notices None seen) ps)
   \<and> exit_notices (Some p) [Some q, None] = [q]"
proof -
  have all: "exit_notices None (concat (map (\<lambda>p. [Some p, None]) ps)) = ps"
    by (induction ps) auto
  have "subseq (exit_notices None seen) ps" if "subseq seen (concat (map (\<lambda>p. [Some p, None]) ps))"
    using exit_notices_subseq [of None seen] subseq_pids_seen [OF that]
    by (simp add: pids_seen_lives)
  with all show ?thesis
    by simp
qed

theorem exit_notices_of_lives_witness:
  "subseq (exit_notices None [Some 7, Some 9, None]) [7, 9 :: pid]"
  using exit_notices_of_lives [of "[7, 9]" "[Some 7, Some 9, None]" 7 9] by simp

end
