(* ===== verification/Shutdown.thy ===== *)
theory Shutdown
  imports Process_Manager
begin

text \<open>
  What the shutdown sequence of \<^verbatim>\<open>process_manager.rs\<close> guarantees: the order of its phases, the
  escalation from the broadcast over SIGTERM to SIGKILL, and that no child is left. The lemmas first
  say what a bounded wait on the pid watches sees, then what one phase does, then the three in order.
\<close>

section \<open>Lemmas on waiting\<close>

text \<open>
  Windows in which no new child appears, as after the announcement of shutdown; a primitive exits in
  such a window when its watch is cleared. Actors may go away in it: what a bounded wait needs is that
  no watch that shows a child loses its sender before it was cleared (a wait gives up on such a watch).
\<close>

definition quiet :: "world_event list \<Rightarrow> bool" where
  "quiet evs = list_all (\<lambda>ev. case ev of PidChanged _ p \<Rightarrow> p = None | _ \<Rightarrow> True) evs"

definition exits :: "world_event list \<Rightarrow> string \<Rightarrow> bool" where
  "exits evs n \<longleftrightarrow> PidChanged n None \<in> set evs"

definition cleared_first :: "string \<Rightarrow> world_event list \<Rightarrow> bool" where
  "cleared_first n evs \<longleftrightarrow> SenderDropped n \<notin> set (takeWhile (\<lambda>ev. ev \<noteq> PidChanged n None) evs)"

definition held :: "actors \<Rightarrow> world_event list \<Rightarrow> string \<Rightarrow> bool" where
  "held as evs n \<longleftrightarrow> watch_pid as n = None \<or> \<not> watch_closed as n \<and> cleared_first n evs"

lemma quiet_simps [simp]:
  "quiet []" "quiet (xs @ ys) \<longleftrightarrow> quiet xs \<and> quiet ys"
  "quiet (ev # evs) \<longleftrightarrow> (case ev of PidChanged _ p \<Rightarrow> p = None | _ \<Rightarrow> True) \<and> quiet evs"
  by (simp_all add: quiet_def)

lemma exits_simps [simp]:
  "\<not> exits [] n" "exits (xs @ ys) n \<longleftrightarrow> exits xs n \<or> exits ys n"
  "exits (ev # evs) n \<longleftrightarrow> ev = PidChanged n None \<or> exits evs n"
  by (auto simp: exits_def)

lemma watch_pid_step:
  "watch_pid (world_step as ev) n =
     (case ev of PidChanged m p \<Rightarrow> if m = n \<and> map_of as n \<noteq> None then p else watch_pid as n | _ \<Rightarrow> watch_pid as n)"
  by (cases ev; cases "map_of as n") (auto simp: watch_pid_def world_step_def)

lemma watch_closed_step:
  "watch_closed (world_step as ev) n = (ev = SenderDropped n \<or> watch_closed as n)"
  by (cases ev; cases "map_of as n") (auto simp: watch_closed_def world_step_def)

lemma watch_pid_quiet:
  "quiet evs \<Longrightarrow> watch_pid (foldl world_step as evs) n = (if exits evs n then None else watch_pid as n)"
proof (induction evs arbitrary: as)
  case (Cons ev evs)
  have "watch_pid as n = None" if "map_of as n = None"
    using that by (simp add: watch_pid_def)
  with Cons show ?case
    by (auto simp: watch_pid_step split: world_event.splits if_splits)
qed simp

lemma watch_closed_foldl: "watch_closed (foldl world_step as evs) n \<longleftrightarrow> SenderDropped n \<in> set evs \<or> watch_closed as n"
  by (induction evs arbitrary: as) (auto simp: watch_closed_step)

lemma cleared_first_simps [simp]:
  "cleared_first n []"
  "cleared_first n (ev # evs) \<longleftrightarrow> ev = PidChanged n None \<or> ev \<noteq> SenderDropped n \<and> cleared_first n evs"
  by (auto simp: cleared_first_def)

lemma cleared_first_append:
  "cleared_first n (xs @ ys) \<longleftrightarrow> cleared_first n xs \<and> (exits xs n \<or> cleared_first n ys)"
  by (induction xs) auto

lemma cleared_first_open: "cleared_first n evs \<Longrightarrow> \<not> exits evs n \<Longrightarrow> SenderDropped n \<notin> set evs"
  by (induction evs) auto

text \<open>What is held stays held along the window, and a watch held in one window can be held in the next.\<close>

lemma held_after:
  "quiet pre \<Longrightarrow> held as (pre @ post) n \<Longrightarrow> held (foldl world_step as pre) post n"
  by (auto simp: held_def watch_pid_quiet watch_closed_foldl cleared_first_append dest: cleared_first_open)

lemma wait_one_prefix: "\<exists>pre. evs = pre @ snd (wait_one n as evs) \<and> fst (wait_one n as evs) = foldl world_step as pre"
proof (induction evs arbitrary: as)
  case (Cons ev evs)
  show ?case
  proof (cases "watch_pid as n = None \<or> watch_closed as n")
    case False
    with Cons [of "world_step as ev"] obtain pre where
      "evs = pre @ snd (wait_one n (world_step as ev) evs)"
      "fst (wait_one n (world_step as ev) evs) = foldl world_step (world_step as ev) pre" by blast
    with False show ?thesis
      by (intro exI [of _ "ev # pre"]) simp
  qed simp
qed simp

lemma wait_one_done:
  "quiet evs \<Longrightarrow> held as evs n \<Longrightarrow> wait_one n as evs = (as', evs') \<Longrightarrow> watch_pid as' n = None \<or> evs' = []"
proof (induction evs arbitrary: as)
  case (Cons ev evs)
  have "held (world_step as ev) evs n"
    using held_after [of "[ev]" as evs n] Cons.prems by simp
  with Cons show ?case
    by (cases "watch_pid as n = None") (auto simp: held_def)
qed simp

lemma wait_each_prefix:
  "\<exists>pre post. evs = pre @ post \<and> wait_each ns as evs = foldl world_step as pre
     \<and> (quiet evs \<and> (\<forall>n \<in> set ns. held as evs n) \<longrightarrow>
          post = [] \<or> (\<forall>n \<in> set ns. watch_pid (wait_each ns as evs) n = None))"
proof (induction ns arbitrary: as evs)
  case Nil
  show ?case by (intro exI [of _ "[]"] exI [of _ evs]) simp
next
  case (Cons n ns)
  obtain as' evs' where w: "wait_one n as evs = (as', evs')" by fastforce
  obtain pre where pre: "evs = pre @ evs'" "as' = foldl world_step as pre"
    using wait_one_prefix [of evs n as] by (auto simp: w)
  obtain pre' post where post: "evs' = pre' @ post" "wait_each ns as' evs' = foldl world_step as' pre'"
    and rest: "quiet evs' \<and> (\<forall>n \<in> set ns. held as' evs' n) \<Longrightarrow>
        post = [] \<or> (\<forall>n \<in> set ns. watch_pid (wait_each ns as' evs') n = None)"
    using Cons.IH [of evs' as'] by blast
  have "post = [] \<or> (\<forall>m \<in> set (n # ns). watch_pid (wait_each ns as' evs') m = None)"
    if q: "quiet evs" "\<forall>m \<in> set (n # ns). held as evs m"
  proof -
    have o: "\<forall>m \<in> set (n # ns). held as' evs' m"
      using q pre held_after [of pre as evs'] by auto
    have "watch_pid as' n = None \<or> evs' = []"
      using wait_one_done [OF q(1) _ w] q(2) by simp
    moreover have "watch_pid (wait_each ns as' evs') n = None" if "watch_pid as' n = None"
      using q pre post that by (simp add: watch_pid_quiet)
    ultimately show ?thesis
      using rest o q pre post by auto
  qed
  with pre post w show ?case
    by (intro exI [of _ "pre @ pre'"] exI [of _ post]) simp
qed

lemma wait_each_roster [simp]: "roster (wait_each ns as evs) = roster as"
proof -
  obtain pre where "wait_each ns as evs = foldl world_step as pre"
    using wait_each_prefix [of evs ns as] by blast
  then show ?thesis by simp
qed

text \<open>A wait sees exactly the exits of its window, however the children are ordered.\<close>

lemma wait_each_watch:
  assumes "quiet evs" "\<forall>n \<in> set ns. held as evs n" "n \<in> set ns"
  shows "watch_pid (wait_each ns as evs) n = (if exits evs n then None else watch_pid as n)"
proof -
  obtain pre post where e: "evs = pre @ post" "wait_each ns as evs = foldl world_step as pre"
    "post = [] \<or> (\<forall>n \<in> set ns. watch_pid (wait_each ns as evs) n = None)"
    using wait_each_prefix [of evs ns as] assms(1,2) by blast
  with assms(1) have "watch_pid (wait_each ns as evs) n = (if exits pre n then None else watch_pid as n)"
    by (simp add: watch_pid_quiet)
  with e assms(3) show ?thesis
    by (auto split: if_splits)
qed

lemma wait_each_held:
  assumes "quiet evs" "held as evs n" "cleared_first n evs'"
  shows "held (wait_each ns as evs) evs' n"
proof -
  obtain pre post where "evs = pre @ post" "wait_each ns as evs = foldl world_step as pre"
    using wait_each_prefix [of evs ns as] by blast
  with held_after [of pre as post n] assms show ?thesis
    by (auto simp: held_def)
qed

lemma still_running_iff: "(n, p) \<in> set (still_running ns as) \<longleftrightarrow> n \<in> set ns \<and> watch_pid as n = Some p"
  by (force simp: still_running_def map_filter_def)

lemma still_running_Nil_iff: "still_running ns as = [] \<longleftrightarrow> (\<forall>n \<in> set ns. watch_pid as n = None)"
  by (force simp: still_running_def map_filter_def filter_empty_conv)

section \<open>Lemmas on a phase\<close>

text \<open>The window for leaving on the broadcast alone: empty where the phase does not grant one.\<close>

definition drain_window :: "shutdown_timings \<Rightarrow> bool \<Rightarrow> phase_windows \<Rightarrow> world_event list" where
  "drain_window timings allow w = (if allow \<and> sd_drain timings \<noteq> 0 then pw_drain w else [])"

definition drained :: "primitive_kind \<Rightarrow> shutdown_timings \<Rightarrow> bool \<Rightarrow> phase_windows \<Rightarrow> actors \<Rightarrow> actors" where
  "drained kind timings allow w as = wait_each (targets_of_kind as kind) as (drain_window timings allow w)"

definition termed :: "primitive_kind \<Rightarrow> shutdown_timings \<Rightarrow> bool \<Rightarrow> phase_windows \<Rightarrow> actors \<Rightarrow> actors" where
  "termed kind timings allow w as =
     (let as1 = drained kind timings allow w as
      in if still_running (targets_of_kind as kind) as1 = [] then as1
         else wait_each (targets_of_kind as kind) as1 (pw_grace w))"

lemma wait_each_empty [simp]: "wait_each ns as [] = as"
  by (induction ns arbitrary: as) auto

lemma still_running_empty [simp]: "still_running [] as = []"
  by (simp add: still_running_def map_filter_def)

lemma shutdown_phase_eq:
  "shutdown_phase kind timings allow w as =
     (let ts = targets_of_kind as kind;
          alive1 = still_running ts (drained kind timings allow w as);
          as2 = termed kind timings allow w as;
          alive2 = still_running ts as2
      in (if alive2 = [] then as2 else wait_each ts as2 (pw_reap w),
          BroadcastShutdown (primitive_kind_as_str kind)
            # (if alive1 = [] then [] else map (\<lambda>n. SendTo n StopPrimitive) ts)
            @ map (\<lambda>(_, p). SigKillGroup p) alive2 @ map StopActor ts))"
  by (cases "targets_of_kind as kind")
     (auto simp: shutdown_phase_def drained_def termed_def drain_window_def Let_def wait_for_children_exit_def)

lemma shutdown_phase_roster [simp]: "roster (fst (shutdown_phase kind timings allow w as)) = roster as"
  by (simp add: shutdown_phase_eq Let_def drained_def termed_def)

lemma shutdown_phase_shape:
  obtains terms kills where
    "snd (shutdown_phase kind timings allow w as) =
       BroadcastShutdown (primitive_kind_as_str kind) # terms @ kills @ map StopActor (targets_of_kind as kind)"
    "set terms \<subseteq> (\<lambda>n. SendTo n StopPrimitive) ` set (targets_of_kind as kind)"
    "set kills \<subseteq> range SigKillGroup"
proof
  let ?ts = "targets_of_kind as kind"
  let ?a1 = "still_running ?ts (drained kind timings allow w as)"
  let ?a2 = "still_running ?ts (termed kind timings allow w as)"
  show "snd (shutdown_phase kind timings allow w as) = BroadcastShutdown (primitive_kind_as_str kind)
      # (if ?a1 = [] then [] else map (\<lambda>n. SendTo n StopPrimitive) ?ts)
      @ map (\<lambda>(_, p). SigKillGroup p) ?a2 @ map StopActor ?ts"
    by (simp add: shutdown_phase_eq Let_def)
qed auto

text \<open>In quiet windows, who is left after the drain and after the grace period.\<close>

definition keeps_watch :: "phase_windows \<Rightarrow> string \<Rightarrow> bool" where
  "keeps_watch w n \<longleftrightarrow> cleared_first n (pw_drain w) \<and> cleared_first n (pw_grace w) \<and> cleared_first n (pw_reap w)"

definition held_in :: "actors \<Rightarrow> phase_windows \<Rightarrow> string \<Rightarrow> bool" where
  "held_in as w n \<longleftrightarrow> watch_pid as n = None \<or> \<not> watch_closed as n \<and> keeps_watch w n"

definition quiet_phase :: "phase_windows \<Rightarrow> bool" where
  "quiet_phase w \<longleftrightarrow> quiet (pw_drain w) \<and> quiet (pw_grace w) \<and> quiet (pw_reap w)"

lemma quiet_phase_windows:
  "quiet_phase w \<Longrightarrow> quiet (drain_window timings allow w)" "quiet_phase w \<Longrightarrow> quiet (pw_grace w)"
  "quiet_phase w \<Longrightarrow> quiet (pw_reap w)"
  by (auto simp: quiet_phase_def drain_window_def)

lemma target_iff: "n \<in> set (targets_of_kind as kind) \<longleftrightarrow> (\<exists>e. (n, e) \<in> set as \<and> ae_kind e = kind)"
  by (force simp: targets_of_kind_def)

text \<open>What quiet windows leave of the watches: the same actors, with children that can only go.\<close>

definition calmer :: "actors \<Rightarrow> actors \<Rightarrow> bool" where
  "calmer as bs \<longleftrightarrow> roster bs = roster as \<and> (\<forall>n. watch_pid bs n = None \<or> watch_pid bs n = watch_pid as n)"

lemma calmer_trans: "calmer as bs \<Longrightarrow> calmer bs cs \<Longrightarrow> calmer as cs"
  unfolding calmer_def by metis

lemma calmer_wait: "quiet evs \<Longrightarrow> calmer as (wait_each ns as evs)"
proof -
  assume q: "quiet evs"
  obtain pre post where "evs = pre @ post" "wait_each ns as evs = foldl world_step as pre"
    using wait_each_prefix [of evs ns as] by blast
  with q show ?thesis
    by (simp add: calmer_def watch_pid_quiet)
qed

lemma calmer_phase:
  assumes "quiet_phase w"
  shows "calmer as (drained kind timings allow w as)" "calmer as (termed kind timings allow w as)"
    "calmer as (fst (shutdown_phase kind timings allow w as))"
proof -
  note qs = quiet_phase_windows [OF assms]
  show d: "calmer as (drained kind timings allow w as)"
    unfolding drained_def by (rule calmer_wait [OF qs(1)])
  then show t: "calmer as (termed kind timings allow w as)"
    using calmer_wait [OF qs(2)] by (auto simp: termed_def Let_def intro: calmer_trans)
  show "calmer as (fst (shutdown_phase kind timings allow w as))"
    using t calmer_wait [OF qs(3)] by (auto simp: shutdown_phase_eq Let_def intro: calmer_trans)
qed

lemma calmer_held: "calmer as bs \<Longrightarrow> watch_pid as n = None \<Longrightarrow> held bs evs n"
  unfolding calmer_def held_def by metis

text \<open>The sender of a watch that is held in a phase is there through the windows of the phase.\<close>

lemma held_in_windows:
  assumes q: "quiet_phase w" and h: "held_in as w n"
  shows "held as (drain_window timings allow w) n" "held (drained kind timings allow w as) (pw_grace w) n"
    "held (termed kind timings allow w as) (pw_reap w) n"
    "held (fst (shutdown_phase kind timings allow w as)) [] n"
proof -
  note qs = quiet_phase_windows [OF q]
  show d: "held as (drain_window timings allow w) n"
    using h by (auto simp: held_def held_in_def keeps_watch_def drain_window_def)
  have g: "held (drained kind timings allow w as) evs n" if "watch_pid as n \<noteq> None \<longrightarrow> cleared_first n evs" for evs
    using that calmer_held [OF calmer_phase(1) [OF q]] wait_each_held [OF qs(1) d] by (auto simp: drained_def)
  show dg: "held (drained kind timings allow w as) (pw_grace w) n"
    using g h by (auto simp: held_in_def keeps_watch_def)
  have r: "held (termed kind timings allow w as) evs n" if "watch_pid as n \<noteq> None \<longrightarrow> cleared_first n evs" for evs
    using that g [OF that] calmer_held [OF calmer_phase(2) [OF q]] wait_each_held [OF qs(2) dg]
    by (cases "watch_pid as n") (auto simp: termed_def Let_def)
  show tr: "held (termed kind timings allow w as) (pw_reap w) n"
    using r h by (auto simp: held_in_def keeps_watch_def)
  show "held (fst (shutdown_phase kind timings allow w as)) [] n"
    using r [of "[]"] wait_each_held [OF qs(3) tr, of "[]"] by (simp add: shutdown_phase_eq Let_def)
qed

lemma drained_watch:
  assumes q: "quiet_phase w" and h: "\<forall>m \<in> set (targets_of_kind as kind). held_in as w m"
    and n: "n \<in> set (targets_of_kind as kind)"
  shows "watch_pid (drained kind timings allow w as) n =
    (if exits (drain_window timings allow w) n then None else watch_pid as n)"
  unfolding drained_def using h n held_in_windows(1) [OF q]
  by (intro wait_each_watch quiet_phase_windows [OF q]) auto

lemma termed_watch:
  assumes q: "quiet_phase w" and h: "\<forall>m \<in> set (targets_of_kind as kind). held_in as w m"
    and n: "n \<in> set (targets_of_kind as kind)"
  shows "watch_pid (termed kind timings allow w as) n =
    (if exits (drain_window timings allow w) n \<or> exits (pw_grace w) n then None else watch_pid as n)"
proof (cases "still_running (targets_of_kind as kind) (drained kind timings allow w as) = []")
  case True
  with n have "watch_pid (drained kind timings allow w as) n = None"
    by (simp add: still_running_Nil_iff)
  with True drained_watch [OF assms] show ?thesis
    by (auto simp: termed_def Let_def split: if_splits)
next
  case False
  have "\<forall>m \<in> set (targets_of_kind as kind). held (drained kind timings allow w as) (pw_grace w) m"
    using h held_in_windows(2) [OF q] by blast
  with False show ?thesis
    using wait_each_watch [OF quiet_phase_windows(2) [OF q] _ n] drained_watch [OF assms]
    by (simp add: termed_def Let_def)
qed

lemma phase_watch:
  assumes q: "quiet_phase w" and h: "\<forall>m \<in> set (targets_of_kind as kind). held_in as w m"
    and n: "n \<in> set (targets_of_kind as kind)"
  shows "watch_pid (fst (shutdown_phase kind timings allow w as)) n =
    (if exits (drain_window timings allow w) n \<or> exits (pw_grace w) n \<or> exits (pw_reap w) n then None else watch_pid as n)"
proof (cases "still_running (targets_of_kind as kind) (termed kind timings allow w as) = []")
  case True
  with n have "watch_pid (termed kind timings allow w as) n = None"
    by (simp add: still_running_Nil_iff)
  with True termed_watch [OF assms] show ?thesis
    by (auto simp: shutdown_phase_eq Let_def split: if_splits)
next
  case False
  have "\<forall>m \<in> set (targets_of_kind as kind). held (termed kind timings allow w as) (pw_reap w) m"
    using h held_in_windows(3) [OF q] by blast
  with False show ?thesis
    using wait_each_watch [OF quiet_phase_windows(3) [OF q] _ n] termed_watch [OF assms]
    by (simp add: shutdown_phase_eq Let_def)
qed

lemma phase_kill_iff:
  assumes "quiet_phase w" "\<forall>m \<in> set (targets_of_kind as kind). held_in as w m"
  shows "SigKillGroup p \<in> set (snd (shutdown_phase kind timings allow w as)) \<longleftrightarrow>
    (\<exists>n \<in> set (targets_of_kind as kind). watch_pid as n = Some p
        \<and> \<not> exits (drain_window timings allow w) n \<and> \<not> exits (pw_grace w) n)"
proof -
  have "SigKillGroup p \<in> set (snd (shutdown_phase kind timings allow w as)) \<longleftrightarrow>
      (\<exists>n \<in> set (targets_of_kind as kind). watch_pid (termed kind timings allow w as) n = Some p)"
    using still_running_iff [of _ p "targets_of_kind as kind" "termed kind timings allow w as"]
    by (force simp: shutdown_phase_eq Let_def)
  then show ?thesis
    using termed_watch [OF assms] by (auto split: if_splits)
qed

lemma phase_term_iff:
  assumes "quiet_phase w" "\<forall>m \<in> set (targets_of_kind as kind). held_in as w m"
  shows "SendTo n StopPrimitive \<in> set (snd (shutdown_phase kind timings allow w as)) \<longleftrightarrow>
    n \<in> set (targets_of_kind as kind)
    \<and> (\<exists>m \<in> set (targets_of_kind as kind). watch_pid as m \<noteq> None \<and> \<not> exits (drain_window timings allow w) m)"
proof -
  have "still_running (targets_of_kind as kind) (drained kind timings allow w as) \<noteq> [] \<longleftrightarrow>
      (\<exists>m \<in> set (targets_of_kind as kind). watch_pid as m \<noteq> None \<and> \<not> exits (drain_window timings allow w) m)"
    using drained_watch [OF assms] by (auto simp: still_running_Nil_iff split: if_splits)
  then show ?thesis
    by (auto simp: shutdown_phase_eq Let_def)
qed

section \<open>Lemmas on the whole shutdown\<close>

text \<open>After a phase whose killed children are reaped, no child of its kind is left.\<close>

lemma phase_clears:
  assumes q: "quiet_phase w" and h: "\<forall>m \<in> set (targets_of_kind as kind). held_in as w m"
    and reaped: "\<And>n p. n \<in> set (targets_of_kind as kind) \<Longrightarrow> watch_pid as n = Some p \<Longrightarrow>
        SigKillGroup p \<in> set (snd (shutdown_phase kind timings allow w as)) \<Longrightarrow> exits (pw_reap w) n"
    and n: "n \<in> set (targets_of_kind as kind)"
  shows "watch_pid (fst (shutdown_phase kind timings allow w as)) n = None"
proof (cases "watch_pid as n")
  case None
  then show ?thesis
    using phase_watch [OF q h n] by simp
next
  case (Some p)
  then show ?thesis
    using phase_watch [OF q h n] reaped [OF n Some] phase_kill_iff [OF q h, where p = p] n by auto
qed

text \<open>A watch held in this phase and in a later one is held in the later one after this one.\<close>

lemma held_in_next:
  assumes "quiet_phase w" "held_in as w n" "held_in as w' n"
  shows "held_in (fst (shutdown_phase kind timings allow w as)) w' n"
  using held_in_windows(4) [OF assms(1,2), of kind timings allow] assms(3)
    calmer_phase(3) [OF assms(1), of as kind timings allow]
  unfolding held_in_def held_def calmer_def by metis

definition after_sources :: "shutdown_timings \<Rightarrow> (primitive_kind \<Rightarrow> phase_windows) \<Rightarrow> actors \<Rightarrow> actors" where
  "after_sources timings w as = fst (shutdown_phase Source timings False (w Source) as)"

definition after_handlers :: "shutdown_timings \<Rightarrow> (primitive_kind \<Rightarrow> phase_windows) \<Rightarrow> actors \<Rightarrow> actors" where
  "after_handlers timings w as = fst (shutdown_phase Handler timings True (w Handler) (after_sources timings w as))"

lemma graceful_shutdown_eq:
  "graceful_shutdown timings w as =
     (fst (shutdown_phase Sink timings True (w Sink) (after_handlers timings w as)),
      announce_shutdown as @ snd (shutdown_phase Source timings False (w Source) as)
        @ snd (shutdown_phase Handler timings True (w Handler) (after_sources timings w as))
        @ snd (shutdown_phase Sink timings True (w Sink) (after_handlers timings w as)))"
  by (simp add: graceful_shutdown_def after_sources_def after_handlers_def Let_def split: prod.split)

lemma after_targets [simp]:
  "targets_of_kind (after_sources timings w as) = targets_of_kind as"
  "targets_of_kind (after_handlers timings w as) = targets_of_kind as"
  by (rule targets_cong; simp add: after_sources_def after_handlers_def)+

lemma phase_mentions:
  assumes "distinct (map fst as)" "(b, e) \<in> set as" "ae_kind e \<noteq> kind" "targets_of_kind bs = targets_of_kind as"
  shows "SendTo b StopPrimitive \<notin> set (snd (shutdown_phase kind timings allow w bs))"
    "StopActor b \<notin> set (snd (shutdown_phase kind timings allow w bs))"
proof -
  have "b \<notin> set (targets_of_kind as kind)"
    using assms(1-3) by (auto simp: target_iff dest: eq_key_imp_eq_value)
  moreover obtain terms kills where
    "snd (shutdown_phase kind timings allow w bs) =
       BroadcastShutdown (primitive_kind_as_str kind) # terms @ kills @ map StopActor (targets_of_kind bs kind)"
    "set terms \<subseteq> (\<lambda>n. SendTo n StopPrimitive) ` set (targets_of_kind bs kind)"
    "set kills \<subseteq> range SigKillGroup"
    by (rule shutdown_phase_shape)
  ultimately show "SendTo b StopPrimitive \<notin> set (snd (shutdown_phase kind timings allow w bs))"
    "StopActor b \<notin> set (snd (shutdown_phase kind timings allow w bs))"
    by (auto simp: assms(4))
qed

lemma phase_stops:
  assumes "targets_of_kind bs = targets_of_kind as" "(a, e) \<in> set as"
  shows "StopActor a \<in> set (snd (shutdown_phase (ae_kind e) timings allow w bs))"
proof -
  have "a \<in> set (targets_of_kind as (ae_kind e))"
    using assms(2) by (auto simp: target_iff)
  then show ?thesis
    by (simp add: shutdown_phase_eq Let_def assms(1))
qed

lemma phase_stop_actors:
  "filter (\<lambda>e. \<exists>n. e = StopActor n) (snd (shutdown_phase kind timings allow w as)) = map StopActor (targets_of_kind as kind)"
  by (auto simp: shutdown_phase_eq Let_def filter_empty_conv filter_id_conv)

lemma before_split: "us @ vs = xs @ e # ys \<Longrightarrow> e \<notin> set us \<Longrightarrow> set us \<subseteq> set xs"
  by (auto simp: append_eq_append_conv2 append_eq_Cons_conv)

section \<open>Properties\<close>

lemma phase_announces_nothing: "SendTo n EngineShuttingDown \<notin> set (snd (shutdown_phase kind timings allow w as))"
  by (auto simp: shutdown_phase_eq Let_def)

lemma phase_milestones:
  "filter (\<lambda>e. case e of BroadcastShutdown _ \<Rightarrow> True | StopActor _ \<Rightarrow> True | _ \<Rightarrow> False)
      (snd (shutdown_phase kind timings allow w as))
    = BroadcastShutdown (primitive_kind_as_str kind) # map StopActor (targets_of_kind as kind)"
  by (auto simp: shutdown_phase_eq Let_def filter_empty_conv filter_id_conv split: pm_effect.splits)

lemma targets_partition:
  "set (targets_of_kind as Source @ targets_of_kind as Handler @ targets_of_kind as Sink) = fst ` set as"
proof -
  have "n \<in> fst ` set as \<longleftrightarrow> (\<exists>k. n \<in> set (targets_of_kind as k))" for n
    by (force simp: target_iff)
  moreover have "(\<exists>k. n \<in> set (targets_of_kind as k)) \<longleftrightarrow> n \<in> set (targets_of_kind as Source)
      \<or> n \<in> set (targets_of_kind as Handler) \<or> n \<in> set (targets_of_kind as Sink)" for n
    by (metis primitive_kind.exhaust)
  ultimately show ?thesis
    by auto
qed

lemma targets_distinct:
  assumes "distinct (map fst as)"
  shows "distinct (targets_of_kind as Source @ targets_of_kind as Handler @ targets_of_kind as Sink)"
proof -
  have "distinct (targets_of_kind as k)" for k
    using assms by (simp add: targets_of_kind_def distinct_map_filter)
  moreover have "set (targets_of_kind as k) \<inter> set (targets_of_kind as k') = {}" if "k \<noteq> k'" for k k'
    using assms that by (auto simp: target_iff dest: eq_key_imp_eq_value)
  ultimately show ?thesis
    by (simp add: Int_Un_distrib)
qed

text \<open>An actor that is downstream of another is not signalled before the other was stopped.\<close>

lemma upstream_stopped:
  assumes "distinct (map fst as)" and "(a, ea) \<in> set as" and "(b, eb) \<in> set as"
    and "(ae_kind ea, ae_kind eb) \<in> {(Source, Handler), (Source, Sink), (Handler, Sink)}"
    and "snd (graceful_shutdown timings w as) = xs @ e # ys" and "e \<in> {SendTo b StopPrimitive, StopActor b}"
  shows "StopActor a \<in> set xs"
proof -
  let ?A = "announce_shutdown as" and ?S = "snd (shutdown_phase Source timings False (w Source) as)"
    and ?H = "snd (shutdown_phase Handler timings True (w Handler) (after_sources timings w as))"
    and ?K = "snd (shutdown_phase Sink timings True (w Sink) (after_handlers timings w as))"
  have split: "?A @ ?S @ ?H @ ?K = xs @ e # ys"
    using assms(5) by (simp add: graceful_shutdown_eq)
  have A: "e \<notin> set ?A"
    using assms(6) by (auto simp: announce_shutdown_def)
  note mentions = phase_mentions [OF assms(1,3)]
  have S: "e \<notin> set ?S"
    using assms(4,6) mentions [of Source as timings False "w Source"] by auto
  show "StopActor a \<in> set xs"
  proof (cases "ae_kind ea")
    case Source
    then have "StopActor a \<in> set ?S"
      using phase_stops [OF refl assms(2), of timings False "w Source"] by simp
    with A S before_split [of "?A @ ?S" "?H @ ?K" xs e ys] split show ?thesis by auto
  next
    case Handler
    then have "StopActor a \<in> set ?H" "e \<notin> set ?H"
      using phase_stops [OF after_targets(1) assms(2), where allow = True and w = "w Handler"] assms(4,6)
        mentions [of Handler "after_sources timings w as" timings True "w Handler"] by auto
    with A S before_split [of "?A @ ?S @ ?H" "?K" xs e ys] split show ?thesis by auto
  qed (use assms(4) in auto)
qed

text \<open>
  C18. Shutdown goes downstream. Every actor is told that the engine is shutting down, and each of them
  once and before anything else is sent, broadcast, signalled or stopped. Then come the three phases, in
  this order: the shutdown broadcast for the sources, the stop of every source actor, the broadcast for
  the handlers, the stop of every handler actor, the broadcast for the sinks, the stop of every sink
  actor, so that every actor is stopped exactly once and nothing else is. And no primitive is sent the
  stop request (SIGTERM), and no actor is stopped, before every actor of every kind upstream of it has
  been stopped.
\<close>

theorem shutdown_order:
  assumes "distinct (map fst as)"
  shows "(\<exists>rest. snd (graceful_shutdown timings w as) = map (\<lambda>n. SendTo n EngineShuttingDown) (map fst as) @ rest
        \<and> (\<forall>n. SendTo n EngineShuttingDown \<notin> set rest))
    \<and> filter (\<lambda>e. case e of BroadcastShutdown _ \<Rightarrow> True | StopActor _ \<Rightarrow> True | _ \<Rightarrow> False)
          (snd (graceful_shutdown timings w as))
        = BroadcastShutdown ''source'' # map StopActor (targets_of_kind as Source)
          @ BroadcastShutdown ''handler'' # map StopActor (targets_of_kind as Handler)
          @ BroadcastShutdown ''sink'' # map StopActor (targets_of_kind as Sink)
    \<and> distinct (targets_of_kind as Source @ targets_of_kind as Handler @ targets_of_kind as Sink)
    \<and> set (targets_of_kind as Source @ targets_of_kind as Handler @ targets_of_kind as Sink) = fst ` set as
    \<and> (\<forall>a ea b eb xs e ys. (a, ea) \<in> set as \<and> (b, eb) \<in> set as
          \<and> (ae_kind ea, ae_kind eb) \<in> {(Source, Handler), (Source, Sink), (Handler, Sink)}
          \<and> snd (graceful_shutdown timings w as) = xs @ e # ys \<and> e \<in> {SendTo b StopPrimitive, StopActor b}
        \<longrightarrow> StopActor a \<in> set xs)"
proof (intro conjI)
  have a: "announce_shutdown as = map (\<lambda>n. SendTo n EngineShuttingDown) (map fst as)"
    by (simp add: announce_shutdown_def case_prod_beta)
  show "\<exists>rest. snd (graceful_shutdown timings w as) = map (\<lambda>n. SendTo n EngineShuttingDown) (map fst as) @ rest
      \<and> (\<forall>n. SendTo n EngineShuttingDown \<notin> set rest)"
    by (intro exI conjI) (auto simp: graceful_shutdown_eq a phase_announces_nothing)
  show "filter (\<lambda>e. case e of BroadcastShutdown _ \<Rightarrow> True | StopActor _ \<Rightarrow> True | _ \<Rightarrow> False)
        (snd (graceful_shutdown timings w as))
      = BroadcastShutdown ''source'' # map StopActor (targets_of_kind as Source)
        @ BroadcastShutdown ''handler'' # map StopActor (targets_of_kind as Handler)
        @ BroadcastShutdown ''sink'' # map StopActor (targets_of_kind as Sink)"
    by (simp add: graceful_shutdown_eq phase_milestones a comp_def primitive_kind_as_str_def)
qed (use targets_distinct [OF assms] targets_partition [of as] upstream_stopped [OF assms] in blast)+

definition sample_running :: "primitive_info \<Rightarrow> pid \<Rightarrow> string \<times> actor_entry" where
  "sample_running i p = (info_name i,
     (new_entry (process_manager_new ''s'' 0) i ''/bin/p'' [] Map.empty restart_config_default)\<lparr> ae_pid := Some p \<rparr>)"

definition sample_topology :: actors where
  "sample_topology = [sample_running (info_source ''timer'' []) 7, sample_running (info_sink ''log'' []) 8]"

definition no_exits :: phase_windows where
  "no_exits = \<lparr> pw_drain = [], pw_grace = [], pw_reap = [] \<rparr>"

definition sample_timings :: shutdown_timings where
  "sample_timings = \<lparr> sd_drain = 100, sd_grace = 200 \<rparr>"

lemma sample_effects:
  "snd (graceful_shutdown sample_timings (\<lambda>_. no_exits) sample_topology) =
     [SendTo ''timer'' EngineShuttingDown, SendTo ''log'' EngineShuttingDown, BroadcastShutdown ''source'',
      SendTo ''timer'' StopPrimitive, SigKillGroup 7, StopActor ''timer'', BroadcastShutdown ''handler'',
      BroadcastShutdown ''sink''] @ SendTo ''log'' StopPrimitive # [SigKillGroup 8, StopActor ''log'']"
  by code_simp

lemma sample_targets:
  "targets_of_kind sample_topology Source = [''timer'']" "targets_of_kind sample_topology Handler = []"
  "targets_of_kind sample_topology Sink = [''log'']"
  by (simp_all add: sample_topology_def sample_running_def new_entry_def info_source_def info_sink_def
      targets_of_kind_def Let_def)

theorem shutdown_order_witness:
  "StopActor ''timer'' \<in> set [SendTo ''timer'' EngineShuttingDown, SendTo ''log'' EngineShuttingDown,
      BroadcastShutdown ''source'', SendTo ''timer'' StopPrimitive, SigKillGroup 7, StopActor ''timer'',
      BroadcastShutdown ''handler'', BroadcastShutdown ''sink'']
   \<and> filter (\<lambda>e. case e of BroadcastShutdown _ \<Rightarrow> True | StopActor _ \<Rightarrow> True | _ \<Rightarrow> False)
        (snd (graceful_shutdown sample_timings (\<lambda>_. no_exits) sample_topology)) =
       [BroadcastShutdown ''source'', StopActor ''timer'', BroadcastShutdown ''handler'', BroadcastShutdown ''sink'',
        StopActor ''log'']"
proof -
  let ?t = "snd (sample_running (info_source ''timer'' []) 7)" and ?l = "snd (sample_running (info_sink ''log'' []) 8)"
  have d: "distinct (map fst sample_topology)" "(''timer'', ?t) \<in> set sample_topology" "(''log'', ?l) \<in> set sample_topology"
    and k: "ae_kind ?t = Source" "ae_kind ?l = Sink"
    by (simp_all add: sample_topology_def sample_running_def new_entry_def info_source_def info_sink_def Let_def)
  note order = shutdown_order [OF d(1), of sample_timings "\<lambda>_. no_exits"]
  have "filter (\<lambda>e. case e of BroadcastShutdown _ \<Rightarrow> True | StopActor _ \<Rightarrow> True | _ \<Rightarrow> False)
        (snd (graceful_shutdown sample_timings (\<lambda>_. no_exits) sample_topology)) =
       [BroadcastShutdown ''source'', StopActor ''timer'', BroadcastShutdown ''handler'', BroadcastShutdown ''sink'',
        StopActor ''log'']"
    using order by (simp only: sample_targets list.map append.simps)
  moreover have "(ae_kind ?t, ae_kind ?l) \<in> {(Source, Handler), (Source, Sink), (Handler, Sink)}"
    by (simp add: k)
  ultimately show ?thesis
    using order d sample_effects by blast
qed

text \<open>
  Escalation is exact. In a shutdown phase during which no child is respawned and no watch of its
  targets that shows a child loses its sender before it is cleared, the stop request
  goes to the actors of that kind, and only if some child of that kind is still there when the
  window for leaving on its own has passed (sources and a zero drain have no such window); exactly
  the children that outlive the grace period too are killed, by their process group; and what is
  left afterwards are those the kernel did not reap either.
\<close>

theorem phase_escalation:
  assumes "quiet_phase w" and "\<forall>m \<in> set (targets_of_kind as kind). held_in as w m"
  shows "(SendTo n StopPrimitive \<in> set (snd (shutdown_phase kind timings allow w as)) \<longleftrightarrow>
        n \<in> set (targets_of_kind as kind)
        \<and> (\<exists>m \<in> set (targets_of_kind as kind). watch_pid as m \<noteq> None \<and> \<not> exits (drain_window timings allow w) m))
    \<and> (SigKillGroup p \<in> set (snd (shutdown_phase kind timings allow w as)) \<longleftrightarrow>
        (\<exists>m \<in> set (targets_of_kind as kind). watch_pid as m = Some p
            \<and> \<not> exits (drain_window timings allow w) m \<and> \<not> exits (pw_grace w) m))
    \<and> (n \<in> set (targets_of_kind as kind) \<longrightarrow>
        (watch_pid (fst (shutdown_phase kind timings allow w as)) n = Some p \<longleftrightarrow>
          watch_pid as n = Some p \<and> \<not> exits (drain_window timings allow w) n \<and> \<not> exits (pw_grace w) n
          \<and> \<not> exits (pw_reap w) n))"
  using phase_term_iff [OF assms] phase_kill_iff [OF assms] phase_watch [OF assms] by simp

lemma sample_held: "keeps_watch w n \<Longrightarrow> held_in sample_topology w n"
  by (simp add: held_in_def watch_pid_def watch_closed_def sample_topology_def sample_running_def new_entry_def
      info_source_def info_sink_def Let_def)

theorem phase_escalation_witness:
  "SigKillGroup 8 \<in> set (snd (shutdown_phase Sink sample_timings True no_exits sample_topology))
   \<and> SigKillGroup 8 \<notin> set (snd (shutdown_phase Sink sample_timings True
        (no_exits\<lparr> pw_grace := [PidChanged ''log'' None] \<rparr>) sample_topology))"
proof -
  have q: "quiet_phase no_exits" "quiet_phase (no_exits\<lparr> pw_grace := [PidChanged ''log'' None] \<rparr>)"
    by (simp_all add: quiet_phase_def no_exits_def)
  have h: "\<forall>m \<in> set (targets_of_kind sample_topology Sink). held_in sample_topology no_exits m"
    "\<forall>m \<in> set (targets_of_kind sample_topology Sink).
       held_in sample_topology (no_exits\<lparr> pw_grace := [PidChanged ''log'' None] \<rparr>) m"
    by (auto simp: keeps_watch_def no_exits_def intro!: sample_held)
  have t: "watch_pid sample_topology ''log'' = Some 8"
    by (simp add: watch_pid_def sample_topology_def sample_running_def new_entry_def info_source_def info_sink_def Let_def)
  show ?thesis
    using phase_escalation [OF q(1) h(1), of "''log''" sample_timings True 8]
      phase_escalation [OF q(2) h(2), of "''log''" sample_timings True 8]
    by (simp add: t sample_targets no_exits_def drain_window_def)
qed

text \<open>The phases during which the actors of a kind have not been stopped yet.\<close>

fun phases_until :: "primitive_kind \<Rightarrow> primitive_kind set" where
  "phases_until Source = {Source}"
| "phases_until Handler = {Source, Handler}"
| "phases_until Sink = {Source, Handler, Sink}"

text \<open>
  C2. No child outlives the engine. Three things are assumed of what goes on outside the manager during
  the windows of the three phases. The actors spawn nothing once shutdown is announced
  (\<open>quiet_phase\<close>). A watch that shows a child still has its sender when shutdown starts, and in
  the windows up to and including those of its own kind's phase, which is when the manager stops its
  actor, it loses the sender only after it was cleared (\<open>held_in\<close>): in the code the task that waits
  for the child owns the sender until it has cleared the watch. A dropped sender would make the manager
  give up waiting for that primitive early, and nothing is assumed of the senders of actors that are
  already stopped or have no child: those of the sources may well go during the windows of the handlers
  and sinks. And the kernel reaps, before the reap timeout, every child whose process group is killed.
  Then after the three phases no primitive has a child left, whatever each of them did with the
  broadcast and with SIGTERM.
\<close>

theorem no_child_outlives_shutdown:
  assumes q: "\<And>k. quiet_phase (w k)"
    and held: "\<And>k j n. n \<in> set (targets_of_kind as k) \<Longrightarrow> j \<in> phases_until k \<Longrightarrow> held_in as (w j) n"
    and reaped: "\<And>k n p. n \<in> set (targets_of_kind as k) \<Longrightarrow> watch_pid as n = Some p \<Longrightarrow>
        SigKillGroup p \<in> set (snd (graceful_shutdown timings w as)) \<Longrightarrow> exits (pw_reap (w k)) n"
  shows "watch_pid (fst (graceful_shutdown timings w as)) n = None"
proof -
  let ?s = "after_sources timings w as" and ?h = "after_handlers timings w as"
    and ?k = "fst (shutdown_phase Sink timings True (w Sink) (after_handlers timings w as))"
  have c1: "calmer as ?s" and c2: "calmer ?s ?h" and c3: "calmer ?h ?k"
    unfolding after_sources_def after_handlers_def by (rule calmer_phase(3) [OF q])+
  have o0: "\<forall>m \<in> set (targets_of_kind as Source). held_in as (w Source) m"
    by (simp add: held)
  have o1: "\<forall>m \<in> set (targets_of_kind ?s Handler). held_in ?s (w Handler) m"
    by (auto simp: after_sources_def [of timings w as] intro!: held_in_next [OF q] held
        simp flip: after_targets(1) [of timings w as])
  have "held_in ?s (w j) m" if "m \<in> set (targets_of_kind as Sink)" "j \<in> {Handler, Sink}" for m j
    unfolding after_sources_def using that by (intro held_in_next [OF q] held [of _ Sink]) auto
  then have o2: "\<forall>m \<in> set (targets_of_kind ?h Sink). held_in ?h (w Sink) m"
    unfolding after_targets unfolding after_handlers_def by (auto intro!: held_in_next [OF q])
  have keep: "watch_pid bs m = Some p \<Longrightarrow> watch_pid cs m = Some p" if "calmer cs bs" for bs cs m p
    using that unfolding calmer_def by (metis option.distinct(1))
  have s: "watch_pid ?s m = None" if "m \<in> set (targets_of_kind as Source)" for m
    unfolding after_sources_def
    by (rule phase_clears [OF q o0 _ that]) (auto simp: graceful_shutdown_eq intro: reaped)
  have h: "watch_pid ?h m = None" if "m \<in> set (targets_of_kind as Handler)" for m
    unfolding after_handlers_def
    by (rule phase_clears [OF q o1]) (auto simp: graceful_shutdown_eq that intro: reaped keep [OF c1])
  have k: "watch_pid ?k m = None" if "m \<in> set (targets_of_kind as Sink)" for m
    by (rule phase_clears [OF q o2])
       (auto simp: graceful_shutdown_eq that intro: reaped keep [OF calmer_trans [OF c1 c2]])
  show ?thesis
  proof (cases "map_of as n")
    case None
    then have "watch_pid as n = None"
      by (simp add: watch_pid_def)
    then have "watch_pid ?k n = None"
      using calmer_trans [OF calmer_trans [OF c1 c2] c3] by (auto simp: calmer_def)
    then show ?thesis
      by (simp add: graceful_shutdown_eq)
  next
    case (Some e)
    then have "n \<in> set (targets_of_kind as (ae_kind e))"
      by (auto simp: target_iff dest: map_of_SomeD)
    then have "watch_pid ?k n = None"
      using s [of n] h [of n] k [of n] c2 c3 by (cases "ae_kind e") (metis calmer_def)+
    then show ?thesis
      by (simp add: graceful_shutdown_eq)
  qed
qed

text \<open>
  The windows of the witness: the timer's child is reaped in its own phase, its sender goes in the
  windows of the later ones, and the log's child is reaped in the last.
\<close>

definition sample_reaped :: "primitive_kind \<Rightarrow> phase_windows" where
  "sample_reaped k = (case k of
      Source \<Rightarrow> no_exits\<lparr> pw_reap := [PidChanged ''timer'' None] \<rparr>
    | _ \<Rightarrow> no_exits\<lparr> pw_grace := [SenderDropped ''timer''], pw_reap := [PidChanged ''log'' None] \<rparr>)"

theorem no_child_outlives_shutdown_witness:
  "watch_pid (fst (graceful_shutdown sample_timings sample_reaped sample_topology)) ''log'' = None"
proof (rule no_child_outlives_shutdown)
  show "quiet_phase (sample_reaped k)" for k
    by (cases k) (simp_all add: quiet_phase_def sample_reaped_def no_exits_def)
  show "held_in sample_topology (sample_reaped j) n"
    if "n \<in> set (targets_of_kind sample_topology k)" "j \<in> phases_until k" for k j n
    using that by (cases k; cases j)
      (auto simp: sample_targets keeps_watch_def sample_reaped_def no_exits_def intro!: sample_held)
  show "exits (pw_reap (sample_reaped k)) n" if "n \<in> set (targets_of_kind sample_topology k)" for k n
    using that by (cases k) (auto simp: sample_targets sample_reaped_def)
qed

end
