(* ===== verification/Preflight.thy ===== *)
theory Preflight
  imports Config
begin

text \<open>
  The checks that run before anything is spawned, and the report of \<^verbatim>\<open>emergent validate\<close>, after
  \<^verbatim>\<open>emergent-engine/src/preflight.rs\<close>.

  The IPC library's configuration is the record of the three settings the engine overrides; loading
  it is an argument. A TOML parse error is its message and the byte offset it points at; the parsed
  document (\<^verbatim>\<open>toml_edit\<close>) is a tree of tables, each with its header's offset.
\<close>

section \<open>Findings\<close>

record findings =
  fd_errors :: "config_issue list"
  fd_warnings :: "config_issue list"

definition findings_is_ok :: "findings \<Rightarrow> bool" where
  "findings_is_ok f = (fd_errors f = [])"

definition findings_into_result :: "findings \<Rightarrow> (config_error, config_issue list) result" where
  "findings_into_result f = (case fd_errors f of
      i # _ \<Rightarrow> Err (into_error i) | [] \<Rightarrow> Ok (fd_warnings f))"

definition preflight ::
  "(string \<Rightarrow> bool) \<Rightarrow> (string \<Rightarrow> string option) \<Rightarrow> emergent_config \<Rightarrow> usize \<Rightarrow> path_check \<Rightarrow> findings" where
  "preflight path_exists url_host c max_connections paths =
     (let errors = issues path_exists url_host paths c;
          errors = (case check_connection_capacity (enabled_primitive_count c) max_connections of
              Inr _ \<Rightarrow> errors
            | Inl e \<Rightarrow> errors @ [issue_at (config_issue_new ConnectionCapacity
                (case e of CE_ValidationError m \<Rightarrow> m | other \<Rightarrow> show_config_error other)) ''engine.max_connections'']);
          warnings = (case wire_format_warning (ec_wire_format (cfg_engine c)) of
              None \<Rightarrow> []
            | Some message \<Rightarrow> [issue_at (config_issue_new WireFormatIgnored message) ''engine.wire_format''])
      in \<lparr> fd_errors = errors, fd_warnings = warnings \<rparr>)"

section \<open>The IPC settings\<close>

record ipc_config =
  ipc_timeouts_read :: u64
  ipc_socket_path :: "string option"
  ipc_max_connections :: usize

definition apply_engine_ipc_overrides :: "ipc_config \<Rightarrow> string option \<Rightarrow> usize option \<Rightarrow> ipc_config" where
  "apply_engine_ipc_overrides cfg socket_path max_connections =
     (let cfg = cfg\<lparr> ipc_timeouts_read := 0 \<rparr>;
          cfg = (case socket_path of Some p \<Rightarrow> cfg\<lparr> ipc_socket_path := Some p \<rparr> | None \<Rightarrow> cfg)
      in case max_connections of Some limit \<Rightarrow> cfg\<lparr> ipc_max_connections := limit \<rparr> | None \<Rightarrow> cfg)"

definition ipc_config_for :: "ipc_config \<Rightarrow> string option \<Rightarrow> usize option \<Rightarrow> ipc_config" where
  "ipc_config_for loaded socket_path max_connections = apply_engine_ipc_overrides loaded socket_path max_connections"

definition effective_max_connections :: "ipc_config \<Rightarrow> emergent_config \<Rightarrow> usize" where
  "effective_max_connections loaded c =
     ipc_max_connections (ipc_config_for loaded None (ec_max_connections (cfg_engine c)))"

section \<open>Locating a parse error\<close>

definition unknown_field_name :: "string \<Rightarrow> string option" where
  "unknown_field_name message =
     (case strip_prefix (''unknown field '' @ [CHR 0x60]) message of
        None \<Rightarrow> None
      | Some rest \<Rightarrow>
          if CHR 0x60 \<in> set rest then Some (takeWhile (\<lambda>c. c \<noteq> CHR 0x60) rest) else None)"

definition line_and_column :: "string \<Rightarrow> nat \<Rightarrow> nat \<times> nat" where
  "line_and_column tx offset =
     (let before = (case str_get_to tx offset of Some s \<Rightarrow> s | None \<Rightarrow> tx);
          line = length (filter (\<lambda>c. c = CHR 0x0A) before) + 1;
          column = char_count (last (split_on (CHR 0x0A) before)) + 1
      in (line, column))"

datatype toml_table =
    TomlTable (tt_implicit: bool) (tt_dotted: bool) (tt_start: "nat option") (tt_entries: "(string \<times> toml_item) list")
and toml_item = ItemTable toml_table | ItemArray "toml_table list" | ItemOther

type_synonym best_header = "(nat \<times> string) option"

definition consider_table :: "toml_table \<Rightarrow> string \<Rightarrow> nat \<Rightarrow> best_header \<Rightarrow> best_header" where
  "consider_table t path offset best =
     (if tt_implicit t \<or> tt_dotted t then best
      else (case tt_start t of
          None \<Rightarrow> best
        | Some start \<Rightarrow>
            if start \<le> offset \<and> (case best of None \<Rightarrow> True | Some (s, _) \<Rightarrow> start > s)
            then Some (start, path) else best))"

definition child_path :: "string option \<Rightarrow> string \<Rightarrow> string" where
  "child_path pre key = (case pre of None \<Rightarrow> key | Some p \<Rightarrow> p @ ''.'' @ key)"

fun visit_tables :: "toml_table \<Rightarrow> string option \<Rightarrow> nat \<Rightarrow> best_header \<Rightarrow> best_header"
  and visit_entries :: "(string \<times> toml_item) list \<Rightarrow> string option \<Rightarrow> nat \<Rightarrow> best_header \<Rightarrow> best_header"
  and visit_array :: "toml_table list \<Rightarrow> nat \<Rightarrow> string \<Rightarrow> nat \<Rightarrow> best_header \<Rightarrow> best_header" where
  "visit_tables (TomlTable i d s es) pre offset best = visit_entries es pre offset best"
| "visit_entries [] pre offset best = best"
| "visit_entries ((key, ItemTable child) # es) pre offset best =
     visit_entries es pre offset
       (visit_tables child (Some (child_path pre key)) offset
         (consider_table child (child_path pre key) offset best))"
| "visit_entries ((key, ItemArray array) # es) pre offset best =
     visit_entries es pre offset (visit_array array 0 (child_path pre key) offset best)"
| "visit_entries ((key, ItemOther) # es) pre offset best = visit_entries es pre offset best"
| "visit_array [] i path offset best = best"
| "visit_array (child # array) i path offset best =
     visit_array array (Suc i) path offset
       (visit_tables child (Some (indexed path i)) offset
         (consider_table child (indexed path i) offset best))"

text \<open>\<open>document\<close> is the parsed text, \<open>None\<close> when it does not parse.\<close>

definition table_path_at :: "toml_table option \<Rightarrow> nat \<Rightarrow> string option" where
  "table_path_at document offset = (case document of
      None \<Rightarrow> None | Some t \<Rightarrow> map_option snd (visit_tables t None offset None))"

record toml_error =
  te_message :: string
  te_span_start :: "nat option"

text \<open>
  A load error with the parse error in full; \<open>parse_document\<close> is the document parser.
\<close>

datatype load_error = LE_Read string | LE_Parse toml_error | LE_Validation string | LE_PathNotFound string

definition load_issue :: "(string \<Rightarrow> toml_table option) \<Rightarrow> load_error \<Rightarrow> string option \<Rightarrow> config_issue" where
  "load_issue parse_document error content = (case error of
      LE_Parse e \<Rightarrow>
        (let message = trim (te_message e);
             unknown_key = unknown_field_name message;
             code = (if unknown_key \<noteq> None then UnknownField else ParseError)
         in case (content, te_span_start e) of
              (Some tx, Some start) \<Rightarrow>
                (let (line, column) = line_and_column tx start;
                     issue = config_issue_new code (message @ '' (line '' @ show_nat line @ '', column '' @ show_nat column @ '')'')
                 in case (unknown_key, table_path_at (parse_document tx) start) of
                      (Some key, Some table) \<Rightarrow> issue_at issue (table @ ''.'' @ key)
                    | (Some key, None) \<Rightarrow> issue_at issue key
                    | (None, Some table) \<Rightarrow> issue_at issue table
                    | (None, None) \<Rightarrow> issue)
            | _ \<Rightarrow> config_issue_new code message)
    | LE_Read e \<Rightarrow> config_issue_new ReadError e
    | LE_Validation message \<Rightarrow> config_issue_new ParseError message
    | LE_PathNotFound path \<Rightarrow> config_issue_new PathNotFound (''Path does not exist: '' @ path))"

section \<open>The report\<close>

record validation_report =
  vr_ok :: bool
  vr_engine_version :: string
  vr_errors :: "config_issue list"
  vr_warnings :: "config_issue list"

definition from_findings :: "string \<Rightarrow> findings \<Rightarrow> validation_report" where
  "from_findings version f = \<lparr> vr_ok = findings_is_ok f, vr_engine_version = version,
     vr_errors = fd_errors f, vr_warnings = fd_warnings f \<rparr>"

definition report_failed :: "string \<Rightarrow> config_issue \<Rightarrow> validation_report" where
  "report_failed version issue = from_findings version \<lparr> fd_errors = [issue], fd_warnings = [] \<rparr>"

definition report_exit_code :: "validation_report \<Rightarrow> int" where
  "report_exit_code r = (if vr_ok r then 0 else 1)"

definition format_issue :: "string \<Rightarrow> config_issue \<Rightarrow> string" where
  "format_issue severity i = (case ci_path i of
      Some path \<Rightarrow> severity @ ''['' @ issue_code_as_str (ci_code i) @ ''] at '' @ path @ '': '' @ ci_message i @ [CHR 0x0A]
    | None \<Rightarrow> severity @ ''['' @ issue_code_as_str (ci_code i) @ '']: '' @ ci_message i @ [CHR 0x0A])"

definition to_human :: "validation_report \<Rightarrow> string \<Rightarrow> string" where
  "to_human r config_path =
     concat (map (format_issue ''error'') (vr_errors r))
     @ concat (map (format_issue ''warning'') (vr_warnings r))
     @ (if vr_ok r then config_path @ '' is valid for emergent '' @ vr_engine_version r
        else config_path @ '' is invalid: '' @ show_nat (length (vr_errors r)) @ '' error(s)'')
     @ (if vr_warnings r \<noteq> [] then '', '' @ show_nat (length (vr_warnings r)) @ '' warning(s)'' else [])
     @ [CHR 0x0A]"

section \<open>The headers of a document\<close>

text \<open>Every table of the document that has a header, with its path, in the order the walk meets them.\<close>

definition header :: "toml_table \<Rightarrow> string \<Rightarrow> (nat \<times> string) list" where
  "header t path = (if tt_implicit t \<or> tt_dotted t then []
     else (case tt_start t of None \<Rightarrow> [] | Some start \<Rightarrow> [(start, path)]))"

fun headers :: "toml_table \<Rightarrow> string option \<Rightarrow> (nat \<times> string) list"
  and entry_headers :: "(string \<times> toml_item) list \<Rightarrow> string option \<Rightarrow> (nat \<times> string) list"
  and array_headers :: "toml_table list \<Rightarrow> nat \<Rightarrow> string \<Rightarrow> (nat \<times> string) list" where
  "headers (TomlTable i d s es) pre = entry_headers es pre"
| "entry_headers [] pre = []"
| "entry_headers ((key, ItemTable child) # es) pre =
     header child (child_path pre key) @ headers child (Some (child_path pre key)) @ entry_headers es pre"
| "entry_headers ((key, ItemArray array) # es) pre = array_headers array 0 (child_path pre key) @ entry_headers es pre"
| "entry_headers ((key, ItemOther) # es) pre = entry_headers es pre"
| "array_headers [] i path = []"
| "array_headers (child # array) i path =
     header child (indexed path i) @ headers child (Some (indexed path i)) @ array_headers array (Suc i) path"

definition keep_latest :: "nat \<Rightarrow> best_header \<Rightarrow> nat \<times> string \<Rightarrow> best_header" where
  "keep_latest offset best h =
     (if fst h \<le> offset \<and> (case best of None \<Rightarrow> True | Some (s, _) \<Rightarrow> fst h > s) then Some h else best)"

lemma consider_table_eq: "consider_table t path offset best = foldl (keep_latest offset) best (header t path)"
  by (auto simp: consider_table_def header_def keep_latest_def split: option.splits)

lemma visit_eq:
  "visit_tables t pre offset best = foldl (keep_latest offset) best (headers t pre)"
  "visit_entries es pre offset best = foldl (keep_latest offset) best (entry_headers es pre)"
  "visit_array ts i path offset best = foldl (keep_latest offset) best (array_headers ts i path)"
  by (induction t pre offset best and es pre offset best and ts i path offset best
      rule: visit_tables_visit_entries_visit_array.induct)
     (simp_all add: consider_table_eq)

lemma foldl_keep_latest:
  assumes "foldl (keep_latest offset) best hs = Some (s, p)"
  shows "((s, p) \<in> set hs \<and> s \<le> offset \<or> best = Some (s, p))
    \<and> (\<forall>h \<in> set hs. fst h \<le> offset \<longrightarrow> fst h \<le> s) \<and> (\<forall>b. best = Some b \<longrightarrow> fst b \<le> s)"
  using assms
proof (induction hs arbitrary: best)
  case (Cons h hs)
  obtain a b where h: "h = (a, b)" by (cases h)
  from Cons.IH [of "keep_latest offset best h"] Cons.prems show ?case
    by (auto simp: keep_latest_def h split: if_splits option.splits)
qed simp

lemma foldl_keep_latest_None:
  "foldl (keep_latest offset) best hs = None \<longleftrightarrow> best = None \<and> (\<forall>h \<in> set hs. \<not> fst h \<le> offset)"
  by (induction hs arbitrary: best) (auto simp: keep_latest_def split: option.splits)

section \<open>Properties\<close>

text \<open>
  A configuration that validates is one the engine starts. The exit code of the validation
  report is 0 exactly when startup, given the same limit and the same path check, does not refuse;
  that is exactly when the configuration has no issue of its own and the connection limit the
  engine would run under holds every enabled primitive and the four in reserve. With the path check
  on, what startup refuses first is what loading the configuration refuses with.
\<close>

theorem validate_agrees_with_startup:
  "(report_exit_code (from_findings version (preflight path_exists url_host c limit paths)) = 0 \<longleftrightarrow>
      is_ok (findings_into_result (preflight path_exists url_host c limit paths)))
   \<and> (is_ok (findings_into_result (preflight path_exists url_host c limit paths)) \<longleftrightarrow>
      issues path_exists url_host paths c = [] \<and> min (enabled_primitive_count c + 4) (2 ^ 64 - 1) \<le> limit)
   \<and> (validate path_exists url_host c = Err e \<longrightarrow>
      findings_into_result (preflight path_exists url_host c limit PathCheck_Check) = Err e)"
proof -
  have cap: "is_ok (check_connection_capacity n limit) \<longleftrightarrow> min (n + 4) (2 ^ 64 - 1) \<le> limit" for n
    by (auto simp: check_connection_capacity_def required_ipc_connections_def RESERVED_IPC_CONNECTIONS_def Let_def)
  have none: "fd_errors (preflight path_exists url_host c limit paths) = [] \<longleftrightarrow>
      issues path_exists url_host paths c = [] \<and> is_ok (check_connection_capacity (enabled_primitive_count c) limit)"
    by (simp add: preflight_def Let_def split: sum.split)
  have ok: "is_ok (findings_into_result f) \<longleftrightarrow> fd_errors f = []" for f
    by (simp add: findings_into_result_def split: list.split)
  have "findings_into_result (preflight path_exists url_host c limit PathCheck_Check) = Err e"
    if "validate path_exists url_host c = Err e"
    using that
    by (auto simp: config_check.error_is_first preflight_def Let_def findings_into_result_def split: sum.split)
  then show ?thesis
    by (simp only: ok none cap) (simp add: report_exit_code_def from_findings_def findings_is_ok_def none cap)
qed

theorem validate_agrees_with_startup_witness:
  "report_exit_code (from_findings ''1'' (preflight (\<lambda>_. False) (\<lambda>_. None) sample_config 8 PathCheck_Skip)) = 0"
proof -
  have "issues (\<lambda>_. False) (\<lambda>_. None) PathCheck_Skip sample_config = []" "enabled_primitive_count sample_config = 1"
    by code_simp+
  then show ?thesis
    using validate_agrees_with_startup [of "''1''" "\<lambda>_. False" "\<lambda>_. None" sample_config 8 PathCheck_Skip] by simp
qed

text \<open>
  A parse error is reported at the table it is in: of all the tables with a header of their own,
  arrays of tables indexed and sub-tables dotted, the one whose header starts last at or before the
  error; and no table is named exactly when the text does not parse or no header starts before it.
\<close>

theorem table_path_is_enclosing_header:
  "case table_path_at document offset of
     None \<Rightarrow> (case document of None \<Rightarrow> True | Some t \<Rightarrow> list_all (\<lambda>h. offset < fst h) (headers t None))
   | Some p \<Rightarrow> (\<exists>t s. document = Some t \<and> (s, p) \<in> set (headers t None) \<and> s \<le> offset
        \<and> list_all (\<lambda>h. fst h \<le> s) (filter (\<lambda>h. fst h \<le> offset) (headers t None)))"
proof (cases document)
  case (Some t)
  show ?thesis
  proof (cases "foldl (keep_latest offset) None (headers t None)")
    case None
    then have "list_all (\<lambda>h. offset < fst h) (headers t None)"
      by (simp add: foldl_keep_latest_None list_all_iff not_le)
    then show ?thesis
      by (simp add: Some None table_path_at_def visit_eq)
  next
    case s: (Some b)
    obtain x p where b: "b = (x, p)" by (cases b)
    have "(x, p) \<in> set (headers t None)" "x \<le> offset"
      "list_all (\<lambda>h. fst h \<le> x) (filter (\<lambda>h. fst h \<le> offset) (headers t None))"
      using foldl_keep_latest [OF s [unfolded b]] by (auto simp: list_all_iff)
    then show ?thesis
      by (auto simp: Some s b table_path_at_def visit_eq)
  qed
qed (simp add: table_path_at_def)

end
