(* ===== verification/Event_Store.thy ===== *)
theory Event_Store
  imports Messages "HOL-Library.Multiset"
begin

text \<open>
  The two event stores of \<^verbatim>\<open>emergent-engine/src/event_store/\<close> (\<^verbatim>\<open>json_log.rs\<close>, \<^verbatim>\<open>sqlite.rs\<close>) and
  the wrapper in \<^verbatim>\<open>main.rs\<close> that writes to both.

  SQLite is not part of the repository: the statements the code runs are the fields of
  \<open>sql_ops\<close>, one for each SQL text in \<^verbatim>\<open>sqlite.rs\<close>, over a database of an arbitrary type. What SQL
  promises of them is the locale \<open>sql_events\<close>; it is interpreted on a table kept as a list of rows.
  Writing a value as JSON text (\<open>to_text\<close>) and reading it back (\<open>parse_json\<close>), and the TypeID
  functions (\<open>to_str\<close>, \<open>from_str\<close>, \<open>prefix_of\<close>), are parameters as in the message theory. A row has the
  columns the code reads; the column \<^verbatim>\<open>created_at\<close> is written by the database and never read.

  The JSON log keeps one file a day. A buffered writer is the lines it holds and has not written
  out yet; that it may write some of them earlier changes neither the lines nor their order.
  Whether an I/O call succeeds is an argument of the operation that makes it.
\<close>

section \<open>Errors\<close>

datatype sqlite_error = SqlFailure string | FromSqlConversionFailure nat | ToSqlConversionFailure

datatype event_store_error =
    ES_Io string
  | ES_Sqlite sqlite_error
  | ES_Json string
  | ES_NotInitialized
  | ES_LockPoisoned string

section \<open>Rows\<close>

record event_row =
  ev_id :: string
  ev_message_type :: string
  ev_source :: string
  ev_correlation_id :: "string option"
  ev_causation_id :: "string option"
  ev_timestamp_ms :: int
  ev_payload_json :: string
  ev_metadata_json :: "string option"

datatype sql_where = TypeIs string | TimeBetween int int | CorrelationIs string

fun row_satisfies :: "sql_where \<Rightarrow> event_row \<Rightarrow> bool" where
  "row_satisfies (TypeIs t) r = (ev_message_type r = t)"
| "row_satisfies (TimeBetween a b) r = (a \<le> ev_timestamp_ms r \<and> ev_timestamp_ms r \<le> b)"
| "row_satisfies (CorrelationIs c) r = (ev_correlation_id r = Some c)"

record 'd sql_ops =
  sql_replace :: "event_row \<Rightarrow> 'd \<Rightarrow> (string, 'd) result"
  sql_select :: "sql_where \<Rightarrow> 'd \<Rightarrow> (string, event_row list) result"
  sql_count :: "'d \<Rightarrow> (string, int) result"
  sql_delete_below :: "int \<Rightarrow> 'd \<Rightarrow> (string, nat \<times> 'd) result"
  sql_checkpoint :: "'d \<Rightarrow> (string, 'd) result"

text \<open>
  \<^verbatim>\<open>i64::try_from\<close> of a \<^verbatim>\<open>u64\<close>, and \<^verbatim>\<open>u64::try_from\<close> of an \<^verbatim>\<open>i64\<close>; an integer outside the
  range of \<^verbatim>\<open>i64\<close> is not a column value.
\<close>

definition i64_of_u64 :: "u64 \<Rightarrow> int option" where
  "i64_of_u64 w = (if uint w < 2 ^ 63 then Some (uint w) else None)"

definition u64_of_i64 :: "int \<Rightarrow> u64 option" where
  "u64_of_i64 i = (if 0 \<le> i \<and> i < 2 ^ 63 then Some (word_of_int i) else None)"

definition conv :: "nat \<Rightarrow> ('e, 'a) result \<Rightarrow> (sqlite_error, 'a) result" where
  "conv i r = (case r of Inl _ \<Rightarrow> Err (FromSqlConversionFailure i) | Inr x \<Rightarrow> Ok x)"

definition res_bind :: "('e, 'a) result \<Rightarrow> ('a \<Rightarrow> ('e, 'b) result) \<Rightarrow> ('e, 'b) result" where
  "res_bind r f = (case r of Inl e \<Rightarrow> Err e | Inr x \<Rightarrow> f x)"

text \<open>\<^verbatim>\<open>Option<Result>::transpose\<close>.\<close>

definition transpose_opt :: "('e, 'a) result option \<Rightarrow> ('e, 'a option) result" where
  "transpose_opt r = (case r of None \<Rightarrow> Ok None | Some (Inl e) \<Rightarrow> Err e | Some (Inr x) \<Rightarrow> Ok (Some x))"

fun collect_results :: "('e, 'a) result list \<Rightarrow> ('e, 'a list) result" where
  "collect_results [] = Ok []"
| "collect_results (r # rs) = (case r of
      Inl e \<Rightarrow> Err e
    | Inr x \<Rightarrow> (case collect_results rs of Inl e \<Rightarrow> Err e | Inr xs \<Rightarrow> Ok (x # xs)))"

definition row_to_message ::
  "(string \<Rightarrow> ('e, 't) result) \<Rightarrow> ('t \<Rightarrow> string) \<Rightarrow> (string \<Rightarrow> json option) \<Rightarrow> event_row
     \<Rightarrow> (sqlite_error, 't emergent_message) result" where
  "row_to_message from_str prefix_of parse_json row =
     res_bind (conv 0 (MessageId_parse from_str prefix_of (ev_id row))) (\<lambda>i.
     res_bind (conv 1 (MessageType_new (ev_message_type row))) (\<lambda>mt.
     res_bind (conv 2 (PrimitiveName_new (ev_source row))) (\<lambda>src.
     res_bind (transpose_opt (map_option (\<lambda>s. conv 3 (CorrelationId_parse from_str prefix_of s))
         (ev_correlation_id row))) (\<lambda>cor.
     res_bind (transpose_opt (map_option (\<lambda>s. conv 4 (CausationId_parse from_str prefix_of s))
         (ev_causation_id row))) (\<lambda>cau.
     res_bind (case u64_of_i64 (ev_timestamp_ms row) of
         None \<Rightarrow> Err (FromSqlConversionFailure 5) | Some ms \<Rightarrow> Ok (Timestamp ms)) (\<lambda>ts.
     Ok \<lparr> msg_id = i, msg_type = mt, msg_source = src, msg_correlation_id = cor,
          msg_causation_id = cau, msg_timestamp_ms = ts,
          msg_payload = (case parse_json (ev_payload_json row) of Some v \<Rightarrow> v | None \<Rightarrow> JNull),
          msg_metadata = Option.bind (ev_metadata_json row) parse_json \<rparr>))))))"

section \<open>The SQLite store\<close>

record 'd sqlite_store =
  sq_conn :: 'd
  sq_poisoned :: bool

text \<open>Taking the connection's lock, then the body; a poisoned lock is an error.\<close>

definition with_conn ::
  "'d sqlite_store \<Rightarrow> ('d \<Rightarrow> (event_store_error, 'a) result) \<Rightarrow> (event_store_error, 'a) result" where
  "with_conn st body =
     (if sq_poisoned st then Err (ES_LockPoisoned ''conn lock'') else body (sq_conn st))"

definition sql_err :: "(string, 'a) result \<Rightarrow> (event_store_error, 'a) result" where
  "sql_err r = (case r of Inl e \<Rightarrow> Err (ES_Sqlite (SqlFailure e)) | Inr x \<Rightarrow> Ok x)"

definition run_query ::
  "(event_row \<Rightarrow> (sqlite_error, 'm) result) \<Rightarrow> 'd sql_ops \<Rightarrow> sql_where \<Rightarrow> 'd sqlite_store
     \<Rightarrow> (event_store_error, 'm list) result" where
  "run_query read_row ops w st = with_conn st (\<lambda>d.
     res_bind (sql_err (sql_select ops w d)) (\<lambda>rows.
       case collect_results (map read_row rows) of
         Inl e \<Rightarrow> Err (ES_Sqlite e) | Inr ms \<Rightarrow> Ok ms))"

definition query_by_type where
  "query_by_type read_row ops message_type st = run_query read_row ops (TypeIs message_type) st"

definition query_by_time_range where
  "query_by_time_range read_row ops start_ms end_ms st =
     (case (i64_of_u64 start_ms, i64_of_u64 end_ms) of
        (Some a, Some b) \<Rightarrow> run_query read_row ops (TimeBetween a b) st
      | _ \<Rightarrow> with_conn st (\<lambda>_. Err (ES_Sqlite ToSqlConversionFailure)))"

definition query_by_correlation where
  "query_by_correlation read_row ops correlation_id st =
     run_query read_row ops (CorrelationIs correlation_id) st"

definition store_count :: "'d sql_ops \<Rightarrow> 'd sqlite_store \<Rightarrow> (event_store_error, u64) result" where
  "store_count ops st = with_conn st (\<lambda>d.
     res_bind (sql_err (sql_count ops d)) (\<lambda>c. Ok (case u64_of_i64 c of Some w \<Rightarrow> w | None \<Rightarrow> 0)))"

definition delete_before ::
  "'d sql_ops \<Rightarrow> u64 \<Rightarrow> 'd sqlite_store \<Rightarrow> (event_store_error, u64 \<times> 'd sqlite_store) result" where
  "delete_before ops timestamp_ms st = with_conn st (\<lambda>d.
     case i64_of_u64 timestamp_ms of
       None \<Rightarrow> Err (ES_Sqlite ToSqlConversionFailure)
     | Some t \<Rightarrow> res_bind (sql_err (sql_delete_below ops t d)) (\<lambda>(deleted, d').
         Ok (if deleted < 2 ^ 64 then of_nat deleted else 0, st\<lparr> sq_conn := d' \<rparr>)))"

definition message_to_row ::
  "('t \<Rightarrow> string) \<Rightarrow> (json \<Rightarrow> (string, string) result) \<Rightarrow> 't emergent_message
     \<Rightarrow> (event_store_error, event_row) result" where
  "message_to_row to_str to_text m =
     (case to_text (msg_payload m) of
        Inl e \<Rightarrow> Err (ES_Json e)
      | Inr payload \<Rightarrow> (case transpose_opt (map_option to_text (msg_metadata m)) of
          Inl e \<Rightarrow> Err (ES_Json e)
        | Inr meta \<Rightarrow> (case i64_of_u64 (as_millis (msg_timestamp_ms m)) of
            None \<Rightarrow> Err (ES_Sqlite ToSqlConversionFailure)
          | Some ts \<Rightarrow> Ok
              \<lparr> ev_id = to_str (MessageId_inner (msg_id m)), ev_message_type = msg_type m,
                ev_source = msg_source m,
                ev_correlation_id = map_option (\<lambda>c. to_str (CorrelationId_inner c)) (msg_correlation_id m),
                ev_causation_id = map_option (\<lambda>c. to_str (CausationId_inner c)) (msg_causation_id m),
                ev_timestamp_ms = ts, ev_payload_json = payload, ev_metadata_json = meta \<rparr>)))"

definition sqlite_store_event ::
  "('t \<Rightarrow> string) \<Rightarrow> (json \<Rightarrow> (string, string) result) \<Rightarrow> 'd sql_ops \<Rightarrow> 't emergent_message
     \<Rightarrow> 'd sqlite_store \<Rightarrow> (event_store_error, 'd sqlite_store) result" where
  "sqlite_store_event to_str to_text ops m st = with_conn st (\<lambda>d.
     res_bind (message_to_row to_str to_text m) (\<lambda>row.
     res_bind (sql_err (sql_replace ops row d)) (\<lambda>d'. Ok (st\<lparr> sq_conn := d' \<rparr>))))"

definition sqlite_flush :: "'d sql_ops \<Rightarrow> 'd sqlite_store \<Rightarrow> (event_store_error, 'd sqlite_store) result" where
  "sqlite_flush ops st = with_conn st (\<lambda>d.
     res_bind (sql_err (sql_checkpoint ops d)) (\<lambda>d'. Ok (st\<lparr> sq_conn := d' \<rparr>)))"

section \<open>The JSON log\<close>

text \<open>
  The writer is the path it appends to and the text it has not written out; \<open>jl_files\<close> is the text
  of the files on disk. One call's I/O outcomes: the flush and the open of a rotation, and how many
  characters of the entry were taken before the write failed, if it did.
\<close>

record json_log =
  jl_log_dir :: string
  jl_writer :: "(string \<times> string) option"
  jl_current_date :: "string option"
  jl_files :: "string \<rightharpoonup> string"
  jl_writer_poisoned :: bool
  jl_date_poisoned :: bool

record log_io =
  io_flush :: "(string, unit) result"
  io_open :: "(string, unit) result"
  io_write :: "(nat \<times> event_store_error) option"

definition json_log_new :: "string \<Rightarrow> (string \<rightharpoonup> string) \<Rightarrow> (string, unit) result \<Rightarrow> (event_store_error, json_log) result" where
  "json_log_new log_dir files create_dir_all =
     (case create_dir_all of
        Inl e \<Rightarrow> Err (ES_Io e)
      | Inr _ \<Rightarrow> Ok \<lparr> jl_log_dir = log_dir, jl_writer = None, jl_current_date = None, jl_files = files,
          jl_writer_poisoned = False, jl_date_poisoned = False \<rparr>)"

definition log_path :: "json_log \<Rightarrow> string \<Rightarrow> string" where
  "log_path st today = path_join (jl_log_dir st) (''events-'' @ today @ ''.jsonl'')"

definition file_text :: "json_log \<Rightarrow> string \<Rightarrow> string" where
  "file_text st path = (case jl_files st path of Some t \<Rightarrow> t | None \<Rightarrow> [])"

definition flush_writer :: "json_log \<Rightarrow> json_log" where
  "flush_writer st = (case jl_writer st of
      None \<Rightarrow> st
    | Some (path, buf) \<Rightarrow>
        st\<lparr> jl_files := (jl_files st)(path \<mapsto> file_text st path @ buf), jl_writer := Some (path, []) \<rparr>)"

definition get_writer :: "string \<Rightarrow> log_io \<Rightarrow> json_log \<Rightarrow> json_log \<times> (event_store_error, unit) result" where
  "get_writer today io st =
     (if jl_writer_poisoned st then (st, Err (ES_LockPoisoned ''writer lock''))
      else if jl_date_poisoned st then (st, Err (ES_LockPoisoned ''current_date lock''))
      else if jl_current_date st = Some today then (st, Ok ())
      else case (if jl_writer st = None then Ok () else io_flush io) of
             Inl e \<Rightarrow> (st, Err (ES_Io e))
           | Inr _ \<Rightarrow>
               let st = flush_writer st in
               (case io_open io of
                  Inl e \<Rightarrow> (st, Err (ES_Io e))
                | Inr _ \<Rightarrow>
                    let path = log_path st today in
                    (st\<lparr> jl_files := (jl_files st)(path \<mapsto> file_text st path),
                         jl_writer := Some (path, []), jl_current_date := Some today \<rparr>, Ok ())))"

text \<open>
  The serialised entry. \<open>rfc3339\<close> is the date library's rendering of a millisecond count it can
  represent, \<open>now\<close> the rendering of the current time, used for one it cannot.
\<close>

definition log_entry ::
  "('t \<Rightarrow> string) \<Rightarrow> (json \<Rightarrow> string) \<Rightarrow> (int \<Rightarrow> string option) \<Rightarrow> string \<Rightarrow> 't emergent_message \<Rightarrow> string" where
  "log_entry to_str render rfc3339 now m =
     (let ms = (case i64_of_u64 (as_millis (msg_timestamp_ms m)) of Some i \<Rightarrow> i | None \<Rightarrow> 2 ^ 63 - 1);
          timestamp = (case rfc3339 ms of Some s \<Rightarrow> s | None \<Rightarrow> now)
      in render (JObject [(''timestamp'', JString timestamp), (''message'', message_to_value to_str m)])
           @ [CHR 0x0A])"

definition json_log_store :: "string \<Rightarrow> string \<Rightarrow> log_io \<Rightarrow> json_log \<Rightarrow> json_log \<times> (event_store_error, unit) result" where
  "json_log_store today entry io st =
     (case get_writer today io st of
        (st, Inl e) \<Rightarrow> (st, Err e)
      | (st, Inr _) \<Rightarrow> (case jl_writer st of
          None \<Rightarrow> (st, Ok ())
        | Some (path, buf) \<Rightarrow> (case io_write io of
            None \<Rightarrow> (st\<lparr> jl_writer := Some (path, buf @ entry) \<rparr>, Ok ())
          | Some (k, e) \<Rightarrow> (st\<lparr> jl_writer := Some (path, buf @ take k entry) \<rparr>, Err e))))"

definition json_log_flush :: "log_io \<Rightarrow> json_log \<Rightarrow> json_log \<times> (event_store_error, unit) result" where
  "json_log_flush io st =
     (if jl_writer_poisoned st then (st, Err (ES_LockPoisoned ''writer lock''))
      else if jl_writer st = None then (st, Ok ())
      else case io_flush io of Inl e \<Rightarrow> (st, Err (ES_Io e)) | Inr _ \<Rightarrow> (flush_writer st, Ok ()))"

section \<open>Both stores\<close>

record 'd store_wrapper =
  sw_json_log :: "json_log option"
  sw_sqlite :: "'d sqlite_store option"

text \<open>
  \<open>sqlite_step\<close> is the SQLite half of the operation on a store that is there; each half runs only
  where it is configured, and the second only when the first did not fail.
\<close>

definition wrapper_json_step ::
  "(json_log \<Rightarrow> json_log \<times> (event_store_error, unit) result) \<Rightarrow> 'd store_wrapper
     \<Rightarrow> 'd store_wrapper \<times> (event_store_error, unit) result" where
  "wrapper_json_step f w = (case sw_json_log w of
      None \<Rightarrow> (w, Ok ())
    | Some j \<Rightarrow> (case f j of (j', r) \<Rightarrow> (w\<lparr> sw_json_log := Some j' \<rparr>, r)))"

definition wrapper_sqlite_step ::
  "('d sqlite_store \<Rightarrow> (event_store_error, 'd sqlite_store) result) \<Rightarrow> 'd store_wrapper
     \<Rightarrow> 'd store_wrapper \<times> (event_store_error, unit) result" where
  "wrapper_sqlite_step f w = (case sw_sqlite w of
      None \<Rightarrow> (w, Ok ())
    | Some q \<Rightarrow> (case f q of Inl e \<Rightarrow> (w, Err e) | Inr q' \<Rightarrow> (w\<lparr> sw_sqlite := Some q' \<rparr>, Ok ())))"

definition wrapper_store where
  "wrapper_store to_str to_text ops today entry io m w =
     (case wrapper_json_step (json_log_store today entry io) w of
        (w, Inl e) \<Rightarrow> (w, Err e)
      | (w, Inr _) \<Rightarrow> wrapper_sqlite_step (sqlite_store_event to_str to_text ops m) w)"

definition wrapper_flush where
  "wrapper_flush ops io w =
     (case wrapper_json_step (json_log_flush io) w of
        (w, Inl e) \<Rightarrow> (w, Err e)
      | (w, Inr _) \<Rightarrow> wrapper_sqlite_step (sqlite_flush ops) w)"

section \<open>Lemmas on rows\<close>

lemma res_bind_simps [simp]: "res_bind (Inl e) f = Inl e" "res_bind (Inr x) f = f x"
  by (simp_all add: res_bind_def)

lemma res_bind_Ok_iff: "res_bind r f = Inr y \<longleftrightarrow> (\<exists>x. r = Inr x \<and> f x = Inr y)"
  by (cases r) auto

lemma conv_Ok [simp]: "conv i (Inr x) = Inr x"
  by (simp add: conv_def)

lemma sql_err_Ok_iff [simp]: "sql_err r = Inr x \<longleftrightarrow> r = Inr x"
  by (cases r) (auto simp: sql_err_def)

lemma transpose_opt_map:
  "(\<And>x. v = Some x \<Longrightarrow> f x = Inr (g x)) \<Longrightarrow> transpose_opt (map_option f v) = Inr (map_option g v)"
  by (cases v) (auto simp: transpose_opt_def)

lemma transpose_opt_Ok_iff: "transpose_opt v = Inr w \<longleftrightarrow>
    (v = None \<and> w = None) \<or> (\<exists>x. v = Some (Inr x) \<and> w = Some x)"
  by (auto simp: transpose_opt_def split: option.splits sum.splits)

lemma u64_of_i64_of_u64: "i64_of_u64 w = Some i \<Longrightarrow> u64_of_i64 i = Some w"
  by (auto simp: i64_of_u64_def u64_of_i64_def split: if_splits)

lemma collect_results_Ok: "(\<And>x. x \<in> set xs \<Longrightarrow> f x = Inr (g x)) \<Longrightarrow> collect_results (map f xs) = Inr (map g xs)"
  by (induction xs) auto

text \<open>
  What reading gives of a stored message, whatever the JSON package does: every field as stored, except that the
  payload and the metadata are what the parser makes of the texts written for them (a payload text it refuses
  reads as null, a metadata text it refuses as none).
\<close>

definition reread ::
  "(json \<Rightarrow> (string, string) result) \<Rightarrow> (string \<Rightarrow> json option) \<Rightarrow> 't emergent_message \<Rightarrow> 't emergent_message" where
  "reread to_text parse_json m = m\<lparr>
     msg_payload := (case to_text (msg_payload m) of
         Inl _ \<Rightarrow> msg_payload m
       | Inr text \<Rightarrow> (case parse_json text of Some v \<Rightarrow> v | None \<Rightarrow> JNull)),
     msg_metadata := Option.bind (msg_metadata m) (\<lambda>v. case to_text v of Inl _ \<Rightarrow> None | Inr text \<Rightarrow> parse_json text) \<rparr>"

text \<open>The parser reads back the text written for this value.\<close>

definition reads_back :: "(json \<Rightarrow> (string, string) result) \<Rightarrow> (string \<Rightarrow> json option) \<Rightarrow> json \<Rightarrow> bool" where
  "reads_back to_text parse_json v \<longleftrightarrow> (case to_text v of Inl _ \<Rightarrow> True | Inr text \<Rightarrow> parse_json text = Some v)"

lemma row_reread:
  assumes ids: "\<And>t. from_str (to_str t) = Ok t"
    and ok: "message_ok prefix_of m" and row: "message_to_row to_str to_text m = Ok row"
  shows "row_to_message from_str prefix_of parse_json row = Ok (reread to_text parse_json m)"
proof -
  have i: "MessageId_parse from_str prefix_of (to_str (MessageId_inner (msg_id m))) = Ok (msg_id m)"
    and cor: "msg_correlation_id m = Some c \<Longrightarrow> CorrelationId_parse from_str prefix_of (to_str (CorrelationId_inner c)) = Ok c"
    and cau: "msg_causation_id m = Some k \<Longrightarrow> CausationId_parse from_str prefix_of (to_str (CausationId_inner k)) = Ok k"
    and t: "MessageType_new (msg_type m) = Ok (msg_type m)"
    and s: "PrimitiveName_new (msg_source m) = Ok (msg_source m)"
    for c k
    using message_ok_parses [OF ids ok] by auto
  obtain payload meta ts where r: "to_text (msg_payload m) = Ok payload"
      "transpose_opt (map_option to_text (msg_metadata m)) = Ok meta"
      "i64_of_u64 (as_millis (msg_timestamp_ms m)) = Some ts"
    using row by (auto simp: message_to_row_def split: sum.splits option.splits)
  have m: "Option.bind meta parse_json = msg_metadata (reread to_text parse_json m)"
    using r(2) by (auto simp: transpose_opt_Ok_iff reread_def)
  show ?thesis
    using row r m cor cau
    by (auto simp: message_to_row_def row_to_message_def i t s u64_of_i64_of_u64 reread_def
        option.map_comp comp_def transpose_opt_map [where g = id] option.map_id split: option.splits)
qed

lemma reread_same:
  assumes "message_to_row to_str to_text m = Ok row" "reads_back to_text parse_json (msg_payload m)"
    and "\<And>v. msg_metadata m = Some v \<Longrightarrow> reads_back to_text parse_json v"
  shows "reread to_text parse_json m = m"
  using assms
  by (cases "msg_metadata m")
     (auto simp: reread_def reads_back_def message_to_row_def transpose_opt_def split: sum.splits option.splits)

lemma row_roundtrip:
  assumes ids: "\<And>t. from_str (to_str t) = Ok t"
    and rd: "\<And>v s. to_text v = Ok s \<Longrightarrow> parse_json s = Some v"
    and ok: "message_ok prefix_of m" and row: "message_to_row to_str to_text m = Ok row"
  shows "row_to_message from_str prefix_of parse_json row = Ok m"
  using row_reread [OF ids ok row] reread_same [OF row] rd by (auto simp: reads_back_def split: sum.splits)

section \<open>What SQL promises\<close>

text \<open>
  \<open>rows\<close> is the table as a list. \<^verbatim>\<open>INSERT OR REPLACE\<close> on the primary key drops the row with the
  same id and adds the new one, \<^verbatim>\<open>SELECT .. WHERE .. ORDER BY timestamp_ms ASC\<close> gives the rows that
  satisfy the condition in timestamp order, \<^verbatim>\<open>DELETE\<close> drops the rows below the bound and reports how
  many, a checkpoint changes no row. Any of them may fail instead.
\<close>

locale sql_events =
  fixes ops :: "'d sql_ops" and rows :: "'d \<Rightarrow> event_row list"
  assumes replace_rows: "sql_replace ops r d = Ok d' \<Longrightarrow>
      mset (rows d') = {#x \<in># mset (rows d). ev_id x \<noteq> ev_id r#} + {#r#}"
    and select_rows: "sql_select ops w d = Ok rs \<Longrightarrow> mset rs = {#x \<in># mset (rows d). row_satisfies w x#}"
    and select_sorted: "sql_select ops w d = Ok rs \<Longrightarrow> sorted (map ev_timestamp_ms rs)"
    and count_rows: "sql_count ops d = Ok c \<Longrightarrow> c = int (length (rows d))"
    and delete_rows: "sql_delete_below ops t d = Ok (n, d') \<Longrightarrow>
      mset (rows d') = {#x \<in># mset (rows d). t \<le> ev_timestamp_ms x#}"
    and delete_number: "sql_delete_below ops t d = Ok (n, d') \<Longrightarrow>
      n = size {#x \<in># mset (rows d). ev_timestamp_ms x < t#}"
    and checkpoint_rows: "sql_checkpoint ops d = Ok d' \<Longrightarrow> mset (rows d') = mset (rows d)"
begin

text \<open>A table every row of which can be read, with \<open>good\<close> the rows that can.\<close>

definition readable :: "(event_row \<Rightarrow> (sqlite_error, 'm) result) \<Rightarrow> 'd sqlite_store \<Rightarrow> bool" where
  "readable read_row st = (\<forall>r \<in> set (rows (sq_conn st)). is_ok (read_row r))"

lemma select_set: "sql_select ops w d = Ok rs \<Longrightarrow> set rs = {x \<in> set (rows d). row_satisfies w x}"
  using arg_cong [OF select_rows, of w d rs set_mset] by simp

lemma replace_set: "sql_replace ops r d = Ok d' \<Longrightarrow> set (rows d') = {x \<in> set (rows d). ev_id x \<noteq> ev_id r} \<union> {r}"
  using arg_cong [OF replace_rows, of r d d' set_mset] by simp

lemma delete_set: "sql_delete_below ops t d = Ok (n, d') \<Longrightarrow> set (rows d') = {x \<in> set (rows d). t \<le> ev_timestamp_ms x}"
  using arg_cong [OF delete_rows, of t d n d' set_mset] by simp

lemma checkpoint_set: "sql_checkpoint ops d = Ok d' \<Longrightarrow> set (rows d') = set (rows d)"
  using arg_cong [OF checkpoint_rows, of d d' set_mset] by simp

lemma delete_complement:
  "sql_delete_below ops t d = Ok (n, d') \<Longrightarrow> length (rows d') + n = length (rows d)"
proof -
  assume a: "sql_delete_below ops t d = Ok (n, d')"
  have "size (mset (rows d)) =
      size {#x \<in># mset (rows d). ev_timestamp_ms x < t#} + size {#x \<in># mset (rows d). \<not> ev_timestamp_ms x < t#}"
    by (metis multiset_partition size_union)
  with a show ?thesis
    using arg_cong [OF delete_rows [OF a], of size] by (simp add: delete_number [OF a] not_less)
qed

end

section \<open>A table of rows\<close>

definition list_ops :: "event_row list sql_ops" where
  "list_ops =
     \<lparr> sql_replace = (\<lambda>r d. Ok (filter (\<lambda>x. ev_id x \<noteq> ev_id r) d @ [r])),
       sql_select = (\<lambda>w d. Ok (sort_key ev_timestamp_ms (filter (row_satisfies w) d))),
       sql_count = (\<lambda>d. Ok (int (length d))),
       sql_delete_below = (\<lambda>t d. Ok (length (filter (\<lambda>x. ev_timestamp_ms x < t) d),
          filter (\<lambda>x. t \<le> ev_timestamp_ms x) d)),
       sql_checkpoint = (\<lambda>d. Ok d) \<rparr>"

interpretation list_table: sql_events list_ops "\<lambda>d. d"
proof unfold_locales
  show "sql_delete_below list_ops t d = Ok (n, d') \<Longrightarrow> n = size {#x \<in># mset d. ev_timestamp_ms x < t#}"
    for t d n d' by (auto simp: list_ops_def simp flip: size_mset mset_filter)
qed (auto simp: list_ops_def)

section \<open>Lemmas on the log\<close>

text \<open>All the text accepted for one file: what is on disk, then what is buffered for it.\<close>

definition log_text :: "json_log \<Rightarrow> string \<Rightarrow> string" where
  "log_text st path = file_text st path @
     (case jl_writer st of Some (p, buf) \<Rightarrow> if p = path then buf else [] | None \<Rightarrow> [])"

definition json_log_ok :: "json_log \<Rightarrow> bool" where
  "json_log_ok st = (map_option fst (jl_writer st) = map_option (log_path st) (jl_current_date st))"

lemma flush_writer_frame [simp]:
  "jl_log_dir (flush_writer st) = jl_log_dir st"
  "jl_current_date (flush_writer st) = jl_current_date st"
  "log_path (flush_writer st) = log_path st"
  "map_option fst (jl_writer (flush_writer st)) = map_option fst (jl_writer st)"
  "json_log_ok (flush_writer st) = json_log_ok st"
  by (auto simp: flush_writer_def log_path_def [abs_def] json_log_ok_def split: option.splits)

lemma flush_writer_text: "log_text (flush_writer st) path = log_text st path"
  by (auto simp: flush_writer_def log_text_def file_text_def split: option.splits)

lemma flush_writer_drained: "file_text (flush_writer st) path = log_text st path"
  by (auto simp: flush_writer_def log_text_def file_text_def split: option.splits)

lemma log_text_opened:
  "log_text (s\<lparr> jl_files := (jl_files s)(p \<mapsto> file_text s p), jl_writer := Some (p, []),
     jl_current_date := d \<rparr>) q = file_text s q"
  by (simp add: log_text_def file_text_def)

lemma get_writer_text: "log_text (fst (get_writer today io st)) path = log_text st path"
  by (simp add: get_writer_def Let_def flush_writer_text
      log_text_opened [where s = "flush_writer st", unfolded flush_writer_drained] flush_writer_drained
      split: sum.split)

lemma get_writer_ok: "json_log_ok st \<Longrightarrow> json_log_ok (fst (get_writer today io st))"
  by (auto simp: get_writer_def Let_def json_log_ok_def log_path_def [abs_def] flush_writer_def
      split: sum.splits option.splits)

lemma get_writer_current:
  "json_log_ok st \<Longrightarrow> snd (get_writer today io st) = Ok () \<Longrightarrow>
   map_option fst (jl_writer (fst (get_writer today io st))) = Some (log_path st today)"
  by (auto simp: get_writer_def Let_def json_log_ok_def log_path_def split: sum.splits if_splits)

lemma json_log_store_text:
  assumes "json_log_ok st" "json_log_store today entry io st = (st', r)"
  obtains k where "r = Ok () \<Longrightarrow> k = length entry"
    "\<And>path. log_text st' path = log_text st path @ (if path = log_path st today then take k entry else [])"
proof (cases "snd (get_writer today io st)")
  case (Inl e)
  then have "st' = fst (get_writer today io st)" "r \<noteq> Ok ()"
    using assms(2) by (auto simp: json_log_store_def split: prod.splits)
  then show ?thesis
    by (intro that [of 0]) (auto simp: get_writer_text)
next
  case (Inr u)
  define g where "g = fst (get_writer today io st)"
  have e: "get_writer today io st = (g, Ok ())"
    using Inr by (simp add: g_def prod_eq_iff)
  obtain buf where w: "jl_writer g = Some (log_path st today, buf)"
    using get_writer_current [OF assms(1), of today io] e by auto
  define k where "k = (case io_write io of None \<Rightarrow> length entry | Some (k, _) \<Rightarrow> k)"
  have st': "st' = g\<lparr>jl_writer := Some (log_path st today, buf @ take k entry)\<rparr>"
    and r: "r = Ok () \<Longrightarrow> k = length entry"
    using assms(2) e w by (auto simp: json_log_store_def k_def split: option.splits)
  have "log_text st' path = log_text g path @ (if path = log_path st today then take k entry else [])" for path
    by (auto simp: st' log_text_def file_text_def w)
  then show ?thesis
    using get_writer_text [of today io st] r by (intro that [of k]) (simp_all add: g_def)
qed

lemma json_log_store_ok:
  assumes "json_log_ok st"
  shows "json_log_ok (fst (json_log_store today entry io st))"
  using get_writer_ok [OF assms, of today io]
  by (auto simp: json_log_store_def json_log_ok_def log_path_def [abs_def] split: prod.splits sum.splits option.splits)

section \<open>Properties\<close>

text \<open>
  Appending to the JSON log never loses or reorders text: whatever the outcome, the entry, or
  the part of it the writer took before an I/O error, goes to the end of the file of the day it is
  logged on, every other file keeps its text (the rotation to a new day included), a success means
  the whole entry went in, and the writer still belongs to the recorded day.
\<close>

theorem json_log_appends:
  assumes "json_log_ok st" "json_log_store today entry io st = (st', r)"
  shows "json_log_ok st' \<and>
    (\<exists>k. (r = Ok () \<longrightarrow> k = length entry) \<and>
       (\<forall>path. log_text st' path =
          log_text st path @ (if path = log_path st today then take k entry else [])))"
proof -
  have "json_log_ok st'"
    using json_log_store_ok [OF assms(1), of today entry io] assms(2) by simp
  then show ?thesis
    using json_log_store_text [OF assms] by metis
qed

definition sample_log :: json_log where
  "sample_log = \<lparr> jl_log_dir = ''logs'', jl_writer = Some (''logs/events-2026-01-01.jsonl'', ''a''),
     jl_current_date = Some ''2026-01-01'', jl_files = Map.empty,
     jl_writer_poisoned = False, jl_date_poisoned = False \<rparr>"

definition sample_io :: log_io where
  "sample_io = \<lparr> io_flush = Ok (), io_open = Ok (), io_write = None \<rparr>"

theorem json_log_appends_witness:
  "log_text (fst (json_log_store ''2026-01-02'' ''b'' sample_io sample_log)) ''logs/events-2026-01-01.jsonl'' = ''a''
   \<and> log_text (fst (json_log_store ''2026-01-02'' ''b'' sample_io sample_log)) ''logs/events-2026-01-02.jsonl'' = ''b''"
proof -
  obtain st' where s: "json_log_store ''2026-01-02'' ''b'' sample_io sample_log = (st', Ok ())"
    by (simp add: json_log_store_def get_writer_def sample_log_def sample_io_def flush_writer_def Let_def)
  have ok: "json_log_ok sample_log"
    by (simp add: json_log_ok_def sample_log_def log_path_def path_join_def ends_with_def)
  have "log_text st' path = log_text sample_log path
      @ (if path = ''logs/events-2026-01-02.jsonl'' then ''b'' else [])" for path
    using json_log_appends [OF ok s] by (auto simp: log_path_def sample_log_def path_join_def ends_with_def)
  then show ?thesis
    unfolding s by (simp add: log_text_def file_text_def sample_log_def)
qed

text \<open>The rows a store reads back.\<close>

definition table_readable :: "(event_row \<Rightarrow> (sqlite_error, 'm) result) \<Rightarrow> event_row list \<Rightarrow> bool" where
  "table_readable read_row rs = list_all (\<lambda>r. is_ok (read_row r)) rs"

lemma run_query_readable:
  assumes "sql_select ops w (sq_conn st) = Ok rs" "\<not> sq_poisoned st"
    "\<And>r. r \<in> set rs \<Longrightarrow> is_ok (read_row r)"
  shows "run_query read_row ops w st = Ok (map (\<lambda>r. projr (read_row r)) rs)"
proof -
  have "collect_results (map read_row rs) = Ok (map (\<lambda>r. projr (read_row r)) rs)"
    by (rule collect_results_Ok) (rule is_ok_projr [OF assms(3)])
  then show ?thesis
    by (simp add: run_query_def with_conn_def sql_err_def assms)
qed

lemma row_to_message_timestamp:
  "row_to_message from_str prefix_of parse_json r = Ok m \<Longrightarrow> uint (as_millis (msg_timestamp_ms m)) = ev_timestamp_ms r"
  by (auto simp: row_to_message_def res_bind_Ok_iff u64_of_i64_def word_of_int_inverse uint_word_of_int
      split: option.splits if_splits)

lemma row_to_message_type:
  "row_to_message from_str prefix_of parse_json r = Ok m \<Longrightarrow> msg_type m = ev_message_type r"
  by (auto simp: row_to_message_def res_bind_Ok_iff conv_def MessageType_new_Ok_iff split: sum.splits)

lemma stored_row:
  assumes "sqlite_store_event to_str to_text ops m st = Ok st'"
  obtains row where "message_to_row to_str to_text m = Ok row" "\<not> sq_poisoned st'"
    "sql_replace ops row (sq_conn st) = Ok (sq_conn st')"
  using assms that by (auto simp: sqlite_store_event_def with_conn_def res_bind_Ok_iff split: if_splits)

text \<open>
  The SQLite store returns what was stored. Where the table could be read, storing a valid
  message keeps it readable, and then a query by that message's type, unless the database itself
  fails it, succeeds and gives messages of that type only, in timestamp order, the stored message
  among them and equal to what was stored in every field. Assumed of the packages: SQL's meaning of
  the statements, and that identifiers and JSON text are read back as written.
\<close>

theorem stored_event_is_found:
  assumes sql: "sql_events ops rows"
    and ids: "\<And>t. from_str (to_str t) = Ok t"
    and json: "\<And>v s. to_text v = Ok s \<Longrightarrow> parse_json s = Some v"
    and readable: "table_readable (row_to_message from_str prefix_of parse_json) (rows (sq_conn st))"
    and m: "message_ok prefix_of m"
    and store: "sqlite_store_event to_str to_text ops m st = Ok st'"
    and select: "sql_select ops (TypeIs (msg_type m)) (sq_conn st') = Ok rs"
  shows "table_readable (row_to_message from_str prefix_of parse_json) (rows (sq_conn st')) \<and>
    (\<exists>ms. query_by_type (row_to_message from_str prefix_of parse_json) ops (msg_type m) st' = Ok ms
       \<and> m \<in> set ms \<and> list_all (\<lambda>x. msg_type x = msg_type m) ms
       \<and> sorted (map (\<lambda>x. uint (as_millis (msg_timestamp_ms x))) ms))"
proof -
  let ?read = "row_to_message from_str prefix_of parse_json"
  obtain row where row: "message_to_row to_str to_text m = Ok row" and p: "\<not> sq_poisoned st'"
      and rep: "sql_replace ops row (sq_conn st) = Ok (sq_conn st')"
    using store by (rule stored_row)
  have rm: "?read row = Ok m"
    by (rule row_roundtrip [OF ids json m row])
  have rows': "set (rows (sq_conn st')) = {x \<in> set (rows (sq_conn st)). ev_id x \<noteq> ev_id row} \<union> {row}"
    by (rule sql_events.replace_set [OF sql rep])
  have rd: "table_readable ?read (rows (sq_conn st'))"
    using readable rm by (auto simp: table_readable_def list_all_iff rows')
  have rs: "set rs = {x \<in> set (rows (sq_conn st')). ev_message_type x = msg_type m}"
    using sql_events.select_set [OF sql select] by simp
  have good: "is_ok (?read r)" if "r \<in> set rs" for r
    using that rd by (auto simp: rs table_readable_def list_all_iff)
  have q: "query_by_type ?read ops (msg_type m) st' = Ok (map (\<lambda>r. projr (?read r)) rs)"
    unfolding query_by_type_def by (rule run_query_readable [OF select p good])
  have ts: "uint (as_millis (msg_timestamp_ms (projr (?read r)))) = ev_timestamp_ms r"
    and ty: "msg_type (projr (?read r)) = msg_type m" if "r \<in> set rs" for r
    using row_to_message_timestamp [OF is_ok_projr [OF good [OF that]]]
      row_to_message_type [OF is_ok_projr [OF good [OF that]]] that by (simp_all add: rs)
  have "row \<in> set rs"
    using row_to_message_type [OF rm] by (simp add: rs rows')
  then have "m \<in> set (map (\<lambda>r. projr (?read r)) rs)"
    using rm by force
  moreover have "map (\<lambda>x. uint (as_millis (msg_timestamp_ms x))) (map (\<lambda>r. projr (?read r)) rs) = map ev_timestamp_ms rs"
    using ts by simp
  moreover have "list_all (\<lambda>x. msg_type x = msg_type m) (map (\<lambda>r. projr (?read r)) rs)"
    using ty by (simp add: list_all_iff)
  ultimately show ?thesis
    using rd q sql_events.select_sorted [OF sql select] by metis
qed

definition sample_message :: "string emergent_message" where
  "sample_message = \<lparr> msg_id = MessageId ''msg_1'', msg_type = ''tick'', msg_source = ''timer'',
     msg_correlation_id = None, msg_causation_id = None, msg_timestamp_ms = Timestamp 7,
     msg_payload = JNull, msg_metadata = None \<rparr>"

definition null_text :: "json \<Rightarrow> (string, string) result" where
  "null_text v = (if v = JNull then Ok ''null'' else Err ''unsupported'')"

definition null_parse :: "string \<Rightarrow> json option" where
  "null_parse s = (if s = ''null'' then Some JNull else None)"

definition ok_id :: "string \<Rightarrow> (unit, string) result" where
  "ok_id s = Ok s"

theorem stored_event_is_found_witness:
  "\<exists>st' ms. sqlite_store_event id null_text list_ops sample_message \<lparr>sq_conn = [], sq_poisoned = False\<rparr> = Ok st'
     \<and> query_by_type (row_to_message ok_id (take 3) null_parse) list_ops ''tick'' st' = Ok ms
     \<and> sample_message \<in> set ms"
proof -
  let ?st = "\<lparr>sq_conn = [], sq_poisoned = False\<rparr> :: event_row list sqlite_store"
  obtain st' where s: "sqlite_store_event id null_text list_ops sample_message ?st = Ok st'"
    by (simp add: sqlite_store_event_def with_conn_def message_to_row_def sample_message_def null_text_def
        transpose_opt_def i64_of_u64_def list_ops_def sql_err_def)
  have ok: "message_ok (take 3) sample_message"
    by (code_simp)
  obtain rs where r: "sql_select list_ops (TypeIs (msg_type sample_message)) (sq_conn st') = Ok rs"
    by (simp add: list_ops_def)
  have i: "ok_id (id t) = Ok t" for t
    by (simp add: ok_id_def)
  have j: "null_text v = Ok t \<Longrightarrow> null_parse t = Some v" for v t
    by (auto simp: null_text_def null_parse_def split: if_splits)
  have e: "table_readable (row_to_message ok_id (take 3) null_parse) (sq_conn ?st)"
    by (simp add: table_readable_def)
  show ?thesis
    using stored_event_is_found [OF list_table.sql_events_axioms i j e ok s r] s
    by (auto simp: sample_message_def)
qed

end
