(* ===== verification/Retention.thy ===== *)
theory Retention
  imports Event_Store
begin

text \<open>
  Event retention, after \<^verbatim>\<open>emergent-engine/src/retention.rs\<close>.

  A calendar date of the date library is the number of its day since the Unix epoch. The library's
  own functions are arguments: \<open>parse_date\<close> reads \<^verbatim>\<open>%Y-%m-%d\<close>, \<open>checked_sub_days\<close> subtracts days and
  answers \<open>None\<close> outside the representable range. The file system is an argument too: the listing of
  the log directory, and what removing each path answers.
\<close>

section \<open>Pure decisions\<close>

definition MILLIS_PER_DAY :: u64 where
  "MILLIS_PER_DAY = 24 * 60 * 60 * 1000"

definition LOG_FILE_PREFIX :: string where
  "LOG_FILE_PREFIX = ''events-''"

definition LOG_FILE_SUFFIX :: string where
  "LOG_FILE_SUFFIX = ''.jsonl''"

record prune_report =
  pr_events_deleted :: u64
  pr_files_deleted :: "string list"
  pr_errors :: "string list"

definition prune_report_default :: prune_report where
  "prune_report_default = \<lparr> pr_events_deleted = 0, pr_files_deleted = [], pr_errors = [] \<rparr>"

definition prune_report_is_empty :: "prune_report \<Rightarrow> bool" where
  "prune_report_is_empty r = (pr_events_deleted r = 0 \<and> pr_files_deleted r = [])"

definition is_pruning_enabled :: "u32 \<Rightarrow> bool" where
  "is_pruning_enabled retention_days = (retention_days \<noteq> 0)"

definition sqlite_cutoff_ms :: "u64 \<Rightarrow> u32 \<Rightarrow> u64 option" where
  "sqlite_cutoff_ms now_ms retention_days =
     (if \<not> is_pruning_enabled retention_days then None
      else let window_ms = sat_mul (ucast retention_days) MILLIS_PER_DAY
           in Some (sat_sub now_ms window_ms))"

type_synonym date = int

definition oldest_retained_log_date :: "(date \<Rightarrow> nat \<Rightarrow> date option) \<Rightarrow> date \<Rightarrow> u32 \<Rightarrow> date option" where
  "oldest_retained_log_date checked_sub_days today retention_days =
     (if \<not> is_pruning_enabled retention_days then None
      else checked_sub_days today (unat retention_days))"

definition parse_log_file_date :: "(string \<Rightarrow> date option) \<Rightarrow> string \<Rightarrow> date option" where
  "parse_log_file_date parse_date file_name =
     do { rest \<leftarrow> strip_prefix LOG_FILE_PREFIX file_name;
          d \<leftarrow> strip_suffix LOG_FILE_SUFFIX rest;
          parse_date d }"

definition expired_log_files ::
  "(string \<Rightarrow> date option) \<Rightarrow> (date \<Rightarrow> nat \<Rightarrow> date option) \<Rightarrow> string list \<Rightarrow> date \<Rightarrow> u32 \<Rightarrow> string list" where
  "expired_log_files parse_date checked_sub_days file_names today retention_days =
     (case oldest_retained_log_date checked_sub_days today retention_days of
        None \<Rightarrow> []
      | Some oldest_retained \<Rightarrow>
          filter (\<lambda>name. case parse_log_file_date parse_date name of
              None \<Rightarrow> False | Some d \<Rightarrow> d < oldest_retained) file_names)"

section \<open>The prune pass\<close>

text \<open>
  What reading the directory answers: an error (and whether it is \<^verbatim>\<open>NotFound\<close>), or the entries,
  each a name or an error.
\<close>

type_synonym dir_listing = "(bool \<times> string, (string, string) result list) result"

definition prune_entry :: "(string \<Rightarrow> (string, unit) result) \<Rightarrow> string \<Rightarrow> prune_report \<Rightarrow> string \<Rightarrow> prune_report" where
  "prune_entry remove_file log_dir report name =
     (let path = path_join log_dir name
      in case remove_file path of
           Inr _ \<Rightarrow> report\<lparr> pr_files_deleted := pr_files_deleted report @ [path] \<rparr>
         | Inl e \<Rightarrow> report\<lparr> pr_errors := pr_errors report @ [''Deleting '' @ path @ '' failed: '' @ e] \<rparr>)"

definition prune_log_dir ::
  "(string \<Rightarrow> date option) \<Rightarrow> (date \<Rightarrow> nat \<Rightarrow> date option) \<Rightarrow> (string \<Rightarrow> (string, unit) result)
     \<Rightarrow> dir_listing \<Rightarrow> string \<Rightarrow> date \<Rightarrow> u32 \<Rightarrow> prune_report \<Rightarrow> prune_report" where
  "prune_log_dir parse_date checked_sub_days remove_file listing log_dir today retention_days report =
     (case listing of
        Inl (not_found, e) \<Rightarrow>
          if not_found then report
          else report\<lparr> pr_errors := pr_errors report
                 @ [''Reading log directory '' @ log_dir @ '' failed: '' @ e] \<rparr>
      | Inr entries \<Rightarrow>
          let names = List.map_filter (\<lambda>en. case en of Inr n \<Rightarrow> Some n | Inl _ \<Rightarrow> None) entries;
              failures = List.map_filter (\<lambda>en. case en of
                  Inl e \<Rightarrow> Some (''Reading a log directory entry failed: '' @ e) | Inr _ \<Rightarrow> None) entries;
              report = report\<lparr> pr_errors := pr_errors report @ failures \<rparr>
          in foldl (prune_entry remove_file log_dir) report
               (expired_log_files parse_date checked_sub_days names today retention_days))"

text \<open>
  \<open>now\<close> is the clock in milliseconds since the epoch, an \<^verbatim>\<open>i64\<close>; \<open>show_error\<close> renders a store error.
\<close>

definition prune ::
  "(event_store_error \<Rightarrow> string) \<Rightarrow> (string \<Rightarrow> date option) \<Rightarrow> (date \<Rightarrow> nat \<Rightarrow> date option)
     \<Rightarrow> (string \<Rightarrow> (string, unit) result) \<Rightarrow> dir_listing \<Rightarrow> 'd sql_ops \<Rightarrow> 'd sqlite_store option
     \<Rightarrow> string \<Rightarrow> u32 \<Rightarrow> int \<Rightarrow> prune_report \<times> 'd sqlite_store option" where
  "prune show_error parse_date checked_sub_days remove_file listing ops sqlite log_dir retention_days now =
     (let report = prune_report_default in
      if \<not> is_pruning_enabled retention_days then (report, sqlite)
      else
        let now_ms = (case u64_of_i64 now of Some w \<Rightarrow> w | None \<Rightarrow> 0);
            (report, sqlite) =
              (case (sqlite, sqlite_cutoff_ms now_ms retention_days) of
                 (Some store, Some cutoff_ms) \<Rightarrow>
                   (case delete_before ops cutoff_ms store of
                      Inr (deleted, store') \<Rightarrow> (report\<lparr> pr_events_deleted := deleted \<rparr>, Some store')
                    | Inl e \<Rightarrow> (report\<lparr> pr_errors := pr_errors report @ [''SQLite prune failed: '' @ show_error e] \<rparr>,
                        Some store))
               | _ \<Rightarrow> (report, sqlite))
        in (prune_log_dir parse_date checked_sub_days remove_file listing log_dir
              (now div 86400000) retention_days report, sqlite))"

section \<open>Lemmas\<close>

lemma unat_cutoff:
  "sqlite_cutoff_ms now n = Some c \<Longrightarrow> unat c = unat now - unat n * 86400000"
proof -
  have "unat n * 86400000 < (2 ^ 64 :: nat)"
    using unat_bound [of n] by simp
  moreover have "unat (ucast n :: u64) = unat n"
    using unat_bound [of n] by (simp add: unsigned_ucast_eq take_bit_nat_eq_self)
  moreover assume "sqlite_cutoff_ms now n = Some c"
  ultimately show ?thesis
    by (auto simp: sqlite_cutoff_ms_def MILLIS_PER_DAY_def unat_sat_sub unat_sat_mul min_def Let_def
        split: if_splits)
qed

lemma log_file_name_date:
  "parse_log_file_date parse_date name = Some d \<longleftrightarrow>
     (\<exists>s. name = ''events-'' @ s @ ''.jsonl'' \<and> parse_date s = Some d)"
  by (auto simp: parse_log_file_date_def LOG_FILE_PREFIX_def LOG_FILE_SUFFIX_def bind_eq_Some_conv
      strip_prefix_Some_iff strip_suffix_Some_iff)

lemma expired_log_files_iff:
  "name \<in> set (expired_log_files pd sub names today n) \<longleftrightarrow>
     name \<in> set names \<and> is_pruning_enabled n
     \<and> (\<exists>d old. parse_log_file_date pd name = Some d \<and> sub today (unat n) = Some old \<and> d < old)"
  by (cases "sub today (unat n)")
     (auto simp: expired_log_files_def oldest_retained_log_date_def split: option.splits)

lemma prune_entry_files:
  "pr_files_deleted (foldl (prune_entry rm dir) report names) =
     pr_files_deleted report @ map (path_join dir) (filter (\<lambda>n. is_ok (rm (path_join dir n))) names)"
  by (induction names arbitrary: report) (auto simp: prune_entry_def Let_def split: sum.splits)

lemma prune_entry_other:
  "pr_events_deleted (foldl (prune_entry rm dir) report names) = pr_events_deleted report"
  by (induction names arbitrary: report) (auto simp: prune_entry_def Let_def split: sum.splits)

lemma prune_log_dir_files:
  assumes "path \<in> set (pr_files_deleted (prune_log_dir pd sub rm listing dir today n report))"
    "pr_files_deleted report = []"
  obtains names name where "path = path_join dir name" "name \<in> set (expired_log_files pd sub names today n)"
  using assms by (cases listing) (auto simp: prune_log_dir_def Let_def prune_entry_files split: if_splits)

lemma prune_eq:
  obtains "fst (prune se pd sub rm listing ops sqlite dir n now) = prune_report_default"
  | r where "fst (prune se pd sub rm listing ops sqlite dir n now) =
      prune_log_dir pd sub rm listing dir (now div 86400000) n r" "pr_files_deleted r = []"
proof (cases "is_pruning_enabled n")
  case False
  then show ?thesis using that(1) by (simp add: prune_def)
next
  case True
  define p where "p = (case (sqlite, sqlite_cutoff_ms (case u64_of_i64 now of Some w \<Rightarrow> w | None \<Rightarrow> 0) n) of
      (Some store, Some cutoff_ms) \<Rightarrow>
        (case delete_before ops cutoff_ms store of
           Inr (deleted, store') \<Rightarrow> (prune_report_default\<lparr> pr_events_deleted := deleted \<rparr>, Some store')
         | Inl e \<Rightarrow> (prune_report_default\<lparr> pr_errors := pr_errors prune_report_default
             @ [''SQLite prune failed: '' @ se e] \<rparr>, Some store))
    | _ \<Rightarrow> (prune_report_default, sqlite))"
  have "pr_files_deleted (fst p) = []"
    by (simp add: p_def prune_report_default_def split: option.split sum.split prod.split)
  moreover have "fst (prune se pd sub rm listing ops sqlite dir n now) =
      prune_log_dir pd sub rm listing dir (now div 86400000) n (fst p)"
    using True unfolding prune_def p_def by (simp only: Let_def if_False not_True_eq_False split_beta fst_conv)
  ultimately show ?thesis by (intro that(2))
qed

lemma deleted_log_files:
  assumes "path \<in> set (pr_files_deleted (fst (prune se pd sub rm listing ops sqlite dir n now)))"
  obtains s d old where "path = path_join dir (''events-'' @ s @ ''.jsonl'')" "pd s = Some d"
    "sub (now div 86400000) (unat n) = Some old" "d < old"
proof (cases rule: prune_eq [of se pd sub rm listing ops sqlite dir n now])
  case 1
  then show ?thesis using assms by (simp add: prune_report_default_def)
next
  case (2 r)
  obtain names name where n: "path = path_join dir name"
      "name \<in> set (expired_log_files pd sub names (now div 86400000) n)"
    using assms unfolding 2(1) by (rule prune_log_dir_files) (rule 2(2))
  then obtain d old where "parse_log_file_date pd name = Some d"
      "sub (now div 86400000) (unat n) = Some old" "d < old"
    by (auto simp: expired_log_files_iff)
  then show ?thesis using n that by (auto simp: log_file_name_date)
qed

section \<open>Properties\<close>

text \<open>What a pass does to the rows of the store.\<close>

lemma delete_before_rows:
  assumes "sql_events ops rows" "delete_before ops cutoff st = Ok (n, st')"
  shows "mset (rows (sq_conn st')) = {#r \<in># mset (rows (sq_conn st)). uint cutoff \<le> ev_timestamp_ms r#}"
proof -
  obtain t k d' where t: "i64_of_u64 cutoff = Some t" "sql_delete_below ops t (sq_conn st) = Ok (k, d')" "st' = st\<lparr> sq_conn := d' \<rparr>"
    using assms(2) by (auto simp: delete_before_def with_conn_def res_bind_Ok_iff split: if_splits option.splits)
  then have "t = uint cutoff"
    by (simp add: i64_of_u64_def split: if_splits)
  then show ?thesis
    using sql_events.delete_rows [OF assms(1) t(2)] by (simp add: t(3))
qed

lemma prune_log_dir_errors:
  "pr_errors r \<noteq> [] \<Longrightarrow> pr_errors (prune_log_dir parse_date sub rm listing dir today n r) \<noteq> []"
proof -
  have "pr_errors r \<noteq> [] \<Longrightarrow> pr_errors (foldl (prune_entry rm dir) r ns) \<noteq> []" for r ns
    by (induction ns arbitrary: r) (auto simp: prune_entry_def Let_def split: sum.splits)
  then show "pr_errors r \<noteq> [] \<Longrightarrow> pr_errors (prune_log_dir parse_date sub rm listing dir today n r) \<noteq> []"
    by (auto simp: prune_log_dir_def Let_def split: sum.splits option.splits)
qed

lemma prune_rows:
  assumes "sql_events ops rows" "sqlite = Some st"
    and "u64_of_i64 now = Some now_ms" "sqlite_cutoff_ms now_ms retention_days = Some cutoff"
  shows "case prune show_error parse_date checked_sub_days remove_file listing ops sqlite log_dir retention_days now of
       (report, None) \<Rightarrow> False
     | (report, Some st') \<Rightarrow>
         mset (rows (sq_conn st')) = {#r \<in># mset (rows (sq_conn st)). uint cutoff \<le> ev_timestamp_ms r#}
         \<or> (st' = st \<and> pr_errors report \<noteq> [])"
proof -
  have on: "is_pruning_enabled retention_days"
    using assms(4) by (simp add: sqlite_cutoff_ms_def split: if_splits)
  show ?thesis
  proof (cases "delete_before ops cutoff st")
    case (Inl e)
    then show ?thesis
      using prune_log_dir_errors by (simp add: prune_def on assms(2-4) Let_def)
  next
    case (Inr x)
    then show ?thesis
      using delete_before_rows [OF assms(1), of cutoff st] by (cases x) (simp add: prune_def on assms(2-4) Let_def)
  qed
qed

text \<open>
  C40. The two halves of retention agree. A path a prune pass reports as deleted is a file of the log
  directory named \<^verbatim>\<open>events-<date>.jsonl\<close>, and every millisecond of that date is strictly below the
  cutoff the same pass deletes SQLite rows by, for every window and every clock that fits: no log
  file goes while SQLite would still keep an event of its day. Of the rows of the store, if there is one,
  the pass deletes exactly those below that cutoff, or none and reports an error, where the statements mean what SQL
  says. (The date library's subtraction is assumed exact where it answers.)
\<close>

theorem deleted_log_file_is_outside_window:
  assumes sub: "\<And>d k d'. checked_sub_days d k = Some d' \<Longrightarrow> d' = d - int k"
    and now: "u64_of_i64 now = Some now_ms" "sqlite_cutoff_ms now_ms retention_days = Some cutoff"
    and del: "path \<in> set (pr_files_deleted (fst (prune show_error parse_date checked_sub_days remove_file
        listing ops sqlite log_dir retention_days now)))"
  shows "\<exists>s d. path = path_join log_dir (''events-'' @ s @ ''.jsonl'') \<and> parse_date s = Some d
    \<and> (\<forall>t. t div 86400000 = d \<longrightarrow> t < uint cutoff)
    \<and> (\<forall>rows st. sql_events ops rows \<and> sqlite = Some st \<longrightarrow>
        (case prune show_error parse_date checked_sub_days remove_file listing ops sqlite log_dir retention_days now of
           (report, None) \<Rightarrow> False
         | (report, Some st') \<Rightarrow>
             mset (rows (sq_conn st')) = {#r \<in># mset (rows (sq_conn st)). uint cutoff \<le> ev_timestamp_ms r#}
             \<or> (st' = st \<and> pr_errors report \<noteq> [])))"
proof -
  obtain s d old where p: "path = path_join log_dir (''events-'' @ s @ ''.jsonl'')" "parse_date s = Some d"
      and old: "checked_sub_days (now div 86400000) (unat retention_days) = Some old" "d < old"
    using del by (rule deleted_log_files)
  have n: "0 \<le> now" "uint now_ms = now"
    using now(1) by (auto simp: u64_of_i64_def uint_word_of_int split: if_splits)
  then have u: "int (unat now_ms) = now"
    by simp
  have c: "int (unat cutoff) \<ge> now - int (unat retention_days) * 86400000"
    using unat_cutoff [OF now(2)] u by linarith
  have "t < uint cutoff" if t: "t div 86400000 = d" for t
  proof -
    have "t < (d + 1) * 86400000" using t by auto
    also have "(d + 1) * 86400000 \<le> (now div 86400000 - int (unat retention_days)) * 86400000"
      using old(2) sub [OF old(1)] by simp
    also have "\<dots> \<le> now - int (unat retention_days) * 86400000"
      by (simp add: left_diff_distrib)
    finally show ?thesis using c by simp
  qed
  moreover have rs: "case prune show_error parse_date checked_sub_days remove_file listing ops sqlite log_dir retention_days now of
       (report, None) \<Rightarrow> False
     | (report, Some st') \<Rightarrow>
         mset (rows (sq_conn st')) = {#r \<in># mset (rows (sq_conn st)). uint cutoff \<le> ev_timestamp_ms r#}
         \<or> (st' = st \<and> pr_errors report \<noteq> [])" if "sql_events ops rows" "sqlite = Some st" for rows st
    using prune_rows [OF that now] .
  ultimately show ?thesis
    using p by (intro exI [of _ s] exI [of _ d] conjI allI impI; (elim conjE)?; simp only:)
qed

definition sample_parse_date :: "string \<Rightarrow> date option" where
  "sample_parse_date s = (if s = ''1970-01-02'' then Some 1 else if s = ''1970-01-05'' then Some 4 else None)"

definition sample_prune :: "prune_report \<times> event_row list sqlite_store option" where
  "sample_prune = prune (\<lambda>_. []) sample_parse_date (\<lambda>d k. Some (d - int k)) (\<lambda>_. Ok ())
     (Ok [Ok ''events-1970-01-02.jsonl'', Ok ''notes.txt'', Ok ''events-1970-01-05.jsonl''])
     list_ops None ''logs'' 2 (5 * 86400000)"

lemma sample_prune_files: "pr_files_deleted (fst sample_prune) = [''logs/events-1970-01-02.jsonl'']"
  by (simp add: sample_prune_def prune_def prune_log_dir_def is_pruning_enabled_def Let_def
      prune_entry_def expired_log_files_def oldest_retained_log_date_def parse_log_file_date_def
      LOG_FILE_PREFIX_def LOG_FILE_SUFFIX_def strip_prefix_def strip_suffix_def sample_parse_date_def
      prune_report_default_def path_join_def ends_with_def map_filter_simps)

theorem deleted_log_file_is_outside_window_witness:
  "\<exists>s d. ''logs/events-1970-01-02.jsonl'' = path_join ''logs'' (''events-'' @ s @ ''.jsonl'')
     \<and> sample_parse_date s = Some d \<and> (\<forall>t. t div 86400000 = d \<longrightarrow> t < 3 * 86400000)"
proof -
  have a: "u64_of_i64 (5 * 86400000) = Some (5 * 86400000)"
    by (simp add: u64_of_i64_def)
  have b: "sqlite_cutoff_ms (5 * 86400000) 2 = Some (3 * 86400000)"
    by (simp add: sqlite_cutoff_ms_def is_pruning_enabled_def MILLIS_PER_DAY_def sat_mul_def sat_sub_def)
  have d: "''logs/events-1970-01-02.jsonl'' \<in> set (pr_files_deleted (fst sample_prune))"
    by (simp add: sample_prune_files)
  show ?thesis
    using deleted_log_file_is_outside_window [OF _ a b d [unfolded sample_prune_def]] by simp
qed

end
