(* ===== verification/Ipc_Policy.thy ===== *)
theory Ipc_Policy
  imports Declarations Readiness Messages
begin

text \<open>
  The security policy every IPC connection is held to, after
  \<^verbatim>\<open>emergent-engine/src/ipc_policy.rs\<close>.

  The policy object is fixed once built, so its methods are functions of it. What a method does
  besides returning, calls of its observer and reports sent on the rejection channel, is the list
  of \<open>policy_event\<close>s in the order they happen; a method returns that list and its
  \<^verbatim>\<open>Result<(), IpcAccessDenied>\<close>. The envelope and the operation are the IPC library's: of an
  envelope only the JSON payload is read. The observers the engine installs are state machines
  over those events, and \<open>observers_notify\<close> is the fan-out to several of them.
\<close>

section \<open>Names\<close>

definition policy_is_needed :: "enforcement_mode \<Rightarrow> bool \<Rightarrow> bool" where
  "policy_is_needed mode has_observer = (enforcement_mode_is_enforcing mode \<or> has_observer)"

datatype unmanaged_names = Ignored | Claimed

definition unmanaged_names_default :: unmanaged_names where
  "unmanaged_names_default = Ignored"

record effective_name_fields =
  en_name :: "string option"
  en_trusted :: bool

definition effective_name :: "connection_identity \<Rightarrow> string option \<Rightarrow> unmanaged_names \<Rightarrow> effective_name_fields" where
  "effective_name ident claimed_source unmanaged =
     (case ident of
        Primitive name \<Rightarrow> \<lparr> en_name = Some name, en_trusted = True \<rparr>
      | Unmanaged _ _ \<Rightarrow>
          \<lparr> en_name = (case unmanaged of Ignored \<Rightarrow> None | Claimed \<Rightarrow> claimed_source),
            en_trusted = False \<rparr>)"

section \<open>Observers\<close>

datatype policy_event =
    OnAdmitted connection_identity usize
  | OnSubscribed connection_identity "string list"
  | OnViolation connection_identity string
  | Reported rejection_report

text \<open>One observer is a transition of its own state; the fan-out calls each in turn.\<close>

definition observers_notify :: "('s \<Rightarrow> policy_event \<Rightarrow> 's) list \<Rightarrow> 's \<Rightarrow> policy_event \<Rightarrow> 's" where
  "observers_notify observers s ev = foldl (\<lambda>s observer. observer s ev) s observers"

definition no_observer :: "'s \<Rightarrow> policy_event \<Rightarrow> 's" where
  "no_observer s ev = s"

section \<open>The policy\<close>

text \<open>
  \<open>ep_rejections\<close>: no channel, or a channel and whether its receiver is still there.
\<close>

record engine_policy =
  ep_declarations :: declaration_table
  ep_rejections :: "bool option"
  ep_unmanaged_names :: unmanaged_names

definition engine_policy_new :: "declaration_table \<Rightarrow> engine_policy" where
  "engine_policy_new decls =
     \<lparr> ep_declarations = decls, ep_rejections = None, ep_unmanaged_names = unmanaged_names_default \<rparr>"

definition naming_unmanaged :: "engine_policy \<Rightarrow> unmanaged_names \<Rightarrow> engine_policy" where
  "naming_unmanaged p unmanaged = p\<lparr> ep_unmanaged_names := unmanaged \<rparr>"

definition reporting_to :: "engine_policy \<Rightarrow> bool \<Rightarrow> engine_policy" where
  "reporting_to p receiver_alive = p\<lparr> ep_rejections := Some receiver_alive \<rparr>"

definition published_type :: "json \<Rightarrow> string option" where
  "published_type payload =
     do { inner \<leftarrow> json_get ''inner'' payload; t \<leftarrow> json_get ''message_type'' inner; json_as_str t }"

definition claimed_source :: "json \<Rightarrow> string option" where
  "claimed_source payload =
     do { inner \<leftarrow> json_get ''inner'' payload; s \<leftarrow> json_get ''source'' inner; source \<leftarrow> json_as_str s;
          if source \<noteq> [] then Some source else None }"

type_synonym policy_outcome = "policy_event list \<times> (string, unit) result"

text \<open>The \<^verbatim>\<open>?\<close> operator between two steps of a method.\<close>

definition try_then :: "policy_outcome \<Rightarrow> policy_outcome \<Rightarrow> policy_outcome" where
  "try_then a b = (case snd a of Inl e \<Rightarrow> (fst a, Inl e) | Inr _ \<Rightarrow> (fst a @ fst b, snd b))"

definition record_violation ::
    "engine_policy \<Rightarrow> connection_identity \<Rightarrow> checked \<Rightarrow> string option \<Rightarrow> operation \<Rightarrow> string \<Rightarrow> policy_outcome" where
  "record_violation p ident ck name op message_type =
     (let report = rejection_report_new (ck_verdict ck)
            (case name of Some n \<Rightarrow> n | None \<Rightarrow> show_identity ident) op message_type
            (dt_mode (ep_declarations p));
          seen = [OnViolation ident (rr_reason report)]
      in case ck_enforcement ck of
           Accept \<Rightarrow> (seen, Ok ())
         | Warn \<Rightarrow> (seen, Ok ())
         | Reject \<Rightarrow>
             (seen @ (if ep_rejections p = Some True \<and> name \<noteq> None then [Reported report] else []),
              Err (rr_reason report)))"

text \<open>\<^verbatim>\<open>if checked.verdict.is_violation() { self.record(..)?; }\<close>\<close>

definition hold ::
    "engine_policy \<Rightarrow> connection_identity \<Rightarrow> checked \<Rightarrow> string option \<Rightarrow> operation \<Rightarrow> string \<Rightarrow> policy_outcome" where
  "hold p ident ck name op message_type =
     (if is_violation (ck_verdict ck) then record_violation p ident ck name op message_type
      else ([], Ok ()))"

definition authorize_request :: "engine_policy \<Rightarrow> connection_identity \<Rightarrow> json \<Rightarrow> policy_outcome" where
  "authorize_request p ident payload =
     (case published_type payload of
        None \<Rightarrow> ([], Ok ())
      | Some message_type \<Rightarrow>
          let claimed = claimed_source payload;
              effective = effective_name ident claimed (ep_unmanaged_names p);
              source_step =
                (if en_trusted effective
                 then hold p ident (check_source (ep_declarations p) (en_name effective) claimed)
                        (en_name effective) Publish message_type
                 else ([], Ok ()))
          in try_then source_step
               (hold p ident (check (ep_declarations p) (en_name effective) Publish message_type)
                  (en_name effective) Publish message_type))"

fun subscribe_loop :: "engine_policy \<Rightarrow> connection_identity \<Rightarrow> string option \<Rightarrow> string list \<Rightarrow> policy_outcome" where
  "subscribe_loop p ident name [] = ([], Ok ())"
| "subscribe_loop p ident name (topic # topics) =
     try_then (hold p ident (check (ep_declarations p) name Subscribe topic) name Subscribe topic)
       (subscribe_loop p ident name topics)"

definition authorize_subscribe :: "engine_policy \<Rightarrow> connection_identity \<Rightarrow> string list \<Rightarrow> policy_outcome" where
  "authorize_subscribe p ident topics =
     (let effective = effective_name ident None (ep_unmanaged_names p)
      in try_then (subscribe_loop p ident (en_name effective) topics)
           ([OnSubscribed ident topics], Ok ()))"

text \<open>\<open>resolved\<close> is the identity resolver's answer for the connection's peer credentials.\<close>

definition admit ::
    "(string, connection_identity) result \<Rightarrow> usize
      \<Rightarrow> policy_event list \<times> (string, connection_identity) result" where
  "admit resolved connection_id =
     (case resolved of
        Inl denied \<Rightarrow> ([], Err denied)
      | Inr ident \<Rightarrow> ([OnAdmitted ident connection_id], Ok ident))"

datatype ipc_operation =
    Request json
  | SubscribeOp "string list"
  | SubscribePatterns "string list"
  | UnsubscribeOp "string list"
  | UnsubscribePatterns "string list"
  | Discover
  | Deliver string
  | OtherOperation

definition authorize :: "engine_policy \<Rightarrow> connection_identity option \<Rightarrow> ipc_operation \<Rightarrow> policy_outcome" where
  "authorize p ctx op =
     (let ident = (case ctx of Some i \<Rightarrow> i | None \<Rightarrow> Unmanaged None 0)
      in case op of
           Request payload \<Rightarrow> authorize_request p ident payload
         | SubscribeOp topics \<Rightarrow> authorize_subscribe p ident topics
         | SubscribePatterns topics \<Rightarrow> authorize_subscribe p ident topics
         | _ \<Rightarrow> ([], Ok ()))"

section \<open>Lemmas on the steps\<close>

lemma snd_try_then_Ok_iff [simp]: "snd (try_then a b) = Ok () \<longleftrightarrow> snd a = Ok () \<and> snd b = Ok ()"
  by (auto simp: try_then_def split: sum.splits)

lemma try_then_Nil [simp]: "try_then ([], Ok ()) b = b"
  by (simp add: try_then_def)

lemma fst_try_then: "set (fst (try_then a b)) \<subseteq> set (fst a) \<union> set (fst b)"
  by (auto simp: try_then_def split: sum.splits)

lemma hold_Ok_iff: "snd (hold p i ck n op m) = Ok () \<longleftrightarrow> \<not> is_violation (ck_verdict ck) \<or> ck_enforcement ck \<noteq> Reject"
  by (auto simp: hold_def record_violation_def Let_def split: enforcement.splits)

lemma hold_check_Ok_iff:
  "snd (hold p i (check (ep_declarations p) n op m) n' op' m') = Ok () \<longleftrightarrow>
     dt_mode (ep_declarations p) \<noteq> EM_Strict
     \<or> \<not> is_violation (ck_verdict (check (ep_declarations p) n op m))"
  by (auto simp: hold_Ok_iff check_rejects_iff)

lemma hold_check_source_Ok_iff:
  "snd (hold p i (check_source (ep_declarations p) n s) n' op' m') = Ok () \<longleftrightarrow>
     dt_mode (ep_declarations p) \<noteq> EM_Strict
     \<or> \<not> is_violation (ck_verdict (check_source (ep_declarations p) n s))"
  by (auto simp: hold_Ok_iff check_source_rejects_iff)

lemma hold_off:
  "dt_mode (ep_declarations p) = EM_Off \<Longrightarrow> hold p i (check (ep_declarations p) n op m) n' op' m' = ([], Ok ())"
  "dt_mode (ep_declarations p) = EM_Off \<Longrightarrow> hold p i (check_source (ep_declarations p) n s) n' op' m' = ([], Ok ())"
  by (simp_all add: hold_def check_off check_source_off)

lemma subscribe_loop_Ok_iff:
  "snd (subscribe_loop p i n ts) = Ok () \<longleftrightarrow>
     (\<forall>t \<in> set ts. dt_mode (ep_declarations p) \<noteq> EM_Strict
        \<or> \<not> is_violation (ck_verdict (check (ep_declarations p) n Subscribe t)))"
  by (induction ts) (auto simp: hold_check_Ok_iff)

lemma subscribe_loop_off:
  "dt_mode (ep_declarations p) = EM_Off \<Longrightarrow> subscribe_loop p i n ts = ([], Ok ())"
  by (induction ts) (simp_all add: hold_off)

text \<open>A step tells of violations and reports only, never of an authorised subscribe.\<close>

lemma hold_events:
  "e \<in> set (fst (hold p i ck n op m)) \<Longrightarrow> (\<exists>r. e = OnViolation i r) \<or> (\<exists>r. e = Reported r)"
  by (auto simp: hold_def record_violation_def Let_def split: enforcement.splits if_splits)

lemma subscribe_loop_events:
  "e \<in> set (fst (subscribe_loop p i n ts)) \<Longrightarrow> (\<exists>r. e = OnViolation i r) \<or> (\<exists>r. e = Reported r)"
  by (induction ts) (auto dest!: set_mp [OF fst_try_then] dest: hold_events)

lemma on_subscribed_iff_Ok:
  "OnSubscribed i' ts' \<in> set (fst (authorize_subscribe p i ts)) \<longleftrightarrow>
     snd (authorize_subscribe p i ts) = Ok () \<and> i' = i \<and> ts' = ts"
  using subscribe_loop_events [of "OnSubscribed i' ts'" p i]
  by (auto simp: authorize_subscribe_def try_then_def Let_def split: sum.splits)

section \<open>What strict mode lets through\<close>

lemma check_strict_ok_iff:
  "dt_mode t \<noteq> EM_Off \<Longrightarrow>
   \<not> is_violation (ck_verdict (check t n op m)) \<longleftrightarrow>
     is_protocol_topic op m
     \<or> (\<exists>x d. n = Some x \<and> dt_primitives t x = Some d \<and> kind_permits d op \<and> permits (topics_for d op) m)"
  by (auto simp: check_violation_iff)

lemma check_source_violation_iff:
  "dt_mode t \<noteq> EM_Off \<Longrightarrow>
   is_violation (ck_verdict (check_source t i s)) \<longleftrightarrow> (\<exists>n c. i = Some n \<and> s = Some c \<and> c \<noteq> n)"
  by (simp add: check_source_def enforcement_mode_is_enforcing_def Let_def decide_source_violation_iff)

lemma authorize_request_strict_Primitive:
  assumes "dt_mode (ep_declarations p) = EM_Strict" "published_type payload = Some m"
  shows "snd (authorize_request p (Primitive n) payload) = Ok () \<longleftrightarrow>
     (claimed_source payload = None \<or> claimed_source payload = Some n)
     \<and> (is_protocol_topic Publish m
        \<or> (\<exists>d. dt_primitives (ep_declarations p) n = Some d \<and> kind_permits d Publish
              \<and> permits (decl_publishes d) m))"
  using assms
  by (cases "claimed_source payload")
     (auto simp: authorize_request_def effective_name_def Let_def hold_check_Ok_iff
      hold_check_source_Ok_iff check_strict_ok_iff check_source_violation_iff topics_for_def)

lemma authorize_request_strict_Unmanaged:
  assumes "dt_mode (ep_declarations p) = EM_Strict" "published_type payload = Some m"
    "ep_unmanaged_names p = Ignored"
  shows "snd (authorize_request p (Unmanaged pid uid) payload) = Ok () \<longleftrightarrow> is_protocol_topic Publish m"
  using assms
  by (auto simp: authorize_request_def effective_name_def Let_def hold_check_Ok_iff check_strict_ok_iff)

lemma effective_name_unclaimed [simp]:
  "en_name (effective_name i None u) = primitive_name_of i"
  by (cases i; cases u) (auto simp: effective_name_def primitive_name_of_def)

lemma authorize_subscribe_strict:
  assumes "dt_mode (ep_declarations p) = EM_Strict"
  shows "snd (authorize_subscribe p i ts) = Ok () \<longleftrightarrow>
     (\<forall>t \<in> set ts. is_protocol_topic Subscribe t
        \<or> (\<exists>n d. primitive_name_of i = Some n \<and> dt_primitives (ep_declarations p) n = Some d
              \<and> kind_permits d Subscribe \<and> permits (decl_subscribes d) t))"
  using assms
  by (auto simp: authorize_subscribe_def Let_def subscribe_loop_Ok_iff check_strict_ok_iff topics_for_def)

section \<open>Properties\<close>

text \<open>
  C3. Strict mode holds a managed connection to its configuration. A publish on a connection bound
  to \<open>n\<close> is allowed exactly when the message names no source or \<open>n\<close> itself, and its type is a
  protocol topic or one that \<open>n\<close>, configured as a kind that publishes, declares with a valid topic
  that matches it. Nobody publishes under another primitive's name.
\<close>

theorem strict_publish_iff:
  assumes "dt_mode (ep_declarations p) = EM_Strict" and "published_type payload = Some m"
    and "dt_primitives (ep_declarations p) n = map_option (\<lambda>(k, pubs, subs). declarations_new k pubs subs) decl"
  shows "snd (authorize p (Some (Primitive n)) (Request payload)) = Ok () \<longleftrightarrow>
     (claimed_source payload = None \<or> claimed_source payload = Some n)
     \<and> (is_protocol_topic Publish m
        \<or> (\<exists>k pubs subs. decl = Some (k, pubs, subs) \<and> k \<noteq> Sink
              \<and> (\<exists>t \<in> set pubs. is_ok (classify_topic t) \<and> topic_matches t m)))"
proof -
  have "(\<exists>d. dt_primitives (ep_declarations p) n = Some d \<and> kind_permits d Publish \<and> permits (decl_publishes d) m)
    \<longleftrightarrow> (\<exists>k pubs subs. decl = Some (k, pubs, subs) \<and> k \<noteq> Sink
              \<and> (\<exists>t \<in> set pubs. is_ok (classify_topic t) \<and> topic_matches t m))"
    by (cases decl) (auto simp: assms(3) declarations_new_def kind_permits_def topic_set_new_permits topics.covers_def)
  then show ?thesis
    using authorize_request_strict_Primitive [OF assms(1,2), of n] by (simp add: authorize_def)
qed

definition sample_policy :: "enforcement_mode \<Rightarrow> engine_policy" where
  "sample_policy mode = engine_policy_new (declaration_table_new mode
     [(''timer'', declarations_new Source [''timer.*''] []),
      (''log'', declarations_new Sink [] [''timer.tick''])])"

definition sample_publish :: "string \<Rightarrow> string \<Rightarrow> json" where
  "sample_publish source mt =
     JObject [(''inner'', JObject [(''source'', JString source), (''message_type'', JString mt)])]"

theorem strict_publish_iff_witness:
  "snd (authorize (sample_policy EM_Strict) (Some (Primitive ''timer'')) (Request (sample_publish ''timer'' ''timer.tick''))) = Ok ()
   \<and> snd (authorize (sample_policy EM_Strict) (Some (Primitive ''timer'')) (Request (sample_publish ''log'' ''timer.tick''))) \<noteq> Ok ()"
proof -
  have m: "dt_mode (ep_declarations (sample_policy EM_Strict)) = EM_Strict"
    by (simp add: sample_policy_def engine_policy_new_def)
  have t: "published_type (sample_publish s ''timer.tick'') = Some ''timer.tick''"
    and c: "claimed_source (sample_publish s ''timer.tick'') = (if s = [] then None else Some s)" for s
    by (simp_all add: published_type_def claimed_source_def sample_publish_def)
  have d: "dt_primitives (ep_declarations (sample_policy EM_Strict)) ''timer'' =
      map_option (\<lambda>(k, pubs, subs). declarations_new k pubs subs) (Some (Source, [''timer.*''], []))"
    by (simp add: sample_policy_def engine_policy_new_def dt_primitives_new)
  show ?thesis
    unfolding strict_publish_iff [OF m t d]
    by (simp add: c classify_topic_def topic_matches_def pattern_prefix_def strip_suffix_def strip_prefix_def
        MAX_PATTERN_LEN_def)
qed

text \<open>
  C37. Strict mode subscribes a connection to nothing beyond its configuration. A batch of topics, as
  exact topics or as patterns, is allowed exactly when each is a protocol topic or one the engine's
  own name for the connection declares; a connection the engine has no name for gets the protocol
  topics only, whether or not unmanaged names are taken as claimed. The startup observer hears of a
  subscribe exactly when the whole batch was allowed.
\<close>

theorem strict_subscribe_iff:
  assumes "dt_mode (ep_declarations p) = EM_Strict" and "op \<in> {SubscribeOp ts, SubscribePatterns ts}"
  shows "(snd (authorize p (Some i) op) = Ok () \<longleftrightarrow>
      list_all (\<lambda>t. is_protocol_topic Subscribe t
        \<or> (\<exists>n d. primitive_name_of i = Some n \<and> dt_primitives (ep_declarations p) n = Some d
              \<and> kind_permits d Subscribe \<and> permits (decl_subscribes d) t)) ts)
    \<and> ((\<exists>i' ts'. OnSubscribed i' ts' \<in> set (fst (authorize p (Some i) op))) \<longleftrightarrow>
        snd (authorize p (Some i) op) = Ok ())"
proof -
  have "authorize p (Some i) op = authorize_subscribe p i ts"
    using assms(2) by (auto simp: authorize_def)
  then show ?thesis
    using authorize_subscribe_strict [OF assms(1)] on_subscribed_iff_Ok by (auto simp: list_all_iff)
qed

theorem strict_subscribe_iff_witness:
  "snd (authorize (sample_policy EM_Strict) (Some (Unmanaged (Some 7) 0)) (SubscribeOp [''timer.tick''])) \<noteq> Ok ()
   \<and> snd (authorize (sample_policy EM_Strict) (Some (Primitive ''log'')) (SubscribeOp [''timer.tick''])) = Ok ()"
proof -
  have m: "dt_mode (ep_declarations (sample_policy EM_Strict)) = EM_Strict"
    by (simp add: sample_policy_def engine_policy_new_def)
  have d: "dt_primitives (ep_declarations (sample_policy EM_Strict)) ''log'' =
      Some (declarations_new Sink [] [''timer.tick''])"
    by (simp add: sample_policy_def engine_policy_new_def dt_primitives_new)
  have p: "\<not> is_protocol_topic Subscribe ''timer.tick''"
    by code_simp
  have t: "permits (topic_set_new [''timer.tick'']) ''timer.tick''"
    by code_simp
  have o: "SubscribeOp [''timer.tick''] \<in> {SubscribeOp [''timer.tick''], SubscribePatterns [''timer.tick'']}"
    by simp
  show ?thesis
    using strict_subscribe_iff [OF m o, of "Unmanaged (Some 7) 0"] strict_subscribe_iff [OF m o, of "Primitive ''log''"]
    by (simp add: primitive_name_of_def d p t declarations_new_def kind_permits_def)
qed

text \<open>
  Strict mode leaves an unmanaged connection, under the default that ignores the names it writes
  for itself, the protocol topics and nothing else, whatever source its messages claim; requests
  that carry no Emergent message type pass untouched.
\<close>

theorem strict_unmanaged_publish_iff:
  assumes "dt_mode (ep_declarations p) = EM_Strict" and "ep_unmanaged_names p = unmanaged_names_default"
    and "ctx \<in> {None, Some (Unmanaged pid uid)}"
  shows "snd (authorize p ctx (Request payload)) = Ok () \<longleftrightarrow>
     (case published_type payload of None \<Rightarrow> True | Some m \<Rightarrow> is_protocol_topic Publish m)"
proof (cases "published_type payload")
  case None
  then show ?thesis by (simp add: authorize_def authorize_request_def)
next
  case (Some m)
  have "ep_unmanaged_names p = Ignored"
    using assms(2) by (simp add: unmanaged_names_default_def)
  then show ?thesis
    using assms(3) Some authorize_request_strict_Unmanaged [OF assms(1) Some] by (auto simp: authorize_def)
qed

theorem strict_unmanaged_publish_iff_witness:
  "snd (authorize (sample_policy EM_Strict) None (Request (sample_publish ''timer'' ''timer.tick''))) \<noteq> Ok ()"
proof -
  have m: "dt_mode (ep_declarations (sample_policy EM_Strict)) = EM_Strict"
    "ep_unmanaged_names (sample_policy EM_Strict) = unmanaged_names_default"
    by (simp_all add: sample_policy_def engine_policy_new_def)
  have p: "\<not> is_protocol_topic Publish ''timer.tick''"
    by code_simp
  show ?thesis
    using strict_unmanaged_publish_iff [OF m, of None None 0 "sample_publish ''timer'' ''timer.tick''"]
    by (simp add: published_type_def sample_publish_def p)
qed

text \<open>A step that does not reject returns normally and reports nothing.\<close>

definition lenient :: "policy_outcome \<Rightarrow> bool" where
  "lenient a \<longleftrightarrow> snd a = Ok () \<and> (\<forall>r. Reported r \<notin> set (fst a))"

lemma lenient_simps [simp]: "lenient ([], Ok ())" "lenient ([OnSubscribed i ts], Ok ())"
  by (simp_all add: lenient_def)

lemma lenient_try_then: "lenient a \<Longrightarrow> lenient b \<Longrightarrow> lenient (try_then a b)"
  by (auto simp: lenient_def try_then_def)

lemma lenient_hold:
  "dt_mode (ep_declarations p) \<noteq> EM_Strict \<Longrightarrow> lenient (hold p i (check (ep_declarations p) n op m) n' op' m')"
  "dt_mode (ep_declarations p) \<noteq> EM_Strict \<Longrightarrow> lenient (hold p i (check_source (ep_declarations p) n s) n' op' m')"
  using check_rejects_iff [of "ep_declarations p"] check_source_rejects_iff [of "ep_declarations p"]
  by (auto simp: lenient_def hold_def record_violation_def Let_def split: enforcement.splits)

lemma lenient_subscribe_loop:
  "dt_mode (ep_declarations p) \<noteq> EM_Strict \<Longrightarrow> lenient (subscribe_loop p i n ts)"
  by (induction ts) (simp_all add: lenient_try_then lenient_hold)

lemma lenient_authorize:
  assumes "dt_mode (ep_declarations p) \<noteq> EM_Strict"
  shows "lenient (authorize p ctx op)"
  using assms
  by (cases op)
     (simp_all add: authorize_def authorize_request_def authorize_subscribe_def Let_def lenient_try_then
       lenient_hold lenient_subscribe_loop split: option.split)

text \<open>
  Only strict mode refuses: with enforcement off or on warn every operation is allowed and no
  rejection is reported, and with it off the policy does nothing at all but tell its observer of
  subscribes.
\<close>

theorem only_strict_refuses:
  assumes "dt_mode (ep_declarations p) \<noteq> EM_Strict"
  shows "snd (authorize p ctx op) = Ok ()
    \<and> (\<forall>r. Reported r \<notin> set (fst (authorize p ctx op)))
    \<and> (dt_mode (ep_declarations p) = EM_Off \<longrightarrow>
        fst (authorize p ctx op) =
          (let i = (case ctx of Some i \<Rightarrow> i | None \<Rightarrow> Unmanaged None 0) in
           case op of SubscribeOp ts \<Rightarrow> [OnSubscribed i ts] | SubscribePatterns ts \<Rightarrow> [OnSubscribed i ts]
             | _ \<Rightarrow> []))"
proof (intro conjI)
  show "snd (authorize p ctx op) = Ok ()" "\<forall>r. Reported r \<notin> set (fst (authorize p ctx op))"
    using lenient_authorize [OF assms, of ctx op] by (simp_all add: lenient_def)
  show "dt_mode (ep_declarations p) = EM_Off \<longrightarrow>
        fst (authorize p ctx op) =
          (let i = (case ctx of Some i \<Rightarrow> i | None \<Rightarrow> Unmanaged None 0) in
           case op of SubscribeOp ts \<Rightarrow> [OnSubscribed i ts] | SubscribePatterns ts \<Rightarrow> [OnSubscribed i ts]
             | _ \<Rightarrow> [])"
    by (auto simp: authorize_def authorize_request_def authorize_subscribe_def Let_def hold_off
        subscribe_loop_off split: ipc_operation.split option.splits)
qed

theorem only_strict_refuses_witness:
  "snd (authorize (sample_policy EM_Warn) (Some (Primitive ''timer'')) (Request (sample_publish ''log'' ''x''))) = Ok ()
   \<and> fst (authorize (sample_policy EM_Off) None (SubscribeOp [''x''])) = [OnSubscribed (Unmanaged None 0) [''x'']]"
proof -
  have "dt_mode (ep_declarations (sample_policy EM_Warn)) \<noteq> EM_Strict"
    "dt_mode (ep_declarations (sample_policy EM_Off)) = EM_Off"
    by (simp_all add: sample_policy_def engine_policy_new_def)
  then show ?thesis
    using only_strict_refuses [of "sample_policy EM_Warn"]
      only_strict_refuses [of "sample_policy EM_Off" None "SubscribeOp [''x'']"] by simp
qed

end
