(* ===== verification/Publish_Watch.thy ===== *)
theory Publish_Watch
  imports Ids "HOL-Library.Sublist"
begin

text \<open>
  What a client learns about its fire-and-forget publishes, after \<^verbatim>\<open>sdks/rust/src/publish_watch.rs\<close>:
  the classification of the engine's reply, the counters, the throttled log of rejections, and the
  watcher with its bounded queue. The calls of the publisher and the turns of the watcher task
  interleave: a turn takes one command off the queue and, for a publish, ends with the reply, between
  which other calls may queue more.

  The engine's replies, the transport errors with their texts, and the times read are inputs. An
  \<^verbatim>\<open>Instant\<close> is a number of nanoseconds. The counters are 64 bit words, as the atomics are.
\<close>

section \<open>Outcomes\<close>

definition WATCH_QUEUE_CAPACITY :: usize where "WATCH_QUEUE_CAPACITY = 1024"

definition REJECTION_LOG_INTERVAL_MS :: u64 where "REJECTION_LOG_INTERVAL_MS = 1000"

datatype publish_outcome = Accepted | Rejected string | Unanswered string

definition rejection_reason :: "string option \<Rightarrow> string option \<Rightarrow> string" where
  "rejection_reason error_code error = (case (error_code, error) of
      (Some code, Some message) \<Rightarrow> code @ '': '' @ message
    | (Some code, None) \<Rightarrow> code
    | (None, Some message) \<Rightarrow> message
    | (None, None) \<Rightarrow> ''engine reported no reason'')"

definition classify_reply :: "bool \<Rightarrow> string option \<Rightarrow> string option \<Rightarrow> publish_outcome" where
  "classify_reply success error_code error =
     (if success then Accepted else Rejected (rejection_reason error_code error))"

definition should_log_rejection :: "u64 option \<Rightarrow> u64 \<Rightarrow> bool" where
  "should_log_rejection elapsed_since_last_ms interval_ms = (case elapsed_since_last_ms of
      None \<Rightarrow> True | Some elapsed \<Rightarrow> interval_ms \<le> elapsed)"

record publish_stats =
  ps_accepted :: u64
  ps_rejected :: u64
  ps_unanswered :: u64

definition publish_stats_default :: publish_stats where
  "publish_stats_default = \<lparr> ps_accepted = 0, ps_rejected = 0, ps_unanswered = 0 \<rparr>"

section \<open>The rejection log\<close>

type_synonym instant = nat

record rejection_log =
  rl_last_logged :: "instant option"
  rl_suppressed :: u64
  rl_last_reason :: string

definition rejection_log_new :: rejection_log where
  "rejection_log_new = \<lparr> rl_last_logged = None, rl_suppressed = 0, rl_last_reason = [] \<rparr>"

text \<open>\<^verbatim>\<open>duration_since\<close> is zero for an earlier instant; \<^verbatim>\<open>as_millis\<close> is cut off at the largest \<^verbatim>\<open>u64\<close>.\<close>

definition elapsed_ms :: "instant \<Rightarrow> instant \<Rightarrow> u64" where
  "elapsed_ms now earlier = (let ms = (now - earlier) div 1000000 in if ms < 2 ^ 64 then of_nat ms else - 1)"

definition admit_rejection :: "rejection_log \<Rightarrow> instant \<Rightarrow> string \<Rightarrow> u64 option \<times> rejection_log" where
  "admit_rejection log now reason =
     (let elapsed = map_option (elapsed_ms now) (rl_last_logged log)
      in if should_log_rejection elapsed REJECTION_LOG_INTERVAL_MS
         then (Some (rl_suppressed log + 1), log\<lparr> rl_suppressed := 0, rl_last_logged := Some now \<rparr>)
         else (None, log\<lparr> rl_suppressed := rl_suppressed log + 1, rl_last_reason := reason \<rparr>))"

definition drain_rejections :: "rejection_log \<Rightarrow> (u64 \<times> string) option \<times> rejection_log" where
  "drain_rejections log =
     (if rl_suppressed log = 0 then (None, log)
      else (Some (rl_suppressed log, rl_last_reason log), log\<lparr> rl_suppressed := 0, rl_last_reason := [] \<rparr>))"

section \<open>The watcher\<close>

datatype ipc_error = ConnectionClosed | IoError string | ConnectionLimitReached usize | OtherIpcError string

definition is_terminal_transport_error :: "ipc_error \<Rightarrow> bool" where
  "is_terminal_transport_error e = (case e of
      ConnectionClosed \<Rightarrow> True | IoError _ \<Rightarrow> True | ConnectionLimitReached _ \<Rightarrow> True | OtherIpcError _ \<Rightarrow> False)"

datatype 'e watch_command = WC_Publish 'e string | WC_Flush nat | WC_Shutdown

datatype log_line =
    RejectedLine string string u64
  | UnansweredLine string string u64
  | HeldLine string u64

text \<open>What the client's request returns: the three fields of a response, or a transport error.\<close>

datatype reply = Response bool "string option" "string option" | Failed ipc_error

record 'e watcher =
  pw_queue :: "'e watch_command list"
  pw_open :: bool
  pw_inflight :: "('e \<times> string) option"
  pw_disconnected :: bool
  pw_counts :: publish_stats
  pw_log :: rejection_log
  pw_lines :: "log_line list"
  pw_written :: "'e list"
  pw_flushed :: "nat list"

definition watcher_spawn :: "'e watcher" where
  "watcher_spawn = \<lparr> pw_queue = [], pw_open = True, pw_inflight = None, pw_disconnected = False,
     pw_counts = publish_stats_default, pw_log = rejection_log_new, pw_lines = [], pw_written = [], pw_flushed = [] \<rparr>"

definition disconnected_error :: string where
  "disconnected_error = ''publish failed: connection closed''"

definition ensure_connected :: "bool \<Rightarrow> 'e watcher \<Rightarrow> (string, unit) result" where
  "ensure_connected client_connected w =
     (if pw_disconnected w \<or> \<not> client_connected then Err disconnected_error else Ok ())"

text \<open>
  \<^verbatim>\<open>publish\<close>: \<open>None\<close> while it waits for room in the queue. The two flags are what the client says of
  its connection before and after the wait.
\<close>

definition watch_publish :: "bool \<Rightarrow> bool \<Rightarrow> 'e \<Rightarrow> string \<Rightarrow> 'e watcher \<Rightarrow> (string, unit) result option \<times> 'e watcher" where
  "watch_publish before after envelope message_type w =
     (case ensure_connected before w of
        Inl e \<Rightarrow> (Some (Err e), w)
      | Inr _ \<Rightarrow>
          if \<not> pw_open w then (Some (Err disconnected_error), w)
          else if length (pw_queue w) \<ge> WATCH_QUEUE_CAPACITY then (None, w)
          else (case ensure_connected after w of
             Inl e \<Rightarrow> (Some (Err e), w)
           | Inr _ \<Rightarrow> (Some (Ok ()), w\<lparr> pw_queue := pw_queue w @ [WC_Publish envelope message_type] \<rparr>)))"

text \<open>Sending waits for room as well, changing nothing meanwhile; to a task that is gone it does nothing.\<close>

definition send_command :: "'e watch_command \<Rightarrow> 'e watcher \<Rightarrow> 'e watcher" where
  "send_command c w =
     (if pw_open w \<and> length (pw_queue w) < WATCH_QUEUE_CAPACITY then w\<lparr> pw_queue := pw_queue w @ [c] \<rparr> else w)"

definition watch_flush :: "nat \<Rightarrow> 'e watcher \<Rightarrow> 'e watcher" where
  "watch_flush k w = send_command (WC_Flush k) w"

definition watch_shutdown :: "'e watcher \<Rightarrow> 'e watcher" where
  "watch_shutdown w = send_command WC_Shutdown w"

definition watch_stats :: "'e watcher \<Rightarrow> publish_stats" where
  "watch_stats w = pw_counts w"

definition report_held_rejections :: "'e watcher \<Rightarrow> 'e watcher" where
  "report_held_rejections w = (case drain_rejections (pw_log w) of
      (Some (held, reason), log) \<Rightarrow> w\<lparr> pw_log := log, pw_lines := pw_lines w @ [HeldLine reason held] \<rparr>
    | (None, log) \<Rightarrow> w\<lparr> pw_log := log \<rparr>)"

definition note_outcome :: "instant \<Rightarrow> string \<Rightarrow> publish_outcome \<Rightarrow> 'e watcher \<Rightarrow> 'e watcher" where
  "note_outcome now message_type outcome w = (case outcome of
      Accepted \<Rightarrow> w\<lparr> pw_counts := (pw_counts w)\<lparr> ps_accepted := ps_accepted (pw_counts w) + 1 \<rparr> \<rparr>
    | Rejected reason \<Rightarrow>
        (let w = w\<lparr> pw_counts := (pw_counts w)\<lparr> ps_rejected := ps_rejected (pw_counts w) + 1 \<rparr> \<rparr>
         in case admit_rejection (pw_log w) now reason of
              (Some stood_for, log) \<Rightarrow>
                w\<lparr> pw_log := log, pw_lines := pw_lines w @ [RejectedLine message_type reason stood_for] \<rparr>
            | (None, log) \<Rightarrow> w\<lparr> pw_log := log \<rparr>)
    | Unanswered detail \<Rightarrow>
        (let w = w\<lparr> pw_counts := (pw_counts w)\<lparr> ps_unanswered := ps_unanswered (pw_counts w) + 1 \<rparr> \<rparr>
         in case admit_rejection (pw_log w) now detail of
              (Some stood_for, log) \<Rightarrow>
                w\<lparr> pw_log := log, pw_lines := pw_lines w @ [UnansweredLine message_type detail stood_for] \<rparr>
            | (None, log) \<Rightarrow> w\<lparr> pw_log := log \<rparr>))"

text \<open>
  The loop of \<^verbatim>\<open>run\<close>, in two parts: taking a command, which writes the frame of a publish unless the
  connection is known to be gone, and the reply to that frame.
\<close>

definition watch_take :: "'e watcher \<Rightarrow> 'e watcher" where
  "watch_take w =
     (if \<not> pw_open w \<or> pw_inflight w \<noteq> None then w
      else case pw_queue w of
        [] \<Rightarrow> w
      | WC_Publish envelope message_type # rest \<Rightarrow>
          w\<lparr> pw_queue := rest, pw_inflight := Some (envelope, message_type),
             pw_written := (if pw_disconnected w then pw_written w else pw_written w @ [envelope]) \<rparr>
      | WC_Flush k # rest \<Rightarrow>
          (let w = report_held_rejections (w\<lparr> pw_queue := rest \<rparr>) in w\<lparr> pw_flushed := pw_flushed w @ [k] \<rparr>)
      | WC_Shutdown # rest \<Rightarrow> report_held_rejections (w\<lparr> pw_queue := [], pw_open := False \<rparr>))"

definition watch_reply :: "(ipc_error \<Rightarrow> string) \<Rightarrow> reply \<Rightarrow> instant \<Rightarrow> 'e watcher \<Rightarrow> 'e watcher" where
  "watch_reply show_ipc answer now w = (case pw_inflight w of
      None \<Rightarrow> w
    | Some (envelope, message_type) \<Rightarrow>
        (let result = (if pw_disconnected w then Failed ConnectionClosed else answer);
             outcome = (case result of
                 Response success code error \<Rightarrow> classify_reply success code error
               | Failed e \<Rightarrow> Unanswered (show_ipc e));
             gone = (case result of Failed e \<Rightarrow> is_terminal_transport_error e | _ \<Rightarrow> False);
             w = note_outcome now message_type outcome
                   (w\<lparr> pw_inflight := None, pw_disconnected := pw_disconnected w \<or> gone \<rparr>)
         in if pw_queue w = [] then report_held_rejections w else w))"

section \<open>Runs of the watcher\<close>

datatype 'e watch_event =
    CallPublish bool bool 'e string
  | CallFlush nat
  | CallShutdown
  | TaskTake
  | TaskReply reply instant

fun publishes :: "'e watch_command list \<Rightarrow> 'e list" where
  "publishes [] = []"
| "publishes (WC_Publish e _ # cs) = e # publishes cs"
| "publishes (WC_Flush _ # cs) = publishes cs"
| "publishes (WC_Shutdown # cs) = publishes cs"

text \<open>
  A run with its history: the frames of the publishes that returned \<^verbatim>\<open>Ok\<close>, and those still queued when
  the task stopped at a shutdown, which go with the queue.
\<close>

record 'e watch_run =
  wr_watcher :: "'e watcher"
  wr_queued :: "'e list"
  wr_dropped :: "'e list"

definition watch_run_start :: "'e watch_run" where
  "watch_run_start = \<lparr> wr_watcher = watcher_spawn, wr_queued = [], wr_dropped = [] \<rparr>"

definition watch_step :: "(ipc_error \<Rightarrow> string) \<Rightarrow> 'e watch_run \<Rightarrow> 'e watch_event \<Rightarrow> 'e watch_run" where
  "watch_step show_ipc r ev = (let w = wr_watcher r in case ev of
      CallPublish before after envelope message_type \<Rightarrow>
        (case watch_publish before after envelope message_type w of
           (answer, w') \<Rightarrow> r\<lparr> wr_watcher := w',
              wr_queued := wr_queued r @ (if answer = Some (Ok ()) then [envelope] else []) \<rparr>)
    | CallFlush k \<Rightarrow> r\<lparr> wr_watcher := watch_flush k w \<rparr>
    | CallShutdown \<Rightarrow> r\<lparr> wr_watcher := watch_shutdown w \<rparr>
    | TaskTake \<Rightarrow> r\<lparr> wr_watcher := watch_take w,
        wr_dropped := wr_dropped r @ (if pw_open w \<and> \<not> pw_open (watch_take w) then publishes (pw_queue w) else []) \<rparr>
    | TaskReply answer now \<Rightarrow> r\<lparr> wr_watcher := watch_reply show_ipc answer now w \<rparr>)"

definition inflight_frames :: "'e watcher \<Rightarrow> 'e list" where
  "inflight_frames w = (case pw_inflight w of None \<Rightarrow> [] | Some (e, _) \<Rightarrow> [e])"

definition answered :: "publish_stats \<Rightarrow> u64" where
  "answered s = ps_accepted s + ps_rejected s + ps_unanswered s"

definition line_count :: "log_line \<Rightarrow> u64" where
  "line_count l = (case l of RejectedLine _ _ n \<Rightarrow> n | UnansweredLine _ _ n \<Rightarrow> n | HeldLine _ n \<Rightarrow> n)"

text \<open>The invariant, in the parts each event is shown to keep.\<close>

definition log_ok :: "'e watcher \<Rightarrow> bool" where
  "log_ok w \<longleftrightarrow>
     sum_list (map line_count (pw_lines w)) + rl_suppressed (pw_log w) = ps_rejected (pw_counts w) + ps_unanswered (pw_counts w)
     \<and> (pw_queue w = [] \<and> pw_inflight w = None \<longrightarrow> rl_suppressed (pw_log w) = 0)"

definition queue_ok :: "'e watcher \<Rightarrow> bool" where
  "queue_ok w \<longleftrightarrow> length (pw_queue w) \<le> WATCH_QUEUE_CAPACITY
     \<and> (\<not> pw_open w \<longrightarrow> pw_queue w = [] \<and> pw_inflight w = None)"

definition account_ok :: "'e watch_run \<Rightarrow> bool" where
  "account_ok r \<longleftrightarrow> (let w = wr_watcher r in
     (pw_open w \<longrightarrow> wr_dropped r = [])
     \<and> (\<exists>done. wr_queued r = done @ inflight_frames w @ publishes (pw_queue w) @ wr_dropped r
          \<and> answered (pw_counts w) = of_nat (length done)
          \<and> subseq (pw_written w) (done @ inflight_frames w)
          \<and> (\<not> pw_disconnected w \<longrightarrow> pw_written w = done @ inflight_frames w)))"

definition watch_ok :: "'e watch_run \<Rightarrow> bool" where
  "watch_ok r \<longleftrightarrow> log_ok (wr_watcher r) \<and> queue_ok (wr_watcher r) \<and> account_ok r"

lemma publishes_append [simp]: "publishes (xs @ ys) = publishes xs @ publishes ys"
  by (induction xs rule: publishes.induct) auto

lemma report_held_frame [simp]:
  "pw_queue (report_held_rejections w) = pw_queue w" "pw_open (report_held_rejections w) = pw_open w"
  "pw_inflight (report_held_rejections w) = pw_inflight w"
  "pw_disconnected (report_held_rejections w) = pw_disconnected w"
  "pw_counts (report_held_rejections w) = pw_counts w" "pw_written (report_held_rejections w) = pw_written w"
  by (simp_all add: report_held_rejections_def drain_rejections_def)

lemma report_held_log:
  "sum_list (map line_count (pw_lines (report_held_rejections w))) = sum_list (map line_count (pw_lines w)) + rl_suppressed (pw_log w)"
  "rl_suppressed (pw_log (report_held_rejections w)) = 0"
  by (simp_all add: report_held_rejections_def drain_rejections_def line_count_def)

lemma note_outcome_frame [simp]:
  "pw_queue (note_outcome now mt oc w) = pw_queue w" "pw_open (note_outcome now mt oc w) = pw_open w"
  "pw_inflight (note_outcome now mt oc w) = pw_inflight w"
  "pw_disconnected (note_outcome now mt oc w) = pw_disconnected w"
  "pw_written (note_outcome now mt oc w) = pw_written w"
  by (auto simp: note_outcome_def admit_rejection_def Let_def split: publish_outcome.split)

lemma note_outcome_counts: "answered (pw_counts (note_outcome now mt oc w)) = answered (pw_counts w) + 1"
  by (auto simp: note_outcome_def admit_rejection_def answered_def Let_def split: publish_outcome.split)

lemma note_outcome_log:
  "sum_list (map line_count (pw_lines (note_outcome now mt oc w))) + rl_suppressed (pw_log (note_outcome now mt oc w))
     - (ps_rejected (pw_counts (note_outcome now mt oc w)) + ps_unanswered (pw_counts (note_outcome now mt oc w)))
   = sum_list (map line_count (pw_lines w)) + rl_suppressed (pw_log w)
     - (ps_rejected (pw_counts w) + ps_unanswered (pw_counts w))"
  by (auto simp: note_outcome_def admit_rejection_def Let_def line_count_def split: publish_outcome.split)

lemma watch_publish_cases:
  obtains (queued) "watch_publish b a e mt w = (Some (Ok ()), w\<lparr> pw_queue := pw_queue w @ [WC_Publish e mt] \<rparr>)"
      "pw_open w" "length (pw_queue w) < WATCH_QUEUE_CAPACITY" "\<not> pw_disconnected w"
  | (refused) r where "watch_publish b a e mt w = (r, w)" "r \<noteq> Some (Ok ())"
proof (cases "\<not> pw_disconnected w \<and> b \<and> a \<and> pw_open w \<and> length (pw_queue w) < WATCH_QUEUE_CAPACITY")
  case True
  then show ?thesis
    by (intro queued) (auto simp: watch_publish_def ensure_connected_def)
next
  case False
  then show ?thesis
    by (intro refused [of "fst (watch_publish b a e mt w)"]) (auto simp: watch_publish_def ensure_connected_def)
qed

lemma send_command_cases:
  obtains (sent) "send_command c w = w\<lparr> pw_queue := pw_queue w @ [c] \<rparr>" "pw_open w" "length (pw_queue w) < WATCH_QUEUE_CAPACITY"
  | (waiting) "send_command c w = w"
proof (cases "pw_open w \<and> length (pw_queue w) < WATCH_QUEUE_CAPACITY")
  case True
  then show ?thesis
    by (intro sent) (auto simp: send_command_def)
next
  case False
  then show ?thesis
    by (intro waiting) (auto simp: send_command_def)
qed

lemma watch_take_cases:
  obtains (idle) "watch_take w = w" "pw_open (watch_take w) = pw_open w"
  | (frame) e mt rest where "pw_open w" "pw_inflight w = None" "pw_queue w = WC_Publish e mt # rest"
      "watch_take w = w\<lparr> pw_queue := rest, pw_inflight := Some (e, mt),
         pw_written := (if pw_disconnected w then pw_written w else pw_written w @ [e]) \<rparr>"
  | (flush) k rest where "pw_open w" "pw_inflight w = None" "pw_queue w = WC_Flush k # rest"
      "watch_take w = (report_held_rejections (w\<lparr> pw_queue := rest \<rparr>))\<lparr>
         pw_flushed := pw_flushed (report_held_rejections (w\<lparr> pw_queue := rest \<rparr>)) @ [k] \<rparr>"
  | (stop) rest where "pw_open w" "pw_inflight w = None" "pw_queue w = WC_Shutdown # rest"
      "watch_take w = report_held_rejections (w\<lparr> pw_queue := [], pw_open := False \<rparr>)"
proof (cases "\<not> pw_open w \<or> pw_inflight w \<noteq> None")
  case True
  then show ?thesis
    by (intro idle) (auto simp: watch_take_def)
next
  case False
  then have a: "pw_open w" "pw_inflight w = None"
    by blast+
  show ?thesis
  proof (cases "pw_queue w")
    case Nil
    then show ?thesis
      by (intro idle) (auto simp: watch_take_def)
  next
    case (Cons c rest)
    show ?thesis
    proof (cases c)
      case (WC_Publish e mt)
      then show ?thesis
        by (intro frame [OF a]) (simp_all add: Cons watch_take_def a)
    next
      case (WC_Flush k)
      then show ?thesis
        by (intro flush [OF a]) (simp_all add: Cons watch_take_def a Let_def)
    next
      case WC_Shutdown
      then show ?thesis
        by (intro stop [OF a]) (simp_all add: Cons watch_take_def a)
    qed
  qed
qed

lemma watch_reply_cases:
  obtains (idle) "pw_inflight w = None" "watch_reply sh ans now w = w"
  | (answer) e mt oc gone w' where "pw_inflight w = Some (e, mt)"
      "w' = note_outcome now mt oc (w\<lparr> pw_inflight := None, pw_disconnected := pw_disconnected w \<or> gone \<rparr>)"
      "watch_reply sh ans now w = (if pw_queue w = [] then report_held_rejections w' else w')"
proof (cases "pw_inflight w")
  case None
  then show ?thesis
    by (intro idle) (auto simp: watch_reply_def)
next
  case (Some em)
  then show ?thesis
    by (cases em) (auto simp: watch_reply_def Let_def intro!: answer)
qed

lemma log_ok_publish: "log_ok w \<Longrightarrow> log_ok (snd (watch_publish b a e mt w))"
  by (cases rule: watch_publish_cases [of b a e mt w]) (auto simp: log_ok_def)

lemma log_ok_command: "log_ok w \<Longrightarrow> log_ok (send_command c w)"
  by (cases rule: send_command_cases [of c w]) (auto simp: log_ok_def)

lemma log_ok_take: "log_ok w \<Longrightarrow> log_ok (watch_take w)"
  by (cases rule: watch_take_cases [of w]) (auto simp: log_ok_def report_held_log)

lemma log_ok_report: "log_ok (report_held_rejections w) \<longleftrightarrow>
    sum_list (map line_count (pw_lines w)) + rl_suppressed (pw_log w) = ps_rejected (pw_counts w) + ps_unanswered (pw_counts w)"
  by (auto simp: log_ok_def report_held_log)

lemma log_ok_reply: "log_ok w \<Longrightarrow> log_ok (watch_reply sh ans now w)"
proof (cases rule: watch_reply_cases [of w sh ans now])
  case (answer e mt oc gone w')
  assume "log_ok w"
  then have "sum_list (map line_count (pw_lines w')) + rl_suppressed (pw_log w') =
      ps_rejected (pw_counts w') + ps_unanswered (pw_counts w')"
    using note_outcome_log [of now mt oc "w\<lparr> pw_inflight := None, pw_disconnected := pw_disconnected w \<or> gone \<rparr>"]
    by (simp add: log_ok_def answer(2))
  then show ?thesis
    by (simp add: answer(3) log_ok_report) (simp add: log_ok_def answer(2))
qed simp

lemma queue_ok_step:
  assumes "queue_ok w"
  shows "queue_ok (snd (watch_publish b a e mt w))" "queue_ok (send_command c w)" "queue_ok (watch_take w)"
    "queue_ok (watch_reply sh ans now w)"
  subgoal using assms by (cases rule: watch_publish_cases [of b a e mt w]) (auto simp: queue_ok_def)
  subgoal using assms by (cases rule: send_command_cases [of c w]) (auto simp: queue_ok_def)
  subgoal using assms by (cases rule: watch_take_cases [of w]) (auto simp: queue_ok_def)
  subgoal using assms by (cases rule: watch_reply_cases [of w sh ans now]) (auto simp: queue_ok_def)
  done

text \<open>How the account moves: a frame is queued, taken, answered or dropped.\<close>

lemma account_queued:
  assumes "account_ok r" "wr_watcher r = w" "pw_open w"
  shows "account_ok (r\<lparr> wr_watcher := w\<lparr> pw_queue := pw_queue w @ [WC_Publish e mt] \<rparr>, wr_queued := wr_queued r @ [e] \<rparr>)"
  using assms by (auto simp: account_ok_def Let_def inflight_frames_def)

lemma account_command:
  assumes "account_ok r" "wr_watcher r = w" "publishes [c] = []"
  shows "account_ok (r\<lparr> wr_watcher := send_command c w \<rparr>)"
  using assms by (cases rule: send_command_cases [of c w]) (auto simp: account_ok_def Let_def inflight_frames_def)

lemma account_take:
  assumes "account_ok r" "wr_watcher r = w"
  shows "account_ok (r\<lparr> wr_watcher := watch_take w,
     wr_dropped := wr_dropped r @ (if pw_open w \<and> \<not> pw_open (watch_take w) then publishes (pw_queue w) else []) \<rparr>)"
proof (cases rule: watch_take_cases [of w])
  case (frame e mt rest)
  obtain dn where dn: "wr_queued r = dn @ publishes (pw_queue w) @ wr_dropped r" "answered (pw_counts w) = of_nat (length dn)"
    "subseq (pw_written w) dn" "\<not> pw_disconnected w \<longrightarrow> pw_written w = dn" "wr_dropped r = []"
    using assms frame by (auto simp: account_ok_def Let_def inflight_frames_def)
  then have "subseq (pw_written w) (dn @ [e])"
    by (simp add: list_emb_prefix)
  with dn frame show ?thesis
    unfolding account_ok_def Let_def
    by (intro conjI exI [of _ dn]) (simp_all add: inflight_frames_def)
qed (use assms in \<open>auto simp: account_ok_def Let_def inflight_frames_def\<close>)

lemma account_reply:
  assumes "account_ok r" "wr_watcher r = w" "queue_ok w"
  shows "account_ok (r\<lparr> wr_watcher := watch_reply sh ans now w \<rparr>)"
proof (cases rule: watch_reply_cases [of w sh ans now])
  case (answer e mt oc gone w')
  obtain dn where dn: "wr_queued r = dn @ e # publishes (pw_queue w) @ wr_dropped r" "answered (pw_counts w) = of_nat (length dn)"
    "subseq (pw_written w) (dn @ [e])" "\<not> pw_disconnected w \<longrightarrow> pw_written w = dn @ [e]" "pw_open w \<longrightarrow> wr_dropped r = []"
    using assms(1,2) answer(1) by (auto simp: account_ok_def Let_def inflight_frames_def)
  have w': "pw_queue w' = pw_queue w" "pw_inflight w' = None" "pw_written w' = pw_written w" "pw_open w' = pw_open w"
    "pw_disconnected w' = (pw_disconnected w \<or> gone)" "answered (pw_counts w') = answered (pw_counts w) + 1"
    by (simp_all add: answer(2) note_outcome_counts)
  have "account_ok (r\<lparr> wr_watcher := w' \<rparr>)"
    unfolding account_ok_def Let_def
    by (intro conjI exI [of _ "dn @ [e]"]) (simp_all add: dn w' inflight_frames_def)
  then show ?thesis
    by (auto simp: answer(3) account_ok_def Let_def inflight_frames_def)
qed (use assms in \<open>auto simp: account_ok_def\<close>)

lemma watch_ok_step: "watch_ok r \<Longrightarrow> watch_ok (watch_step show_ipc r ev)"
proof (cases ev)
  case (CallPublish b a e mt)
  assume "watch_ok r"
  then show ?thesis
    using log_ok_publish [of "wr_watcher r" b a e mt] queue_ok_step(1) [of "wr_watcher r" b a e mt]
      account_queued [of r "wr_watcher r" e mt]
    by (cases rule: watch_publish_cases [of b a e mt "wr_watcher r"])
       (auto simp: watch_ok_def watch_step_def CallPublish Let_def)
qed (auto simp: watch_ok_def watch_step_def Let_def watch_flush_def watch_shutdown_def log_ok_command log_ok_take log_ok_reply
    queue_ok_step account_command account_take account_reply)

interpretation watch_runs: step_function "watch_step show_ipc" watch_ok for show_ipc
  by unfold_locales (rule watch_ok_step)

lemma watch_ok_start: "watch_ok watch_run_start"
  by (simp add: watch_ok_def log_ok_def queue_ok_def account_ok_def watch_run_start_def watcher_spawn_def
      rejection_log_new_def publish_stats_default_def answered_def inflight_frames_def)

section \<open>Flushing\<close>

lemma flushed_frame [simp]:
  "pw_flushed (report_held_rejections w) = pw_flushed w" "pw_flushed (note_outcome now mt oc w) = pw_flushed w"
  by (auto simp: report_held_rejections_def drain_rejections_def note_outcome_def admit_rejection_def Let_def
      split: publish_outcome.split)

definition pending_frames :: "'e watch_run \<Rightarrow> 'e list" where
  "pending_frames r = inflight_frames (wr_watcher r) @ publishes (pw_queue (wr_watcher r)) @ wr_dropped r"

text \<open>
  Where the flush \<open>k\<close> stands, called when \<open>n\<close> publishes had been queued: in the queue, behind what was
  queued before it; answered; or lost with the task.
\<close>

fun behind_flush :: "nat \<Rightarrow> 'e watch_command list \<Rightarrow> 'e watch_command list option" where
  "behind_flush k [] = None"
| "behind_flush k (c # cs) = (if c = WC_Flush k then Some cs else behind_flush k cs)"

definition flush_waiting :: "nat \<Rightarrow> nat \<Rightarrow> 'e watch_run \<Rightarrow> bool" where
  "flush_waiting k n r \<longleftrightarrow> k \<notin> set (pw_flushed (wr_watcher r))
     \<and> (\<exists>b. behind_flush k (pw_queue (wr_watcher r)) = Some b \<and> length (wr_queued r) = n + length (publishes b))"

definition flush_answered :: "nat \<Rightarrow> nat \<Rightarrow> 'e watch_run \<Rightarrow> bool" where
  "flush_answered k n r \<longleftrightarrow> k \<in> set (pw_flushed (wr_watcher r)) \<and> n + length (pending_frames r) \<le> length (wr_queued r)"

definition flush_lost :: "nat \<Rightarrow> 'e watch_run \<Rightarrow> bool" where
  "flush_lost k r \<longleftrightarrow> \<not> pw_open (wr_watcher r) \<and> k \<notin> set (pw_flushed (wr_watcher r))"

definition flush_ok :: "nat \<Rightarrow> nat \<Rightarrow> 'e watch_run \<Rightarrow> bool" where
  "flush_ok k n r \<longleftrightarrow> flush_waiting k n r \<or> flush_answered k n r \<or> flush_lost k r"

lemma behind_flush_snoc: "behind_flush k cs = Some b \<Longrightarrow> behind_flush k (cs @ [c]) = Some (b @ [c])"
  by (induction cs) (auto split: if_splits)

lemma behind_flush_new: "WC_Flush k \<notin> set cs \<Longrightarrow> behind_flush k (cs @ [WC_Flush k]) = Some []"
  by (induction cs) auto

lemma flush_waiting_command:
  assumes "flush_waiting k n r" "pw_queue w = pw_queue (wr_watcher r) @ [c]" "pw_flushed w = pw_flushed (wr_watcher r)"
  shows "flush_waiting k n (r\<lparr> wr_watcher := w, wr_queued := wr_queued r @ publishes [c] \<rparr>)"
  using assms by (auto simp: flush_waiting_def dest: behind_flush_snoc [of _ _ _ c])

lemma flush_step_publish:
  assumes "flush_ok k n r"
  shows "flush_ok k n (watch_step sh r (CallPublish b a e mt))"
proof (cases rule: watch_publish_cases [of b a e mt "wr_watcher r"])
  case queued
  then have s: "watch_step sh r (CallPublish b a e mt) =
      r\<lparr> wr_watcher := (wr_watcher r)\<lparr> pw_queue := pw_queue (wr_watcher r) @ [WC_Publish e mt] \<rparr>, wr_queued := wr_queued r @ [e] \<rparr>"
    by (simp add: watch_step_def Let_def)
  show ?thesis
    using assms flush_waiting_command [of k n r "(wr_watcher r)\<lparr> pw_queue := pw_queue (wr_watcher r) @ [WC_Publish e mt] \<rparr>" "WC_Publish e mt"]
    unfolding flush_ok_def s
    by (auto simp: flush_answered_def flush_lost_def pending_frames_def inflight_frames_def)
next
  case (refused x)
  then have "watch_step sh r (CallPublish b a e mt) = r"
    by (simp add: watch_step_def Let_def)
  with assms show ?thesis by simp
qed

lemma flush_step_command:
  assumes "flush_ok k n r" "publishes [c] = []"
  shows "flush_ok k n (r\<lparr> wr_watcher := send_command c (wr_watcher r) \<rparr>)"
proof (cases rule: send_command_cases [of c "wr_watcher r"])
  case sent
  show ?thesis
    using assms flush_waiting_command [of k n r "(wr_watcher r)\<lparr> pw_queue := pw_queue (wr_watcher r) @ [c] \<rparr>" c]
    unfolding flush_ok_def sent(1)
    by (auto simp: flush_answered_def flush_lost_def pending_frames_def inflight_frames_def)
qed (use assms in simp)

lemma flush_step_take:
  assumes ok: "flush_ok k n r" and acc: "account_ok r"
  shows "flush_ok k n (watch_step sh r TaskTake)"
proof (cases rule: watch_take_cases [of "wr_watcher r"])
  case idle
  then show ?thesis
    using ok by (auto simp: watch_step_def Let_def flush_ok_def flush_waiting_def flush_answered_def flush_lost_def pending_frames_def)
next
  case (frame e mt rest)
  then show ?thesis
    using ok by (auto simp: watch_step_def Let_def flush_ok_def flush_waiting_def flush_answered_def flush_lost_def
        pending_frames_def inflight_frames_def)
next
  case (flush j rest)
  have "wr_dropped r = []"
    using acc flush(1) by (simp add: account_ok_def Let_def)
  with flush show ?thesis
    using ok by (auto simp: watch_step_def Let_def flush_ok_def flush_waiting_def flush_answered_def flush_lost_def
        pending_frames_def inflight_frames_def split: if_splits)
next
  case (stop rest)
  then show ?thesis
    using ok by (auto simp: watch_step_def Let_def flush_ok_def flush_waiting_def flush_answered_def flush_lost_def
        pending_frames_def inflight_frames_def)
qed

lemma flush_step_reply:
  assumes "flush_ok k n r"
  shows "flush_ok k n (watch_step sh r (TaskReply ans now))"
proof (cases rule: watch_reply_cases [of "wr_watcher r" sh ans now])
  case (answer e mt oc gone w')
  then show ?thesis
    using assms by (auto simp: watch_step_def Let_def flush_ok_def flush_waiting_def flush_answered_def flush_lost_def
        pending_frames_def inflight_frames_def)
qed (use assms in \<open>auto simp: watch_step_def Let_def\<close>)

lemma flush_ok_step:
  assumes "flush_ok k n r" "watch_ok r"
  shows "flush_ok k n (watch_step sh r ev)"
proof (cases ev)
  case (CallFlush j)
  then show ?thesis
    using flush_step_command [OF assms(1), of "WC_Flush j"] by (simp add: watch_step_def Let_def watch_flush_def)
next
  case CallShutdown
  then show ?thesis
    using flush_step_command [OF assms(1), of WC_Shutdown] by (simp add: watch_step_def Let_def watch_shutdown_def)
qed (use assms flush_step_publish flush_step_take flush_step_reply in \<open>auto simp: watch_ok_def\<close>)

interpretation flushes: step_function "watch_step show_ipc" "\<lambda>r. watch_ok r \<and> flush_ok k n r" for show_ipc k n
  by unfold_locales (auto intro: watch_ok_step flush_ok_step)

lemma queued_grows: "prefix (wr_queued r) (wr_queued (watch_step sh r ev))"
  by (cases ev) (auto simp: watch_step_def Let_def split: prod.splits)

lemma queued_grows_run: "prefix (wr_queued r) (wr_queued (run_steps (watch_step sh) r evs))"
proof (induction evs arbitrary: r)
  case (Cons ev evs)
  then show ?case
    using queued_grows [of r sh ev] by (auto intro: prefix_order.trans)
qed simp

lemma flush_called:
  assumes "pw_open (wr_watcher r)" "length (pw_queue (wr_watcher r)) < WATCH_QUEUE_CAPACITY"
    "WC_Flush k \<notin> set (pw_queue (wr_watcher r))" "k \<notin> set (pw_flushed (wr_watcher r))"
  shows "flush_ok k (length (wr_queued r)) (watch_step sh r (CallFlush k))"
proof -
  have "flush_waiting k (length (wr_queued r)) (watch_step sh r (CallFlush k))"
    using assms by (auto simp: flush_waiting_def watch_step_def Let_def watch_flush_def send_command_def behind_flush_new)
  then show ?thesis by (simp add: flush_ok_def)
qed

section \<open>The log alone\<close>

text \<open>Rejections admitted one after the other, and drains in between: the times of the lines logged at once.\<close>

fun logged_times :: "rejection_log \<Rightarrow> (instant \<times> string) option list \<Rightarrow> instant list" where
  "logged_times log [] = []"
| "logged_times log (None # evs) = logged_times (snd (drain_rejections log)) evs"
| "logged_times log (Some (now, reason) # evs) = (case admit_rejection log now reason of
      (Some _, log') \<Rightarrow> now # logged_times log' evs
    | (None, log') \<Rightarrow> logged_times log' evs)"

lemma elapsed_interval: "REJECTION_LOG_INTERVAL_MS \<le> elapsed_ms now t \<Longrightarrow> t + 1000000000 \<le> now"
proof -
  assume a: "REJECTION_LOG_INTERVAL_MS \<le> elapsed_ms now t"
  have "1000 \<le> (now - t) div 1000000"
  proof (cases "(now - t) div 1000000 < 2 ^ 64")
    case True
    then have "unat (elapsed_ms now t) = (now - t) div 1000000"
      by (simp add: elapsed_ms_def Let_def unat_of_nat)
    then show ?thesis
      using a by (simp add: word_le_nat_alt REJECTION_LOG_INTERVAL_MS_def)
  qed simp
  then show ?thesis
    by linarith
qed

lemma admit_spacing:
  assumes "admit_rejection log now reason = (Some n, log')"
  shows "rl_last_logged log' = Some now" "rl_last_logged log = Some t \<Longrightarrow> t + 1000000000 \<le> now"
  using assms elapsed_interval [of now t]
  by (auto simp: admit_rejection_def should_log_rejection_def Let_def split: if_splits)

lemma held_last_logged:
  "admit_rejection log now reason = (None, log') \<Longrightarrow> rl_last_logged log' = rl_last_logged log"
  "rl_last_logged (snd (drain_rejections log)) = rl_last_logged log"
  by (auto simp: admit_rejection_def drain_rejections_def Let_def split: if_splits)

lemma logged_times_spaced:
  "sorted_wrt (\<lambda>a b. a + 1000000000 \<le> b) (case_option [] (\<lambda>t. [t]) (rl_last_logged log) @ logged_times log evs)"
proof (induction log evs rule: logged_times.induct)
  case (3 log now reason evs)
  show ?case
  proof (cases "fst (admit_rejection log now reason)")
    case None
    then obtain log' where a: "admit_rejection log now reason = (None, log')"
      by (cases "admit_rejection log now reason") auto
    with 3(1) [OF a [symmetric] refl] show ?thesis
      by (simp add: held_last_logged(1))
  next
    case (Some n)
    then obtain log' where a: "admit_rejection log now reason = (Some n, log')"
      by (cases "admit_rejection log now reason") auto
    have "sorted_wrt (\<lambda>a b. a + 1000000000 \<le> b) (now # logged_times log' evs)"
      using 3(2) [OF a [symmetric] refl] admit_spacing(1) [OF a] by simp
    with a admit_spacing(2) [OF a] show ?thesis
      by (cases "rl_last_logged log") fastforce+
  qed
qed (simp_all add: held_last_logged split: option.splits)

section \<open>Properties\<close>

text \<open>
  C33. Every publish is accounted for. Under every interleaving of calls and replies, the accepted,
  rejected and unanswered counts, the publishes still queued or waiting for their reply, and those
  left behind a shutdown add up to the publishes that returned successfully; the frames reach the
  socket in the order of the calls and none is skipped while the connection stands; and as soon as
  nothing is queued the log lines together stand for exactly the messages rejected or unanswered,
  none held back. The queue stays within its bound. (Counts are 64 bit words, so all sums are taken
  in them.)
\<close>

theorem publishes_accounted:
  assumes "r = run_steps (watch_step show_ipc) watch_run_start evs" and "w = wr_watcher r"
  shows "ps_accepted (pw_counts w) + ps_rejected (pw_counts w) + ps_unanswered (pw_counts w)
      + of_nat (length (inflight_frames w) + length (publishes (pw_queue w)) + length (wr_dropped r)) = of_nat (length (wr_queued r))
    \<and> (\<not> pw_disconnected w \<longrightarrow> pw_written w @ publishes (pw_queue w) @ wr_dropped r = wr_queued r)
    \<and> subseq (pw_written w) (wr_queued r)
    \<and> (pw_queue w = [] \<and> pw_inflight w = None \<longrightarrow>
        rl_suppressed (pw_log w) = 0
        \<and> sum_list (map line_count (pw_lines w)) = ps_rejected (pw_counts w) + ps_unanswered (pw_counts w))
    \<and> length (pw_queue w) \<le> 1024"
proof -
  have ok: "watch_ok r"
    unfolding assms(1) by (rule watch_runs.run_inv [OF watch_ok_start])
  then obtain dn where dn: "wr_queued r = dn @ inflight_frames w @ publishes (pw_queue w) @ wr_dropped r"
    "answered (pw_counts w) = of_nat (length dn)" "subseq (pw_written w) (dn @ inflight_frames w)"
    "\<not> pw_disconnected w \<longrightarrow> pw_written w = dn @ inflight_frames w"
    by (auto simp: watch_ok_def account_ok_def Let_def assms(2))
  have "subseq (pw_written w) ((dn @ inflight_frames w) @ publishes (pw_queue w) @ wr_dropped r)"
    by (rule list_emb_prefix [OF dn(3)])
  then show ?thesis
    using ok dn by (auto simp: watch_ok_def log_ok_def queue_ok_def assms(2) answered_def WATCH_QUEUE_CAPACITY_def)
qed

theorem publishes_accounted_witness:
  "let r = run_steps (watch_step (\<lambda>_. ''gone'')) watch_run_start
       [CallPublish True True (1 :: nat) ''a.b'', CallPublish True True 2 ''a.b'', TaskTake,
        TaskReply (Response False (Some ''RATE_LIMITED'') None) 5, TaskTake, TaskReply (Response True None None) 6]
   in pw_written (wr_watcher r) = [1, 2] \<and> ps_accepted (pw_counts (wr_watcher r)) + ps_rejected (pw_counts (wr_watcher r)) = 2"
proof -
  let ?r = "run_steps (watch_step (\<lambda>_. ''gone'')) watch_run_start
       [CallPublish True True (1 :: nat) ''a.b'', CallPublish True True 2 ''a.b'', TaskTake,
        TaskReply (Response False (Some ''RATE_LIMITED'') None) 5, TaskTake, TaskReply (Response True None None) 6]"
  have "wr_queued ?r = [1, 2]" "wr_dropped ?r = []" "pw_queue (wr_watcher ?r) = []" "pw_inflight (wr_watcher ?r) = None"
    "pw_disconnected (wr_watcher ?r) = False" "ps_unanswered (pw_counts (wr_watcher ?r)) = 0"
    by code_simp+
  then show ?thesis
    using publishes_accounted [OF refl refl, of "\<lambda>_. ''gone''"
       "[CallPublish True True (1 :: nat) ''a.b'', CallPublish True True 2 ''a.b'', TaskTake,
        TaskReply (Response False (Some ''RATE_LIMITED'') None) 5, TaskTake, TaskReply (Response True None None) 6]"]
    by (simp add: inflight_frames_def Let_def)
qed

text \<open>
  The log is throttled. However many rejections there are and however the clock is read, two
  lines logged for a rejection at once are at least one second apart, the first going out
  immediately; what is held back in between is only ever reported by a drain.
\<close>

theorem rejection_lines_spaced:
  "sorted_wrt (\<lambda>a b. a + 1000000000 \<le> b) (logged_times rejection_log_new evs)
   \<and> logged_times rejection_log_new (Some (now, reason) # evs) \<noteq> [] \<and> hd (logged_times rejection_log_new (Some (now, reason) # evs)) = now"
  using logged_times_spaced [of rejection_log_new evs]
  by (simp add: rejection_log_new_def admit_rejection_def should_log_rejection_def)


text \<open>
  A flush waits for everything before it. When the flush \<open>k\<close>, asked for once while the task runs and the
  queue has room, has been answered, every publish that had been queued by then has its answer, whatever
  was called and replied in between; and while the connection stands, all their frames are on the socket
  before anything a caller sends after its flush. This is what lets an acknowledged publish keep its place
  behind the publishes before it.
\<close>

theorem flush_waits_for_publishes:
  assumes "r = run_steps (watch_step show_ipc) watch_run_start evs"
    and "pw_open (wr_watcher r)" and "length (pw_queue (wr_watcher r)) < 1024"
    and "WC_Flush k \<notin> set (pw_queue (wr_watcher r))" and "k \<notin> set (pw_flushed (wr_watcher r))"
    and "s = run_steps (watch_step show_ipc) r (CallFlush k # evs')"
    and "k \<in> set (pw_flushed (wr_watcher s))"
  shows "(\<exists>done. wr_queued s = done @ pending_frames s \<and> prefix (wr_queued r) done
      \<and> answered (watch_stats (wr_watcher s)) = of_nat (length done))
    \<and> (\<not> pw_disconnected (wr_watcher s) \<longrightarrow> prefix (wr_queued r) (pw_written (wr_watcher s)))"
proof -
  let ?r1 = "watch_step show_ipc r (CallFlush k)"
  have "watch_ok r"
    unfolding assms(1) by (rule watch_runs.run_inv [OF watch_ok_start])
  then have "watch_ok ?r1 \<and> flush_ok k (length (wr_queued r)) ?r1"
    using flush_called [of r k show_ipc] watch_ok_step [of r show_ipc] assms(2-5) by (simp add: WATCH_QUEUE_CAPACITY_def)
  then have s: "watch_ok s" "flush_ok k (length (wr_queued r)) s"
    using flushes.run_inv [of ?r1 k "length (wr_queued r)" show_ipc evs'] assms(6) by auto
  have answered: "length (wr_queued r) + length (pending_frames s) \<le> length (wr_queued s)"
    using s(2) assms(7) by (auto simp: flush_ok_def flush_waiting_def flush_lost_def flush_answered_def)
  obtain dn where dn: "wr_queued s = dn @ pending_frames s" "answered (pw_counts (wr_watcher s)) = of_nat (length dn)"
    "\<not> pw_disconnected (wr_watcher s) \<longrightarrow> pw_written (wr_watcher s) = dn @ inflight_frames (wr_watcher s)"
    using s(1) by (auto simp: watch_ok_def account_ok_def Let_def pending_frames_def)
  have "prefix (wr_queued r) (wr_queued s)"
    using queued_grows_run [of r show_ipc "CallFlush k # evs'"] assms(6) by simp
  moreover have "prefix dn (wr_queued s)"
    by (simp only: dn(1) prefixI)
  moreover have "length (wr_queued r) \<le> length dn"
    using answered by (simp add: dn(1))
  ultimately have "prefix (wr_queued r) dn"
    by (rule prefix_length_prefix)
  with dn show ?thesis
    by (auto simp: watch_stats_def intro: prefix_order.trans)
qed


theorem flush_waits_for_publishes_witness:
  "let r = run_steps (watch_step (\<lambda>_. ''gone'')) watch_run_start [CallPublish True True (1 :: nat) ''a.b''];
       s = run_steps (watch_step (\<lambda>_. ''gone'')) r
         [CallFlush 7, CallPublish True True 2 ''a.b'', TaskTake, TaskReply (Response True None None) 5, TaskTake]
   in pw_flushed (wr_watcher s) = [7] \<and> wr_queued s = [1, 2] \<and> prefix [1] (pw_written (wr_watcher s))"
proof -
  let ?r = "run_steps (watch_step (\<lambda>_. ''gone'')) watch_run_start [CallPublish True True (1 :: nat) ''a.b'']"
  let ?es = "[CallPublish True True 2 ''a.b'', TaskTake, TaskReply (Response True None None) 5, TaskTake]"
  let ?s = "run_steps (watch_step (\<lambda>_. ''gone'')) ?r (CallFlush 7 # ?es)"
  have r: "pw_open (wr_watcher ?r)" "length (pw_queue (wr_watcher ?r)) < 1024"
    "WC_Flush 7 \<notin> set (pw_queue (wr_watcher ?r))" "7 \<notin> set (pw_flushed (wr_watcher ?r))"
    by code_simp+
  have s: "pw_flushed (wr_watcher ?s) = [7]" "wr_queued ?s = [1, 2]" "wr_queued ?r = [1]"
    "\<not> pw_disconnected (wr_watcher ?s)"
    by code_simp+
  show ?thesis
    using flush_waits_for_publishes [OF refl r refl, of ?es] s by (simp add: Let_def)
qed

end
