(* ===== verification/Pull_Stream.thy ===== *)
theory Pull_Stream
  imports Messages
begin

text \<open>
  Streams with consumer-driven backpressure between two handlers, after \<^verbatim>\<open>stream_offer\<close> and
  \<^verbatim>\<open>stream_consume\<close> of \<^verbatim>\<open>sdks/rust/src/connection.rs\<close>. The two loops read three fields of a message,
  its type, payload and metadata, which is what \<open>draft\<close> holds; what they publish is a draft as well.

  \<open>offer_on\<close> and \<open>consume_on\<close> are the bodies of the loops, \<open>stream_offer\<close> and \<open>stream_consume\<close> the
  functions with their timeouts, closed streams and failing publishes. The protocol of the two over
  the engine is the step relation \<open>pull_step\<close>: two channels that keep order, in which other messages
  may arrive in between, and in which each side may fail in every way its function can.
\<close>

section \<open>Messages of the protocol\<close>

record draft =
  dr_type :: string
  dr_payload :: json
  dr_metadata :: "json option"

definition stream_id_of :: "json \<Rightarrow> string option" where
  "stream_id_of v = Option.bind (json_get ''stream_id'' v) json_as_str"

definition ready_draft :: "string \<Rightarrow> string \<Rightarrow> draft" where
  "ready_draft sid mt = \<lparr> dr_type = ''stream.ready'',
     dr_payload = JObject [(''stream_id'', JString sid), (''message_type'', JString mt)], dr_metadata = None \<rparr>"

definition pull_draft :: "string \<Rightarrow> draft" where
  "pull_draft sid = \<lparr> dr_type = ''stream.pull'', dr_payload = JObject [(''stream_id'', JString sid)], dr_metadata = None \<rparr>"

definition item_draft :: "string \<Rightarrow> string \<Rightarrow> json \<Rightarrow> draft" where
  "item_draft sid mt item =
     \<lparr> dr_type = mt, dr_payload = item, dr_metadata = Some (JObject [(''stream_id'', JString sid)]) \<rparr>"

definition end_draft :: "string \<Rightarrow> draft" where
  "end_draft sid = \<lparr> dr_type = ''stream.end'', dr_payload = JObject [(''stream_id'', JString sid)], dr_metadata = None \<rparr>"

definition is_pull :: "string \<Rightarrow> draft \<Rightarrow> bool" where
  "is_pull sid m \<longleftrightarrow> dr_type m = ''stream.pull'' \<and> stream_id_of (dr_payload m) = Some sid"

definition is_end :: "string \<Rightarrow> draft \<Rightarrow> bool" where
  "is_end sid m \<longleftrightarrow> dr_type m = ''stream.end'' \<and> stream_id_of (dr_payload m) = Some sid"

definition is_item :: "string \<Rightarrow> string \<Rightarrow> draft \<Rightarrow> bool" where
  "is_item sid mt m \<longleftrightarrow> dr_type m = mt \<and> Option.bind (dr_metadata m) stream_id_of = Some sid"

text \<open>The stream a \<^verbatim>\<open>stream.ready\<close> for the wanted message type announces.\<close>

definition ready_stream :: "string \<Rightarrow> draft \<Rightarrow> string option" where
  "ready_stream mt m =
     (if dr_type m = ''stream.ready'' then
        (case (Option.bind (json_get ''message_type'' (dr_payload m)) json_as_str, stream_id_of (dr_payload m)) of
           (Some t, Some sid) \<Rightarrow> if t = mt then Some sid else None
         | _ \<Rightarrow> None)
      else None)"

section \<open>The two loops\<close>

record offer_state =
  of_items :: "json list"
  of_published :: nat
  of_done :: bool

definition offer_init :: "json list \<Rightarrow> offer_state" where
  "offer_init items = \<lparr> of_items = items, of_published = 0, of_done = False \<rparr>"

definition offer_on :: "string \<Rightarrow> string \<Rightarrow> offer_state \<Rightarrow> draft \<Rightarrow> offer_state \<times> draft option" where
  "offer_on sid mt st msg =
     (if \<not> is_pull sid msg then (st, None)
      else case of_items st of
        item # rest \<Rightarrow> (st\<lparr> of_items := rest, of_published := Suc (of_published st) \<rparr>, Some (item_draft sid mt item))
      | [] \<Rightarrow> (st\<lparr> of_done := True \<rparr>, Some (end_draft sid)))"

record consume_state =
  cs_stream :: "string option"
  cs_items :: "draft list"
  cs_done :: bool

definition consume_init :: consume_state where
  "consume_init = \<lparr> cs_stream = None, cs_items = [], cs_done = False \<rparr>"

definition consume_on :: "string \<Rightarrow> consume_state \<Rightarrow> draft \<Rightarrow> consume_state \<times> draft option" where
  "consume_on mt st msg = (case cs_stream st of
      None \<Rightarrow> (case ready_stream mt msg of
          None \<Rightarrow> (st, None)
        | Some sid \<Rightarrow> (st\<lparr> cs_stream := Some sid \<rparr>, Some (pull_draft sid)))
    | Some sid \<Rightarrow>
        if is_end sid msg then (st\<lparr> cs_done := True \<rparr>, None)
        else if is_item sid mt msg then (st\<lparr> cs_items := cs_items st @ [msg] \<rparr>, Some (pull_draft sid))
        else (st, None))"

text \<open>
  What the next read of a stream gives: a message, the end of the stream, or nothing before the
  timeout. \<open>pub\<close> is the client's publish; a failed publish ends the loop with its error, and
  \<^verbatim>\<open>EmergentMessage::new\<close> panics on an item type that is no message type.
\<close>

datatype stream_input = Got draft | StreamClosed | StreamTimeout

datatype 'e stream_error = PublishError 'e | InputClosed string | InputTimeout | InvalidTypePanic

fun offer_loop ::
  "(draft \<Rightarrow> ('e, unit) result) \<Rightarrow> string \<Rightarrow> string \<Rightarrow> offer_state \<Rightarrow> stream_input list
     \<Rightarrow> ('e stream_error, nat) result option" where
  "offer_loop pub sid mt st [] = None"
| "offer_loop pub sid mt st (StreamTimeout # ins) = Some (Err InputTimeout)"
| "offer_loop pub sid mt st (StreamClosed # ins) = Some (Err (InputClosed ''pull stream closed during stream_offer''))"
| "offer_loop pub sid mt st (Got msg # ins) = (case offer_on sid mt st msg of
      (st', None) \<Rightarrow> offer_loop pub sid mt st' ins
    | (st', Some d) \<Rightarrow> if \<not> is_ok (MessageType_new (dr_type d)) then Some (Err InvalidTypePanic) else (case pub d of
        Inl e \<Rightarrow> Some (Err (PublishError e))
      | Inr _ \<Rightarrow> if of_done st' then Some (Ok (of_published st')) else offer_loop pub sid mt st' ins))"

definition stream_offer ::
  "(draft \<Rightarrow> ('e, unit) result) \<Rightarrow> string \<Rightarrow> string \<Rightarrow> json list \<Rightarrow> stream_input list
     \<Rightarrow> ('e stream_error, nat) result option" where
  "stream_offer pub sid mt items ins = (case pub (ready_draft sid mt) of
      Inl e \<Rightarrow> Some (Err (PublishError e))
    | Inr _ \<Rightarrow> offer_loop pub sid mt (offer_init items) ins)"

fun stream_consume ::
  "(draft \<Rightarrow> ('e, unit) result) \<Rightarrow> string \<Rightarrow> consume_state \<Rightarrow> stream_input list
     \<Rightarrow> draft list \<times> ('e stream_error, nat) result option" where
  "stream_consume pub mt st [] = (cs_items st, None)"
| "stream_consume pub mt st (StreamTimeout # ins) = (cs_items st, Some (Err InputTimeout))"
| "stream_consume pub mt st (StreamClosed # ins) = (cs_items st, Some (Err (InputClosed
     (case cs_stream st of None \<Rightarrow> ''source stream closed before stream.ready''
      | Some _ \<Rightarrow> ''source stream closed during stream_consume''))))"
| "stream_consume pub mt st (Got msg # ins) = (case consume_on mt st msg of
      (st', None) \<Rightarrow> if cs_done st' then (cs_items st', Some (Ok (length (cs_items st')))) else stream_consume pub mt st' ins
    | (st', Some d) \<Rightarrow> (case pub d of
        Inl e \<Rightarrow> (cs_items st', Some (Err (PublishError e)))
      | Inr _ \<Rightarrow> stream_consume pub mt st' ins))"

section \<open>The two together\<close>

text \<open>\<open>py_offer_stop\<close> and \<open>py_consume_stop\<close> say with which error a side has returned or panicked, if it has.\<close>

record pull_sys =
  py_offer :: offer_state
  py_consume :: consume_state
  py_to_offer :: "draft list"
  py_to_consume :: "draft list"
  py_offer_stop :: "unit stream_error option"
  py_consume_stop :: "unit stream_error option"

text \<open>The state once the announcement of the stream is published.\<close>

definition pull_initial :: "string \<Rightarrow> string \<Rightarrow> json list \<Rightarrow> pull_sys" where
  "pull_initial sid mt items = \<lparr> py_offer = offer_init items, py_consume = consume_init,
     py_to_offer = [], py_to_consume = [ready_draft sid mt], py_offer_stop = None, py_consume_stop = None \<rparr>"

datatype pull_label = ToOffer | ToConsume | OfferFails | ConsumeFails | NoiseOffer draft | NoiseConsume draft

text \<open>
  A message the protocol of this stream has no part in. For the consumer, as long as it waits for a stream
  (it is not \<open>bound\<close>), the announcement of any stream of its message type has a part in it.
\<close>

definition offer_noise :: "string \<Rightarrow> draft \<Rightarrow> bool" where
  "offer_noise sid m \<longleftrightarrow> \<not> is_pull sid m"

definition consume_noise :: "string \<Rightarrow> string \<Rightarrow> bool \<Rightarrow> draft \<Rightarrow> bool" where
  "consume_noise sid mt bound m \<longleftrightarrow> (bound \<or> ready_stream mt m = None) \<and> \<not> is_end sid m \<and> \<not> is_item sid mt m"

definition bound :: "pull_sys \<Rightarrow> bool" where
  "bound s \<longleftrightarrow> cs_stream (py_consume s) \<noteq> None"

text \<open>\<^verbatim>\<open>EmergentMessage::new\<close> panics on what would be published under a name that is no message type.\<close>

definition publishable :: "draft option \<Rightarrow> bool" where
  "publishable out \<longleftrightarrow> (case out of None \<Rightarrow> True | Some d \<Rightarrow> is_ok (MessageType_new (dr_type d)))"

definition sent :: "draft option \<Rightarrow> draft list" where
  "sent out = (case out of None \<Rightarrow> [] | Some d \<Rightarrow> [d])"

text \<open>
  A side takes the next message and publishes its answer; or making the answer panics; or publishing it fails;
  or its wait for a message times out or finds the stream closed. What a stopped loop had in its variables is
  gone with it: only an item the consumer had handed to its callback by then counts.
\<close>

inductive pull_step :: "string \<Rightarrow> string \<Rightarrow> pull_sys \<Rightarrow> pull_label \<Rightarrow> pull_sys \<Rightarrow> bool" for sid mt where
  to_offer: "py_to_offer s = m # ms \<Longrightarrow> \<not> of_done (py_offer s) \<Longrightarrow> py_offer_stop s = None \<Longrightarrow>
     offer_on sid mt (py_offer s) m = (st, out) \<Longrightarrow> publishable out \<Longrightarrow>
     pull_step sid mt s ToOffer (s\<lparr> py_offer := st, py_to_offer := ms, py_to_consume := py_to_consume s @ sent out \<rparr>)"
| offer_panics: "py_to_offer s = m # ms \<Longrightarrow> \<not> of_done (py_offer s) \<Longrightarrow> py_offer_stop s = None \<Longrightarrow>
     offer_on sid mt (py_offer s) m = (st, out) \<Longrightarrow> \<not> publishable out \<Longrightarrow>
     pull_step sid mt s ToOffer (s\<lparr> py_to_offer := ms, py_offer_stop := Some InvalidTypePanic \<rparr>)"
| offer_publish_fails: "py_to_offer s = m # ms \<Longrightarrow> \<not> of_done (py_offer s) \<Longrightarrow> py_offer_stop s = None \<Longrightarrow>
     offer_on sid mt (py_offer s) m = (st, Some d) \<Longrightarrow> publishable (Some d) \<Longrightarrow>
     pull_step sid mt s OfferFails (s\<lparr> py_to_offer := ms, py_offer_stop := Some (PublishError ()) \<rparr>)"
| offer_gives_up: "\<not> of_done (py_offer s) \<Longrightarrow> py_offer_stop s = None \<Longrightarrow>
     e \<in> {InputTimeout, InputClosed ''pull stream closed during stream_offer''} \<Longrightarrow>
     pull_step sid mt s OfferFails (s\<lparr> py_offer_stop := Some e \<rparr>)"
| to_consume: "py_to_consume s = m # ms \<Longrightarrow> \<not> cs_done (py_consume s) \<Longrightarrow> py_consume_stop s = None \<Longrightarrow>
     consume_on mt (py_consume s) m = (st, out) \<Longrightarrow>
     pull_step sid mt s ToConsume (s\<lparr> py_consume := st, py_to_consume := ms, py_to_offer := py_to_offer s @ sent out \<rparr>)"
| consume_publish_fails: "py_to_consume s = m # ms \<Longrightarrow> \<not> cs_done (py_consume s) \<Longrightarrow> py_consume_stop s = None \<Longrightarrow>
     consume_on mt (py_consume s) m = (st, Some d) \<Longrightarrow>
     pull_step sid mt s ConsumeFails (s\<lparr> py_consume := st, py_to_consume := ms, py_consume_stop := Some (PublishError ()) \<rparr>)"
| consume_gives_up: "\<not> cs_done (py_consume s) \<Longrightarrow> py_consume_stop s = None \<Longrightarrow>
     e \<in> {InputTimeout, InputClosed (case cs_stream (py_consume s) of
        None \<Rightarrow> ''source stream closed before stream.ready'' | Some _ \<Rightarrow> ''source stream closed during stream_consume'')} \<Longrightarrow>
     pull_step sid mt s ConsumeFails (s\<lparr> py_consume_stop := Some e \<rparr>)"
| noise_offer: "offer_noise sid m \<Longrightarrow>
     pull_step sid mt s (NoiseOffer m) (s\<lparr> py_to_offer := py_to_offer s @ [m] \<rparr>)"
| noise_consume: "consume_noise sid mt (bound s) m \<Longrightarrow>
     pull_step sid mt s (NoiseConsume m) (s\<lparr> py_to_consume := py_to_consume s @ [m] \<rparr>)"

inductive_cases pull_stepE: "pull_step sid mt s l t"

section \<open>The invariant\<close>

lemma protocol_drafts [simp]:
  "is_pull sid (pull_draft sid)" "is_end sid (end_draft sid)" "is_item sid mt (item_draft sid mt x)"
  "ready_stream mt (ready_draft sid mt) = Some sid" "dr_payload (item_draft sid mt x) = x"
  by (simp_all add: is_pull_def pull_draft_def is_end_def end_draft_def is_item_def item_draft_def
      ready_stream_def ready_draft_def stream_id_of_def)

definition to_offer_live :: "string \<Rightarrow> pull_sys \<Rightarrow> draft list" where
  "to_offer_live sid s = filter (\<lambda>m. \<not> offer_noise sid m) (py_to_offer s)"

definition to_consume_live :: "string \<Rightarrow> string \<Rightarrow> pull_sys \<Rightarrow> draft list" where
  "to_consume_live sid mt s = filter (\<lambda>m. \<not> consume_noise sid mt (bound s) m) (py_to_consume s)"

text \<open>
  Exactly one message of the protocol is under way until the end, or none once a side that took it has stopped
  (\<open>Lost\<close>), and what the consumer has, what is under way and what is left to offer are together the items.
\<close>

datatype pull_phase = Announced | Pulling | Serving json | Ending | Finished | Lost

definition got :: "pull_sys \<Rightarrow> json list" where
  "got s = map dr_payload (cs_items (py_consume s))"

definition phase_ok :: "string \<Rightarrow> string \<Rightarrow> json list \<Rightarrow> pull_sys \<Rightarrow> pull_phase \<Rightarrow> bool" where
  "phase_ok sid mt items s ph \<longleftrightarrow>
     of_published (py_offer s) + length (of_items (py_offer s)) = length items
     \<and> (cs_stream (py_consume s) = (if ph = Announced then None else Some sid))
     \<and> (cs_done (py_consume s) \<longleftrightarrow> ph = Finished)
     \<and> (of_done (py_offer s) \<longleftrightarrow> ph \<in> {Ending, Finished}) \<and> (of_done (py_offer s) \<longrightarrow> of_items (py_offer s) = [])
     \<and> (ph = Lost \<longrightarrow> py_offer_stop s \<noteq> None \<or> py_consume_stop s \<noteq> None)
     \<and> to_offer_live sid s = (if ph = Pulling then [pull_draft sid] else [])
     \<and> to_consume_live sid mt s = (case ph of Announced \<Rightarrow> [ready_draft sid mt] | Serving x \<Rightarrow> [item_draft sid mt x]
          | Ending \<Rightarrow> [end_draft sid] | _ \<Rightarrow> [])
     \<and> got s @ (case ph of Serving x \<Rightarrow> [x] | _ \<Rightarrow> []) @ of_items (py_offer s) = items
     \<and> (\<not> is_ok (MessageType_new mt) \<longrightarrow> of_items (py_offer s) = items)"

definition pull_ok :: "string \<Rightarrow> string \<Rightarrow> json list \<Rightarrow> pull_sys \<Rightarrow> bool" where
  "pull_ok sid mt items s \<longleftrightarrow> (\<exists>ph. phase_ok sid mt items s ph)"

lemma sent_simps [simp]: "sent None = []" "sent (Some d) = [d]"
  by (simp_all add: sent_def)

lemma publishable_simps [simp]:
  "publishable None" "publishable (Some (end_draft sid))"
  "publishable (Some (item_draft sid mt x)) \<longleftrightarrow> is_ok (MessageType_new mt)"
proof -
  have "is_ok (MessageType_new ''stream.end'')"
    by code_simp
  then show "publishable (Some (end_draft sid))"
    by (simp add: publishable_def end_draft_def)
qed (simp_all add: publishable_def item_draft_def)

lemma bound_simps [simp]:
  "bound (s\<lparr> py_offer := a \<rparr>) = bound s" "bound (s\<lparr> py_to_offer := q \<rparr>) = bound s"
  "bound (s\<lparr> py_to_consume := q \<rparr>) = bound s" "bound (s\<lparr> py_offer_stop := e \<rparr>) = bound s"
  "bound (s\<lparr> py_consume_stop := e \<rparr>) = bound s" "bound (s\<lparr> py_consume := c \<rparr>) \<longleftrightarrow> cs_stream c \<noteq> None"
  by (simp_all add: bound_def)

lemma consume_noise_bound: "consume_noise sid mt b m \<Longrightarrow> consume_noise sid mt True m"
  by (simp add: consume_noise_def)

lemma phase_bound: "phase_ok sid mt items s ph \<Longrightarrow> bound s \<longleftrightarrow> ph \<noteq> Announced"
  by (auto simp: phase_ok_def bound_def)

lemma pull_initial_ok: "phase_ok sid mt items (pull_initial sid mt items) Announced"
  by (simp add: phase_ok_def pull_initial_def offer_init_def consume_init_def to_offer_live_def to_consume_live_def
      consume_noise_def got_def bound_def)

text \<open>What the offering side takes, and what becomes of it: an answer, a panic or a failed publish.\<close>

lemma offer_takes:
  assumes ok: "phase_ok sid mt items s ph" and m: "py_to_offer s = m # ms" "offer_on sid mt (py_offer s) m = (st, out)"
  obtains (noise) "offer_noise sid m" "st = py_offer s" "out = None"
  | (pull) "\<not> offer_noise sid m" "ph = Pulling" "filter (\<lambda>m. \<not> offer_noise sid m) ms = []" "out \<noteq> None"
proof (cases "offer_noise sid m")
  case True
  then show ?thesis
    using noise m(2) by (simp add: offer_on_def offer_noise_def)
next
  case False
  then have "ph = Pulling" "filter (\<lambda>m. \<not> offer_noise sid m) ms = []" "is_pull sid m"
    using ok m(1) by (auto simp: phase_ok_def to_offer_live_def offer_noise_def split: if_splits)
  then show ?thesis
    using pull False m(2) by (auto simp: offer_on_def split: list.splits)
qed

lemma phase_ok_to_offer:
  assumes ok: "phase_ok sid mt items s ph" and m: "py_to_offer s = m # ms" "offer_on sid mt (py_offer s) m = (st, out)"
    and p: "publishable out"
    and t: "t = s\<lparr> py_offer := st, py_to_offer := ms, py_to_consume := py_to_consume s @ sent out \<rparr>"
  shows "\<exists>ph'. phase_ok sid mt items t ph'"
  using ok m
proof (cases rule: offer_takes)
  case noise
  then have "phase_ok sid mt items t ph"
    using ok m t by (auto simp: phase_ok_def offer_noise_def to_offer_live_def to_consume_live_def got_def)
  then show ?thesis ..
next
  case pull
  have b: "bound s"
    using phase_bound [OF ok] pull by simp
  show ?thesis
  proof (cases "of_items (py_offer s)")
    case Nil
    then have "phase_ok sid mt items t Ending"
      using ok m t pull b
      by (auto simp: phase_ok_def offer_on_def offer_noise_def to_offer_live_def to_consume_live_def got_def consume_noise_def)
    then show ?thesis ..
  next
    case (Cons x xs)
    then have "phase_ok sid mt items t (Serving x)"
      using ok m t pull b p
      by (auto simp: phase_ok_def offer_on_def offer_noise_def to_offer_live_def to_consume_live_def got_def consume_noise_def)
    then show ?thesis ..
  qed
qed

lemma phase_ok_offer_stops:
  assumes ok: "phase_ok sid mt items s ph" and m: "py_to_offer s = m # ms" "offer_on sid mt (py_offer s) m = (st, Some d)"
    and t: "t = s\<lparr> py_to_offer := ms, py_offer_stop := Some e \<rparr>"
  shows "phase_ok sid mt items t Lost"
  using ok m
proof (cases rule: offer_takes)
  case pull
  with ok t m show ?thesis
    by (auto simp: phase_ok_def to_offer_live_def to_consume_live_def got_def bound_def)
qed simp

text \<open>The same of the consuming side.\<close>

lemma consume_takes:
  assumes ok: "phase_ok sid mt items s ph" and mt: "mt \<noteq> ''stream.end''"
    and m: "py_to_consume s = m # ms" "consume_on mt (py_consume s) m = (st, out)"
  obtains (noise) "consume_noise sid mt (bound s) m" "st = py_consume s" "out = None"
  | (ready) "ph = Announced" "m = ready_draft sid mt" "st = (py_consume s)\<lparr> cs_stream := Some sid \<rparr>" "out = Some (pull_draft sid)"
      "filter (\<lambda>m. \<not> consume_noise sid mt (bound s) m) ms = []"
  | (item) x where "ph = Serving x" "st = (py_consume s)\<lparr> cs_items := cs_items (py_consume s) @ [item_draft sid mt x] \<rparr>"
      "out = Some (pull_draft sid)" "filter (\<lambda>m. \<not> consume_noise sid mt (bound s) m) ms = []" "\<not> consume_noise sid mt True m"
  | (over) "ph = Ending" "st = (py_consume s)\<lparr> cs_done := True \<rparr>" "out = None"
      "filter (\<lambda>m. \<not> consume_noise sid mt (bound s) m) ms = []" "\<not> consume_noise sid mt True m"
proof (cases "consume_noise sid mt (bound s) m")
  case True
  then show ?thesis
    using noise ok m(2)
    by (auto simp: phase_ok_def consume_on_def consume_noise_def bound_def split: option.splits if_splits)
next
  case False
  then have live: "to_consume_live sid mt s = m # filter (\<lambda>m. \<not> consume_noise sid mt (bound s) m) ms"
    by (simp add: to_consume_live_def m(1))
  have not_end: "\<not> is_end sid (item_draft sid mt x)" for x
    using mt by (simp add: is_end_def item_draft_def)
  show ?thesis
  proof (cases ph)
    case Announced
    then show ?thesis
      using ready ok m(2) live by (auto simp: phase_ok_def consume_on_def)
  next
    case (Serving x)
    then show ?thesis
      using item [of x] ok m(2) live not_end False
      by (auto simp: phase_ok_def consume_on_def consume_noise_def)
  next
    case Ending
    then show ?thesis
      using over ok m(2) live False by (auto simp: phase_ok_def consume_on_def consume_noise_def)
  qed (use ok live in \<open>simp_all add: phase_ok_def\<close>)
qed

lemma pull_not_noise [simp]: "\<not> offer_noise sid (pull_draft sid)"
  by (simp add: offer_noise_def)

lemma noise_kept:
  "filter (\<lambda>m. \<not> consume_noise sid mt b m) ms = [] \<Longrightarrow> filter (\<lambda>m. \<not> consume_noise sid mt True m) ms = []"
  by (auto simp: filter_empty_conv dest: consume_noise_bound)

lemma phase_ok_to_consume:
  assumes ok: "phase_ok sid mt items s ph" and mt: "mt \<noteq> ''stream.end''"
    and m: "py_to_consume s = m # ms" "consume_on mt (py_consume s) m = (st, out)"
    and t: "t = s\<lparr> py_consume := st, py_to_consume := ms, py_to_offer := py_to_offer s @ sent out \<rparr>"
  shows "\<exists>ph'. phase_ok sid mt items t ph'"
  using ok mt m
proof (cases rule: consume_takes)
  case noise
  then have "phase_ok sid mt items t ph"
    using ok m t by (auto simp: phase_ok_def to_offer_live_def to_consume_live_def got_def bound_def)
  then show ?thesis ..
next
  case ready
  then have "phase_ok sid mt items t Pulling"
    using ok m t noise_kept [OF ready(5)] by (auto simp: phase_ok_def to_offer_live_def to_consume_live_def got_def)
  then show ?thesis ..
next
  case (item x)
  then have "phase_ok sid mt items t Pulling"
    using ok m t noise_kept [OF item(4)] by (auto simp: phase_ok_def to_offer_live_def to_consume_live_def got_def)
  then show ?thesis ..
next
  case over
  then have "phase_ok sid mt items t Finished"
    using ok m t noise_kept [OF over(4)] by (auto simp: phase_ok_def to_offer_live_def to_consume_live_def got_def)
  then show ?thesis ..
qed

lemma phase_ok_consume_stops:
  assumes ok: "phase_ok sid mt items s ph" and mt: "mt \<noteq> ''stream.end''"
    and m: "py_to_consume s = m # ms" "consume_on mt (py_consume s) m = (st, Some d)"
    and t: "t = s\<lparr> py_consume := st, py_to_consume := ms, py_consume_stop := Some e \<rparr>"
  shows "phase_ok sid mt items t Lost"
  using ok mt m
proof (cases rule: consume_takes)
  case ready
  then show ?thesis
    using ok m t noise_kept [OF ready(5)] by (auto simp: phase_ok_def to_offer_live_def to_consume_live_def got_def)
next
  case (item x)
  then show ?thesis
    using ok m t noise_kept [OF item(4)] by (auto simp: phase_ok_def to_offer_live_def to_consume_live_def got_def)
qed simp_all

lemma pull_step_ok:
  assumes "pull_ok sid mt items s" "mt \<noteq> ''stream.end''" "pull_step sid mt s l t"
  shows "pull_ok sid mt items t"
proof -
  obtain ph where ph: "phase_ok sid mt items s ph"
    using assms(1) by (auto simp: pull_ok_def)
  have same: "phase_ok sid mt items t ph \<Longrightarrow> pull_ok sid mt items t"
    by (auto simp: pull_ok_def)
  from assms(3) show ?thesis
  proof cases
    case (to_offer m ms st out)
    then show ?thesis
      unfolding pull_ok_def by (intro phase_ok_to_offer [OF ph]) auto
  next
    case (offer_panics m ms st out)
    then obtain d where "out = Some d"
      by (cases out) auto
    then show ?thesis
      using phase_ok_offer_stops [OF ph, of m ms st d t InvalidTypePanic] offer_panics by (auto simp: pull_ok_def)
  next
    case (offer_publish_fails m ms st d)
    then show ?thesis
      using phase_ok_offer_stops [OF ph, of m ms st d t "PublishError ()"] by (auto simp: pull_ok_def)
  next
    case (offer_gives_up e)
    then show ?thesis
      using ph by (intro same) (auto simp: phase_ok_def to_offer_live_def to_consume_live_def got_def)
  next
    case (to_consume m ms st out)
    then show ?thesis
      unfolding pull_ok_def by (intro phase_ok_to_consume [OF ph assms(2)]) auto
  next
    case (consume_publish_fails m ms st d)
    then show ?thesis
      using phase_ok_consume_stops [OF ph assms(2), of m ms st d t "PublishError ()"] by (auto simp: pull_ok_def)
  next
    case (consume_gives_up e)
    then show ?thesis
      using ph by (intro same) (auto simp: phase_ok_def to_offer_live_def to_consume_live_def got_def)
  next
    case (noise_offer m)
    then show ?thesis
      using ph by (intro same) (auto simp: phase_ok_def to_offer_live_def to_consume_live_def got_def)
  next
    case (noise_consume m)
    then show ?thesis
      using ph by (intro same) (auto simp: phase_ok_def to_offer_live_def to_consume_live_def got_def)
  qed
qed

lemma pull_initial_pull_ok: "pull_ok sid mt items (pull_initial sid mt items)"
  using pull_initial_ok unfolding pull_ok_def by blast

interpretation pull_machine: machine_invariant
  "\<lambda>s. mt \<noteq> ''stream.end'' \<and> s = pull_initial sid mt items" "pull_step sid mt"
  "\<lambda>s. mt \<noteq> ''stream.end'' \<and> pull_ok sid mt items s" for sid mt items
  by unfold_locales (auto intro: pull_step_ok pull_initial_pull_ok)

section \<open>Progress\<close>

text \<open>What is left to do: the deliveries the protocol still needs and the other messages queued.\<close>

definition pull_work :: "string \<Rightarrow> string \<Rightarrow> pull_sys \<Rightarrow> nat" where
  "pull_work sid mt s = 2 * length (of_items (py_offer s))
     + (if cs_done (py_consume s) then 0 else if of_done (py_offer s) then 1
        else if to_offer_live sid s \<noteq> [] then 2 else 3)
     + length (filter (offer_noise sid) (py_to_offer s)) + length (filter (consume_noise sid mt (bound s)) (py_to_consume s))"

lemma work_to_offer:
  assumes ok: "phase_ok sid mt items s ph" and m: "py_to_offer s = m # ms" "offer_on sid mt (py_offer s) m = (st, out)"
    and t: "t = s\<lparr> py_offer := st, py_to_offer := ms, py_to_consume := py_to_consume s @ sent out \<rparr>"
  shows "pull_work sid mt t < pull_work sid mt s"
  using ok m
proof (cases rule: offer_takes)
  case noise
  with assms show ?thesis
    by (auto simp: pull_work_def offer_noise_def to_offer_live_def)
next
  case pull
  have "bound s"
    using phase_bound [OF ok] pull by simp
  with ok pull m t show ?thesis
    by (cases "of_items (py_offer s)")
       (auto simp: pull_work_def offer_on_def offer_noise_def to_offer_live_def consume_noise_def phase_ok_def)
qed

lemma noise_rest:
  assumes "filter (\<lambda>m. \<not> consume_noise sid mt b m) ms = []"
  shows "filter (consume_noise sid mt b) ms = ms" "filter (consume_noise sid mt True) ms = ms"
  using assms by (auto simp: filter_empty_conv filter_id_conv dest: consume_noise_bound)

lemma work_to_consume:
  assumes ok: "phase_ok sid mt items s ph" and mt: "mt \<noteq> ''stream.end''"
    and m: "py_to_consume s = m # ms" "consume_on mt (py_consume s) m = (st, out)"
    and t: "t = s\<lparr> py_consume := st, py_to_consume := ms, py_to_offer := py_to_offer s @ sent out \<rparr>"
  shows "pull_work sid mt t < pull_work sid mt s"
  using ok mt m
proof (cases rule: consume_takes)
  case noise
  with m t show ?thesis
    by (auto simp: pull_work_def to_offer_live_def bound_def)
next
  case ready
  with ok m t noise_rest [OF ready(5)] show ?thesis
    by (auto simp: phase_ok_def pull_work_def to_offer_live_def)
next
  case (item x)
  with ok m t noise_rest [OF item(4)] show ?thesis
    by (auto simp: phase_ok_def pull_work_def to_offer_live_def bound_def)
next
  case over
  with ok m t noise_rest [OF over(4)] show ?thesis
    by (auto simp: phase_ok_def pull_work_def to_offer_live_def bound_def)
qed

text \<open>With an item type that is a message type, the offering side does not panic.\<close>

lemma offer_answers_valid:
  assumes "is_ok (MessageType_new mt)" "offer_on sid mt st m = (st', out)"
  shows "publishable out"
  using assms by (auto simp: offer_on_def split: if_splits list.splits)

lemma delivery_enabled:
  assumes ok: "phase_ok sid mt items s ph" and valid: "is_ok (MessageType_new mt)" and "\<not> cs_done (py_consume s)"
    and run: "py_offer_stop s = None" "py_consume_stop s = None"
  shows "\<exists>l t. l \<in> {ToOffer, ToConsume} \<and> pull_step sid mt s l t \<and> py_offer_stop t = None \<and> py_consume_stop t = None"
proof (cases "ph = Pulling")
  case True
  then obtain m ms where m: "py_to_offer s = m # ms" "\<not> of_done (py_offer s)"
    using ok by (cases "py_to_offer s") (auto simp: phase_ok_def to_offer_live_def)
  obtain st out where o: "offer_on sid mt (py_offer s) m = (st, out)" by fastforce
  have "pull_step sid mt s ToOffer (s\<lparr> py_offer := st, py_to_offer := ms, py_to_consume := py_to_consume s @ sent out \<rparr>)"
    by (rule pull_step.to_offer [OF m run(1) o offer_answers_valid [OF valid o]])
  with run show ?thesis
    by fastforce
next
  case False
  then obtain m ms where m: "py_to_consume s = m # ms"
    using ok assms(3) run
    by (cases "py_to_consume s") (auto simp: phase_ok_def to_consume_live_def split: pull_phase.splits)
  obtain st out where c: "consume_on mt (py_consume s) m = (st, out)" by fastforce
  have "pull_step sid mt s ToConsume (s\<lparr> py_consume := st, py_to_consume := ms, py_to_offer := py_to_offer s @ sent out \<rparr>)"
    by (rule pull_step.to_consume [OF m assms(3) run(2) c])
  with run show ?thesis
    by fastforce
qed

section \<open>Properties\<close>

text \<open>
  C34. A pull stream delivers every item once and in order. In every state two handlers can reach
  while one offers items as a stream and the other consumes it, whichever publish fails, whichever wait times
  out or finds its stream closed, and even if the offering side panics because the item type is no message type,
  what the consumer was given is a prefix of the items; and when the consumer returns without an error, it has
  all of them, the offering side has published exactly that many and has ended too. Other messages may arrive
  on either side at any time, with these exceptions: none of them carries this stream's id as a pull, an item or
  an end, and until the consumer has taken the announcement of this stream none is a \<^verbatim>\<open>stream.ready\<close> for the
  same message type (it would bind the consumer to that other stream); later ones are ignored. The item type is
  not \<^verbatim>\<open>stream.end\<close> itself. A failed publish is taken not to have reached the engine.
\<close>

theorem pull_stream_delivers:
  assumes "mt \<noteq> ''stream.end''"
    and "reach (\<lambda>s. mt \<noteq> ''stream.end'' \<and> s = pull_initial sid mt items) (pull_step sid mt) s"
  shows "(\<exists>rest. items = map dr_payload (cs_items (py_consume s)) @ rest)
    \<and> (cs_done (py_consume s) \<longrightarrow> map dr_payload (cs_items (py_consume s)) = items
        \<and> of_published (py_offer s) = length items \<and> of_done (py_offer s))"
proof -
  obtain ph where "phase_ok sid mt items s ph"
    using pull_machine.reach_inv [OF assms(2)] by (auto simp: pull_ok_def)
  then show ?thesis
    by (cases ph) (auto simp: phase_ok_def got_def)
qed

lemma sample_pull_reach:
  "reach (\<lambda>s. ''a.b'' \<noteq> ''stream.end'' \<and> s = pull_initial ''s'' ''a.b'' [JInt 1]) (pull_step ''s'' ''a.b'')
     (pull_initial ''s'' ''a.b'' [JInt 1])"
  by (rule reach.reach_init) simp

theorem pull_stream_delivers_witness:
  "\<exists>rest. [JInt 1] = map dr_payload (cs_items (py_consume (pull_initial ''s'' ''a.b'' [JInt 1]))) @ rest"
  using pull_stream_delivers [OF _ sample_pull_reach] by simp

text \<open>
  C35. A pull stream ends, if the item type is a message type. As long as the consumer has not returned and neither
  side has stopped with an error (a failed publish, a timeout, a closed stream), one of the two has a message to
  take, and taking it stops neither; and every message taken brings the end strictly closer: starting from twice the
  number of items plus three, each delivery takes at least one off what is left to do, which only messages from
  outside the protocol add to. So neither side waits for the other until its timeout. With an item type that is no
  message type, and something to offer, it never ends: no item is ever delivered and the consumer never returns
  without an error, because the offering side panics at the first pull. What may arrive from outside the protocol is
  what C34 says: no message with this stream's id, and no \<^verbatim>\<open>stream.ready\<close> for the same message type until the
  consumer has taken this stream's.
\<close>

theorem pull_stream_ends:
  assumes "mt \<noteq> ''stream.end''"
    and "reach (\<lambda>s. mt \<noteq> ''stream.end'' \<and> s = pull_initial sid mt items) (pull_step sid mt) s"
  shows "(is_ok (MessageType_new mt) \<and> \<not> cs_done (py_consume s) \<and> py_offer_stop s = None \<and> py_consume_stop s = None \<longrightarrow>
        (\<exists>l t. l \<in> {ToOffer, ToConsume} \<and> pull_step sid mt s l t \<and> py_offer_stop t = None \<and> py_consume_stop t = None))
    \<and> (is_ok (MessageType_new mt) \<and> l \<in> {ToOffer, ToConsume} \<and> pull_step sid mt s l t \<longrightarrow>
        pull_work sid mt t < pull_work sid mt s \<and> py_offer_stop t = py_offer_stop s \<and> py_consume_stop t = py_consume_stop s)
    \<and> pull_work sid mt (pull_initial sid mt items) = 2 * length items + 3
    \<and> (\<not> is_ok (MessageType_new mt) \<and> items \<noteq> [] \<longrightarrow> \<not> cs_done (py_consume s) \<and> cs_items (py_consume s) = [])"
proof -
  obtain ph where ph: "phase_ok sid mt items s ph"
    using pull_machine.reach_inv [OF assms(2)] by (auto simp: pull_ok_def)
  have "pull_work sid mt t < pull_work sid mt s \<and> py_offer_stop t = py_offer_stop s \<and> py_consume_stop t = py_consume_stop s"
    if valid: "is_ok (MessageType_new mt)" and "l \<in> {ToOffer, ToConsume}" "pull_step sid mt s l t"
    using that(3,2)
  proof cases
    case (to_offer m ms st out)
    then show ?thesis
      using work_to_offer [OF ph to_offer(3,6) to_offer(2)] by simp
  next
    case (offer_panics m ms st out)
    then show ?thesis
      using offer_answers_valid [OF valid offer_panics(6)] by simp
  next
    case (to_consume m ms st out)
    then show ?thesis
      using work_to_consume [OF ph assms(1) to_consume(3,6) to_consume(2)] by simp
  qed auto
  moreover have "pull_work sid mt (pull_initial sid mt items) = 2 * length items + 3"
    by (simp add: pull_work_def pull_initial_def offer_init_def consume_init_def to_offer_live_def consume_noise_def bound_def)
  moreover have "\<not> cs_done (py_consume s) \<and> cs_items (py_consume s) = []" if "\<not> is_ok (MessageType_new mt)" "items \<noteq> []"
    using ph that by (cases ph) (auto simp: phase_ok_def got_def)
  ultimately show ?thesis
    using delivery_enabled [OF ph] by blast
qed

theorem pull_stream_ends_witness:
  "\<exists>l t. l \<in> {ToOffer, ToConsume} \<and> pull_step ''s'' ''a.b'' (pull_initial ''s'' ''a.b'' [JInt 1]) l t
     \<and> pull_work ''s'' ''a.b'' t < 5"
proof -
  have d: "\<not> cs_done (py_consume (pull_initial ''s'' ''a.b'' [JInt 1]))"
    "py_offer_stop (pull_initial ''s'' ''a.b'' [JInt 1]) = None" "py_consume_stop (pull_initial ''s'' ''a.b'' [JInt 1]) = None"
    by (simp_all add: pull_initial_def consume_init_def)
  have v: "is_ok (MessageType_new ''a.b'')"
    by code_simp
  obtain l t where lt: "l \<in> {ToOffer, ToConsume}" "pull_step ''s'' ''a.b'' (pull_initial ''s'' ''a.b'' [JInt 1]) l t"
    using pull_stream_ends [OF _ sample_pull_reach, of ToOffer "pull_initial ''s'' ''a.b'' [JInt 1]"] d v by auto
  then have "pull_work ''s'' ''a.b'' t < 5"
    using pull_stream_ends [OF _ sample_pull_reach, of l t] v by simp
  with lt show ?thesis
    by blast
qed

end
