(* ===== verification/Sdk_Client.thy ===== *)
theory Sdk_Client
  imports Topics Messages Publish_Watch
begin

text \<open>
  The client side of a connection, after \<^verbatim>\<open>sdks/rust/src/connection.rs\<close> and \<^verbatim>\<open>error.rs\<close>: connecting,
  the bridge from the engine's push notifications to a message stream, subscribing, publishing with
  and without acknowledgement, discovery, and the questions a primitive asks the engine over the bus.

  The IPC client is the library's: what its calls answer are arguments, and the frames a function
  sends are part of its result. Identifiers and times drawn while a message is made are inputs, as are
  \<^verbatim>\<open>str::to_lowercase\<close> (\<open>lower\<close>) and the texts of decoding errors. A panic is a value of its own.
\<close>

section \<open>Errors\<close>

datatype client_error =
    CE_ConnectionFailed string
  | CE_SocketNotFound string
  | CE_IoError string
  | CE_IpcError string
  | CE_SerializationError string
  | CE_SubscriptionFailed string
  | CE_InvalidSubscriptionTopic invalid_topic
  | CE_PublishFailed string
  | CE_DiscoveryFailed string
  | CE_Timeout
  | CE_EngineError string
  | CE_ProtocolError string

definition show_client_error :: "client_error \<Rightarrow> string" where
  "show_client_error e = (case e of
      CE_ConnectionFailed s \<Rightarrow> ''Failed to connect to engine: '' @ s
    | CE_SocketNotFound s \<Rightarrow> ''Engine socket not found at: '' @ s
    | CE_IoError s \<Rightarrow> ''Communication error: '' @ s
    | CE_IpcError s \<Rightarrow> ''IPC error: '' @ s
    | CE_SerializationError s \<Rightarrow> ''Serialization error: '' @ s
    | CE_SubscriptionFailed s \<Rightarrow> ''Subscription failed: '' @ s
    | CE_InvalidSubscriptionTopic t \<Rightarrow> ''Invalid subscription topic: '' @ show_invalid_topic t
    | CE_PublishFailed s \<Rightarrow> ''Publish failed: '' @ s
    | CE_DiscoveryFailed s \<Rightarrow> ''Discovery failed: '' @ s
    | CE_Timeout \<Rightarrow> ''Request timed out''
    | CE_EngineError s \<Rightarrow> ''Engine error: '' @ s
    | CE_ProtocolError s \<Rightarrow> ''Protocol error: '' @ s)"

section \<open>Connecting\<close>

definition resolve_socket_path :: "string option \<Rightarrow> string \<Rightarrow> string" where
  "resolve_socket_path env_socket default_path = (case env_socket of Some path \<Rightarrow> path | None \<Rightarrow> default_path)"

definition connect_to_engine ::
  "string option \<Rightarrow> string \<Rightarrow> (string \<Rightarrow> bool) \<Rightarrow> (string \<Rightarrow> bool) \<Rightarrow> (string \<Rightarrow> (string, 'c) result)
     \<Rightarrow> string option \<Rightarrow> (client_error, 'c) result" where
  "connect_to_engine env_socket default_path socket_exists socket_is_alive connect socket_override =
     (let socket_path = (case socket_override of
            Some path \<Rightarrow> path | None \<Rightarrow> resolve_socket_path env_socket default_path)
      in if \<not> socket_exists socket_path then Err (CE_SocketNotFound socket_path)
         else if \<not> socket_is_alive socket_path
         then Err (CE_ConnectionFailed ''Engine socket exists but is not responding'')
         else case connect socket_path of Inl e \<Rightarrow> Err (CE_ConnectionFailed e) | Inr c \<Rightarrow> Ok c)"

section \<open>From notifications to messages\<close>

definition parse_unwrap_flag :: "string option \<Rightarrow> bool" where
  "parse_unwrap_flag value = (case map_option trim value of
      None \<Rightarrow> False | Some v \<Rightarrow> eq_ignore_ascii_case v ''true'' \<or> v = ''1'')"

definition kind_of :: "(string \<Rightarrow> string) \<Rightarrow> json \<Rightarrow> string option" where
  "kind_of lower value = map_option lower (Option.bind (json_get ''kind'' value) json_as_str)"

definition extract_shutdown_kind :: "(string \<Rightarrow> string) \<Rightarrow> json \<Rightarrow> string option" where
  "extract_shutdown_kind lower payload =
     (case Option.bind (json_get ''payload'' payload) (kind_of lower) of
        Some k \<Rightarrow> Some k | None \<Rightarrow> kind_of lower payload)"

definition carries_emergent_message :: "string \<Rightarrow> bool" where
  "carries_emergent_message message_type = is_ok (MessageType_new message_type)"

record push_notification =
  pn_message_type :: string
  pn_source_actor :: "string option"
  pn_payload :: json

datatype 't bridged = BridgeStop | BridgeSkip | BridgeForward "'t emergent_message" | BridgePanic

text \<open>The message of a notification: the envelope in its payload, or one made from its fields.\<close>

definition notification_message ::
  "(string \<Rightarrow> ('e, 't) result) \<Rightarrow> ('t \<Rightarrow> string) \<Rightarrow> 't message_id \<Rightarrow> timestamp \<Rightarrow> push_notification
     \<Rightarrow> 't emergent_message option" where
  "notification_message from_str prefix_of mid ts n =
     (case message_from_value from_str prefix_of (pn_payload n) of
        Some msg \<Rightarrow> Some msg
      | None \<Rightarrow> do {
          m \<leftarrow> new_with_id_and_timestamp (pn_message_type n) mid ts;
          m \<leftarrow> with_source (case pn_source_actor n of Some s \<Rightarrow> s | None \<Rightarrow> ''unknown'') m;
          Some (with_payload (pn_payload n) m)
        })"

definition bridge_notification ::
  "(string \<Rightarrow> ('e, 't) result) \<Rightarrow> ('t \<Rightarrow> string) \<Rightarrow> (string \<Rightarrow> json option) \<Rightarrow> (string \<Rightarrow> string)
     \<Rightarrow> bool \<Rightarrow> string \<Rightarrow> 't message_id \<Rightarrow> timestamp \<Rightarrow> push_notification \<Rightarrow> 't bridged" where
  "bridge_notification from_str prefix_of parse_json lower auto_unwrap shutdown_kind mid ts n =
     (if pn_message_type n = ''system.shutdown'' then
        (case extract_shutdown_kind lower (pn_payload n) of
           Some kind \<Rightarrow> if eq_ignore_ascii_case kind shutdown_kind then BridgeStop else BridgeSkip
         | None \<Rightarrow> BridgeSkip)
      else if \<not> carries_emergent_message (pn_message_type n) then BridgeSkip
      else case notification_message from_str prefix_of mid ts n of
        None \<Rightarrow> BridgePanic
      | Some msg \<Rightarrow> BridgeForward
          (if auto_unwrap \<and> \<not> starts_with (msg_type msg) ''system.'' then unwrap_stdout parse_json msg else msg))"

datatype bridge_ending = PushChannelClosed | EngineShutdown | ReceiverDropped | Panicked

text \<open>
  One input of the bridge is a notification, with the identifier and time drawn for it and whether the
  stream's receiver is still there when its message is sent. The channel closes when the inputs end.
\<close>

fun push_to_message_stream ::
  "('i \<Rightarrow> 't bridged) \<Rightarrow> ('i \<times> bool) list \<Rightarrow> 't emergent_message list \<times> bridge_ending" where
  "push_to_message_stream step [] = ([], PushChannelClosed)"
| "push_to_message_stream step ((n, receiver_there) # ins) = (case step n of
      BridgeStop \<Rightarrow> ([], EngineShutdown)
    | BridgePanic \<Rightarrow> ([], Panicked)
    | BridgeSkip \<Rightarrow> push_to_message_stream step ins
    | BridgeForward msg \<Rightarrow>
        if \<not> receiver_there then ([], ReceiverDropped)
        else (case push_to_message_stream step ins of (out, e) \<Rightarrow> (msg # out, e)))"

section \<open>Subscribing\<close>

definition already_streaming :: string where
  "already_streaming = ''this client already has a message stream: pass every topic to one subscribe call, or connect another client''"

definition ensure_first_subscribe :: "bool \<Rightarrow> (client_error, unit) result" where
  "ensure_first_subscribe has_stream = (if has_stream then Err (CE_SubscriptionFailed already_streaming) else Ok ())"

record sub_response =
  sbr_success :: bool
  sbr_error :: "string option"
  sbr_subscribed_types :: "string list"
  sbr_subscribed_patterns :: "string list"

text \<open>What the engine answers to the two kinds of subscribe frame; \<open>Inl\<close> is a transport error.\<close>

record engine_answers =
  ea_subscribe :: "string list \<Rightarrow> (string, sub_response) result"
  ea_subscribe_patterns :: "string list \<Rightarrow> (string, sub_response) result"

datatype sub_frame = ExactFrame "string list" | PatternFrame "string list"

definition response_error :: "sub_response \<Rightarrow> client_error" where
  "response_error r = CE_SubscriptionFailed (case sbr_error r of Some e \<Rightarrow> e | None \<Rightarrow> ''unknown error'')"

definition with_shutdown_topic :: "string list \<Rightarrow> string list" where
  "with_shutdown_topic types = (if list_ex (\<lambda>t. t = ''system.shutdown'') types then types else types @ [''system.shutdown''])"

text \<open>The pattern request, when there are patterns; the last part takes the push receiver.\<close>

definition subscribe_pattern_part ::
  "engine_answers \<Rightarrow> string list \<Rightarrow> sub_frame list \<times> (client_error, string list) result" where
  "subscribe_pattern_part eng patterns =
     (if patterns = [] then ([], Ok [])
      else ([PatternFrame patterns], case ea_subscribe_patterns eng patterns of
          Inl e \<Rightarrow> Err (CE_SubscriptionFailed (''pattern subscribe failed: '' @ e))
        | Inr r \<Rightarrow> if sbr_success r then Ok (sbr_subscribed_patterns r) else Err (response_error r)))"

definition subscribe_and_stream ::
  "engine_answers \<Rightarrow> bool \<Rightarrow> string list \<Rightarrow> sub_frame list \<times> (client_error, string list) result" where
  "subscribe_and_stream eng push_there topics = (case partition_topics topics of
      Inl e \<Rightarrow> ([], Err (CE_InvalidSubscriptionTopic e))
    | Inr part \<Rightarrow>
        (let all_types = with_shutdown_topic (tp_exact part)
         in case ea_subscribe eng all_types of
              Inl e \<Rightarrow> ([ExactFrame all_types], Err (CE_SubscriptionFailed (''subscribe failed: '' @ e)))
            | Inr r \<Rightarrow>
                if \<not> sbr_success r then ([ExactFrame all_types], Err (response_error r))
                else (case subscribe_pattern_part eng (tp_patterns part) of
                    (frames, Inl e) \<Rightarrow> (ExactFrame all_types # frames, Err e)
                  | (frames, Inr pattern_subs) \<Rightarrow> (ExactFrame all_types # frames,
                      if \<not> push_there
                      then Err (CE_SubscriptionFailed ''push receiver already taken (subscribe called more than once?)'')
                      else Ok (filter (\<lambda>s. s \<noteq> ''system.shutdown'') (sbr_subscribed_types r) @ pattern_subs)))))"

text \<open>What a Handler and a Sink keep between calls; \<open>cl_push\<close>: the push receiver has not been taken.\<close>

record sdk_client =
  cl_name :: string
  cl_subscribed_types :: "string list"
  cl_has_stream :: bool
  cl_push :: bool

record message_stream =
  ms_name :: string
  ms_shutdown_kind :: string

definition client_new :: "string \<Rightarrow> sdk_client" where
  "client_new name = \<lparr> cl_name = name, cl_subscribed_types = [], cl_has_stream = False, cl_push = True \<rparr>"

definition client_subscribe ::
  "string \<Rightarrow> engine_answers \<Rightarrow> string list \<Rightarrow> sdk_client \<Rightarrow> sdk_client \<times> sub_frame list \<times> (client_error, message_stream) result" where
  "client_subscribe shutdown_kind eng topics c = (case ensure_first_subscribe (cl_has_stream c) of
      Inl e \<Rightarrow> (c, [], Err e)
    | Inr _ \<Rightarrow> (case subscribe_and_stream eng (cl_push c) topics of
          (frames, Inl e) \<Rightarrow> (c, frames, Err e)
        | (frames, Inr user_subs) \<Rightarrow>
            (c\<lparr> cl_subscribed_types := user_subs, cl_has_stream := True, cl_push := False \<rparr>, frames,
             Ok \<lparr> ms_name = cl_name c, ms_shutdown_kind = shutdown_kind \<rparr>)))"

definition handler_subscribe ::
  "engine_answers \<Rightarrow> string list \<Rightarrow> sdk_client \<Rightarrow> sdk_client \<times> sub_frame list \<times> (client_error, message_stream) result" where
  "handler_subscribe = client_subscribe ''handler''"

definition sink_subscribe ::
  "engine_answers \<Rightarrow> string list \<Rightarrow> sdk_client \<Rightarrow> sdk_client \<times> sub_frame list \<times> (client_error, message_stream) result" where
  "sink_subscribe = client_subscribe ''sink''"

text \<open>
  \<^verbatim>\<open>messages\<close>: the topics given, or the configured ones when none are. \<open>connected\<close> and \<open>configured\<close> are
  what connecting and asking the engine for the configured topics return; a Handler asks before it
  connects, a Sink after.
\<close>

definition handler_messages ::
  "(client_error, unit) result \<Rightarrow> (client_error, string list) result \<Rightarrow> engine_answers \<Rightarrow> string \<Rightarrow> string list
     \<Rightarrow> sub_frame list \<times> (client_error, sdk_client \<times> message_stream) result" where
  "handler_messages connected configured eng name requested =
     (case if needs_configured_topics requested then configured else Ok [] of
        Inl e \<Rightarrow> ([], Err e)
      | Inr conf \<Rightarrow> (case connected of
          Inl e \<Rightarrow> ([], Err e)
        | Inr _ \<Rightarrow> (case handler_subscribe eng (resolve_topics requested conf) (client_new name) of
            (c, frames, Inl e) \<Rightarrow> (frames, Err e)
          | (c, frames, Inr stream) \<Rightarrow> (frames, Ok (c, stream)))))"

definition sink_messages ::
  "(client_error, unit) result \<Rightarrow> (client_error, string list) result \<Rightarrow> engine_answers \<Rightarrow> string \<Rightarrow> string list
     \<Rightarrow> sub_frame list \<times> (client_error, message_stream) result" where
  "sink_messages connected configured eng name requested = (case connected of
      Inl e \<Rightarrow> ([], Err e)
    | Inr _ \<Rightarrow> (case if needs_configured_topics requested then configured else Ok [] of
          Inl e \<Rightarrow> ([], Err e)
        | Inr conf \<Rightarrow> snd (sink_subscribe eng (resolve_topics requested conf) (client_new name))))"

section \<open>Publishing\<close>

record ipc_envelope =
  ie_target :: string
  ie_message_type :: string
  ie_payload :: json
  ie_expects_reply :: bool

definition ipc_emergent_message :: "('t \<Rightarrow> string) \<Rightarrow> 't emergent_message \<Rightarrow> json" where
  "ipc_emergent_message to_str message = JObject [(''inner'', message_to_value to_str message)]"

definition build_publish_envelope :: "('t \<Rightarrow> string) \<Rightarrow> 't emergent_message \<Rightarrow> ipc_envelope" where
  "build_publish_envelope to_str message =
     \<lparr> ie_target = ''message_broker'', ie_message_type = ''EmergentMessage'',
       ie_payload = ipc_emergent_message to_str message, ie_expects_reply = False \<rparr>"

definition build_publish_request_envelope :: "('t \<Rightarrow> string) \<Rightarrow> 't emergent_message \<Rightarrow> ipc_envelope" where
  "build_publish_request_envelope to_str message =
     \<lparr> ie_target = ''message_broker'', ie_message_type = ''EmergentMessage'',
       ie_payload = ipc_emergent_message to_str message, ie_expects_reply = True \<rparr>"

text \<open>The name of the primitive goes into a message that has no source of its own.\<close>

definition stamp_source :: "string \<Rightarrow> 't emergent_message \<Rightarrow> (client_error, 't emergent_message) result" where
  "stamp_source name message =
     (if PrimitiveName_is_default (msg_source message) then
        (case PrimitiveName_new name of
           Inl e \<Rightarrow> Err (CE_ConnectionFailed (''invalid primitive name '' @ quoted name @ '': '' @ show_invalid_primitive_name e))
         | Inr n \<Rightarrow> Ok (with_source_name n message))
      else Ok message)"

record publisher =
  pb_name :: string
  pb_watcher :: "ipc_envelope watcher"

definition with_client :: "string \<Rightarrow> publisher" where
  "with_client name = \<lparr> pb_name = name, pb_watcher = watcher_spawn \<rparr>"

text \<open>
  \<^verbatim>\<open>publish\<close> of a Source and of a Handler: \<open>None\<close> while it waits for room in the queue. The two flags are
  the client's connection before and after that wait.
\<close>

definition sdk_publish ::
  "('t \<Rightarrow> string) \<Rightarrow> bool \<Rightarrow> bool \<Rightarrow> 't emergent_message \<Rightarrow> publisher
     \<Rightarrow> (client_error, unit) result option \<times> publisher" where
  "sdk_publish to_str before after message p = (case stamp_source (pb_name p) message of
      Inl e \<Rightarrow> (Some (Err e), p)
    | Inr message \<Rightarrow>
        (case watch_publish before after (build_publish_envelope to_str message) (msg_type message) (pb_watcher p) of
           (answer, w) \<Rightarrow>
             (map_option (\<lambda>r. case r of Inl e \<Rightarrow> Err (CE_ConnectionFailed e) | Inr _ \<Rightarrow> Ok ()) answer,
              p\<lparr> pb_watcher := w \<rparr>)))"

text \<open>
  \<^verbatim>\<open>publish_ack\<close>: \<open>flush\<close> is what becomes of the watcher while the call waits for its flush, \<open>request\<close>
  what the broker answers (\<open>Inl\<close>: a transport error; otherwise success and the engine's error text).
  The frame it sends is part of the result.
\<close>

definition ack_verdict :: "(string, bool \<times> string option) result \<Rightarrow> (client_error, unit) result" where
  "ack_verdict answer = (case answer of
      Inl e \<Rightarrow> Err (CE_ConnectionFailed (''publish_ack failed: '' @ e))
    | Inr (success, error) \<Rightarrow>
        if success then Ok () else Err (CE_PublishFailed (case error of Some e \<Rightarrow> e | None \<Rightarrow> ''broker error'')))"

definition publish_ack ::
  "('t \<Rightarrow> string) \<Rightarrow> (ipc_envelope watcher \<Rightarrow> ipc_envelope watcher)
     \<Rightarrow> (ipc_envelope \<Rightarrow> (string, bool \<times> string option) result) \<Rightarrow> 't emergent_message \<Rightarrow> publisher
     \<Rightarrow> ipc_envelope list \<times> (client_error, unit) result \<times> publisher" where
  "publish_ack to_str flush request message p = (case stamp_source (pb_name p) message of
      Inl e \<Rightarrow> ([], Err e, p)
    | Inr message \<Rightarrow>
        (let envelope = build_publish_request_envelope to_str message; w = flush (pb_watcher p)
         in ([envelope], ack_verdict (request envelope), p\<lparr> pb_watcher := w \<rparr>)))"

text \<open>\<^verbatim>\<open>publish_all\<close> and \<^verbatim>\<open>publish_stream\<close>: one after the other, until one fails.\<close>

fun publish_all ::
  "('m \<Rightarrow> 's \<Rightarrow> 'f list \<times> ('e, unit) result \<times> 's) \<Rightarrow> nat \<Rightarrow> 'm list \<Rightarrow> 's \<Rightarrow> 'f list \<times> ('e, nat) result \<times> 's" where
  "publish_all ack count [] s = ([], Ok count, s)"
| "publish_all ack count (message # messages) s = (case ack message s of
      (sent, Inl e, s') \<Rightarrow> (sent, Err e, s')
    | (sent, Inr _, s') \<Rightarrow> (case publish_all ack (Suc count) messages s' of (sent', r, s'') \<Rightarrow> (sent @ sent', r, s'')))"

definition publish_stats_of :: "publisher \<Rightarrow> publish_stats" where
  "publish_stats_of p = watch_stats (pb_watcher p)"

text \<open>\<^verbatim>\<open>disconnect\<close>: the watcher is shut down first; \<open>task\<close> is what it does until it ends.\<close>

definition disconnect ::
  "(ipc_envelope watcher \<Rightarrow> ipc_envelope watcher) \<Rightarrow> (string, unit) result \<Rightarrow> publisher \<Rightarrow> (client_error, unit) result \<times> publisher" where
  "disconnect task client_disconnect p =
     (case client_disconnect of
        Inl e \<Rightarrow> Err (CE_ConnectionFailed (''disconnect failed: '' @ e))
      | Inr _ \<Rightarrow> Ok (),
      p\<lparr> pb_watcher := task (watch_shutdown (pb_watcher p)) \<rparr>)"

section \<open>Questions to the engine\<close>

record discovery_response =
  dsr_success :: bool
  dsr_error :: "string option"
  dsr_actors :: "string list option"
  dsr_message_types :: "string list option"

record discovery_info =
  dsi_message_types :: "string list"
  dsi_primitives :: "(string \<times> string) list"

definition discover :: "(client_error, unit) result \<Rightarrow> (string, discovery_response) result \<Rightarrow> (client_error, discovery_info) result" where
  "discover connected answer = (case connected of
      Inl e \<Rightarrow> Err e
    | Inr _ \<Rightarrow> (case answer of
        Inl e \<Rightarrow> Err (CE_ConnectionFailed (''discover failed: '' @ e))
      | Inr r \<Rightarrow>
          if \<not> dsr_success r
          then Err (CE_DiscoveryFailed (case dsr_error r of Some e \<Rightarrow> e | None \<Rightarrow> ''unknown error''))
          else Ok \<lparr> dsi_message_types = (case dsr_message_types r of Some ts \<Rightarrow> ts | None \<Rightarrow> []),
                 dsi_primitives = map (\<lambda>name. (name, [])) (case dsr_actors r of Some as \<Rightarrow> as | None \<Rightarrow> []) \<rparr>))"

text \<open>Reading the fields of an answer.\<close>

fun read_all :: "('a \<Rightarrow> 'b option) \<Rightarrow> 'a list \<Rightarrow> 'b list option" where
  "read_all f [] = Some []"
| "read_all f (x # xs) = (case f x of None \<Rightarrow> None | Some y \<Rightarrow> map_option (\<lambda>ys. y # ys) (read_all f xs))"

definition read_list :: "(json \<Rightarrow> 'b option) \<Rightarrow> json option \<Rightarrow> 'b list option" where
  "read_list f v = (case v of Some (JArray vs) \<Rightarrow> read_all f vs | _ \<Rightarrow> None)"

definition read_u32 :: "json \<Rightarrow> u32 option" where
  "read_u32 v = (case v of JInt i \<Rightarrow> if 0 \<le> i \<and> i < 2 ^ 32 then Some (word_of_int i) else None | _ \<Rightarrow> None)"

definition read_optional :: "(json \<Rightarrow> 'b option) \<Rightarrow> json option \<Rightarrow> 'b option option" where
  "read_optional f v = (case v of None \<Rightarrow> Some None | Some JNull \<Rightarrow> Some None | Some w \<Rightarrow> map_option Some (f w))"

definition decode_subscriptions :: "json \<Rightarrow> string list option" where
  "decode_subscriptions v = read_list json_as_str (json_get ''subscribes'' v)"

record sdk_topology_primitive =
  stp_name :: string
  stp_kind :: string
  stp_state :: string
  stp_publishes :: "string list"
  stp_subscribes :: "string list"
  stp_pid :: "u32 option"
  stp_error :: "string option"

definition decode_topology_primitive :: "json \<Rightarrow> sdk_topology_primitive option" where
  "decode_topology_primitive v = do {
     n \<leftarrow> Option.bind (json_get ''name'' v) json_as_str;
     k \<leftarrow> Option.bind (json_get ''kind'' v) json_as_str;
     st \<leftarrow> Option.bind (json_get ''state'' v) json_as_str;
     ps \<leftarrow> read_list json_as_str (json_get ''publishes'' v);
     ss \<leftarrow> read_list json_as_str (json_get ''subscribes'' v);
     p \<leftarrow> read_optional read_u32 (json_get ''pid'' v);
     e \<leftarrow> read_optional json_as_str (json_get ''error'' v);
     Some \<lparr> stp_name = n, stp_kind = k, stp_state = st, stp_publishes = ps, stp_subscribes = ss, stp_pid = p, stp_error = e \<rparr>
   }"

definition decode_topology :: "json \<Rightarrow> sdk_topology_primitive list option" where
  "decode_topology v = read_list decode_topology_primitive (json_get ''primitives'' v)"

text \<open>The requests; \<open>None\<close> is the panic on a name that cannot be the source of a message.\<close>

definition subscriptions_request :: "string \<Rightarrow> 't correlation_id \<Rightarrow> 't message_id \<Rightarrow> timestamp \<Rightarrow> 't emergent_message option" where
  "subscriptions_request name cid mid ts = do {
     m \<leftarrow> new_with_id_and_timestamp ''system.request.subscriptions'' mid ts;
     m \<leftarrow> with_source name m;
     Some (with_payload (JObject [(''name'', JString name)]) (with_correlation_id cid m))
   }"

definition topology_request :: "string \<Rightarrow> 't correlation_id \<Rightarrow> 't message_id \<Rightarrow> timestamp \<Rightarrow> 't emergent_message option" where
  "topology_request name cid mid ts = do {
     m \<leftarrow> new_with_id_and_timestamp ''system.request.topology'' mid ts;
     m \<leftarrow> with_source name m;
     Some (with_payload (JObject []) (with_correlation_id cid m))
   }"

datatype push_input = Push push_notification | PushClosed | PushTimeout

text \<open>
  Waiting for the answer with the request's correlation identifier. A notification of the right type
  that is no envelope, or an answer whose payload does not decode, ends the wait with an error.
\<close>

fun await_response ::
  "(json \<Rightarrow> 't emergent_message option) \<Rightarrow> ('t \<Rightarrow> string) \<Rightarrow> (json \<Rightarrow> string) \<Rightarrow> string \<Rightarrow> (json \<Rightarrow> 'a option)
     \<Rightarrow> 't correlation_id \<Rightarrow> push_input list \<Rightarrow> (client_error, 'a) result option" where
  "await_response read to_str serde_error topic decode cid [] = None"
| "await_response read to_str serde_error topic decode cid (PushTimeout # ins) = Some (Err CE_Timeout)"
| "await_response read to_str serde_error topic decode cid (PushClosed # ins) =
     Some (Err (CE_ConnectionFailed ''push channel closed before response''))"
| "await_response read to_str serde_error topic decode cid (Push n # ins) =
     (if pn_message_type n \<noteq> topic then await_response read to_str serde_error topic decode cid ins
      else case read (pn_payload n) of
        None \<Rightarrow> Some (Err (CE_SerializationError (serde_error (pn_payload n))))
      | Some msg \<Rightarrow>
          if map_option (\<lambda>c. to_str (CorrelationId_inner c)) (msg_correlation_id msg) = Some (to_str (CorrelationId_inner cid))
          then Some (case decode (msg_payload msg) of
              None \<Rightarrow> Err (CE_SerializationError (serde_error (msg_payload msg)))
            | Some a \<Rightarrow> Ok a)
          else await_response read to_str serde_error topic decode cid ins)"

text \<open>
  The two questions: connect, subscribe to the answer (whose response the code does not look at, only
  whether the call failed), send the request, wait. The push receiver is there: the connection is new.
\<close>

definition ask_engine ::
  "(client_error, unit) result \<Rightarrow> (string, sub_response) result \<Rightarrow> (ipc_envelope \<Rightarrow> (string, unit) result)
     \<Rightarrow> ipc_envelope option \<Rightarrow> (client_error, 'a) result option \<Rightarrow> (client_error, 'a) result option" where
  "ask_engine connected subscribed send envelope awaited = (case connected of
      Inl e \<Rightarrow> Some (Err e)
    | Inr _ \<Rightarrow> (case subscribed of
        Inl e \<Rightarrow> Some (Err (CE_SubscriptionFailed (''subscribe failed: '' @ e)))
      | Inr _ \<Rightarrow> Option.bind envelope (\<lambda>env. case send env of
          Inl e \<Rightarrow> Some (Err (CE_ConnectionFailed (''publish failed: '' @ e)))
        | Inr _ \<Rightarrow> awaited)))"

text \<open>
  \<open>None\<close> where the request cannot be made (the panic) or, in the wait, where no input is left.
\<close>

definition get_my_subscriptions ::
  "(string \<Rightarrow> ('e, 't) result) \<Rightarrow> ('t \<Rightarrow> string) \<Rightarrow> ('t \<Rightarrow> string) \<Rightarrow> (json \<Rightarrow> string)
     \<Rightarrow> (client_error, unit) result \<Rightarrow> (string, sub_response) result \<Rightarrow> (ipc_envelope \<Rightarrow> (string, unit) result)
     \<Rightarrow> 't correlation_id \<Rightarrow> 't message_id \<Rightarrow> timestamp \<Rightarrow> string \<Rightarrow> push_input list \<Rightarrow> (client_error, string list) result option" where
  "get_my_subscriptions from_str prefix_of to_str serde_error connected subscribed send cid mid ts name ins =
     ask_engine connected subscribed send (map_option (build_publish_envelope to_str) (subscriptions_request name cid mid ts))
         (await_response (message_from_value from_str prefix_of) to_str serde_error
            ''system.response.subscriptions'' decode_subscriptions cid ins)"

definition get_topology ::
  "(string \<Rightarrow> ('e, 't) result) \<Rightarrow> ('t \<Rightarrow> string) \<Rightarrow> ('t \<Rightarrow> string) \<Rightarrow> (json \<Rightarrow> string)
     \<Rightarrow> (client_error, unit) result \<Rightarrow> (string, sub_response) result \<Rightarrow> (ipc_envelope \<Rightarrow> (string, unit) result)
     \<Rightarrow> 't correlation_id \<Rightarrow> 't message_id \<Rightarrow> timestamp \<Rightarrow> string \<Rightarrow> push_input list
     \<Rightarrow> (client_error, sdk_topology_primitive list) result option" where
  "get_topology from_str prefix_of to_str serde_error connected subscribed send cid mid ts name ins =
     ask_engine connected subscribed send (map_option (build_publish_envelope to_str) (topology_request name cid mid ts))
         (await_response (message_from_value from_str prefix_of) to_str serde_error
            ''system.response.topology'' decode_topology cid ins)"

section \<open>Lemmas\<close>

text \<open>A stream nobody has dropped carries what is forwarded before the first stop or panic.\<close>

definition bridge_ends :: "'t bridged \<Rightarrow> bool" where
  "bridge_ends b = (case b of BridgeStop \<Rightarrow> True | BridgePanic \<Rightarrow> True | _ \<Rightarrow> False)"

definition forwarded_message :: "'t bridged \<Rightarrow> 't emergent_message option" where
  "forwarded_message b = (case b of BridgeForward m \<Rightarrow> Some m | _ \<Rightarrow> None)"

lemma push_stream_eq:
  assumes "list_all snd ins"
  shows "push_to_message_stream step ins =
    (List.map_filter (\<lambda>(n, _). forwarded_message (step n)) (takeWhile (\<lambda>(n, _). \<not> bridge_ends (step n)) ins),
     case dropWhile (\<lambda>(n, _). \<not> bridge_ends (step n)) ins of
       [] \<Rightarrow> PushChannelClosed
     | (n, _) # _ \<Rightarrow> (case step n of BridgePanic \<Rightarrow> Panicked | _ \<Rightarrow> EngineShutdown))"
  using assms
proof (induction step ins rule: push_to_message_stream.induct)
  case (2 step n there ins)
  then show ?case
    by (cases "step n") (auto simp: bridge_ends_def forwarded_message_def List.map_filter_simps)
qed (simp add: List.map_filter_simps)

lemma new_same: "PrimitiveName_new s = Ok n \<Longrightarrow> n = s" "MessageType_new t = Ok u \<Longrightarrow> u = t"
  by (simp_all add: PrimitiveName_new_Ok_iff MessageType_new_Ok_iff)

lemma with_source_Some_iff: "with_source s m = Some m' \<longleftrightarrow> is_ok (PrimitiveName_new s) \<and> m' = m\<lparr>msg_source := s\<rparr>"
  by (cases "PrimitiveName_new s") (auto simp: with_source_def try_with_source_def dest: new_same)

lemma new_message_Some_iff:
  "new_with_id_and_timestamp mt mid ts = Some m \<longleftrightarrow> is_ok (MessageType_new mt)
     \<and> m = \<lparr>msg_id = mid, msg_type = mt, msg_source = PrimitiveName_unknown, msg_correlation_id = None,
        msg_causation_id = None, msg_timestamp_ms = ts, msg_payload = JNull, msg_metadata = None\<rparr>"
  by (cases "MessageType_new mt") (auto simp: new_with_id_and_timestamp_def try_new_with_id_and_timestamp_def dest: new_same)

text \<open>An envelope that reads back is forwarded as it was sent.\<close>

lemma bridge_of_envelope:
  assumes "message_from_value from_str prefix_of (pn_payload n) = Some m" "pn_message_type n = msg_type m"
    "is_ok (MessageType_new (msg_type m))" "msg_type m \<noteq> ''system.shutdown''"
  shows "bridge_notification from_str prefix_of parse_json lower False kind mid ts n = BridgeForward m"
  using assms by (simp add: bridge_notification_def notification_message_def carries_emergent_message_def)

lemma subscribe_and_stream_Ok:
  assumes "subscribe_and_stream eng push_there ts = (frames, Ok subs)"
  obtains part where "partition_topics ts = Ok part" "push_there"
    "frames = ExactFrame (with_shutdown_topic (tp_exact part))
       # (if tp_patterns part = [] then [] else [PatternFrame (tp_patterns part)])"
  using assms
  by (auto simp: subscribe_and_stream_def subscribe_pattern_part_def Let_def split: sum.splits if_splits prod.splits)

lemma subscribe_and_stream_invalid:
  "\<not> list_all (\<lambda>t. is_ok (classify_topic t)) ts \<Longrightarrow>
     \<exists>e. subscribe_and_stream eng push_there ts = ([], Err (CE_InvalidSubscriptionTopic e))"
  using partition_topics_split(3) [of ts]
  by (auto simp: subscribe_and_stream_def list_all_iff split: sum.splits)

lemma client_subscribe_cases [consumes 1, case_names refused failed started]:
  assumes "client_subscribe kind eng ts c = (c', frames, r)"
  obtains "cl_has_stream c" "c' = c" "frames = []" "r = Err (CE_SubscriptionFailed already_streaming)"
  | e where "\<not> cl_has_stream c" "c' = c" "subscribe_and_stream eng (cl_push c) ts = (frames, Err e)" "r = Err e"
  | subs where "\<not> cl_has_stream c" "subscribe_and_stream eng (cl_push c) ts = (frames, Ok subs)"
      "c' = c\<lparr> cl_subscribed_types := subs, cl_has_stream := True, cl_push := False \<rparr>"
      "r = Ok \<lparr> ms_name = cl_name c, ms_shutdown_kind = kind \<rparr>"
proof (cases "cl_has_stream c")
  case True
  then have "c' = c" "frames = []" "r = Err (CE_SubscriptionFailed already_streaming)"
    using assms by (simp_all add: client_subscribe_def ensure_first_subscribe_def)
  with True that(1) show thesis
    by blast
next
  case False
  obtain fs q where q: "subscribe_and_stream eng (cl_push c) ts = (fs, q)"
    by fastforce
  show thesis
  proof (cases q)
    case (Inl e)
    then have "c' = c" "frames = fs" "r = Err e"
      using assms False q by (simp_all add: client_subscribe_def ensure_first_subscribe_def)
    with False q Inl that(2) show thesis
      by blast
  next
    case (Inr subs)
    then have "c' = c\<lparr> cl_subscribed_types := subs, cl_has_stream := True, cl_push := False \<rparr>" "frames = fs"
      "r = Ok \<lparr> ms_name = cl_name c, ms_shutdown_kind = kind \<rparr>"
      using assms False q by (simp_all add: client_subscribe_def ensure_first_subscribe_def)
    with False q Inr that(3) show thesis
      by blast
  qed
qed

lemma set_with_shutdown_topic [simp]: "set (with_shutdown_topic ts) = insert ''system.shutdown'' (set ts)"
  by (auto simp: with_shutdown_topic_def list_ex_iff)

section \<open>Properties\<close>

text \<open>What a frame asks the engine for: a literal by equality, a pattern by its prefix.\<close>

definition frame_selects :: "string \<Rightarrow> sub_frame \<Rightarrow> bool" where
  "frame_selects m f = (case f of
      ExactFrame ts \<Rightarrow> m \<in> set ts
    | PatternFrame ts \<Rightarrow> list_ex (\<lambda>t. case pattern_prefix t of Some pre \<Rightarrow> starts_with m pre | None \<Rightarrow> False) ts)"

text \<open>
  A client has one stream, and it carries what was asked for. A subscribe on a client that has a
  stream already, or with a topic that could never match, sends nothing and changes nothing. A
  subscribe that succeeds has asked the engine for exactly the message types some topic matches and
  for \<^verbatim>\<open>system.shutdown\<close>, and every later subscribe on that client is refused. One that fails leaves
  the client as it was.
\<close>

theorem one_stream_per_client:
  assumes "client_subscribe kind eng ts c = (c', frames, r)"
  shows "((cl_has_stream c \<or> \<not> list_all (\<lambda>t. is_ok (classify_topic t)) ts) \<longrightarrow> frames = [] \<and> \<not> is_ok r)
    \<and> (\<not> is_ok r \<longrightarrow> c' = c)
    \<and> (is_ok r \<longrightarrow>
        (list_ex (frame_selects m) frames \<longleftrightarrow> m = ''system.shutdown'' \<or> (\<exists>t \<in> set ts. topic_matches t m))
        \<and> client_subscribe kind' eng' ts' c' = (c', [], Err (CE_SubscriptionFailed already_streaming)))"
  using assms
proof (cases rule: client_subscribe_cases)
  case (started subs)
  obtain part where p: "partition_topics ts = Ok part"
    "frames = ExactFrame (with_shutdown_topic (tp_exact part))
       # (if tp_patterns part = [] then [] else [PatternFrame (tp_patterns part)])"
    by (rule subscribe_and_stream_Ok [OF started(2)])
  have "list_ex (frame_selects m) frames \<longleftrightarrow> m = ''system.shutdown'' \<or> (\<exists>t \<in> set ts. topic_matches t m)"
    unfolding partition_topics_split(4) [OF p(1)]
    by (auto simp: p(2) frame_selects_def list_ex_iff split: option.splits)
  then show ?thesis
    using started partition_topics_split(3) [OF p(1)]
    by (simp add: client_subscribe_def ensure_first_subscribe_def list_all_iff)
next
  case (failed e)
  then show ?thesis
    using subscribe_and_stream_invalid [of ts eng "cl_push c"] by auto
qed simp

definition accepting_engine :: engine_answers where
  "accepting_engine = \<lparr>
     ea_subscribe = \<lambda>ts. Ok \<lparr> sbr_success = True, sbr_error = None, sbr_subscribed_types = ts, sbr_subscribed_patterns = [] \<rparr>,
     ea_subscribe_patterns = \<lambda>ts. Ok \<lparr> sbr_success = True, sbr_error = None, sbr_subscribed_types = [], sbr_subscribed_patterns = ts \<rparr> \<rparr>"

theorem one_stream_per_client_witness:
  "case client_subscribe ''sink'' accepting_engine [''timer.*''] (client_new ''log'') of (c', frames, r) \<Rightarrow>
     frames = [ExactFrame [''system.shutdown''], PatternFrame [''timer.*'']] \<and> is_ok r
     \<and> client_subscribe ''sink'' accepting_engine [''a.b''] c' = (c', [], Err (CE_SubscriptionFailed already_streaming))"
proof -
  obtain c' frames r where e: "client_subscribe ''sink'' accepting_engine [''timer.*''] (client_new ''log'') = (c', frames, r)"
    by (cases "client_subscribe ''sink'' accepting_engine [''timer.*''] (client_new ''log'')")
  have "fst (snd (client_subscribe ''sink'' accepting_engine [''timer.*''] (client_new ''log''))) =
      [ExactFrame [''system.shutdown''], PatternFrame [''timer.*'']]"
    "is_ok (snd (snd (client_subscribe ''sink'' accepting_engine [''timer.*''] (client_new ''log''))))"
    by code_simp+
  then show ?thesis
    using one_stream_per_client [OF e, of "''a.b''" "''sink''" accepting_engine "[''a.b'']"] by (simp add: e)
qed

lemma publish_all_from:
  "case publish_all ack k messages s of (sent, r, s') \<Rightarrow>
     (case r of
        Inr n \<Rightarrow> n = k + length messages
      | Inl e \<Rightarrow> \<exists>pre m post sent1 s1 sent2. messages = pre @ m # post
          \<and> publish_all ack k pre s = (sent1, Ok (k + length pre), s1) \<and> ack m s1 = (sent2, Err e, s') \<and> sent = sent1 @ sent2)"
proof (induction messages arbitrary: k s)
  case (Cons m ms)
  show ?case
  proof (cases "ack m s")
    case (fields sent1 r1 s1)
    show ?thesis
    proof (cases r1)
      case (Inl e)
      with fields show ?thesis
        by (auto intro!: exI [of _ "[]"])
    next
      case (Inr u)
      obtain sent2 r2 s2 where rest: "publish_all ack (Suc k) ms s1 = (sent2, r2, s2)"
        by (cases "publish_all ack (Suc k) ms s1")
      show ?thesis
      proof (cases r2)
        case (Inl e)
        with Cons.IH [of "Suc k" s1] rest obtain pre m' post t1 u1 t2 where
          i: "ms = pre @ m' # post" "publish_all ack (Suc k) pre s1 = (t1, Ok (Suc k + length pre), u1)"
          "ack m' u1 = (t2, Err e, s2)" "sent2 = t1 @ t2"
          by auto
        then have "publish_all ack k (m # pre) s = (sent1 @ t1, Ok (k + length (m # pre)), u1)"
          using fields Inr by simp
        with i Inl fields Inr rest show ?thesis
          by (auto intro!: exI [of _ "m # pre"])
      qed (use Cons.IH [of "Suc k" s1] rest fields Inr in simp)
    qed
  qed
qed simp

text \<open>
  Publishing a batch stops at the first refusal. With the whole batch accepted the count is its
  length; otherwise the error is that of the first message that was not, the messages before it were
  all published, and nothing after it was sent.
\<close>

theorem publish_all_stops_at_first_error:
  "case publish_all ack 0 messages s of (sent, r, s') \<Rightarrow>
     (case r of
        Inr n \<Rightarrow> n = length messages
      | Inl e \<Rightarrow> \<exists>pre m post sent1 s1 sent2. messages = pre @ m # post
          \<and> publish_all ack 0 pre s = (sent1, Ok (length pre), s1) \<and> ack m s1 = (sent2, Err e, s') \<and> sent = sent1 @ sent2)"
  using publish_all_from [where k = 0 and ack = ack and messages = messages and s = s] unfolding add_0 .

end
