(* ===== verification/Broker.thy ===== *)
theory Broker
  imports Process_Manager Sdk_Client Event_Store
begin

text \<open>
  The message broker of the engine, after the handlers \<^verbatim>\<open>main.rs\<close> installs on the broker actor, the task
  that reports rejections, and \<^verbatim>\<open>publish_reply.rs\<close>. The engine builds on the SDK's message types, and so
  does this theory.

  \<open>store\<close> is the event store wrapper's \<^verbatim>\<open>store\<close> with its clock and files; its error is only logged.
  Handing a notification to acton's subscription manager appends it to \<open>br_forwarded\<close>; what the manager
  does with it is the library's. Messages are handled one at a time, a handler's future included, so
  the process manager's answers are those of the moment the handler runs.
\<close>

section \<open>Replies and notifications\<close>

definition should_reply :: "string \<Rightarrow> string option \<Rightarrow> bool" where
  "should_reply self_name reply_recipient = (case reply_recipient of Some r \<Rightarrow> r \<noteq> self_name | None \<Rightarrow> False)"

record reply_envelope =
  re_reply_to :: string
  re_recipient :: "string option"

definition engine_notification :: "('t \<Rightarrow> string) \<Rightarrow> 't emergent_message \<Rightarrow> push_notification" where
  "engine_notification to_str m =
     \<lparr> pn_message_type = msg_type m, pn_source_actor = Some (msg_source m), pn_payload = message_to_value to_str m \<rparr>"

record 's broker_state =
  br_message_count :: u64
  br_store :: 's
  br_forwarded :: "push_notification list"
  br_acked :: "string list"

definition broker_start :: "'s \<Rightarrow> 's broker_state" where
  "broker_start st = \<lparr> br_message_count = 0, br_store = st, br_forwarded = [], br_acked = [] \<rparr>"

definition ack_publish :: "reply_envelope \<Rightarrow> 's broker_state \<Rightarrow> 's broker_state" where
  "ack_publish env b =
     (if should_reply (re_reply_to env) (re_recipient env)
      then b\<lparr> br_acked := br_acked b @ [the (re_recipient env)] \<rparr> else b)"

definition forward :: "push_notification \<Rightarrow> 's broker_state \<Rightarrow> 's broker_state" where
  "forward n b = b\<lparr> br_forwarded := br_forwarded b @ [n] \<rparr>"

type_synonym ('t, 's) event_sink = "'t emergent_message \<Rightarrow> 's \<Rightarrow> 's \<times> (event_store_error, unit) result"

text \<open>\<^verbatim>\<open>message_count += 1\<close> and the write to the event stores, which both handlers begin with.\<close>

definition log_event :: "('t, 's) event_sink \<Rightarrow> 't emergent_message \<Rightarrow> 's broker_state \<Rightarrow> 's broker_state" where
  "log_event store m b =
     b\<lparr> br_message_count := br_message_count b + 1, br_store := fst (store m (br_store b)) \<rparr>"

section \<open>The engine's own answers\<close>

definition json_nullable :: "('a \<Rightarrow> json) \<Rightarrow> 'a option \<Rightarrow> json" where
  "json_nullable f v = (case v of None \<Rightarrow> JNull | Some x \<Rightarrow> f x)"

definition subscriptions_payload :: "string list \<Rightarrow> json" where
  "subscriptions_payload subscribes = JObject [(''subscribes'', JArray (map JString subscribes))]"

definition topology_primitive_json :: "topology_primitive \<Rightarrow> json" where
  "topology_primitive_json p = JObject
     [(''name'', JString (tpp_name p)), (''kind'', JString (tpp_kind p)), (''state'', JString (tpp_state p)),
      (''publishes'', JArray (map JString (tpp_publishes p))), (''subscribes'', JArray (map JString (tpp_subscribes p))),
      (''pid'', json_nullable (\<lambda>x. JInt (uint x)) (tpp_pid p)), (''error'', json_nullable JString (tpp_error p))]"

definition topology_payload_json :: "topology_primitive list \<Rightarrow> json" where
  "topology_payload_json ps = JObject [(''primitives'', JArray (map topology_primitive_json ps))]"

text \<open>An answer takes over the correlation identifier of its request. \<open>None\<close> would be a panic.\<close>

definition engine_response ::
  "'t message_id \<Rightarrow> timestamp \<Rightarrow> string \<Rightarrow> json \<Rightarrow> 't emergent_message \<Rightarrow> 't emergent_message option" where
  "engine_response mid ts message_type payload request = do {
     m \<leftarrow> new_with_id_and_timestamp message_type mid ts;
     m \<leftarrow> with_source ''emergent-engine'' m;
     Some (with_payload payload (with_correlation_id_option (msg_correlation_id request) m))
   }"

definition requested_name :: "'t emergent_message \<Rightarrow> string" where
  "requested_name m = (case Option.bind (json_get ''name'' (msg_payload m)) json_as_str of Some n \<Rightarrow> n | None \<Rightarrow> [])"

definition answer_request ::
  "('t \<Rightarrow> string) \<Rightarrow> 't message_id \<Rightarrow> timestamp \<Rightarrow> string \<Rightarrow> json \<Rightarrow> 't emergent_message \<Rightarrow> reply_envelope
     \<Rightarrow> 's broker_state \<Rightarrow> 's broker_state option" where
  "answer_request to_str mid ts message_type payload request env b =
     map_option (\<lambda>m. ack_publish env (forward (engine_notification to_str m) b))
       (engine_response mid ts message_type payload request)"

section \<open>The handlers\<close>

definition on_emergent_message ::
  "('t \<Rightarrow> string) \<Rightarrow> ('t, 's) event_sink \<Rightarrow> pid \<Rightarrow> process_manager \<Rightarrow> 't message_id \<Rightarrow> timestamp \<Rightarrow> 't emergent_message
     \<Rightarrow> reply_envelope \<Rightarrow> 's broker_state \<Rightarrow> 's broker_state option" where
  "on_emergent_message to_str store engine_pid pm mid ts m env b =
     (let b = log_event store m b
      in if msg_type m = ''system.request.subscriptions'' then
           answer_request to_str mid ts ''system.response.subscriptions''
             (subscriptions_payload (case get_info pm (requested_name m) of Some p \<Rightarrow> info_subscribes p | None \<Rightarrow> []))
             m env b
         else if msg_type m = ''system.request.topology'' then
           answer_request to_str mid ts ''system.response.topology''
             (topology_payload_json (build_topology_payload engine_pid (list_all_infos pm))) m env b
         else Some (ack_publish env (forward (engine_notification to_str m) b)))"

definition on_system_event ::
  "('t \<Rightarrow> string) \<Rightarrow> ('t, 's) event_sink \<Rightarrow> 't emergent_message \<Rightarrow> 's broker_state \<Rightarrow> 's broker_state" where
  "on_system_event to_str store m b = forward (engine_notification to_str m) (log_event store m b)"

definition rejection_report_json :: "rejection_report \<Rightarrow> json" where
  "rejection_report_json r = JObject
     [(''primitive'', JString (rr_primitive r)), (''operation'', JString (rr_operation r)),
      (''message_type'', JString (rr_message_type r)), (''reason'', JString (rr_reason r)), (''mode'', JString (rr_mode r))]"

text \<open>
  The report of a refusal goes to the store and the subscribers past the broker actor: the count of
  messages stays. A name that forms no message type is only logged.
\<close>

definition report_rejection ::
  "('t \<Rightarrow> string) \<Rightarrow> ('t, 's) event_sink \<Rightarrow> 't message_id \<Rightarrow> timestamp \<Rightarrow> rejection_report \<Rightarrow> 's broker_state
     \<Rightarrow> 's broker_state option" where
  "report_rejection to_str store mid ts report b =
     (case try_new_with_id_and_timestamp (rejection_event_type (rr_primitive report)) mid ts of
        Inl _ \<Rightarrow> Some b
      | Inr m \<Rightarrow> map_option (\<lambda>m. let m = with_payload (rejection_report_json report) m
             in forward (engine_notification to_str m) (b\<lparr> br_store := fst (store m (br_store b)) \<rparr>))
           (with_source ''emergent-engine'' m))"

section \<open>The broker over its inputs\<close>

datatype 't broker_input =
    ClientMessage process_manager "'t message_id" timestamp "'t emergent_message" reply_envelope
  | SystemEvent "'t emergent_message"
  | RejectionInput "'t message_id" timestamp rejection_report

definition broker_step ::
  "('t \<Rightarrow> string) \<Rightarrow> ('t, 's) event_sink \<Rightarrow> pid \<Rightarrow> 's broker_state \<Rightarrow> 't broker_input \<Rightarrow> 's broker_state option" where
  "broker_step to_str store engine_pid b input = (case input of
      ClientMessage pm mid ts m env \<Rightarrow> on_emergent_message to_str store engine_pid pm mid ts m env b
    | SystemEvent m \<Rightarrow> Some (on_system_event to_str store m b)
    | RejectionInput mid ts report \<Rightarrow> report_rejection to_str store mid ts report b)"

fun broker_run ::
  "('t \<Rightarrow> string) \<Rightarrow> ('t, 's) event_sink \<Rightarrow> pid \<Rightarrow> 's broker_state \<Rightarrow> 't broker_input list \<Rightarrow> 's broker_state option" where
  "broker_run to_str store engine_pid b [] = Some b"
| "broker_run to_str store engine_pid b (i # is) =
     Option.bind (broker_step to_str store engine_pid b i) (\<lambda>b. broker_run to_str store engine_pid b is)"

section \<open>Totality\<close>

text \<open>The names the engine signs with and the types it makes up are valid, so no handler panics.\<close>

lemma engine_name_valid: "is_ok (PrimitiveName_new ''emergent-engine'')"
  by code_simp

lemma response_types_valid:
  "is_ok (MessageType_new ''system.response.subscriptions'')" "is_ok (MessageType_new ''system.response.topology'')"
  by code_simp+

definition response_message ::
  "'t message_id \<Rightarrow> timestamp \<Rightarrow> string \<Rightarrow> json \<Rightarrow> 't emergent_message \<Rightarrow> 't emergent_message" where
  "response_message mid ts message_type payload request =
     \<lparr>msg_id = mid, msg_type = message_type, msg_source = ''emergent-engine'',
      msg_correlation_id = msg_correlation_id request, msg_causation_id = None, msg_timestamp_ms = ts,
      msg_payload = payload, msg_metadata = None\<rparr>"

lemma engine_response_eq:
  "is_ok (MessageType_new t) \<Longrightarrow> engine_response mid ts t payload request = Some (response_message mid ts t payload request)"
  by (simp add: engine_response_def new_message_Some_iff [THEN iffD2] with_source_Some_iff [THEN iffD2] engine_name_valid
      with_payload_def with_correlation_id_option_def response_message_def)

section \<open>What the broker promises\<close>

text \<open>
  The broker as a specification: what an input leaves in the event store, what it sends to subscribers,
  and whom it acknowledges.
\<close>

definition rejection_message :: "'t message_id \<Rightarrow> timestamp \<Rightarrow> rejection_report \<Rightarrow> 't emergent_message" where
  "rejection_message mid ts report =
     \<lparr>msg_id = mid, msg_type = ''system.error.'' @ rr_primitive report, msg_source = ''emergent-engine'',
      msg_correlation_id = None, msg_causation_id = None, msg_timestamp_ms = ts,
      msg_payload = rejection_report_json report, msg_metadata = None\<rparr>"

definition rejection_reported :: "rejection_report \<Rightarrow> bool" where
  "rejection_reported report = is_ok (MessageType_new (''system.error.'' @ rr_primitive report))"

fun recorded :: "'t broker_input \<Rightarrow> 't emergent_message list" where
  "recorded (ClientMessage pm mid ts m env) = [m]"
| "recorded (SystemEvent m) = [m]"
| "recorded (RejectionInput mid ts report) = (if rejection_reported report then [rejection_message mid ts report] else [])"

fun outgoing :: "pid \<Rightarrow> 't broker_input \<Rightarrow> 't emergent_message list" where
  "outgoing engine_pid (ClientMessage pm mid ts m env) =
     [if msg_type m = ''system.request.subscriptions'' then
        response_message mid ts ''system.response.subscriptions''
          (subscriptions_payload (case get_info pm (requested_name m) of Some p \<Rightarrow> info_subscribes p | None \<Rightarrow> [])) m
      else if msg_type m = ''system.request.topology'' then
        response_message mid ts ''system.response.topology''
          (topology_payload_json (build_topology_payload engine_pid (list_all_infos pm))) m
      else m]"
| "outgoing engine_pid (SystemEvent m) = [m]"
| "outgoing engine_pid (RejectionInput mid ts report) =
     (if rejection_reported report then [rejection_message mid ts report] else [])"

fun acknowledged :: "'t broker_input \<Rightarrow> string list" where
  "acknowledged (ClientMessage pm mid ts m env) = (case re_recipient env of
      Some r \<Rightarrow> if r \<noteq> re_reply_to env then [r] else [] | None \<Rightarrow> [])"
| "acknowledged _ = []"

fun counted :: "'t broker_input \<Rightarrow> bool" where
  "counted (RejectionInput mid ts report) = False"
| "counted _ = True"

lemma ack_publish_eq:
  "ack_publish env b = b\<lparr> br_acked := br_acked b @ (case re_recipient env of
      Some r \<Rightarrow> if r \<noteq> re_reply_to env then [r] else [] | None \<Rightarrow> []) \<rparr>"
  by (auto simp: ack_publish_def should_reply_def split: option.splits)

lemma broker_step_spec:
  "broker_step to_str store engine_pid b i = Some (b\<lparr>
     br_message_count := br_message_count b + (if counted i then 1 else 0),
     br_store := foldl (\<lambda>s m. fst (store m s)) (br_store b) (recorded i),
     br_forwarded := br_forwarded b @ map (engine_notification to_str) (outgoing engine_pid i),
     br_acked := br_acked b @ acknowledged i \<rparr>)"
proof (cases i)
  case (ClientMessage pm mid ts m env)
  then show ?thesis
    by (simp add: broker_step_def on_emergent_message_def Let_def answer_request_def engine_response_eq response_types_valid
        ack_publish_eq forward_def log_event_def)
next
  case (SystemEvent m)
  then show ?thesis
    by (simp add: broker_step_def on_system_event_def forward_def log_event_def)
next
  case (RejectionInput mid ts report)
  then show ?thesis
    by (cases "MessageType_new (''system.error.'' @ rr_primitive report)")
       (auto simp: broker_step_def report_rejection_def rejection_event_type_def try_new_with_id_and_timestamp_def Let_def
         forward_def rejection_reported_def rejection_message_def with_source_Some_iff [THEN iffD2] engine_name_valid
         with_payload_def dest: new_same)
qed

section \<open>Properties\<close>

text \<open>
  C11. The broker's contract. Whatever arrives, in whatever order, no handler panics and every input is
  dealt with once and in order: each message and system event is given to the event store and counted;
  each message goes to the subscribers unchanged, except that a question about subscriptions or topology
  is answered by the engine, under the identifier of its request, and never passed on; a refusal is stored
  and sent out as the engine's own event, unless its name forms no message type, when it is only logged; and exactly the publishers that wait for an acknowledgement,
  somebody other than the broker itself, get one.
\<close>

theorem broker_contract:
  "\<exists>b'. broker_run to_str store engine_pid b is = Some b'
     \<and> br_store b' = foldl (\<lambda>s m. fst (store m s)) (br_store b) (concat (map recorded is))
     \<and> br_forwarded b' = br_forwarded b @ map (engine_notification to_str) (concat (map (outgoing engine_pid) is))
     \<and> br_acked b' = br_acked b @ concat (map acknowledged is)
     \<and> br_message_count b' = br_message_count b + of_nat (length (filter counted is))"
proof (induction "is" arbitrary: b)
  case (Cons i "is")
  show ?case
    using Cons.IH [of "b\<lparr>
     br_message_count := br_message_count b + (if counted i then 1 else 0),
     br_store := foldl (\<lambda>s m. fst (store m s)) (br_store b) (recorded i),
     br_forwarded := br_forwarded b @ map (engine_notification to_str) (outgoing engine_pid i),
     br_acked := br_acked b @ acknowledged i \<rparr>"]
    by (auto simp: broker_step_spec)
qed simp

section \<open>Questions and answers\<close>

text \<open>What the SDK makes of an entry of the topology.\<close>

definition sdk_view :: "topology_primitive \<Rightarrow> sdk_topology_primitive" where
  "sdk_view p = \<lparr> stp_name = tpp_name p, stp_kind = tpp_kind p, stp_state = tpp_state p, stp_publishes = tpp_publishes p,
     stp_subscribes = tpp_subscribes p, stp_pid = tpp_pid p, stp_error = tpp_error p \<rparr>"

lemma read_all_map: "(\<And>x. x \<in> set xs \<Longrightarrow> f (g x) = Some (h x)) \<Longrightarrow> read_all f (map g xs) = Some (map h xs)"
  by (induction xs) auto

lemma read_strings: "read_list json_as_str (Some (JArray (map JString xs))) = Some xs"
  using read_all_map [of xs json_as_str JString "\<lambda>x. x"] by (simp add: read_list_def)

lemma read_pid: "read_optional read_u32 (Some (json_nullable (\<lambda>x. JInt (uint x)) p)) = Some p"
  using uint_lt2p [of "the p"]
  by (cases p) (auto simp: read_optional_def json_nullable_def read_u32_def)

lemma read_error: "read_optional json_as_str (Some (json_nullable JString e)) = Some e"
  by (cases e) (auto simp: read_optional_def json_nullable_def)

lemma decode_topology_payload: "decode_topology (topology_payload_json ps) = Some (map sdk_view ps)"
proof -
  have "decode_topology_primitive (topology_primitive_json p) = Some (sdk_view p)" for p
    by (simp add: decode_topology_primitive_def topology_primitive_json_def read_strings read_pid read_error sdk_view_def)
  then show ?thesis
    by (simp add: decode_topology_def topology_payload_json_def read_list_def read_all_map)
qed

lemma decode_subscriptions_payload: "decode_subscriptions (subscriptions_payload ts) = Some ts"
  by (simp add: decode_subscriptions_def subscriptions_payload_def read_strings)

text \<open>Notifications that are not the answer to this request: another type, or another correlation.\<close>

definition other_push :: "(json \<Rightarrow> 't emergent_message option) \<Rightarrow> ('t \<Rightarrow> string) \<Rightarrow> string \<Rightarrow> 't correlation_id \<Rightarrow> push_notification \<Rightarrow> bool" where
  "other_push read to_str topic cid n \<longleftrightarrow> pn_message_type n \<noteq> topic
     \<or> (case read (pn_payload n) of None \<Rightarrow> False
        | Some m \<Rightarrow> map_option (\<lambda>c. to_str (CorrelationId_inner c)) (msg_correlation_id m) \<noteq> Some (to_str (CorrelationId_inner cid)))"

lemma await_skips_others:
  "list_all (other_push read to_str topic cid) ns \<Longrightarrow>
     await_response read to_str serde_error topic decode cid (map Push ns @ ins)
       = await_response read to_str serde_error topic decode cid ins"
  by (induction ns) (auto simp: other_push_def split: option.splits)

lemma await_answer:
  assumes ids: "\<And>t. from_str (to_str t) = Ok t"
    and ok: "message_ok prefix_of m" "msg_metadata m = None" "msg_correlation_id m = Some cid" "msg_type m = topic"
    and payload: "decode (msg_payload m) = Some a"
  shows "await_response (message_from_value from_str prefix_of) to_str serde_error topic decode cid
      (Push (engine_notification to_str m) # ins) = Some (Ok a)"
  using ok payload message_value_roundtrip [OF ids ok(1)] by (simp add: engine_notification_def)

lemma response_message_ok:
  assumes "is_ok (MessageType_new t)" "prefix_of (MessageId_inner mid) = MessageId_PREFIX"
    "msg_correlation_id request = Some cid" "prefix_of (CorrelationId_inner cid) = CorrelationId_PREFIX"
  shows "message_ok prefix_of (response_message mid ts t payload request)"
  using assms engine_name_valid by (simp add: message_ok_def response_message_def)

lemma await_response_message:
  assumes ids: "\<And>t. from_str (to_str t) = Ok t"
    and "is_ok (MessageType_new t)" "prefix_of (MessageId_inner mid) = MessageId_PREFIX"
      "prefix_of (CorrelationId_inner cid) = CorrelationId_PREFIX" "msg_correlation_id request = Some cid"
    and "decode payload = Some a"
  shows "await_response (message_from_value from_str prefix_of) to_str serde_error t decode cid
      (Push (engine_notification to_str (response_message mid ts t payload request)) # ins) = Some (Ok a)"
  using assms(6) by (intro await_answer [OF ids response_message_ok [OF assms(2,3,5,4)]])
    (simp_all add: response_message_def assms(5))

lemma subscriptions_request_fields:
  "subscriptions_request name cid mid ts = Some req \<Longrightarrow>
     msg_type req = ''system.request.subscriptions'' \<and> msg_correlation_id req = Some cid \<and> requested_name req = name"
  by (auto simp: subscriptions_request_def Option.bind_eq_Some_conv new_message_Some_iff with_source_Some_iff with_payload_def with_correlation_id_def
      requested_name_def)

lemma topology_request_fields:
  "topology_request name cid mid ts = Some req \<Longrightarrow>
     msg_type req = ''system.request.topology'' \<and> msg_correlation_id req = Some cid"
  by (auto simp: topology_request_def Option.bind_eq_Some_conv new_message_Some_iff with_source_Some_iff with_payload_def with_correlation_id_def)

text \<open>
  C20. A question reaches the engine and its answer comes back. When the broker handles the topology
  request a client makes, what it forwards ends that client's wait with exactly the topology the process
  manager had, the engine's own entry first, whatever else is pushed to the client before it; and for the
  subscriptions request with the subscriptions the primitive of that name is configured with, or none when
  there is no such primitive. The identifiers drawn have the prefixes the TypeID package gives them.
\<close>

theorem questions_are_answered:
  assumes ids: "\<And>t. from_str (to_str t) = Ok t"
    and prefixes: "prefix_of (CorrelationId_inner cid) = CorrelationId_PREFIX" "prefix_of (MessageId_inner mid') = MessageId_PREFIX"
    and others: "list_all (other_push (message_from_value from_str prefix_of) to_str ''system.response.topology'' cid) ns"
      "list_all (other_push (message_from_value from_str prefix_of) to_str ''system.response.subscriptions'' cid) ns"
    and answer: "on_emergent_message to_str store engine_pid pm mid' ts' req env b = Some b'"
  shows "(topology_request name cid mid ts = Some req \<longrightarrow>
      await_response (message_from_value from_str prefix_of) to_str serde_error ''system.response.topology'' decode_topology cid
        (map Push ns @ Push (last (br_forwarded b')) # rest)
      = Some (Ok (map sdk_view (build_topology_payload engine_pid (list_all_infos pm)))))
    \<and> (subscriptions_request name cid mid ts = Some req \<longrightarrow>
      await_response (message_from_value from_str prefix_of) to_str serde_error ''system.response.subscriptions'' decode_subscriptions cid
        (map Push ns @ Push (last (br_forwarded b')) # rest)
      = Some (Ok (case get_info pm name of Some p \<Rightarrow> info_subscribes p | None \<Rightarrow> [])))"
proof -
  have b': "br_forwarded b' = br_forwarded b @ map (engine_notification to_str) (outgoing engine_pid (ClientMessage pm mid' ts' req env))"
    using broker_step_spec [of to_str store engine_pid b "ClientMessage pm mid' ts' req env"] answer
    by (auto simp: broker_step_def)
  show ?thesis
    unfolding await_skips_others [OF others(1)] await_skips_others [OF others(2)]
  proof (intro conjI impI)
    assume "topology_request name cid mid ts = Some req"
    note req = topology_request_fields [OF this]
    have "last (br_forwarded b') = engine_notification to_str (response_message mid' ts' ''system.response.topology''
        (topology_payload_json (build_topology_payload engine_pid (list_all_infos pm))) req)"
      using req by (simp add: b')
    then show "await_response (message_from_value from_str prefix_of) to_str serde_error ''system.response.topology'' decode_topology cid
        (Push (last (br_forwarded b')) # rest) = Some (Ok (map sdk_view (build_topology_payload engine_pid (list_all_infos pm))))"
      using req prefixes response_types_valid by (simp only: await_response_message [OF ids] decode_topology_payload)
  next
    assume "subscriptions_request name cid mid ts = Some req"
    note req = subscriptions_request_fields [OF this]
    have "last (br_forwarded b') = engine_notification to_str (response_message mid' ts' ''system.response.subscriptions''
        (subscriptions_payload (case get_info pm name of Some p \<Rightarrow> info_subscribes p | None \<Rightarrow> [])) req)"
      using req by (simp add: b')
    then show "await_response (message_from_value from_str prefix_of) to_str serde_error ''system.response.subscriptions'' decode_subscriptions cid
        (Push (last (br_forwarded b')) # rest) = Some (Ok (case get_info pm name of Some p \<Rightarrow> info_subscribes p | None \<Rightarrow> []))"
      using req prefixes response_types_valid by (simp only: await_response_message [OF ids] decode_subscriptions_payload)
  qed
qed

theorem questions_are_answered_witness:
  "\<exists>req b'. topology_request ''log'' (CorrelationId ''cor_1'') (MessageId ''msg_1'') (Timestamp 0) = Some req
     \<and> on_emergent_message id (\<lambda>_ s. (s, Ok ())) 7 (process_manager_new [] 0) (MessageId ''msg_2'') (Timestamp 1) req
         \<lparr> re_reply_to = ''broker'', re_recipient = None \<rparr> (broker_start ()) = Some b'
     \<and> await_response (message_from_value (\<lambda>s. Ok s :: (unit, string) result) (take 3)) id (\<lambda>_. [])
         ''system.response.topology'' decode_topology (CorrelationId ''cor_1'') [Push (last (br_forwarded b'))]
       = Some (Ok (map sdk_view (build_topology_payload 7 [])))"
proof -
  let ?from = "\<lambda>s. Ok s :: (unit, string) result" and ?cid = "CorrelationId ''cor_1''"
  let ?env = "\<lparr> re_reply_to = ''broker'', re_recipient = None \<rparr>"
  have "topology_request ''log'' ?cid (MessageId ''msg_1'') (Timestamp 0) \<noteq> None"
    by code_simp
  then obtain req where req: "topology_request ''log'' ?cid (MessageId ''msg_1'') (Timestamp 0) = Some req"
    by blast
  obtain b' where b': "on_emergent_message id (\<lambda>_ s. (s, Ok ())) 7 (process_manager_new [] 0) (MessageId ''msg_2'') (Timestamp 1) req
      ?env (broker_start ()) = Some b'"
    using broker_step_spec [of id "\<lambda>_ s. (s, Ok ())" 7 "broker_start ()"
        "ClientMessage (process_manager_new [] 0) (MessageId ''msg_2'') (Timestamp 1) req ?env"]
    by (simp add: broker_step_def)
  have i: "?from (id t) = Ok t" for t
    by simp
  have p: "take 3 (CorrelationId_inner ?cid) = CorrelationId_PREFIX" "take 3 (MessageId_inner (MessageId ''msg_2'')) = MessageId_PREFIX"
    by code_simp+
  have "await_response (message_from_value ?from (take 3)) id (\<lambda>_. []) ''system.response.topology'' decode_topology ?cid
      (map Push [] @ Push (last (br_forwarded b')) # [])
      = Some (Ok (map sdk_view (build_topology_payload 7 (list_all_infos (process_manager_new [] 0)))))"
    using questions_are_answered [where from_str = ?from and to_str = id and ns = "[]" and name = "''log''" and mid = "MessageId ''msg_1''"
        and ts = "Timestamp 0" and rest = "[]" and serde_error = "\<lambda>_. []", OF i p _ _ b'] req
    by (simp del: await_response.simps id_apply)
  then show ?thesis
    using req b' by (auto simp: list_all_infos_def process_manager_new_def)
qed

end
