(* ===== verification/Engine_Main.thy ===== *)
theory Engine_Main
  imports Preflight Retention Broker Ipc_Policy
begin

text \<open>
  The commands of the engine's binary, after \<^verbatim>\<open>emergent-engine/src/main.rs\<close> and \<^verbatim>\<open>logging.rs\<close>: finding the
  configuration, the \<^verbatim>\<open>validate\<close> command, the checks at startup in their order, the retention task, and
  the end of a run.

  The platform record of the configuration theory gives the files and directories; what acton loads
  from its own configuration is \<open>loaded\<close>. An error of \<^verbatim>\<open>anyhow\<close> is its text, outermost context first.
\<close>

section \<open>Where the engine logs\<close>

datatype log_destination = Terminal | Stdout | LogFile

definition env_flag_enabled :: "string option \<Rightarrow> bool" where
  "env_flag_enabled value = (case value of
      None \<Rightarrow> False | Some v \<Rightarrow> to_ascii_lowercase (trim v) \<in> {''1'', ''true'', ''yes'', ''on''})"

definition log_destination_for :: "bool \<Rightarrow> bool \<Rightarrow> string option \<Rightarrow> log_destination" where
  "log_destination_for verbose log_stdout env_value =
     (if verbose then Terminal else if log_stdout \<or> env_flag_enabled env_value then Stdout else LogFile)"

section \<open>Finding and refusing a configuration\<close>

definition nl :: string where "nl = [CHR 0x0A]"

definition get_started :: string where
  "get_started = ''To get started, create a config file:'' @ nl @ ''  emergent init'' @ nl
     @ ''  emergent --config path/to/emergent.toml''"

text \<open>\<open>xdg\<close> is the path in the configuration directory of the user, when there is one.\<close>

definition resolve_config_path :: "(string \<Rightarrow> bool) \<Rightarrow> string option \<Rightarrow> string option \<Rightarrow> (string, string) result" where
  "resolve_config_path exists xdg path = (case path of
      Some p \<Rightarrow>
        if exists p then Ok p
        else Err (''Configuration file not found: '' @ p @ nl @ nl @ get_started)
    | None \<Rightarrow>
        if exists ''emergent.toml'' then Ok ''emergent.toml''
        else (case xdg of
          Some p \<Rightarrow>
            if exists p then Ok p
            else Err (''No configuration file found.'' @ nl @ nl @ ''Searched:'' @ nl @ ''  ./emergent.toml'' @ nl @ ''  '' @ p
                   @ nl @ nl @ get_started)
        | None \<Rightarrow>
            Err (''No configuration file found.'' @ nl @ nl @ ''Searched:'' @ nl @ ''  ./emergent.toml'' @ nl @ nl @ get_started)))"

text \<open>The first error with its context; the warnings otherwise.\<close>

definition refuse_on_errors :: "findings \<Rightarrow> string \<Rightarrow> (string \<times> config_error, config_issue list) result" where
  "refuse_on_errors f config_path =
     (let more = length (fd_errors f) - 1
      in case findings_into_result f of
           Inr warnings \<Rightarrow> Ok warnings
         | Inl e \<Rightarrow> Err
             (if more > 0
              then ''Failed to load '' @ config_path @ '' ('' @ show_nat more @ '' more problem(s): run `emergent validate --config ''
                     @ config_path @ ''` to list them all)''
              else ''Failed to load '' @ config_path, e))"

section \<open>Validation as a command\<close>

record validate_args =
  va_json :: bool
  va_skip_path_check :: bool

text \<open>The span of a parse error is the TOML library's.\<close>

definition load_error_of :: "nat option \<Rightarrow> config_error \<Rightarrow> load_error" where
  "load_error_of span e = (case e of
      CE_ParseError m \<Rightarrow> LE_Parse \<lparr> te_message = m, te_span_start = span \<rparr>
    | CE_ReadError m \<Rightarrow> LE_Read m
    | CE_PathNotFound p \<Rightarrow> LE_PathNotFound p
    | CE_ValidationError m \<Rightarrow> LE_Validation m)"

definition validation_report_for ::
  "platform \<Rightarrow> (string \<Rightarrow> toml_table option) \<Rightarrow> (string \<Rightarrow> nat option) \<Rightarrow> ipc_config \<Rightarrow> string \<Rightarrow> path_check \<Rightarrow> string
     \<Rightarrow> validation_report" where
  "validation_report_for pf parse_document span_of loaded version paths path = (case pf_read_to_string pf path of
      Inl e \<Rightarrow> report_failed version (load_issue parse_document (LE_Read e) None)
    | Inr content \<Rightarrow> (case parse_unchecked pf content of
        Inl e \<Rightarrow> report_failed version (load_issue parse_document (load_error_of (span_of content) e) (Some content))
      | Inr config \<Rightarrow> from_findings version
          (preflight (pf_exists pf) (pf_url_host pf) config (effective_max_connections loaded config) paths)))"

definition run_validate ::
  "platform \<Rightarrow> (string \<Rightarrow> toml_table option) \<Rightarrow> (string \<Rightarrow> nat option) \<Rightarrow> ipc_config \<Rightarrow> string \<Rightarrow> (validation_report \<Rightarrow> string)
     \<Rightarrow> string option \<Rightarrow> string option \<Rightarrow> validate_args \<Rightarrow> string \<times> int" where
  "run_validate pf parse_document span_of loaded version to_json xdg config args =
     (let paths = (if va_skip_path_check args then PathCheck_Skip else PathCheck_Check);
          (display_path, report) = (case resolve_config_path (pf_exists pf) xdg config of
              Inl e \<Rightarrow> (''emergent.toml'', report_failed version (config_issue_new ConfigNotFound e))
            | Inr path \<Rightarrow> (path, validation_report_for pf parse_document span_of loaded version paths path))
      in (if va_json args then to_json report @ nl else to_human report display_path, report_exit_code report))"

section \<open>Starting\<close>

record startup_config =
  sc_config :: emergent_config
  sc_warnings :: "config_issue list"
  sc_socket_path :: string
  sc_ipc :: ipc_config

datatype startup_error =
    SE_ConfigPath string
  | SE_Load config_error
  | SE_Refused string config_error
  | SE_Socket string
  | SE_Stores string
  | SE_Listener string
  | SE_Expose string

definition load_startup_config ::
  "platform \<Rightarrow> ipc_config \<Rightarrow> string option \<Rightarrow> string option \<Rightarrow> string option \<Rightarrow> string option
     \<Rightarrow> (startup_error, startup_config) result" where
  "load_startup_config pf loaded runtime_dir xdg config_arg socket_arg =
     (case resolve_config_path (pf_exists pf) xdg config_arg of
        Inl e \<Rightarrow> Err (SE_ConfigPath e)
      | Inr path \<Rightarrow> (case read_config pf path of
          Inl e \<Rightarrow> Err (SE_Load e)
        | Inr config \<Rightarrow>
            (let config = (case socket_arg of
                   Some s \<Rightarrow> config\<lparr> cfg_engine := (cfg_engine config)\<lparr> ec_socket_path := s \<rparr> \<rparr> | None \<Rightarrow> config);
                 socket_path = Config.resolve_socket_path runtime_dir config;
                 ipc = ipc_config_for loaded (Some socket_path) (ec_max_connections (cfg_engine config))
             in case refuse_on_errors (preflight (pf_exists pf) (pf_url_host pf) config (ipc_max_connections ipc) PathCheck_Check) path of
                  Inl (context, e) \<Rightarrow> Err (SE_Refused context e)
                | Inr warnings \<Rightarrow>
                    Ok \<lparr> sc_config = config, sc_warnings = warnings, sc_socket_path = socket_path, sc_ipc = ipc \<rparr>)))"

text \<open>What a connection attempt to the socket file within two seconds gives.\<close>

datatype socket_probe = ProbeConnected | ProbeRefused | ProbeTimedOut

definition check_and_cleanup_stale_socket ::
  "(string \<Rightarrow> bool) \<Rightarrow> (string \<Rightarrow> socket_probe) \<Rightarrow> (string \<Rightarrow> (string, unit) result) \<Rightarrow> string
     \<Rightarrow> string list \<times> (string, unit) result" where
  "check_and_cleanup_stale_socket exists probe remove_file socket_path =
     (if \<not> exists socket_path then ([], Ok ())
      else case probe socket_path of
        ProbeConnected \<Rightarrow> ([], Err (''Another engine instance is already running (socket: '' @ socket_path @ '')'' @ nl @ nl
          @ ''If this is unexpected, stop the other instance first, or remove the socket manually:'' @ nl @ ''  rm '' @ socket_path))
      | _ \<Rightarrow> (case remove_file socket_path of
          Inl e \<Rightarrow> ([], Err (''Failed to remove stale socket file: '' @ socket_path @ '': '' @ e))
        | Inr _ \<Rightarrow> ([socket_path], Ok ())))"

text \<open>
  The steps after the configuration, in order: the socket file, the event stores, the retention task, the
  listener under its policy, the HTTP API, the primitives. \<open>stores\<close> and \<open>listener\<close> are the results of
  opening them, \<open>exposed\<close> of putting the broker on the socket; a failed start of the primitives is only logged.
\<close>

datatype startup_action =
    SocketRemoved string
  | StoresOpened
  | RetentionStarted u32
  | ListenerStarted string engine_policy
  | ApiServed u16 "string list"
  | PrimitivesStarted "sink_config list" "handler_config list" "source_config list" startup_readiness

definition unmanaged_names_for :: "bool \<Rightarrow> unmanaged_names" where
  "unmanaged_names_for ancestry_available = (if ancestry_available then Ignored else Claimed)"

definition startup_policy :: "bool \<Rightarrow> emergent_config \<Rightarrow> engine_policy" where
  "startup_policy ancestry_available c =
     reporting_to (naming_unmanaged (engine_policy_new (config_declaration_table c)) (unmanaged_names_for ancestry_available)) True"

definition startup_primitives :: "emergent_config \<Rightarrow> startup_action list" where
  "startup_primitives c =
     (let sinks = filter snk_enabled (cfg_sinks c); handlers = filter hdl_enabled (cfg_handlers c);
          sources = filter src_enabled (cfg_sources c)
      in if length sinks + length handlers + length sources > 0
         then [PrimitivesStarted sinks handlers sources
                 \<lparr> sr_timeout = ec_startup_ready_timeout_ms (cfg_engine c), sr_signals = True \<rparr>]
         else [])"

definition engine_startup ::
  "platform \<Rightarrow> ipc_config \<Rightarrow> string option \<Rightarrow> string option \<Rightarrow> string option \<Rightarrow> string option
     \<Rightarrow> (string \<Rightarrow> socket_probe) \<Rightarrow> (string \<Rightarrow> (string, unit) result) \<Rightarrow> (string, unit) result \<Rightarrow> (string, unit) result
     \<Rightarrow> (string, unit) result \<Rightarrow> bool \<Rightarrow> startup_action list \<times> (startup_error, unit) result" where
  "engine_startup pf loaded runtime_dir xdg config_arg socket_arg probe remove_file stores listener exposed ancestry =
     (case load_startup_config pf loaded runtime_dir xdg config_arg socket_arg of
        Inl e \<Rightarrow> ([], Err e)
      | Inr sc \<Rightarrow> (let c = sc_config sc in
          case check_and_cleanup_stale_socket (pf_exists pf) probe remove_file (sc_socket_path sc) of
            (removed, Inl e) \<Rightarrow> (map SocketRemoved removed, Err (SE_Socket e))
          | (removed, Inr _) \<Rightarrow> (case stores of
              Inl e \<Rightarrow> (map SocketRemoved removed, Err (SE_Stores e))
            | Inr _ \<Rightarrow>
                (let done = map SocketRemoved removed @ [StoresOpened]
                   @ (if is_pruning_enabled (es_retention_days (cfg_event_store c))
                      then [RetentionStarted (es_retention_days (cfg_event_store c))] else [])
                 in case listener of
                      Inl e \<Rightarrow> (done, Err (SE_Listener e))
                    | Inr _ \<Rightarrow> (let done = done @ [ListenerStarted (sc_socket_path sc) (startup_policy ancestry c)]
                        in case exposed of
                             Inl e \<Rightarrow> (done, Err (SE_Expose e))
                           | Inr _ \<Rightarrow> (done
                               @ (if api_enabled (cfg_engine c)
                                  then [ApiServed (ec_api_port (cfg_engine c)) (allowed_api_hosts (pf_url_host pf) c)] else [])
                               @ startup_primitives c, Ok ()))))))"

section \<open>Retention\<close>

definition retention_summary :: "u32 \<Rightarrow> prune_report \<Rightarrow> string list" where
  "retention_summary retention_days report =
     (if prune_report_is_empty report then []
      else [''Retention prune removed '' @ show_nat (unat (pr_events_deleted report)) @ '' event(s) from SQLite and ''
        @ show_nat (length (pr_files_deleted report)) @ '' JSON log file(s) older than '' @ show_nat (unat retention_days)
        @ '' day(s)'' @ (if pr_files_deleted report = [] then [] else '': '' @ join_with '', '' (pr_files_deleted report))])"

text \<open>One pass at a given time: the store after it and the lines logged at warning or info level.\<close>

definition run_retention_pass ::
  "('q option \<Rightarrow> 'now \<Rightarrow> prune_report \<times> 'q option) \<Rightarrow> u32 \<Rightarrow> 'q option \<Rightarrow> 'now \<Rightarrow> 'q option \<times> string list" where
  "run_retention_pass prune_at retention_days sqlite now =
     (let (report, sqlite') = prune_at sqlite now
      in (sqlite', map (\<lambda>e. ''Retention prune problem: '' @ e) (pr_errors report) @ retention_summary retention_days report))"

text \<open>A pass at startup and one for every tick of the daily timer after the first.\<close>

definition start_retention ::
  "('q option \<Rightarrow> 'now \<Rightarrow> prune_report \<times> 'q option) \<Rightarrow> u32 \<Rightarrow> 'q option \<Rightarrow> 'now \<Rightarrow> 'now list \<Rightarrow> 'q option" where
  "start_retention prune_at retention_days sqlite startup ticks =
     (if \<not> is_pruning_enabled retention_days then sqlite
      else foldl (\<lambda>q now. fst (run_retention_pass prune_at retention_days q now)) sqlite (startup # ticks))"

section \<open>Stopping\<close>

definition shutdown_requested_event :: "'t message_id \<Rightarrow> timestamp \<Rightarrow> 't emergent_message option" where
  "shutdown_requested_event mid ts = do {
     m \<leftarrow> new_with_id_and_timestamp ''system.shutdown.requested'' mid ts;
     m \<leftarrow> with_source ''emergent-engine'' m;
     Some (with_payload (JObject []) m)
   }"

text \<open>
  The announcement goes through the broker, then the primitives are stopped, then the stores are flushed.
\<close>

definition engine_stop ::
  "('t \<Rightarrow> string) \<Rightarrow> ('t, 's) event_sink \<Rightarrow> ('s \<Rightarrow> 's \<times> (event_store_error, unit) result) \<Rightarrow> shutdown_timings
     \<Rightarrow> (primitive_kind \<Rightarrow> phase_windows) \<Rightarrow> 't message_id \<Rightarrow> timestamp \<Rightarrow> actors \<Rightarrow> 's broker_state
     \<Rightarrow> (actors \<times> pm_effect list \<times> 's broker_state) option" where
  "engine_stop to_str store flush timings windows mid ts as b =
     map_option (\<lambda>m. let b = on_system_event to_str store m b; (as, effects) = graceful_shutdown timings windows as
         in (as, effects, b\<lparr> br_store := fst (flush (br_store b)) \<rparr>))
       (shutdown_requested_event mid ts)"

section \<open>Properties\<close>

lemma socket_override_frame:
  "located_primitives (c\<lparr> cfg_engine := (cfg_engine c)\<lparr> ec_socket_path := s \<rparr> \<rparr>) = located_primitives c"
  "config_topic_issues (c\<lparr> cfg_engine := (cfg_engine c)\<lparr> ec_socket_path := s \<rparr> \<rparr>) = config_topic_issues c"
  "allowed_host_issues u (c\<lparr> cfg_engine := (cfg_engine c)\<lparr> ec_socket_path := s \<rparr> \<rparr>) = allowed_host_issues u c"
  "enabled_primitive_count (c\<lparr> cfg_engine := (cfg_engine c)\<lparr> ec_socket_path := s \<rparr> \<rparr>) = enabled_primitive_count c"
  by (simp_all add: located_primitives_def config_topic_issues_def allowed_host_issues_def enabled_primitive_count_def
      enabled_sources_def enabled_handlers_def enabled_sinks_def)

lemma preflight_socket_override:
  "preflight pe u (c\<lparr> cfg_engine := (cfg_engine c)\<lparr> ec_socket_path := s \<rparr> \<rparr>) limit paths = preflight pe u c limit paths"
  by (simp add: preflight_def issues_def socket_override_frame)

lemma startup_limit:
  "ipc_max_connections (ipc_config_for loaded (Some sp) m) = ipc_max_connections (ipc_config_for loaded None m)"
  by (simp add: ipc_config_for_def apply_engine_ipc_overrides_def Let_def split: option.split)

lemma refuse_on_errorsD:
  "refuse_on_errors f path = Ok ws \<Longrightarrow> fd_errors f = []" "refuse_on_errors f path = Err x \<Longrightarrow> fd_errors f \<noteq> []"
  by (auto simp: refuse_on_errors_def findings_into_result_def Let_def split: list.splits)

text \<open>
  C22. \<^verbatim>\<open>emergent validate\<close> tells the truth about startup. With the path check on, the command exits with 0
  exactly when the engine, started with the same files, environment and \<^verbatim>\<open>--config\<close>, does not refuse to
  start on its configuration, and it exits with 0 or 1 and nothing else; the \<^verbatim>\<open>--socket\<close> option and the
  output format make no difference.
\<close>

theorem validate_command_agrees_with_startup:
  assumes "\<not> va_skip_path_check args"
  shows "(snd (run_validate pf parse_document span_of loaded version to_json xdg config args) = 0 \<longleftrightarrow>
      is_ok (load_startup_config pf loaded runtime_dir xdg config socket_arg))
    \<and> snd (run_validate pf parse_document span_of loaded version to_json xdg config args) \<in> {0, 1}"
proof -
  have failed: "\<not> vr_ok (report_failed version i)" for i
    by (simp add: report_failed_def from_findings_def findings_is_ok_def)
  have start: "is_ok (load_startup_config pf loaded runtime_dir xdg config socket_arg) \<longleftrightarrow>
      (case resolve_config_path (pf_exists pf) xdg config of Inl _ \<Rightarrow> False | Inr path \<Rightarrow>
        (case read_config pf path of Inl _ \<Rightarrow> False
         | Inr c \<Rightarrow> fd_errors (preflight (pf_exists pf) (pf_url_host pf) c (effective_max_connections loaded c) PathCheck_Check) = []))"
    by (auto simp: load_startup_config_def Let_def preflight_socket_override startup_limit effective_max_connections_def
        dest: refuse_on_errorsD split: sum.splits option.splits)
  show ?thesis
    unfolding start using assms failed
    by (auto simp: run_validate_def validation_report_for_def read_config_def Let_def report_exit_code_def from_findings_def
        findings_is_ok_def split: sum.splits prod.splits)
qed

definition sample_platform :: platform where
  "sample_platform = \<lparr> pf_home_dir = None, pf_data_dir = None, pf_which = (\<lambda>_. None),
     pf_exists = (\<lambda>p. p = ''emergent.toml'' \<or> p = ''/bin/timer''),
     pf_read_to_string = (\<lambda>_. Ok []), pf_toml = (\<lambda>_. Ok sample_config), pf_url_host = (\<lambda>_. None) \<rparr>"

definition sample_ipc :: ipc_config where
  "sample_ipc = \<lparr> ipc_timeouts_read = 0, ipc_socket_path = None, ipc_max_connections = 8 \<rparr>"

definition sample_run_config :: emergent_config where
  "sample_run_config = projr (read_config sample_platform ''emergent.toml'')"

lemma sample_read: "read_config sample_platform ''emergent.toml'' = Ok sample_run_config"
proof -
  have "is_ok (read_config sample_platform ''emergent.toml'')"
    by code_simp
  then show ?thesis
    unfolding sample_run_config_def by (rule is_ok_projr)
qed

lemma sample_run_config_facts:
  "issues (pf_exists sample_platform) (pf_url_host sample_platform) PathCheck_Check sample_run_config = []"
  "enabled_primitive_count sample_run_config = 1" "ec_max_connections (cfg_engine sample_run_config) = None"
  "pf_exists sample_platform (Config.resolve_socket_path None sample_run_config) = False"
  "filter src_enabled (cfg_sources sample_run_config) \<noteq> []"
  by code_simp+

lemma sample_startup:
  "\<exists>sc. load_startup_config sample_platform sample_ipc None None None None = Ok sc \<and> sc_config sc = sample_run_config
     \<and> sc_socket_path sc = Config.resolve_socket_path None sample_run_config"
proof -
  have path: "resolve_config_path (pf_exists sample_platform) None None = Ok ''emergent.toml''"
    by code_simp
  have "fd_errors (preflight (pf_exists sample_platform) (pf_url_host sample_platform) sample_run_config 8 PathCheck_Check) = []"
    by (simp add: preflight_def sample_run_config_facts Let_def check_connection_capacity_def required_ipc_connections_def
        RESERVED_IPC_CONNECTIONS_def)
  then show ?thesis
    by (auto simp: load_startup_config_def path sample_read Let_def ipc_config_for_def apply_engine_ipc_overrides_def sample_ipc_def
        sample_run_config_facts dest: refuse_on_errorsD(2) split: sum.split)
qed

theorem validate_command_agrees_with_startup_witness:
  "snd (run_validate sample_platform (\<lambda>_. None) (\<lambda>_. None) sample_ipc ''1'' (\<lambda>_. []) None None
      \<lparr> va_json = False, va_skip_path_check = False \<rparr>) = 0"
  using validate_command_agrees_with_startup [of "\<lparr> va_json = False, va_skip_path_check = False \<rparr>" sample_platform "\<lambda>_. None"
      "\<lambda>_. None" sample_ipc "''1''" "\<lambda>_. []" None None None None] sample_startup
  by auto

lemma stale_socket_removed:
  "check_and_cleanup_stale_socket exists probe remove_file sp = (removed, r) \<Longrightarrow>
     removed = [] \<or> (removed = [sp] \<and> exists sp \<and> probe sp \<noteq> ProbeConnected \<and> r = Ok ())"
  by (auto simp: check_and_cleanup_stale_socket_def split: if_splits socket_probe.splits sum.splits)

lemma list_ex_filter_iff: "list_ex P xs \<longleftrightarrow> filter P xs \<noteq> []"
  by (simp add: list_ex_iff filter_empty_conv)



end
