(* ===== verification/Sdk_Helpers.thy ===== *)
theory Sdk_Helpers
  imports Sdk_Client
begin

text \<open>
  The runners of \<^verbatim>\<open>sdks/rust/src/helpers.rs\<close>: a Source, Handler or Sink with its name, connection, signal
  handler and loop. What the loop waits for is a list of inputs in the order \<^verbatim>\<open>select!\<close> takes them; the
  user's function is an argument, with a state of its own.
\<close>

section \<open>Names and errors\<close>

datatype helper_error =
    HE_ConnectionFailed string string
  | HE_UserFunction string
  | HE_PublishFailed string
  | HE_SubscribeFailed string
  | HE_SignalHandlerFailed string
  | HE_DisconnectFailed string

definition show_helper_error :: "helper_error \<Rightarrow> string" where
  "show_helper_error e = (case e of
      HE_ConnectionFailed name err \<Rightarrow> ''failed to connect to Emergent engine as '' @ quoted name @ '': '' @ err
    | HE_UserFunction s \<Rightarrow> ''user function error: '' @ s
    | HE_PublishFailed s \<Rightarrow> ''failed to publish message: '' @ s
    | HE_SubscribeFailed s \<Rightarrow> ''failed to subscribe: '' @ s
    | HE_SignalHandlerFailed s \<Rightarrow> ''failed to set up signal handler: '' @ s
    | HE_DisconnectFailed s \<Rightarrow> ''failed to disconnect: '' @ s)"

definition resolve_name :: "string option \<Rightarrow> string option \<Rightarrow> string \<Rightarrow> string" where
  "resolve_name name env_name dflt =
     (case name of Some n \<Rightarrow> n | None \<Rightarrow> (case env_name of Some n \<Rightarrow> n | None \<Rightarrow> dflt))"

section \<open>Why a Source stops\<close>

datatype source_stop_reason = StopSignal | EngineDisconnected

datatype stop_input = SignalFired | PushArrived | PushChannelEnded

text \<open>\<open>watched\<close>: the push channel could be taken. \<open>None\<close> while nothing has ended the wait.\<close>

fun source_stop_reason_of :: "bool \<Rightarrow> stop_input list \<Rightarrow> source_stop_reason option" where
  "source_stop_reason_of watched [] = None"
| "source_stop_reason_of watched (SignalFired # ins) = Some StopSignal"
| "source_stop_reason_of watched (PushArrived # ins) = source_stop_reason_of watched ins"
| "source_stop_reason_of watched (PushChannelEnded # ins) =
     (if watched then Some EngineDisconnected else source_stop_reason_of watched ins)"

text \<open>\<open>run_fn\<close> is given the name and what its shutdown receiver will read; nothing is done after it returns.\<close>

definition run_source ::
  "string option \<Rightarrow> (string \<Rightarrow> (client_error, unit) result) \<Rightarrow> (string, unit) result \<Rightarrow> bool
     \<Rightarrow> (string \<Rightarrow> source_stop_reason option \<Rightarrow> (string, unit) result) \<Rightarrow> string option \<Rightarrow> stop_input list
     \<Rightarrow> (helper_error, unit) result" where
  "run_source env_name connect signals watched run_fn name ins =
     (let resolved = resolve_name name env_name ''source''
      in case connect resolved of
           Inl e \<Rightarrow> Err (HE_ConnectionFailed resolved (show_client_error e))
         | Inr _ \<Rightarrow> (case signals of
             Inl e \<Rightarrow> Err (HE_SignalHandlerFailed e)
           | Inr _ \<Rightarrow> (case run_fn resolved (source_stop_reason_of watched ins) of
               Inl e \<Rightarrow> Err (HE_UserFunction e) | Inr _ \<Rightarrow> Ok ())))"

section \<open>The loop of Handlers and Sinks\<close>

datatype 'm loop_input = SigTerm | Delivered 'm | StreamEnded

record 's loop_end =
  le_result :: "(helper_error, unit) result option"
  le_disconnected :: bool
  le_state :: 's

fun message_loop ::
  "('m \<Rightarrow> 's \<Rightarrow> (string, unit) result \<times> 's) \<Rightarrow> 's \<Rightarrow> 'm loop_input list \<Rightarrow> 's loop_end" where
  "message_loop process s [] = \<lparr> le_result = None, le_disconnected = False, le_state = s \<rparr>"
| "message_loop process s (SigTerm # ins) = \<lparr> le_result = Some (Ok ()), le_disconnected = True, le_state = s \<rparr>"
| "message_loop process s (StreamEnded # ins) = \<lparr> le_result = Some (Ok ()), le_disconnected = False, le_state = s \<rparr>"
| "message_loop process s (Delivered m # ins) = (case process m s of
      (Inl e, s') \<Rightarrow> \<lparr> le_result = Some (Err (HE_UserFunction e)), le_disconnected = False, le_state = s' \<rparr>
    | (Inr _, s') \<Rightarrow> message_loop process s' ins)"

text \<open>
  Connect, subscribe, set up the signal, loop. The first part is the same for both kinds; \<open>subscribe\<close> is
  the client's, \<open>connect\<close> and \<open>signals\<close> the results of the other two calls.
\<close>

definition run_client ::
  "string \<Rightarrow> (string \<Rightarrow> sdk_client \<Rightarrow> (client_error, message_stream) result) \<Rightarrow> string option
     \<Rightarrow> (string \<Rightarrow> (client_error, unit) result) \<Rightarrow> (string, unit) result
     \<Rightarrow> ('m \<Rightarrow> 's \<Rightarrow> (string, unit) result \<times> 's) \<Rightarrow> string option \<Rightarrow> 's \<Rightarrow> 'm loop_input list \<Rightarrow> 's loop_end" where
  "run_client dflt subscribe env_name connect signals process name s ins =
     (let resolved = resolve_name name env_name dflt;
          failed = (\<lambda>e. \<lparr> le_result = Some (Err e), le_disconnected = False, le_state = s \<rparr>)
      in case connect resolved of
           Inl e \<Rightarrow> failed (HE_ConnectionFailed resolved (show_client_error e))
         | Inr _ \<Rightarrow> (case subscribe resolved (client_new resolved) of
             Inl e \<Rightarrow> failed (HE_SubscribeFailed (show_client_error e))
           | Inr _ \<Rightarrow> (case signals of
               Inl e \<Rightarrow> failed (HE_SignalHandlerFailed e)
             | Inr _ \<Rightarrow> message_loop process s ins)))"

definition run_handler ::
  "engine_answers \<Rightarrow> string list \<Rightarrow> string option \<Rightarrow> (string \<Rightarrow> (client_error, unit) result) \<Rightarrow> (string, unit) result
     \<Rightarrow> ('m \<Rightarrow> 's \<Rightarrow> (string, unit) result \<times> 's) \<Rightarrow> string option \<Rightarrow> 's \<Rightarrow> 'm loop_input list \<Rightarrow> 's loop_end" where
  "run_handler eng subscriptions = run_client ''handler'' (\<lambda>_ c. snd (snd (handler_subscribe eng subscriptions c)))"

definition run_sink ::
  "engine_answers \<Rightarrow> string list \<Rightarrow> string option \<Rightarrow> (string \<Rightarrow> (client_error, unit) result) \<Rightarrow> (string, unit) result
     \<Rightarrow> ('m \<Rightarrow> 's \<Rightarrow> (string, unit) result \<times> 's) \<Rightarrow> string option \<Rightarrow> 's \<Rightarrow> 'm loop_input list \<Rightarrow> 's loop_end" where
  "run_sink eng subscriptions = run_client ''sink'' (\<lambda>_ c. snd (snd (sink_subscribe eng subscriptions c)))"

section \<open>Properties\<close>

text \<open>The user's function over a list of messages, up to its first error.\<close>

fun process_all :: "('m \<Rightarrow> 's \<Rightarrow> (string, unit) result \<times> 's) \<Rightarrow> 's \<Rightarrow> 'm list \<Rightarrow> (string, unit) result \<times> 's" where
  "process_all process s [] = (Ok (), s)"
| "process_all process s (m # ms) = (case process m s of
      (Inl e, s') \<Rightarrow> (Err e, s') | (Inr _, s') \<Rightarrow> process_all process s' ms)"

lemma loop_over_messages:
  "message_loop process s (map Delivered ms @ ins) = (case process_all process s ms of
      (Inl e, s') \<Rightarrow> \<lparr> le_result = Some (Err (HE_UserFunction e)), le_disconnected = False, le_state = s' \<rparr>
    | (Inr _, s') \<Rightarrow> message_loop process s' ins)"
  by (induction ms arbitrary: s) (auto split: prod.splits sum.splits)

lemma inputs_split:
  obtains ms rest where "ins = map Delivered ms @ rest" "rest = [] \<or> (\<exists>ins'. rest = SigTerm # ins') \<or> (\<exists>ins'. rest = StreamEnded # ins')"
proof (induction ins arbitrary: thesis)
  case Nil
  from Nil [of "[]" "[]"] show ?case by simp
next
  case (Cons i ins)
  obtain ms rest where r: "ins = map Delivered ms @ rest"
    "rest = [] \<or> (\<exists>ins'. rest = SigTerm # ins') \<or> (\<exists>ins'. rest = StreamEnded # ins')"
    by (rule Cons.IH)
  show ?case
  proof (cases i)
    case (Delivered m)
    with r Cons.prems [of "m # ms" rest] show ?thesis by simp
  qed (use Cons.prems [of "[]" "i # ins"] in auto)
qed

text \<open>
  C36. A runner hands its function every message, in order, until it has a reason to stop. Whatever a
  Handler or Sink is sent, the messages delivered before the first signal or end of the stream are
  processed one after the other, up to the first the function fails on; the runner returns that error, or
  success at the signal or the end. It disconnects when it was told to by the signal and in no other case:
  not when the engine closes the stream and not when the function fails.
\<close>

theorem runner_loop:
  "\<exists>ms rest. ins = map Delivered ms @ rest \<and> (rest = [] \<or> hd rest \<in> {SigTerm, StreamEnded})
     \<and> (case process_all process s ms of
          (Inl e, s') \<Rightarrow> message_loop process s ins
            = \<lparr> le_result = Some (Err (HE_UserFunction e)), le_disconnected = False, le_state = s' \<rparr>
        | (Inr _, s') \<Rightarrow> message_loop process s ins
            = \<lparr> le_result = (if rest = [] then None else Some (Ok ())),
                le_disconnected = (rest \<noteq> [] \<and> hd rest = SigTerm), le_state = s' \<rparr>)"
proof -
  obtain ms rest where r: "ins = map Delivered ms @ rest"
    "rest = [] \<or> (\<exists>ins'. rest = SigTerm # ins') \<or> (\<exists>ins'. rest = StreamEnded # ins')"
    by (rule inputs_split)
  show ?thesis
    using r loop_over_messages [of process s ms "[]"]
    by (intro exI [of _ ms] exI [of _ rest]) (auto simp: loop_over_messages split: prod.split sum.split)
qed

text \<open>
  A Source notices that its engine is gone. With the push channel in hand, the first thing that is not
  a delivered push decides: the signal, or the channel closing when the engine dies; pushes never stop a
  Source. Without the channel only the signal does.
\<close>

theorem source_stops_on_engine_loss:
  "source_stop_reason_of True (replicate n PushArrived @ PushChannelEnded # ins) = Some EngineDisconnected
   \<and> source_stop_reason_of w (replicate n PushArrived @ SignalFired # ins) = Some StopSignal
   \<and> (source_stop_reason_of False ins = (if SignalFired \<in> set ins then Some StopSignal else None))
   \<and> (source_stop_reason_of True ins = None \<longleftrightarrow> set ins \<subseteq> {PushArrived})"
proof -
  have n: "source_stop_reason_of w (replicate n PushArrived @ ins) = source_stop_reason_of w ins" for w ins
    by (induction n) auto
  have "source_stop_reason_of False ins = (if SignalFired \<in> set ins then Some StopSignal else None)"
    by (induction "False" ins rule: source_stop_reason_of.induct) auto
  moreover have "source_stop_reason_of True ins = None \<longleftrightarrow> set ins \<subseteq> {PushArrived}"
    by (induction "True" ins rule: source_stop_reason_of.induct) auto
  ultimately show ?thesis
    by (simp add: n)
qed

end
