(* ===== verification/Sdk_Events.thy ===== *)
theory Sdk_Events
  imports Broker
begin

text \<open>
  The typed payloads an SDK client reads system events with
  (\<^verbatim>\<open>sdks/rust/src/types/system_events.rs\<close>). The engine writes these payloads with a struct of its own
  (\<open>payload_to_json\<close> of \<open>Primitive_Actor\<close>) and, for a refused operation, with the rejection report of
  the broker (\<open>rejection_report_json\<close>). The lemmas compare the two sides: which of the events the
  engine sends under \<^verbatim>\<open>system.*\<close> a client can read, and what it reads.
\<close>

section \<open>SystemEventPayload\<close>

record sdk_event_payload =
  ev_name :: string
  ev_kind :: string
  ev_pid :: "u32 option"
  ev_publishes :: "string list"
  ev_subscribes :: "string list"
  ev_error :: "string option"

text \<open>
  The derived \<^verbatim>\<open>Deserialize\<close>: unknown fields are ignored, a missing list is empty, a list that is
  there must be an array of strings. \<open>None\<close> is the error of serde.
\<close>

definition read_default_list :: "(json \<Rightarrow> 'b option) \<Rightarrow> json option \<Rightarrow> 'b list option" where
  "read_default_list f v = (case v of None \<Rightarrow> Some [] | Some _ \<Rightarrow> read_list f v)"

definition decode_system_event :: "json \<Rightarrow> sdk_event_payload option" where
  "decode_system_event v = do {
     n \<leftarrow> Option.bind (json_get ''name'' v) json_as_str;
     k \<leftarrow> Option.bind (json_get ''kind'' v) json_as_str;
     p \<leftarrow> read_optional read_u32 (json_get ''pid'' v);
     ps \<leftarrow> read_default_list json_as_str (json_get ''publishes'' v);
     ss \<leftarrow> read_default_list json_as_str (json_get ''subscribes'' v);
     e \<leftarrow> read_optional json_as_str (json_get ''error'' v);
     Some \<lparr> ev_name = n, ev_kind = k, ev_pid = p, ev_publishes = ps, ev_subscribes = ss, ev_error = e \<rparr>
   }"

text \<open>The derived \<^verbatim>\<open>Serialize\<close> under the \<^verbatim>\<open>skip_serializing_if\<close> attributes.\<close>

definition encode_system_event :: "sdk_event_payload \<Rightarrow> json" where
  "encode_system_event e = JObject
     ([(''name'', JString (ev_name e)), (''kind'', JString (ev_kind e))]
      @ opt_field ''pid'' (map_option (\<lambda>x. JInt (uint x)) (ev_pid e))
      @ json_strings ''publishes'' (ev_publishes e)
      @ json_strings ''subscribes'' (ev_subscribes e)
      @ opt_field ''error'' (map_option JString (ev_error e)))"

definition is_source :: "sdk_event_payload \<Rightarrow> bool" where
  "is_source e \<longleftrightarrow> ev_kind e = ''source''"

definition is_handler :: "sdk_event_payload \<Rightarrow> bool" where
  "is_handler e \<longleftrightarrow> ev_kind e = ''handler''"

definition is_sink :: "sdk_event_payload \<Rightarrow> bool" where
  "is_sink e \<longleftrightarrow> ev_kind e = ''sink''"

definition is_error_event :: "sdk_event_payload \<Rightarrow> bool" where
  "is_error_event e \<longleftrightarrow> ev_error e \<noteq> None"

definition event_text :: "sdk_event_payload \<Rightarrow> string" where
  "event_text e = ev_name e @ '' ('' @ ev_kind e @ '')''
     @ (case ev_pid e of Some p \<Rightarrow> '' [pid: '' @ show_nat (unat p) @ '']'' | None \<Rightarrow> '''')
     @ (case ev_error e of Some m \<Rightarrow> '' error: '' @ m | None \<Rightarrow> '''')"

section \<open>SystemShutdownPayload\<close>

record sdk_shutdown_payload =
  sh_kind :: string

definition decode_shutdown :: "json \<Rightarrow> sdk_shutdown_payload option" where
  "decode_shutdown v = map_option (\<lambda>k. \<lparr> sh_kind = k \<rparr>) (Option.bind (json_get ''kind'' v) json_as_str)"

definition is_handler_shutdown :: "sdk_shutdown_payload \<Rightarrow> bool" where
  "is_handler_shutdown s \<longleftrightarrow> sh_kind s = ''handler''"

definition is_sink_shutdown :: "sdk_shutdown_payload \<Rightarrow> bool" where
  "is_sink_shutdown s \<longleftrightarrow> sh_kind s = ''sink''"

definition shutdown_text :: "sdk_shutdown_payload \<Rightarrow> string" where
  "shutdown_text s = ''shutdown ('' @ sh_kind s @ '')''"

section \<open>What a client reads of the engine's events\<close>

lemma map_of_json_strings:
  "map_of (json_strings k vs) k' = (if k = k' \<and> vs \<noteq> [] then Some (JArray (map JString vs)) else None)"
  by (simp add: json_strings_def)

lemma map_of_opt_field: "map_of (opt_field k v) k' = (if k = k' then v else None)"
  by (simp add: opt_field_def split: option.splits)

lemmas field_lookups = map_add_def map_of_json_strings map_of_opt_field

lemma read_written_pid: "read_optional read_u32 (map_option (\<lambda>x. JInt (uint x)) p) = Some p"
  using uint_lt2p [of "the p"] by (cases p) (auto simp: read_optional_def read_u32_def)

lemma read_written_error: "read_optional json_as_str (map_option JString e) = Some e"
  by (cases e) (auto simp: read_optional_def)

lemma read_written_list:
  "read_default_list json_as_str (if vs \<noteq> [] then Some (JArray (map JString vs)) else None) = Some vs"
  by (simp add: read_default_list_def read_strings)

lemmas reads = read_written_pid read_written_error read_written_list

definition client_view :: "system_event_payload \<Rightarrow> sdk_event_payload" where
  "client_view p = \<lparr> ev_name = sep_name p, ev_kind = sep_kind p, ev_pid = sep_pid p, ev_publishes = sep_publishes p,
     ev_subscribes = sep_subscribes p, ev_error = sep_error p \<rparr>"

lemma decode_engine_payload: "decode_system_event (payload_to_json p) = Some (client_view p)"
proof -
  have "json_get ''name'' (payload_to_json p) = Some (JString (sep_name p))"
    "json_get ''kind'' (payload_to_json p) = Some (JString (sep_kind p))"
    "json_get ''pid'' (payload_to_json p) = map_option (\<lambda>x. JInt (uint x)) (sep_pid p)"
    "json_get ''publishes'' (payload_to_json p)
      = (if sep_publishes p \<noteq> [] then Some (JArray (map JString (sep_publishes p))) else None)"
    "json_get ''subscribes'' (payload_to_json p)
      = (if sep_subscribes p \<noteq> [] then Some (JArray (map JString (sep_subscribes p))) else None)"
    "json_get ''error'' (payload_to_json p) = map_option JString (sep_error p)"
    by (simp_all add: payload_to_json_def field_lookups split: option.splits)
  then show ?thesis
    by (simp add: decode_system_event_def reads client_view_def)
qed

lemma decode_encode_system_event: "decode_system_event (encode_system_event e) = Some e"
proof -
  have "encode_system_event e = payload_to_json \<lparr> sep_name = ev_name e, sep_kind = ev_kind e, sep_pid = ev_pid e,
      sep_publishes = ev_publishes e, sep_subscribes = ev_subscribes e, sep_error = ev_error e, sep_restart_attempt = None \<rparr>"
    by (simp add: encode_system_event_def payload_to_json_def opt_field_def)
  then show ?thesis
    by (simp add: decode_engine_payload client_view_def)
qed

section \<open>Properties\<close>

lemma create_system_event_payload:
  "create_system_event mid ts et i p err = Ok m \<Longrightarrow> msg_payload m = payload_to_json (system_payload et i p err)"
  by (auto simp: create_system_event_def with_payload_def split: sum.splits)

lemma create_restarted_event_payload:
  "create_restarted_event mid ts i p k = Ok m \<Longrightarrow> msg_payload m = payload_to_json (payload_restarted i p k)"
  by (auto simp: create_restarted_event_def with_payload_def split: sum.splits)

lemma create_shutdown_event_payload:
  "create_shutdown_event mid ts kind = Some m \<Longrightarrow> msg_payload m = payload_shutdown kind"
  by (auto simp: create_shutdown_event_def with_payload_def)

lemma kind_tests:
  "primitive_kind_as_str k = ''source'' \<longleftrightarrow> k = Source" "primitive_kind_as_str k = ''handler'' \<longleftrightarrow> k = Handler"
  "primitive_kind_as_str k = ''sink'' \<longleftrightarrow> k = Sink"
  by (cases k; simp add: primitive_kind_as_str_def)+

definition reads_as :: "primitive_info \<Rightarrow> pid option \<Rightarrow> string option \<Rightarrow> sdk_event_payload \<Rightarrow> bool" where
  "reads_as i p err e \<longleftrightarrow> ev_name e = info_name i \<and> ev_pid e = p
     \<and> ev_publishes e = info_publishes i \<and> ev_subscribes e = info_subscribes i \<and> ev_error e = err
     \<and> (is_source e \<longleftrightarrow> info_kind i = Source) \<and> (is_handler e \<longleftrightarrow> info_kind i = Handler)
     \<and> (is_sink e \<longleftrightarrow> info_kind i = Sink) \<and> (is_error_event e \<longleftrightarrow> err \<noteq> None)"

lemmas payload_defs = system_payload_def payload_error_def payload_started_def payload_stopped_def payload_restarted_def
  payload_base_def

lemmas payload_readers = reads_as_def is_source_def is_handler_def is_sink_def is_error_event_def client_view_def

text \<open>
  C32. What a client learns from a system event. From every started, stopped, error and restarted event the
  engine builds, the typed payload of the SDK reads the primitive's name, its declarations, its error and its
  process exactly as the engine had them, and the tests for source, handler and sink single out its kind
  (a started event without a process reads as process 0, and the restart attempt is not read);
  a shutdown event reads as the kind it is for. The engine's other event of a type \<^verbatim>\<open>system.error.*\<close>,
  the report of a refused operation, has none of these fields and cannot be read with this payload.
\<close>

theorem system_events_read_back:
  assumes "create_system_event mid ts et i p err = Ok m" and "create_restarted_event mid ts i q k = Ok r"
    and "create_shutdown_event mid ts kind = Some s"
  shows "(\<exists>e. decode_system_event (msg_payload m) = Some e
        \<and> reads_as i (if et = ''system.started'' \<and> err = None \<and> p = None then Some 0 else p) err e)
    \<and> (\<exists>e. decode_system_event (msg_payload r) = Some e \<and> reads_as i (Some q) None e)
    \<and> (\<exists>e. decode_shutdown (msg_payload s) = Some e \<and> sh_kind e = kind
        \<and> (is_handler_shutdown e \<longleftrightarrow> kind = ''handler'') \<and> (is_sink_shutdown e \<longleftrightarrow> kind = ''sink''))
    \<and> decode_system_event (msg_payload (rejection_message mid ts report)) = None"
proof -
  note payload = create_system_event_payload [OF assms(1)] create_restarted_event_payload [OF assms(2)]
    create_shutdown_event_payload [OF assms(3)]
  have "reads_as i (if et = ''system.started'' \<and> err = None \<and> p = None then Some 0 else p) err
      (client_view (system_payload et i p err))" "reads_as i (Some q) None (client_view (payload_restarted i q k))"
    by (cases err; cases p; simp add: payload_readers payload_defs kind_tests)+
  moreover have "decode_shutdown (payload_shutdown kind) = Some \<lparr> sh_kind = kind \<rparr>"
    by (simp add: decode_shutdown_def payload_shutdown_def)
  moreover have "decode_system_event (rejection_report_json report) = None"
    by (simp add: decode_system_event_def rejection_report_json_def)
  ultimately show ?thesis
    by (simp add: payload decode_engine_payload is_handler_shutdown_def is_sink_shutdown_def rejection_message_def)
qed

theorem system_events_read_back_witness:
  "\<exists>m e. create_system_event (MessageId ''msg_1'') (Timestamp 5) ''system.error''
        (info_handler ''filter'' [''raw''] [''clean'']) (Some 9) (Some ''exited'') = Ok m
     \<and> decode_system_event (msg_payload m) = Some e
     \<and> reads_as (info_handler ''filter'' [''raw''] [''clean'']) (Some 9) (Some ''exited'') e"
proof -
  let ?i = "info_handler ''filter'' [''raw''] [''clean'']"
  have "is_ok (create_system_event (MessageId ''msg_1'') (Timestamp 5) ''system.error'' ?i (Some 9) (Some ''exited''))"
    "is_ok (create_restarted_event (MessageId ''msg_1'') (Timestamp 5) ?i 9 1)"
    "create_shutdown_event (MessageId ''msg_1'') (Timestamp 5) ''sink'' \<noteq> None"
    by code_simp+
  then obtain m r s where b:
    "create_system_event (MessageId ''msg_1'') (Timestamp 5) ''system.error'' ?i (Some 9) (Some ''exited'') = Ok m"
    "create_restarted_event (MessageId ''msg_1'') (Timestamp 5) ?i 9 1 = Ok r"
    "create_shutdown_event (MessageId ''msg_1'') (Timestamp 5) ''sink'' = Some s"
    by (auto simp: is_ok_iff)
  from system_events_read_back [OF b] b(1) show ?thesis
    by auto
qed

subsection \<open>The messages of the broker\<close>

definition input_ok :: "('t \<Rightarrow> string) \<Rightarrow> 't broker_input \<Rightarrow> bool" where
  "input_ok prefix_of i = (case i of
      ClientMessage pm mid ts m env \<Rightarrow> message_ok prefix_of m \<and> prefix_of (MessageId_inner mid) = MessageId_PREFIX
    | SystemEvent m \<Rightarrow> message_ok prefix_of m
    | RejectionInput mid ts report \<Rightarrow> prefix_of (MessageId_inner mid) = MessageId_PREFIX)"

definition readable_notification ::
  "(string \<Rightarrow> ('e, 't) result) \<Rightarrow> ('t \<Rightarrow> string) \<Rightarrow> push_notification \<Rightarrow> bool" where
  "readable_notification from_str prefix_of n = (case message_from_value from_str prefix_of (pn_payload n) of
      None \<Rightarrow> False
    | Some m \<Rightarrow> message_ok prefix_of m \<and> msg_type m = pn_message_type n \<and> Some (msg_source m) = pn_source_actor n)"

lemma outgoing_ok:
  assumes "input_ok prefix_of i" and "m \<in> set (outgoing engine_pid i)"
  shows "message_ok prefix_of m"
  using assms engine_name_valid response_types_valid
  by (cases i) (auto simp: input_ok_def message_ok_def response_message_def rejection_message_def rejection_reported_def
      split: if_splits)

lemma message_readable:
  assumes "\<And>t. from_str (to_str t) = Ok t" and "message_ok prefix_of m"
  shows "readable_notification from_str prefix_of (engine_notification to_str m)"
proof (cases "msg_metadata m = Some JNull")
  case True
  have ok: "message_ok prefix_of (m\<lparr> msg_metadata := None \<rparr>)"
    using assms(2) by (simp add: message_ok_def)
  from message_value_roundtrip [OF assms(1) ok] ok True show ?thesis
    by (simp add: readable_notification_def engine_notification_def null_metadata_reads_as_none)
next
  case False
  then show ?thesis
    using message_value_roundtrip [OF assms] assms(2)
    by (simp add: readable_notification_def engine_notification_def)
qed

text \<open>
  C29. Everything the broker sends is a well-formed message. Whatever sequence of well-formed messages, system
  events and refusals the broker handles, each notification it pushes to the subscribers can be read by the
  SDK's message type, with a valid type, source and identifiers, and is filed under the type and the source
  the message itself names. This includes the answers and reports the engine makes up from a client's data.
\<close>

theorem forwarded_messages_well_formed:
  assumes "\<And>t. from_str (to_str t) = Ok t" and "list_all (input_ok prefix_of) is"
    and "list_all (readable_notification from_str prefix_of) (br_forwarded b)"
  shows "\<exists>b'. broker_run to_str store engine_pid b is = Some b'
    \<and> list_all (readable_notification from_str prefix_of) (br_forwarded b')"
  using assms(2,3)
proof (induction "is" arbitrary: b)
  case (Cons i "is")
  have "list_all (readable_notification from_str prefix_of) (map (engine_notification to_str) (outgoing engine_pid i))"
    using Cons.prems(1) message_readable [OF assms(1)] outgoing_ok by (fastforce simp: list_all_iff)
  with Cons show ?case
    by (simp add: broker_step_spec)
qed simp

theorem forwarded_messages_well_formed_witness:
  "\<exists>b'. broker_run id (\<lambda>m n. (Suc n, Ok ())) 1 \<lparr> br_message_count = 0, br_store = (0::nat), br_forwarded = [], br_acked = [] \<rparr>
      [RejectionInput (MessageId ''msg_1'') (Timestamp 3)
         \<lparr> rr_primitive = ''timer'', rr_operation = ''publish'', rr_message_type = ''x'', rr_reason = ''undeclared'', rr_mode = ''strict'' \<rparr>]
      = Some b'
    \<and> list_all (readable_notification (\<lambda>s. Ok s :: (unit, string) result) (take 3)) (br_forwarded b')"
proof -
  let ?is = "[RejectionInput (MessageId ''msg_1'') (Timestamp 3)
         \<lparr> rr_primitive = ''timer'', rr_operation = ''publish'', rr_message_type = ''x'', rr_reason = ''undeclared'', rr_mode = ''strict'' \<rparr>]"
  let ?from = "\<lambda>s. Ok s :: (unit, string) result"
  have "\<And>t. ?from (id t) = Ok t" and "list_all (input_ok (take 3)) ?is"
    by (simp_all add: input_ok_def MessageId_PREFIX_def)
  from forwarded_messages_well_formed [where from_str = ?from and to_str = id, OF this,
      where b = "\<lparr> br_message_count = 0, br_store = (0::nat), br_forwarded = [], br_acked = [] \<rparr>"
        and store = "\<lambda>m n. (Suc n, Ok ())" and engine_pid = 1]
  show ?thesis
    by (simp del: broker_run.simps)
qed

end
