(* ===== verification/Registry.thy ===== *)
theory Registry
  imports Prelude
begin

text \<open>
  The marketplace registry: \<^verbatim>\<open>marketplace/registry.rs\<close>, \<^verbatim>\<open>marketplace/error.rs\<close>, \<^verbatim>\<open>marketplace/platform.rs\<close>
  and the address part of \<^verbatim>\<open>marketplace/storage.rs\<close>. A command reads assets of a release over HTTP, keeps
  them for the life of the process and in a cache directory on disk, and parses them.

  Whether a file is there (\<^verbatim>\<open>Path::exists\<close>) is answered truthfully, all other operations on files may fail.
  The outside world is the record \<open>market_env\<close>: what the network answers, which operation on the file
  system fails and how far it gets, the TOML parsers, the hash, the unpacker, the clock. Each answer depends
  on the number of effects done before, so nothing is assumed to answer the same way twice. The file system
  is the list of its regular files by path.
\<close>

section \<open>Errors\<close>

datatype market_error =
    XdgDirectories string
  | Io string
  | Download string string
  | TomlParse string string
  | TomlSerialize string string
  | JsonParse string
  | PrimitiveNotFound string
  | VersionNotFound string string
  | PlatformNotSupported string string
  | ChecksumMismatch string string
  | ExtractionFailed string string
  | AlreadyInstalled string string
  | InvalidManifest string
  | RegistryUnavailable string string u16
  | BatchFailed usize usize

definition INDEX_FILE :: string where
  "INDEX_FILE = ''index.toml''"

definition MANIFESTS_FILE :: string where
  "MANIFESTS_FILE = ''manifests.toml''"

definition CHECKSUMS_FILE :: string where
  "CHECKSUMS_FILE = ''checksums.txt''"

definition unavailable_message :: "string \<Rightarrow> string \<Rightarrow> u16 \<Rightarrow> string" where
  "unavailable_message file url status =
     ''Could not read '' @ file @ '' from the registry: '' @ url @ '' returned HTTP '' @ show_nat (unat status) @ ''.''
     @ (if status = 404 then
          '' That release publishes no '' @ file @ ''.''
          @ (if file = INDEX_FILE \<or> file = MANIFESTS_FILE then
               '' Releases before primitives 0.11.0 predate it, so install from a later version, or point registry_url in ''
               @ ''marketplace.toml at a host that serves '' @ INDEX_FILE @ '' and '' @ MANIFESTS_FILE @ ''.''
             else '''')
        else '''')"

definition market_error_text :: "market_error \<Rightarrow> string" where
  "market_error_text e = (case e of
      XdgDirectories m \<Rightarrow> ''XDG directory error: '' @ m
    | Io s \<Rightarrow> ''I/O error: '' @ s
    | Download url s \<Rightarrow> ''Failed to download '' @ url @ '': '' @ s
    | TomlParse p s \<Rightarrow> ''Failed to parse TOML at '' @ p @ '': '' @ s
    | TomlSerialize p s \<Rightarrow> ''Failed to serialize TOML at '' @ p @ '': '' @ s
    | JsonParse s \<Rightarrow> ''Failed to parse JSON: '' @ s
    | PrimitiveNotFound n \<Rightarrow> ''Primitive '' @ quoted n @ '' not found in registry''
    | VersionNotFound n v \<Rightarrow> ''Version '' @ quoted v @ '' not found for primitive '' @ quoted n
    | PlatformNotSupported pl p \<Rightarrow> ''Platform '' @ quoted pl @ '' not supported for primitive '' @ quoted p
    | ChecksumMismatch x a \<Rightarrow> ''Checksum mismatch: expected '' @ x @ '', got '' @ a
    | ExtractionFailed p s \<Rightarrow> ''Failed to extract archive at '' @ p @ '': '' @ s
    | AlreadyInstalled n v \<Rightarrow> ''Primitive '' @ quoted n @ '' version '' @ quoted v @ '' is already installed''
    | InvalidManifest r \<Rightarrow> ''Invalid manifest: '' @ r
    | RegistryUnavailable f u s \<Rightarrow> unavailable_message f u s
    | BatchFailed s f \<Rightarrow> ''Batch operation failed: '' @ show_nat s @ '' succeeded, '' @ show_nat f @ '' failed'')"

section \<open>Platform\<close>

datatype target_arch = X86_64 | Aarch64 | Arm | OtherArch
datatype target_vendor = Apple | Pc | OtherVendor
datatype target_os = Linux | Macos | Windows | OtherOs

definition detect_arch :: "target_arch \<Rightarrow> string" where
  "detect_arch a = (case a of X86_64 \<Rightarrow> ''x86_64'' | Aarch64 \<Rightarrow> ''aarch64'' | Arm \<Rightarrow> ''arm'' | OtherArch \<Rightarrow> ''unknown'')"

definition detect_vendor :: "target_vendor \<Rightarrow> string" where
  "detect_vendor v = (case v of Apple \<Rightarrow> ''apple'' | Pc \<Rightarrow> ''unknown'' | OtherVendor \<Rightarrow> ''unknown'')"

definition detect_os :: "target_os \<Rightarrow> string" where
  "detect_os s = (case s of Linux \<Rightarrow> ''linux-gnu'' | Macos \<Rightarrow> ''darwin'' | Windows \<Rightarrow> ''windows-msvc'' | OtherOs \<Rightarrow> ''unknown'')"

definition platform_detect :: "target_arch \<Rightarrow> target_vendor \<Rightarrow> target_os \<Rightarrow> string" where
  "platform_detect a v s = detect_arch a @ ''-'' @ detect_vendor v @ ''-'' @ detect_os s"

section \<open>Data of the registry\<close>

record registry_info =
  ri_name :: string
  ri_version :: string
  ri_description :: string

record primitive_entry =
  pe_name :: string
  pe_version :: string
  pe_kind :: string
  pe_description :: string
  pe_publishes :: "string list"
  pe_subscribes :: "string list"
  pe_tags :: "string list"

record registry_metadata =
  rm_registry :: registry_info
  rm_primitives :: "primitive_entry list"

record market_primitive_info =
  mpi_name :: string
  mpi_version :: string
  mpi_kind :: string
  mpi_description :: string
  mpi_homepage :: "string option"
  mpi_license :: "string option"
  mpi_runtime :: "string option"

record message_info =
  mi_publishes :: "string list"
  mi_subscribes :: "string list"

record argument_info =
  arg_name :: string
  arg_long :: string
  arg_short :: "string option"
  arg_env :: "string option"
  arg_required :: bool
  arg_description :: string

text \<open>The hash maps are association lists with distinct keys.\<close>

record binary_info =
  bi_release_url :: string
  bi_targets :: "(string \<times> string) list"
  bi_checksums :: "(string \<times> string) list"

record primitive_manifest =
  pmf_primitive :: market_primitive_info
  pmf_messages :: message_info
  pmf_args :: "argument_info list"
  pmf_binaries :: binary_info

record manifest_bundle =
  mb_version :: string
  mb_manifests :: "(string \<times> primitive_manifest) list"

text \<open>The files of the storage: the marketplace configuration and what is installed.\<close>

record market_config =
  mc_registry_url :: string

record installed_primitive =
  ip_name :: string
  ip_version :: string
  ip_kind :: string
  ip_binary_path :: string
  ip_installed_at :: string

type_synonym installation_manifest = "(string \<times> installed_primitive) list"

definition checksum_for :: "binary_info \<Rightarrow> string \<Rightarrow> string option" where
  "checksum_for b target = (case map_option trim (map_of (bi_checksums b) target) of
      Some s \<Rightarrow> if s \<noteq> [] then Some s else None
    | None \<Rightarrow> None)"

section \<open>Addresses\<close>

definition trim_end_char :: "char \<Rightarrow> string \<Rightarrow> string" where
  "trim_end_char c s = rev (dropWhile (\<lambda>x. x = c) (rev s))"

definition asset_url :: "string \<Rightarrow> string option \<Rightarrow> string \<Rightarrow> string" where
  "asset_url base version file =
     (let base = trim_end_char (CHR ''/'') base
      in case (ends_with base ''/releases'', version) of
           (True, None) \<Rightarrow> base @ ''/latest/download/'' @ file
         | (True, Some v) \<Rightarrow> base @ ''/download/v'' @ v @ ''/'' @ file
         | (False, None) \<Rightarrow> base @ ''/'' @ file
         | (False, Some v) \<Rightarrow> base @ ''/v'' @ v @ ''/'' @ file)"

definition cache_scope :: "string option \<Rightarrow> string" where
  "cache_scope version = (case version of Some v \<Rightarrow> ''v'' @ v | None \<Rightarrow> ''latest'')"

definition version_char :: "char \<Rightarrow> bool" where
  "version_char c \<longleftrightarrow> is_ascii_lowercase c \<or> is_ascii_uppercase c \<or> is_ascii_digit c \<or> c \<in> set ''.-+_''"

definition is_safe_version :: "string \<Rightarrow> bool" where
  "is_safe_version v \<longleftrightarrow> v \<noteq> [] \<and> list_all version_char v \<and> \<not> contains_str v ''..''"

datatype cache_plan = UseCache | Fetch

definition cache_plan_for :: "bool \<Rightarrow> bool \<Rightarrow> cache_plan" where
  "cache_plan_for pinned cached = (if pinned \<and> cached then UseCache else Fetch)"

definition DEFAULT_REGISTRY_URL :: string where
  "DEFAULT_REGISTRY_URL = ''https://github.com/Govcraft/emergent-primitives/releases''"

definition LEGACY_REGISTRY_URL :: string where
  "LEGACY_REGISTRY_URL = ''https://github.com/govcraft/emergent-registry''"

text \<open>\<^verbatim>\<open>trim_end_matches(".git")\<close> strips the suffix as often as it is there.\<close>

definition trim_end_git :: "string \<Rightarrow> string" where
  "trim_end_git s = rev (strip_units [rev ''.git''] (length s) (rev s))"

text \<open>The two replacements of \<^verbatim>\<open>migrated_registry_url\<close> act on the constant, at its start.\<close>

definition legacy_registry_urls :: "string list" where
  "legacy_registry_urls = [LEGACY_REGISTRY_URL,
     ''git@github.com:'' @ drop (length ''https://github.com/'') LEGACY_REGISTRY_URL,
     ''http://'' @ drop (length ''https://'') LEGACY_REGISTRY_URL]"

definition migrated_registry_url :: "string \<Rightarrow> string option" where
  "migrated_registry_url stored =
     (let normalized = to_ascii_lowercase (trim_end_git (trim_end_char (CHR ''/'') (trim stored)))
      in if normalized \<in> set legacy_registry_urls then Some DEFAULT_REGISTRY_URL else None)"

section \<open>Texts\<close>

definition plural :: "nat \<Rightarrow> string \<Rightarrow> string" where
  "plural count unit = (if count = 1 then ''1 '' @ unit @ '' ago'' else show_nat count @ '' '' @ unit @ ''s ago'')"

definition describe_age :: "nat \<Rightarrow> string" where
  "describe_age seconds =
     (if seconds \<le> 59 then ''just now''
      else if seconds \<le> 3599 then plural (seconds div 60) ''minute''
      else if seconds \<le> 86399 then plural (seconds div 3600) ''hour''
      else plural (seconds div 86400) ''day'')"

definition offline_note :: "string \<Rightarrow> string \<Rightarrow> string" where
  "offline_note file age = ''Offline: using the cached '' @ file @ '' from '' @ age @ ''.''"

section \<open>The checksum file\<close>

text \<open>\<^verbatim>\<open>str::lines\<close> and \<^verbatim>\<open>split_once(char::is_whitespace)\<close>.\<close>

definition strip_cr :: "string \<Rightarrow> string" where
  "strip_cr s = (case strip_suffix [CHR 0x0D] s of Some r \<Rightarrow> r | None \<Rightarrow> s)"

definition text_lines :: "string \<Rightarrow> string list" where
  "text_lines s = (let ps = split_on (CHR 0x0A) s
     in map strip_cr (butlast ps) @ (if last ps = [] then [] else [last ps]))"

text \<open>The white space as a literal list, so that it is not computed again for every character.\<close>

lemma white_space_units_code [code]:
  "white_space_units =
     [[CHR 0x09], [CHR 0x0A], [CHR 0x0B], [CHR 0x0C], [CHR 0x0D], [CHR 0x20], [CHR 0xC2, CHR 0x85], [CHR 0xC2, CHR
     0xA0], [CHR 0xE1, CHR 0x9A, CHR 0x80], [CHR 0xE2, CHR 0x80, CHR 0x80], [CHR 0xE2, CHR 0x80, CHR 0x81], [CHR
     0xE2, CHR 0x80, CHR 0x82], [CHR 0xE2, CHR 0x80, CHR 0x83], [CHR 0xE2, CHR 0x80, CHR 0x84], [CHR 0xE2, CHR
     0x80, CHR 0x85], [CHR 0xE2, CHR 0x80, CHR 0x86], [CHR 0xE2, CHR 0x80, CHR 0x87], [CHR 0xE2, CHR 0x80, CHR
     0x88], [CHR 0xE2, CHR 0x80, CHR 0x89], [CHR 0xE2, CHR 0x80, CHR 0x8A], [CHR 0xE2, CHR 0x80, CHR 0xA8], [CHR
     0xE2, CHR 0x80, CHR 0xA9], [CHR 0xE2, CHR 0x80, CHR 0xAF], [CHR 0xE2, CHR 0x81, CHR 0x9F], [CHR 0xE3, CHR
     0x80, CHR 0x80]]"
  unfolding white_space_units_def by code_simp

fun split_once_white_space :: "string \<Rightarrow> (string \<times> string) option" where
  "split_once_white_space [] = None"
| "split_once_white_space (c # s) = (case List.find (\<lambda>u. starts_with (c # s) u) white_space_units of
      Some u \<Rightarrow> Some ([], drop (length u) (c # s))
    | None \<Rightarrow> map_option (\<lambda>(a, b). (c # a, b)) (split_once_white_space s))"

definition trim_start :: "string \<Rightarrow> string" where
  "trim_start s = strip_units white_space_units (length s) s"

definition parse_checksum_line :: "string \<Rightarrow> (string \<times> string) option" where
  "parse_checksum_line line =
     (let line = trim line
      in if line = [] \<or> starts_with line ''#'' then None
         else case split_once_white_space line of
           None \<Rightarrow> None
         | Some (hex, name) \<Rightarrow>
             (let name = trim (dropWhile (\<lambda>c. c = CHR ''*'') (trim_start name))
              in if hex = [] \<or> name = [] then None else Some (name, to_ascii_lowercase hex)))"

text \<open>A later line for the same file wins, as \<^verbatim>\<open>BTreeMap::insert\<close> has it.\<close>

definition parse_checksums :: "string \<Rightarrow> string \<rightharpoonup> string" where
  "parse_checksums text = map_of (rev (List.map_filter parse_checksum_line (text_lines text)))"

section \<open>Effects\<close>

text \<open>
  The answer to a request: it cannot be sent, or it comes with a status and a body that can still fail to
  arrive. A failing operation on a file has a text; \<open>iof_written\<close> says for a write whether the file was
  opened (and so emptied) and how many bytes reached it.
\<close>

datatype http_answer = SendFailed string | Response u16 "(string, string) result"

record io_fault =
  iof_text :: string
  iof_written :: "nat option"

type_synonym files = "(string \<times> string) list"

record market_env =
  me_http :: "nat \<Rightarrow> string \<Rightarrow> http_answer"
  me_fault :: "nat \<Rightarrow> io_fault option"
  me_status_text :: "u16 \<Rightarrow> string"
  me_age :: "nat \<Rightarrow> nat"
  me_tempdir :: "nat \<Rightarrow> string"
  me_now :: "nat \<Rightarrow> string"
  me_parse_index :: "string \<Rightarrow> (string, registry_metadata) result"
  me_parse_bundle :: "string \<Rightarrow> (string, manifest_bundle) result"
  me_parse_config :: "string \<Rightarrow> (string, market_config) result"
  me_show_config :: "market_config \<Rightarrow> (string, string) result"
  me_parse_installed :: "string \<Rightarrow> (string, installation_manifest) result"
  me_show_installed :: "installation_manifest \<Rightarrow> (string, string) result"
  me_sha256_hex :: "string \<Rightarrow> string"
  me_untar :: "string \<Rightarrow> (string \<times> string) list \<times> string option"
  me_unzip :: "string \<Rightarrow> (string \<times> string) list \<times> string option"

text \<open>
  \<open>mw_requests\<close> records what was asked of the network, \<open>mw_log\<close> and \<open>mw_out\<close> the lines written to the standard
  error and the standard output.
\<close>

record market_world =
  mw_files :: files
  mw_fetched :: "(string \<times> string) list"
  mw_requests :: "string list"
  mw_log :: "string list"
  mw_out :: "string list"
  mw_tick :: nat

type_synonym 'a market_io = "market_world \<Rightarrow> (market_error, 'a) result \<times> market_world"

text \<open>\<^verbatim>\<open>?\<close> and the other ways the code goes on.\<close>

definition io_return :: "'a \<Rightarrow> 'a market_io" where
  "io_return x w = (Ok x, w)"

definition io_fail :: "market_error \<Rightarrow> 'a market_io" where
  "io_fail e w = (Err e, w)"

definition on_result :: "'a market_io \<Rightarrow> (market_error \<Rightarrow> 'b market_io) \<Rightarrow> ('a \<Rightarrow> 'b market_io) \<Rightarrow> 'b market_io" where
  "on_result m failed f w = (case m w of (Inl e, w) \<Rightarrow> failed e w | (Inr x, w) \<Rightarrow> f x w)"

definition and_then :: "'a market_io \<Rightarrow> ('a \<Rightarrow> 'b market_io) \<Rightarrow> 'b market_io" where
  "and_then m f = on_result m io_fail f"

text \<open>A question about the world as it is, such as \<^verbatim>\<open>Path::exists\<close>.\<close>

definition observe :: "(market_world \<Rightarrow> 'x) \<Rightarrow> ('x \<Rightarrow> 'a market_io) \<Rightarrow> 'a market_io" where
  "observe g f w = f (g w) w"

definition io_lift :: "(market_error, 'a) result \<Rightarrow> 'a market_io" where
  "io_lift r w = (r, w)"

definition eprintln :: "string \<Rightarrow> unit market_io" where
  "eprintln s w = (Ok (), w\<lparr> mw_log := mw_log w @ [s] \<rparr>)"

definition println :: "string \<Rightarrow> unit market_io" where
  "println s w = (Ok (), w\<lparr> mw_out := mw_out w @ [s] \<rparr>)"

definition tick :: "market_world \<Rightarrow> market_world" where
  "tick w = w\<lparr> mw_tick := Suc (mw_tick w) \<rparr>"

definition file_get :: "market_world \<Rightarrow> string \<Rightarrow> string option" where
  "file_get w p = map_of (mw_files w) p"

definition file_put :: "string \<Rightarrow> string \<Rightarrow> files \<Rightarrow> files" where
  "file_put p b fs = (p, b) # filter (\<lambda>(q, _). q \<noteq> p) fs"

definition files_remove :: "(string \<Rightarrow> bool) \<Rightarrow> files \<Rightarrow> files" where
  "files_remove P fs = filter (\<lambda>(q, _). \<not> P q) fs"

definition under :: "string \<Rightarrow> string \<Rightarrow> bool" where
  "under d p \<longleftrightarrow> p = d \<or> starts_with p (path_join d [])"

definition exists_path :: "market_world \<Rightarrow> string \<Rightarrow> bool" where
  "exists_path w p = list_ex (\<lambda>(q, _). under p q) (mw_files w)"

definition fs_touch :: "market_env \<Rightarrow> unit market_io" where
  "fs_touch env w = ((case me_fault env (mw_tick w) of Some f \<Rightarrow> Err (Io (iof_text f)) | None \<Rightarrow> Ok ()), tick w)"

definition fs_read :: "market_env \<Rightarrow> string \<Rightarrow> string market_io" where
  "fs_read env p w = (case (me_fault env (mw_tick w), file_get w p) of
      (Some f, _) \<Rightarrow> (Err (Io (iof_text f)), tick w)
    | (None, None) \<Rightarrow> (Err (Io ''No such file or directory''), tick w)
    | (None, Some b) \<Rightarrow> (Ok b, tick w))"

definition fs_write :: "market_env \<Rightarrow> string \<Rightarrow> string \<Rightarrow> unit market_io" where
  "fs_write env p b w = (case me_fault env (mw_tick w) of
      Some f \<Rightarrow> (Err (Io (iof_text f)), tick (case iof_written f of
          None \<Rightarrow> w | Some n \<Rightarrow> w\<lparr> mw_files := file_put p (take n b) (mw_files w) \<rparr>))
    | None \<Rightarrow> (Ok (), tick (w\<lparr> mw_files := file_put p b (mw_files w) \<rparr>)))"

definition fs_remove_file :: "market_env \<Rightarrow> string \<Rightarrow> unit market_io" where
  "fs_remove_file env p w = (case (me_fault env (mw_tick w), file_get w p) of
      (Some f, _) \<Rightarrow> (Err (Io (iof_text f)), tick w)
    | (None, None) \<Rightarrow> (Err (Io (if exists_path w p then ''Is a directory'' else ''No such file or directory'')), tick w)
    | (None, Some _) \<Rightarrow> (Ok (), tick (w\<lparr> mw_files := files_remove (\<lambda>q. q = p) (mw_files w) \<rparr>)))"

definition fs_rename :: "market_env \<Rightarrow> string \<Rightarrow> string \<Rightarrow> unit market_io" where
  "fs_rename env p q w = (case (me_fault env (mw_tick w), file_get w p) of
      (Some f, _) \<Rightarrow> (Err (Io (iof_text f)), tick w)
    | (None, None) \<Rightarrow> (Err (Io ''No such file or directory''), tick w)
    | (None, Some b) \<Rightarrow> (Ok (), tick (w\<lparr> mw_files := file_put q b (files_remove (\<lambda>r. r = p) (mw_files w)) \<rparr>)))"

text \<open>A removal of a directory that fails may have removed some of its files: those \<open>iof_written\<close> counts.\<close>

definition fs_remove_dir_all :: "market_env \<Rightarrow> string \<Rightarrow> unit market_io" where
  "fs_remove_dir_all env d w = (case me_fault env (mw_tick w) of
      Some f \<Rightarrow> (Err (Io (iof_text f)), tick (w\<lparr> mw_files :=
          (let gone = take (case iof_written f of None \<Rightarrow> 0 | Some n \<Rightarrow> n) (filter (under d) (map fst (mw_files w)))
           in files_remove (\<lambda>q. q \<in> set gone) (mw_files w)) \<rparr>))
    | None \<Rightarrow> (Ok (), tick (w\<lparr> mw_files := files_remove (under d) (mw_files w) \<rparr>)))"

definition is_success :: "u16 \<Rightarrow> bool" where
  "is_success status \<longleftrightarrow> 200 \<le> status \<and> status < 300"

definition send_request :: "market_env \<Rightarrow> string \<Rightarrow> market_world \<Rightarrow> http_answer \<times> market_world" where
  "send_request env url w = (me_http env (mw_tick w) url, tick (w\<lparr> mw_requests := mw_requests w @ [url] \<rparr>))"

section \<open>The registry handle\<close>

record registry =
  reg_cache_dir :: string
  reg_base_url :: string

definition http_get :: "market_env \<Rightarrow> string \<Rightarrow> string \<Rightarrow> string market_io" where
  "http_get env url file w = (case send_request env url w of
      (SendFailed e, w) \<Rightarrow> (Err (Download url e), w)
    | (Response status body, w) \<Rightarrow>
        if \<not> is_success status then (Err (RegistryUnavailable file url status), w)
        else (case body of Inl e \<Rightarrow> (Err (Download url e), w) | Inr b \<Rightarrow> (Ok b, w)))"

definition remembered :: "string \<Rightarrow> market_world \<Rightarrow> string option" where
  "remembered url w = map_of (mw_fetched w) url"

definition remember :: "string \<Rightarrow> string \<Rightarrow> unit market_io" where
  "remember url body w = (Ok (), w\<lparr> mw_fetched := (url, body) # mw_fetched w \<rparr>)"

definition cache_path :: "registry \<Rightarrow> string option \<Rightarrow> string \<Rightarrow> string" where
  "cache_path reg version file = path_join (path_join (reg_cache_dir reg) (cache_scope version)) file"

definition drop_legacy_clone :: "market_env \<Rightarrow> registry \<Rightarrow> unit market_io" where
  "drop_legacy_clone env reg =
     (let clone = path_join (reg_cache_dir reg) ''repo''
      in observe (\<lambda>w. exists_path w (path_join clone ''.git'')) (\<lambda>there.
           if there then
             on_result (fs_remove_dir_all env clone) (\<lambda>_. io_return ())
               (\<lambda>_. eprintln (''Removed the old git registry cache at '' @ clone
                  @ ''; the registry is fetched over HTTPS now.''))
           else io_return ()))"

text \<open>
  \<^verbatim>\<open>Path::with_extension\<close> of a path whose file name has an extension, as the cached assets and the engine's
  binary have it.
\<close>

definition file_name :: "string \<Rightarrow> string" where
  "file_name p = last (split_on (CHR ''/'') p)"

definition path_extension :: "string \<Rightarrow> string option" where
  "path_extension p = (case split_on (CHR ''.'') (rev (file_name p)) of
      e # r # rs \<Rightarrow> if rs = [] \<and> r = [] then None else Some (rev e)
    | _ \<Rightarrow> None)"

definition with_extension :: "string \<Rightarrow> string \<Rightarrow> string" where
  "with_extension ext p = (case path_extension p of
      Some e \<Rightarrow> take (length p - length e) p @ ext
    | None \<Rightarrow> p @ ''.'' @ ext)"

definition write_cache :: "market_env \<Rightarrow> string \<Rightarrow> string \<Rightarrow> unit market_io" where
  "write_cache env path body =
     (let temp = with_extension ''part'' path
      in on_result (fs_touch env) (\<lambda>_. io_return ()) (\<lambda>_.
         on_result (fs_write env temp body) (\<lambda>_. io_return ()) (\<lambda>_.
         on_result (fs_rename env temp path) (\<lambda>_. on_result (fs_remove_file env temp) (\<lambda>_. io_return ()) io_return)
           io_return)))"

definition is_download_error :: "market_error \<Rightarrow> bool" where
  "is_download_error e = (case e of Download _ _ \<Rightarrow> True | _ \<Rightarrow> False)"

text \<open>The part of \<^verbatim>\<open>asset\<close> that asks the network.\<close>

definition keep_body :: "string \<Rightarrow> string \<Rightarrow> string market_io" where
  "keep_body url body = and_then (remember url body) (\<lambda>_. io_return body)"

definition fetch_asset :: "market_env \<Rightarrow> string \<Rightarrow> string \<Rightarrow> string \<Rightarrow> string market_io" where
  "fetch_asset env url file cached =
     on_result (http_get env url file)
       (\<lambda>e. on_result (fs_read env cached) (\<lambda>_. io_fail e)
          (\<lambda>body. if is_download_error e then
               and_then (observe mw_tick (\<lambda>n. eprintln (offline_note file (describe_age (me_age env n)))))
                 (\<lambda>_. keep_body url body)
             else io_fail e))
       (\<lambda>body. and_then (write_cache env cached body) (\<lambda>_. keep_body url body))"

definition asset :: "market_env \<Rightarrow> registry \<Rightarrow> string option \<Rightarrow> string \<Rightarrow> string market_io" where
  "asset env reg version file =
     (if (case version of Some v \<Rightarrow> \<not> is_safe_version v | None \<Rightarrow> False) then
        io_fail (InvalidManifest (quoted (case version of Some v \<Rightarrow> v | None \<Rightarrow> []) @ '' is not a version number''))
      else
        (let url = asset_url (reg_base_url reg) version file; cached = cache_path reg version file
         in observe (remembered url) (\<lambda>known. case known of
              Some body \<Rightarrow> io_return body
            | None \<Rightarrow>
                and_then (drop_legacy_clone env reg) (\<lambda>_.
                observe (\<lambda>w. file_get w cached \<noteq> None) (\<lambda>is_file.
                  if cache_plan_for (version \<noteq> None) is_file = UseCache then
                    on_result (fs_read env cached) (\<lambda>_. fetch_asset env url file cached) (keep_body url)
                  else fetch_asset env url file cached)))))"

definition parse_toml :: "(string \<Rightarrow> (string, 'a) result) \<Rightarrow> string \<Rightarrow> string \<Rightarrow> (market_error, 'a) result" where
  "parse_toml parse body file = (case parse body of Inl e \<Rightarrow> Err (TomlParse file e) | Inr x \<Rightarrow> Ok x)"

definition fetch_index_at :: "market_env \<Rightarrow> registry \<Rightarrow> string option \<Rightarrow> registry_metadata market_io" where
  "fetch_index_at env reg version =
     and_then (asset env reg version INDEX_FILE) (\<lambda>body. io_lift (parse_toml (me_parse_index env) body INDEX_FILE))"

definition fetch_index :: "market_env \<Rightarrow> registry \<Rightarrow> registry_metadata market_io" where
  "fetch_index env reg = fetch_index_at env reg None"

definition get_manifest :: "market_env \<Rightarrow> registry \<Rightarrow> string \<Rightarrow> string option \<Rightarrow> primitive_manifest market_io" where
  "get_manifest env reg name version =
     and_then (asset env reg version MANIFESTS_FILE) (\<lambda>body.
     and_then (io_lift (parse_toml (me_parse_bundle env) body MANIFESTS_FILE)) (\<lambda>bundle.
     io_lift (case map_of (mb_manifests bundle) name of
        Some m \<Rightarrow> Ok m | None \<Rightarrow> Err (PrimitiveNotFound name))))"

definition release_checksums :: "market_env \<Rightarrow> string \<Rightarrow> string \<Rightarrow> (string \<rightharpoonup> string) option market_io" where
  "release_checksums env release_url version =
     on_result (http_get env (asset_url release_url (Some version) CHECKSUMS_FILE) CHECKSUMS_FILE)
       (\<lambda>e. and_then (eprintln (''Warning: '' @ market_error_text e)) (\<lambda>_. io_return None))
       (\<lambda>body. io_return (Some (parse_checksums body)))"

text \<open>\<open>lower\<close> is \<^verbatim>\<open>str::to_lowercase\<close>.\<close>

definition search :: "(string \<Rightarrow> string) \<Rightarrow> registry_metadata \<Rightarrow> string \<Rightarrow> primitive_entry list" where
  "search lower index query =
     (let q = lower query
      in filter (\<lambda>p. contains_str (lower (pe_name p)) q \<or> contains_str (lower (pe_description p)) q
           \<or> list_ex (\<lambda>t. contains_str (lower t) q) (pe_tags p)) (rm_primitives index))"

definition filter_by_kind :: "registry_metadata \<Rightarrow> string \<Rightarrow> primitive_entry list" where
  "filter_by_kind index kind = filter (\<lambda>p. eq_ignore_ascii_case (pe_kind p) kind) (rm_primitives index)"

section \<open>What an operation can touch\<close>

text \<open>
  \<open>confined A m\<close>: whatever the world answers, \<open>m\<close> leaves every file outside \<open>A\<close> as it was. The rules below
  follow the code's structure, so that the frame of an operation is found by applying them.
\<close>

definition confined :: "(string \<Rightarrow> bool) \<Rightarrow> (market_world \<Rightarrow> 'r \<times> market_world) \<Rightarrow> bool" where
  "confined A m \<longleftrightarrow> (\<forall>w p. \<not> A p \<longrightarrow> file_get (snd (m w)) p = file_get w p)"

named_theorems frame \<open>operations and what they can touch\<close>

lemma confinedD: "confined A m \<Longrightarrow> \<not> A p \<Longrightarrow> file_get (snd (m w)) p = file_get w p"
  by (simp add: confined_def)

lemma confinedD': "confined A m \<Longrightarrow> m w = (r, w') \<Longrightarrow> \<not> A p \<Longrightarrow> file_get w' p = file_get w p"
  using confinedD [of A m p w] by simp

lemma confined_mono: "confined A m \<Longrightarrow> (\<And>p. A p \<Longrightarrow> B p) \<Longrightarrow> confined B m"
  by (auto simp: confined_def)

lemma file_get_tick [simp]: "file_get (tick w) p = file_get w p"
  by (simp add: tick_def file_get_def)

lemma file_get_updates [simp]:
  "file_get (w\<lparr> mw_log := l \<rparr>) p = file_get w p" "file_get (w\<lparr> mw_fetched := f \<rparr>) p = file_get w p"
  "file_get (w\<lparr> mw_requests := r \<rparr>) p = file_get w p" "file_get (w\<lparr> mw_out := l \<rparr>) p = file_get w p"
  by (simp_all add: file_get_def)

lemma map_of_filter_key: "map_of (filter (\<lambda>(q, _). P q) fs) p = (if P p then map_of fs p else None)"
  by (induction fs) auto

lemma file_get_put [simp]:
  "file_get (w\<lparr> mw_files := file_put q b (mw_files w') \<rparr>) p = (if p = q then Some b else file_get w' p)"
  by (simp add: file_get_def file_put_def map_of_filter_key)

lemma file_get_remove [simp]:
  "file_get (w\<lparr> mw_files := files_remove P (mw_files w') \<rparr>) p = (if P p then None else file_get w' p)"
  by (simp add: file_get_def files_remove_def map_of_filter_key)

lemma file_get_put_remove [simp]:
  "file_get (w\<lparr> mw_files := file_put q b (files_remove P (mw_files w')) \<rparr>) p
     = (if p = q then Some b else if P p then None else file_get w' p)"
  by (simp add: file_get_def file_put_def files_remove_def map_of_filter_key del: filter_filter)

lemma confined_on_result [frame]:
  "confined A m \<Longrightarrow> (\<And>e. confined A (failed e)) \<Longrightarrow> (\<And>x. confined A (f x)) \<Longrightarrow> confined A (on_result m failed f)"
  by (auto simp: confined_def on_result_def split: prod.split sum.split) (metis snd_conv)+

lemma confined_pure [frame]:
  "confined A (io_return x)" "confined A (io_fail e)" "confined A (io_lift r)" "confined A (eprintln s)"
  "confined A (remember url body)" "confined A (println s)"
  by (simp_all add: confined_def io_return_def io_fail_def io_lift_def eprintln_def remember_def println_def)

lemma confined_and_then [frame]:
  "confined A m \<Longrightarrow> (\<And>x. confined A (f x)) \<Longrightarrow> confined A (and_then m f)"
  unfolding and_then_def by (intro frame)

lemma confined_and_then_Ok:
  "confined A m \<Longrightarrow> (\<And>w x w'. m w = (Ok x, w') \<Longrightarrow> confined A (f x)) \<Longrightarrow> confined A (and_then m f)"
  by (auto simp: confined_def and_then_def on_result_def io_fail_def split: prod.split sum.split) (metis snd_conv)+

lemma confined_observe [frame]: "(\<And>x. confined A (f x)) \<Longrightarrow> confined A (observe g f)"
  by (simp add: confined_def observe_def)

lemma confined_branches [frame]:
  "(b \<Longrightarrow> confined A m) \<Longrightarrow> (\<not> b \<Longrightarrow> confined A m') \<Longrightarrow> confined A (if b then m else m')"
  "(v = None \<Longrightarrow> confined A m) \<Longrightarrow> (\<And>x. v = Some x \<Longrightarrow> confined A (f x)) \<Longrightarrow> confined A (case v of None \<Rightarrow> m | Some x \<Rightarrow> f x)"
  by (auto split: option.split)

lemma confined_reads [frame]:
  "confined A (fs_touch env)" "confined A (fs_read env q)" "confined A (http_get env url file)"
  by (auto simp: confined_def fs_touch_def fs_read_def http_get_def send_request_def
      split: option.split http_answer.split sum.split)

lemma confined_writes [frame]:
  "A q \<Longrightarrow> confined A (fs_write env q b)" "A q \<Longrightarrow> confined A (fs_remove_file env q)"
  "A q \<Longrightarrow> A q' \<Longrightarrow> confined A (fs_rename env q q')"
  by (auto simp: confined_def fs_write_def fs_remove_file_def fs_rename_def split: option.split)

lemma confined_remove_dir [frame]: "(\<And>p. under d p \<Longrightarrow> A p) \<Longrightarrow> confined A (fs_remove_dir_all env d)"
  by (auto simp: confined_def fs_remove_dir_all_def Let_def split: option.split dest!: in_set_takeD)

lemma confined_drop_legacy_clone [frame]:
  assumes "\<And>p. under (path_join (reg_cache_dir reg) ''repo'') p \<Longrightarrow> A p"
  shows "confined A (drop_legacy_clone env reg)"
  unfolding drop_legacy_clone_def Let_def using assms by (intro frame)

lemma confined_write_cache [frame]:
  "A path \<Longrightarrow> A (with_extension ''part'' path) \<Longrightarrow> confined A (write_cache env path body)"
  unfolding write_cache_def Let_def by (intro frame)

lemma confined_fetch_asset [frame]:
  "A cached \<Longrightarrow> A (with_extension ''part'' cached) \<Longrightarrow> confined A (fetch_asset env url file cached)"
  unfolding fetch_asset_def keep_body_def by (intro frame)

text \<open>The files an asset's fetch may write or remove.\<close>

definition cache_area :: "registry \<Rightarrow> string option \<Rightarrow> string \<Rightarrow> string \<Rightarrow> bool" where
  "cache_area reg version file p \<longleftrightarrow> p = cache_path reg version file
     \<or> p = with_extension ''part'' (cache_path reg version file) \<or> under (path_join (reg_cache_dir reg) ''repo'') p"

lemma confined_asset [frame]:
  assumes "\<And>p. cache_area reg version file p \<Longrightarrow> A p"
  shows "confined A (asset env reg version file)"
proof -
  have "A (cache_path reg version file)" "A (with_extension ''part'' (cache_path reg version file))"
    "\<And>p. under (path_join (reg_cache_dir reg) ''repo'') p \<Longrightarrow> A p"
    using assms by (auto simp: cache_area_def)
  then show ?thesis
    unfolding asset_def Let_def keep_body_def by (intro frame)
qed

lemma confined_get_manifest [frame]:
  "(\<And>p. cache_area reg version MANIFESTS_FILE p \<Longrightarrow> A p) \<Longrightarrow> confined A (get_manifest env reg name version)"
  unfolding get_manifest_def by (intro frame)

lemma confined_release_checksums [frame]: "confined A (release_checksums env url v)"
  unfolding release_checksums_def by (intro frame)

section \<open>Paths of the cache\<close>

definition dir_prefix :: "string \<Rightarrow> string" where
  "dir_prefix d = (if d = [] \<or> ends_with d ''/'' then d else d @ ''/'')"

lemma path_join_relative: "\<not> starts_with p ''/'' \<Longrightarrow> path_join d p = dir_prefix d @ p"
  by (simp add: path_join_def dir_prefix_def)

lemma ends_with_slash_snoc: "ends_with (d @ ''/'') ''/''"
  by (auto simp: ends_with_iff)

lemma dir_prefix_cases: obtains "d = []" "dir_prefix d = []" | d' where "dir_prefix d = d' @ ''/''" "d = d' \<or> d = d' @ ''/''"
proof (cases "d = []")
  case False
  then show ?thesis
    using that by (cases "ends_with d ''/''") (auto simp: dir_prefix_def ends_with_iff)
qed (use that in \<open>simp add: dir_prefix_def\<close>)

lemma split_on_append_sep: "split_on d (a @ d # b) = split_on d a @ split_on d b"
  by (induction a) (auto split: list.splits)

lemma split_on_no_occurrence: "d \<notin> set p \<Longrightarrow> split_on d p = [p]"
  by (induction p) auto

definition plain_component :: "string \<Rightarrow> bool" where
  "plain_component c \<longleftrightarrow> CHR ''/'' \<notin> set c \<and> c \<notin> {[], ''.'', ''..''}"

lemma hd_split_on_append: "a \<noteq> [] \<Longrightarrow> hd (split_on d a @ xs) = hd (split_on d a)"
  by (cases "split_on d a") auto

lemma path_key_join:
  assumes "plain_component c"
  shows "path_key (path_join d c) = (fst (path_key d), snd (path_key d) @ [c]) \<or> d = []"
proof -
  have c: "CHR ''/'' \<notin> set c" "c \<noteq> []" "c \<noteq> ''.''" and rel: "\<not> starts_with c ''/''"
    using assms by (cases c; auto simp: plain_component_def)+
  have s: "path_join d c = dir_prefix d @ c"
    using rel by (rule path_join_relative)
  show ?thesis
  proof (cases d rule: dir_prefix_cases)
    case (2 d')
    have sp: "split_on (CHR ''/'') (path_join d c) = split_on (CHR ''/'') d' @ [c]"
      using c(1) s 2(1) split_on_append_sep [of "CHR ''/''" d' c] by (simp add: split_on_no_occurrence)
    have r: "starts_with (path_join d c) ''/'' \<longleftrightarrow> starts_with d ''/''" if "d \<noteq> []"
      using s 2 that by (cases d'; cases d) auto
    have p: "split_on (CHR ''/'') d = split_on (CHR ''/'') d' \<or> split_on (CHR ''/'') d = split_on (CHR ''/'') d' @ [[]]"
      using 2(2) split_on_append_sep [of "CHR ''/''" d' "[]"] by auto
    have h: "hd (split_on (CHR ''/'') d' @ xs) = hd (split_on (CHR ''/'') d')" for xs
      by (cases "split_on (CHR ''/'') d'") auto
    show ?thesis
      using r p c h by (auto simp: path_key_def Let_def sp)
  qed auto
qed

lemma path_join_not_Nil: "c \<noteq> [] \<Longrightarrow> path_join d c \<noteq> []"
  by (auto simp: path_join_def)

lemma cache_scope_plain:
  assumes "case version of Some v \<Rightarrow> is_safe_version v | None \<Rightarrow> True"
  shows "plain_component (cache_scope version)"
proof (cases version)
  case (Some v)
  have "\<not> version_char (CHR ''/'')"
    by code_simp
  then have "CHR ''/'' \<notin> set v"
    using assms Some by (auto simp: is_safe_version_def list_all_iff)
  then show ?thesis
    by (simp add: Some cache_scope_def plain_component_def)
qed (simp add: cache_scope_def plain_component_def)

lemma registry_files_plain:
  assumes "file \<in> {INDEX_FILE, MANIFESTS_FILE}"
  shows "plain_component file" "CHR ''/'' \<notin> set file" "\<exists>stem. file = stem @ ''.toml'' \<and> stem \<noteq> [] \<and> CHR ''.'' \<notin> set stem"
  using assms by (auto simp: INDEX_FILE_def MANIFESTS_FILE_def plain_component_def)

lemma file_name_join: "CHR ''/'' \<notin> set f \<Longrightarrow> file_name (d @ ''/'' @ f) = f"
  by (simp add: file_name_def split_on_append_sep split_on_no_occurrence)

lemma with_extension_part:
  assumes "CHR ''/'' \<notin> set stem" "stem \<noteq> []" "CHR ''.'' \<notin> set stem"
  shows "with_extension ''part'' (d @ ''/'' @ stem @ ''.toml'') = d @ ''/'' @ stem @ ''.part''"
proof -
  have "split_on (CHR ''.'') (rev (stem @ ''.toml'')) = [''lmot'', rev stem]"
    using assms(3) split_on_append_sep [of "CHR ''.''" "''lmot''" "rev stem"] by (simp add: split_on_no_occurrence)
  then have "path_extension (d @ ''/'' @ stem @ ''.toml'') = Some ''toml''"
    using file_name_join [of "stem @ ''.toml''" d] assms(1,2) by (simp add: path_extension_def)
  then show ?thesis
    by (simp add: with_extension_def)
qed

lemma cache_path_parts:
  assumes "file \<in> {INDEX_FILE, MANIFESTS_FILE}" and "case version of Some v \<Rightarrow> is_safe_version v | None \<Rightarrow> True"
  obtains dir stem where "plain_component (stem @ ''.toml'')" "plain_component (stem @ ''.part'')"
    "dir_prefix (path_join (reg_cache_dir reg) (cache_scope version)) = dir @ ''/''" "file = stem @ ''.toml''"
    "cache_path reg version file = path_join (path_join (reg_cache_dir reg) (cache_scope version)) (stem @ ''.toml'')"
    "with_extension ''part'' (cache_path reg version file)
       = path_join (path_join (reg_cache_dir reg) (cache_scope version)) (stem @ ''.part'')"
proof -
  obtain stem where stem: "file = stem @ ''.toml''" "stem \<noteq> []" "CHR ''.'' \<notin> set stem" "CHR ''/'' \<notin> set stem"
    using registry_files_plain [OF assms(1)] by auto
  let ?dir = "path_join (reg_cache_dir reg) (cache_scope version)"
  have "?dir \<noteq> []"
    using cache_scope_plain [OF assms(2)] by (intro path_join_not_Nil) (auto simp: plain_component_def)
  then obtain dir where dir: "dir_prefix ?dir = dir @ ''/''"
    by (cases ?dir rule: dir_prefix_cases) auto
  have p: "plain_component (stem @ ''.toml'')" "plain_component (stem @ ''.part'')"
    using stem by (auto simp: plain_component_def)
  then have rel: "\<not> starts_with (stem @ ''.toml'') ''/''" "\<not> starts_with (stem @ ''.part'') ''/''"
    using stem by (cases stem; auto)+
  have cp: "cache_path reg version file = dir @ ''/'' @ stem @ ''.toml''"
    using dir path_join_relative [OF rel(1), of ?dir] by (simp add: cache_path_def stem(1))
  show ?thesis
    using that [OF p dir stem(1)] cp with_extension_part [OF stem(4,2,3), of dir] dir path_join_relative [OF rel(1), of ?dir]
      path_join_relative [OF rel(2), of ?dir] by simp
qed

lemma cache_area_inside:
  assumes "file \<in> {INDEX_FILE, MANIFESTS_FILE}" and "case version of Some v \<Rightarrow> is_safe_version v | None \<Rightarrow> True"
    and "reg_cache_dir reg \<noteq> []" and "cache_area reg version file p"
  shows "under (path_join (reg_cache_dir reg) ''repo'') p \<or> (\<exists>name. plain_component name
    \<and> path_key p = (fst (path_key (reg_cache_dir reg)), snd (path_key (reg_cache_dir reg)) @ [cache_scope version, name]))"
proof -
  obtain stem where s: "plain_component (stem @ ''.toml'')" "plain_component (stem @ ''.part'')"
    "cache_path reg version file = path_join (path_join (reg_cache_dir reg) (cache_scope version)) (stem @ ''.toml'')"
    "with_extension ''part'' (cache_path reg version file)
       = path_join (path_join (reg_cache_dir reg) (cache_scope version)) (stem @ ''.part'')"
    by (rule cache_path_parts [OF assms(1,2)])
  let ?dir = "path_join (reg_cache_dir reg) (cache_scope version)"
  have sc: "plain_component (cache_scope version)"
    by (rule cache_scope_plain [OF assms(2)])
  then have "?dir \<noteq> []"
    by (intro path_join_not_Nil) (auto simp: plain_component_def)
  then have "path_key (path_join ?dir c) = (fst (path_key (reg_cache_dir reg)),
      snd (path_key (reg_cache_dir reg)) @ [cache_scope version, c])" if "plain_component c" for c
    using path_key_join [OF that, of ?dir] path_key_join [OF sc, of "reg_cache_dir reg"] assms(3) by auto
  then show ?thesis
    using assms(4) s unfolding cache_area_def by metis
qed

lemma legacy_clone_apart:
  assumes "file \<in> {INDEX_FILE, MANIFESTS_FILE}" and "case version of Some v \<Rightarrow> is_safe_version v | None \<Rightarrow> True"
  shows "\<not> under (path_join (reg_cache_dir reg) ''repo'') (cache_path reg version file)"
proof -
  obtain c s where c: "cache_scope version = c # s" "c \<noteq> CHR ''r''" "c \<noteq> CHR ''/''"
    by (cases version) (auto simp: cache_scope_def)
  then have scope: "path_join (reg_cache_dir reg) (cache_scope version) = dir_prefix (reg_cache_dir reg) @ c # s"
    by (simp add: path_join_relative)
  have repo: "path_join (reg_cache_dir reg) ''repo'' = dir_prefix (reg_cache_dir reg) @ ''repo''"
    by (simp add: path_join_relative)
  have "\<exists>x. cache_path reg version file = dir_prefix (reg_cache_dir reg) @ c # x"
    using registry_files_plain(2) [OF assms(1)] unfolding cache_path_def scope
    by (cases "file") (auto simp: path_join_def)
  then obtain x where x: "cache_path reg version file = dir_prefix (reg_cache_dir reg) @ c # x"
    by auto
  have j: "\<exists>y. path_join (dir_prefix (reg_cache_dir reg) @ ''repo'') [] = dir_prefix (reg_cache_dir reg) @ ''repo'' @ y"
    by (auto simp: path_join_def)
  have "starts_with (a @ b) (a @ b') \<longleftrightarrow> starts_with b b'" for a b b' :: string
    by (simp add: starts_with_iff_prefix)
  then show ?thesis
    using j c(2) by (auto simp: under_def x repo)
qed

section \<open>Running an operation\<close>

text \<open>The monad run on a world, and the file operations when nothing fails.\<close>

lemma run_simps:
  "on_result m failed f w = (case m w of (Inl e, w) \<Rightarrow> failed e w | (Inr x, w) \<Rightarrow> f x w)"
  "and_then m f' w = (case m w of (Inl e, w) \<Rightarrow> (Err e, w) | (Inr x, w) \<Rightarrow> f' x w)"
  "observe g h w = h (g w) w" "io_return y w = (Ok y, w)" "io_fail e w = (Err e, w)" "io_lift r w = (r, w)"
  by (auto simp: and_then_def on_result_def observe_def io_return_def io_fail_def io_lift_def split: prod.split sum.split)

lemma and_then_Ok_iff: "and_then m f w = (Ok y, w') \<longleftrightarrow> (\<exists>x w1. m w = (Ok x, w1) \<and> f x w1 = (Ok y, w'))"
  by (auto simp: run_simps split: prod.splits sum.splits)

definition faultless :: "market_env \<Rightarrow> bool" where
  "faultless env \<longleftrightarrow> (\<forall>n. me_fault env n = None)"

lemma faultless_runs:
  assumes "faultless env"
  shows "fs_touch env w = (Ok (), tick w)"
    "fs_write env p b w = (Ok (), tick (w\<lparr> mw_files := file_put p b (mw_files w) \<rparr>))"
    "fs_read env p w = ((case file_get w p of Some b \<Rightarrow> Ok b | None \<Rightarrow> Err (Io ''No such file or directory'')), tick w)"
  using assms by (auto simp: faultless_def fs_touch_def fs_write_def fs_read_def split: option.split)

lemma drop_legacy_clone_run:
  "\<exists>w'. drop_legacy_clone env reg w = (Ok (), w') \<and> mw_fetched w' = mw_fetched w \<and> mw_requests w' = mw_requests w
     \<and> (\<forall>p. \<not> under (path_join (reg_cache_dir reg) ''repo'') p \<longrightarrow> file_get w' p = file_get w p)"
proof -
  have "confined (under (path_join (reg_cache_dir reg) ''repo'')) (drop_legacy_clone env reg)"
    by (intro frame)
  moreover have "\<exists>w'. drop_legacy_clone env reg w = (Ok (), w') \<and> mw_fetched w' = mw_fetched w \<and> mw_requests w' = mw_requests w"
    by (auto simp: drop_legacy_clone_def Let_def run_simps fs_remove_dir_all_def eprintln_def tick_def split: option.split)
  ultimately show ?thesis
    by (metis confinedD')
qed

lemma keep_body_run: "keep_body url body w = (Ok body, w\<lparr> mw_fetched := (url, body) # mw_fetched w \<rparr>)"
  by (simp add: keep_body_def run_simps remember_def)

lemma write_cache_run:
  assumes "faultless env" and "with_extension ''part'' path \<noteq> path"
  shows "\<exists>w'. write_cache env path body w = (Ok (), w') \<and> file_get w' path = Some body
    \<and> mw_requests w' = mw_requests w"
  using assms
  by (auto simp: write_cache_def Let_def run_simps faultless_runs fs_rename_def faultless_def) (simp add: tick_def)

section \<open>Properties\<close>

lemma fetch_asset_online:
  assumes "faultless env" "with_extension ''part'' cached \<noteq> cached" and "http_get env url file w = (Ok body, w1)"
  shows "\<exists>w'. fetch_asset env url file cached w = (Ok body, w') \<and> file_get w' cached = Some body"
proof -
  from write_cache_run [OF assms(1,2), of body w1] obtain w2 where
    "write_cache env cached body w1 = (Ok (), w2)" "file_get w2 cached = Some body"
    by auto
  then show ?thesis
    using assms(3) by (simp add: fetch_asset_def run_simps keep_body_run)
qed

lemma fetch_asset_offline:
  assumes "faultless env" and "http_get env url file w = (Err (Download url e), w1)"
  shows "case file_get w1 cached of
      Some body \<Rightarrow> (\<exists>w'. fetch_asset env url file cached w = (Ok body, w') \<and> file_get w' cached = Some body)
    | None \<Rightarrow> (\<exists>w'. fetch_asset env url file cached w = (Err (Download url e), w'))"
  using assms(2)
  by (auto simp: fetch_asset_def run_simps faultless_runs [OF assms(1)] keep_body_run eprintln_def is_download_error_def
      split: option.split)

lemma fetch_asset_refused:
  assumes "faultless env" and "http_get env url file w = (Err (RegistryUnavailable file url status), w1)"
  shows "\<exists>w'. fetch_asset env url file cached w = (Err (RegistryUnavailable file url status), w')"
  using assms(2)
  by (auto simp: fetch_asset_def run_simps faultless_runs [OF assms(1)] is_download_error_def split: option.split)

lemma http_get_files: "http_get env url file w = (r, w') \<Longrightarrow> file_get w' p = file_get w p"
  by (rule confinedD' [OF confined_reads(3) [where A = "\<lambda>_. False"]]) auto

lemma http_get_cases:
  obtains body where "fst (http_get env url file w) = Ok body"
  | e where "fst (http_get env url file w) = Err (Download url e)"
  | status where "fst (http_get env url file w) = Err (RegistryUnavailable file url status)"
proof -
  have "(\<exists>body. fst (http_get env url file w) = Ok body) \<or> (\<exists>e. fst (http_get env url file w) = Err (Download url e))
    \<or> (\<exists>status. fst (http_get env url file w) = Err (RegistryUnavailable file url status))"
    by (auto simp: http_get_def send_request_def split: http_answer.split sum.split)
  then show ?thesis
    using that by blast
qed

lemma fetch_asset_keeps_copy:
  assumes "faultless env" "with_extension ''part'' cached \<noteq> cached" "fetch_asset env url file cached w = (Ok body, w')"
  shows "file_get w' cached = Some body"
proof (cases env url "file" w rule: http_get_cases)
  case (1 b)
  then show ?thesis
    using fetch_asset_online [OF assms(1,2), of url "file" w b] assms(3) by (cases "http_get env url file w") auto
next
  case (2 e)
  then show ?thesis
    using fetch_asset_offline [OF assms(1), of url "file" w e _ cached] assms(3)
    by (cases "http_get env url file w") (auto split: option.splits)
next
  case (3 status)
  then show ?thesis
    using fetch_asset_refused [OF assms(1), of url "file" w status _ cached] assms(3)
    by (cases "http_get env url file w") auto
qed

text \<open>In a new process, after the legacy clone is gone: the cache for a pinned release, else the network.\<close>

lemma asset_fresh:
  assumes "case version of Some v \<Rightarrow> is_safe_version v | None \<Rightarrow> True" and "mw_fetched w = []"
    and "drop_legacy_clone env reg w = (Ok (), w1)"
  shows "asset env reg version file w =
    (if version \<noteq> None \<and> file_get w1 (cache_path reg version file) \<noteq> None then
       on_result (fs_read env (cache_path reg version file))
         (\<lambda>_. fetch_asset env (asset_url (reg_base_url reg) version file) file (cache_path reg version file))
         (keep_body (asset_url (reg_base_url reg) version file)) w1
     else fetch_asset env (asset_url (reg_base_url reg) version file) file (cache_path reg version file) w1)"
  using assms
  by (auto simp: asset_def Let_def observe_def and_then_def on_result_def remembered_def cache_plan_for_def split: option.splits)

lemma cache_part_differs:
  assumes "file \<in> {INDEX_FILE, MANIFESTS_FILE}" and "case version of Some v \<Rightarrow> is_safe_version v | None \<Rightarrow> True"
  shows "with_extension ''part'' (cache_path reg version file) \<noteq> cache_path reg version file"
proof -
  obtain dir stem where s: "dir_prefix (path_join (reg_cache_dir reg) (cache_scope version)) = dir @ ''/''"
    "plain_component (stem @ ''.toml'')" "plain_component (stem @ ''.part'')"
    "cache_path reg version file = path_join (path_join (reg_cache_dir reg) (cache_scope version)) (stem @ ''.toml'')"
    "with_extension ''part'' (cache_path reg version file)
       = path_join (path_join (reg_cache_dir reg) (cache_scope version)) (stem @ ''.part'')"
    by (rule cache_path_parts [OF assms])
  have "\<not> starts_with (stem @ ''.toml'') ''/''" "\<not> starts_with (stem @ ''.part'') ''/''"
    using s(2,3) by (cases stem; auto simp: plain_component_def)+
  then show ?thesis
    using s(4,5) by (simp add: path_join_relative)
qed

text \<open>
  C27. The registry's cache stays where it belongs. Whatever the network, the file system and the arguments do,
  a request for a registry asset writes and removes only files that sit in the cache directory under the
  release's own directory (two further components, neither of them \<^verbatim>\<open>..\<close>), apart from the retired git clone it
  may delete; a version that is not a plain version number is refused before anything is read, sent or written.
\<close>

theorem registry_cache_confined:
  assumes "file \<in> {INDEX_FILE, MANIFESTS_FILE}" and "reg_cache_dir reg \<noteq> []"
  shows "if (case version of Some v \<Rightarrow> \<not> is_safe_version v | None \<Rightarrow> False)
    then (\<exists>e. asset env reg version file w = (Err (InvalidManifest e), w))
    else \<forall>p. file_get (snd (asset env reg version file w)) p \<noteq> file_get w p \<longrightarrow>
      under (path_join (reg_cache_dir reg) ''repo'') p
      \<or> (\<exists>name. plain_component (cache_scope version) \<and> plain_component name
          \<and> path_key p = (fst (path_key (reg_cache_dir reg)), snd (path_key (reg_cache_dir reg)) @ [cache_scope version, name]))"
proof (cases "case version of Some v \<Rightarrow> is_safe_version v | None \<Rightarrow> True")
  case True
  have c: "confined (cache_area reg version file) (asset env reg version file)"
    by (intro frame)
  show ?thesis
    using True confinedD [OF c, of _ w] cache_area_inside [OF assms(1) True assms(2)] cache_scope_plain [OF True]
    by (auto split: option.splits)
next
  case False
  then show ?thesis
    by (auto simp: asset_def io_fail_def split: option.splits)
qed

text \<open>
  A release is fetched once, and offline use gets the last copy. Suppose a process fetched a registry asset
  with no failing file operation. In any later process that finds the cached copy as it was left, a pinned
  release is answered from it without a request; the latest release is asked for again, and the copy answers
  only if the network cannot be reached: a host that refuses is an error, never papered over by the cache.
\<close>

theorem cached_asset_contract:
  assumes "file \<in> {INDEX_FILE, MANIFESTS_FILE}" and "faultless env" "faultless env'"
    and "asset env reg version file w = (Ok body, w1)" "mw_fetched w = []" "mw_fetched w' = []"
    and "file_get w' (cache_path reg version file) = file_get w1 (cache_path reg version file)"
    and "\<And>n. me_http env' n (asset_url (reg_base_url reg) version file) = answer"
  shows "let (r, w2) = asset env' reg version file w' in
    if version \<noteq> None then r = Ok body \<and> mw_requests w2 = mw_requests w'
    else (case answer of
        SendFailed _ \<Rightarrow> r = Ok body
      | Response status fetched \<Rightarrow>
          if \<not> is_success status then r = Err (RegistryUnavailable file (asset_url (reg_base_url reg) version file) status)
          else (case fetched of Inl _ \<Rightarrow> r = Ok body | Inr b \<Rightarrow> r = Ok b))"
proof -
  let ?url = "asset_url (reg_base_url reg) version file" and ?c = "cache_path reg version file"
  have safe: "case version of Some v \<Rightarrow> is_safe_version v | None \<Rightarrow> True"
    using assms(4) by (cases version) (auto simp: asset_def io_fail_def split: if_splits)
  note apart = legacy_clone_apart [OF assms(1) safe, of reg] and differs = cache_part_differs [OF assms(1) safe, of reg]
  obtain v where v: "drop_legacy_clone env reg w = (Ok (), v)"
    using drop_legacy_clone_run [of env reg w] by blast
  obtain v' where v': "drop_legacy_clone env' reg w' = (Ok (), v')" "mw_requests v' = mw_requests w'"
    "file_get v' ?c = file_get w' ?c"
    using drop_legacy_clone_run [of env' reg w'] apart by blast
  have kept: "file_get w1 ?c = Some body"
    using assms(4) fetch_asset_keeps_copy [OF assms(2) differs, of ?url "file" v body w1]
    by (auto simp: asset_fresh [OF safe assms(5) v] run_simps faultless_runs [OF assms(2)] keep_body_run
        split: if_splits option.splits)
  then have c: "file_get v' ?c = Some body"
    using v'(3) assms(7) by simp
  show ?thesis
  proof (cases "version = None")
    case False
    then show ?thesis
      by (simp add: asset_fresh [OF safe assms(6) v'(1)] run_simps faultless_runs [OF assms(3)] c keep_body_run)
         (simp add: tick_def v'(2))
  next
    case True
    obtain r u where h: "http_get env' ?url file v' = (r, u)"
      by (cases "http_get env' ?url file v'")
    have u: "file_get u ?c = Some body"
      using http_get_files [OF h] c by simp
    have a: "asset env' reg version file w' = fetch_asset env' ?url file ?c v'"
      using True asset_fresh [OF safe assms(6) v'(1), of "file"] by simp
    have r: "r = (case answer of SendFailed e \<Rightarrow> Err (Download ?url e)
      | Response status fetched \<Rightarrow> if \<not> is_success status then Err (RegistryUnavailable file ?url status)
          else (case fetched of Inl e \<Rightarrow> Err (Download ?url e) | Inr b \<Rightarrow> Ok b))"
      using h assms(8) by (auto simp: http_get_def send_request_def split: http_answer.splits sum.splits if_splits)
    show ?thesis
      using h u r a True fetch_asset_online [OF assms(3) differs, of ?url "file" v' _ u]
        fetch_asset_offline [OF assms(3), of ?url "file" v' _ u ?c] fetch_asset_refused [OF assms(3), of ?url "file" v' _ u ?c]
      by (auto split: http_answer.split sum.split if_splits)
  qed
qed

subsection \<open>A registry with one release\<close>

definition demo_env :: "http_answer \<Rightarrow> market_env" where
  "demo_env answer = \<lparr> me_http = (\<lambda>_ _. answer), me_fault = (\<lambda>_. None), me_status_text = (\<lambda>_. ''status''), me_age = (\<lambda>_. 90), me_tempdir = (\<lambda>_. ''/tmp/x''),
     me_now = (\<lambda>_. ''now''), me_parse_index = (\<lambda>_. Err ''no index''), me_parse_bundle = (\<lambda>_. Err ''no bundle''),
     me_parse_config = (\<lambda>_. Err ''no config''), me_show_config = (\<lambda>_. Err ''no config''),
     me_parse_installed = (\<lambda>_. Err ''no manifest''), me_show_installed = (\<lambda>_. Ok ''installed''),
     me_sha256_hex = (\<lambda>s. s), me_untar = (\<lambda>s. ([(''tool'', s)], None)), me_unzip = (\<lambda>_. ([], Some ''not a zip'')) \<rparr>"

definition demo_registry :: registry where
  "demo_registry = \<lparr> reg_cache_dir = ''/c'', reg_base_url = ''https://r'' \<rparr>"

definition empty_world :: market_world where
  "empty_world = \<lparr> mw_files = [], mw_fetched = [], mw_requests = [], mw_log = [], mw_out = [], mw_tick = 0 \<rparr>"

theorem registry_cache_confined_witness:
  "\<exists>name. plain_component (cache_scope (Some ''1.0'')) \<and> plain_component name
     \<and> path_key ''/c/v1.0/index.toml'' = (True, [''c'', ''v1.0'', name])"
proof -
  let ?e = "demo_env (Response 200 (Ok ''body''))"
  have "INDEX_FILE \<in> {INDEX_FILE, MANIFESTS_FILE}" "reg_cache_dir demo_registry \<noteq> []"
    by (simp_all add: demo_registry_def)
  note t = registry_cache_confined [OF this, of "Some ''1.0''" ?e empty_world]
  have "is_safe_version ''1.0''"
    and d: "file_get (snd (asset ?e demo_registry (Some ''1.0'') INDEX_FILE empty_world)) ''/c/v1.0/index.toml''
      \<noteq> file_get empty_world ''/c/v1.0/index.toml''"
    and u: "\<not> under (path_join (reg_cache_dir demo_registry) ''repo'') ''/c/v1.0/index.toml''"
    and k: "path_key (reg_cache_dir demo_registry) = (True, [''c''])"
    by code_simp+
  from t this(1) have "\<forall>p. file_get (snd (asset ?e demo_registry (Some ''1.0'') INDEX_FILE empty_world)) p \<noteq> file_get empty_world p \<longrightarrow>
      under (path_join (reg_cache_dir demo_registry) ''repo'') p
      \<or> (\<exists>name. plain_component (cache_scope (Some ''1.0'')) \<and> plain_component name
          \<and> path_key p = (fst (path_key (reg_cache_dir demo_registry)), snd (path_key (reg_cache_dir demo_registry)) @ [cache_scope (Some ''1.0''), name]))"
    by simp
  from this [rule_format, OF d] u k show ?thesis
    by (simp add: cache_scope_def)
qed

theorem cached_asset_contract_witness:
  "\<exists>w1. asset (demo_env (Response 200 (Ok ''body''))) demo_registry None INDEX_FILE empty_world = (Ok ''body'', w1)
     \<and> fst (asset (demo_env (SendFailed ''offline'')) demo_registry None INDEX_FILE (empty_world\<lparr> mw_files := mw_files w1 \<rparr>)) = Ok ''body''"
proof -
  let ?on = "demo_env (Response 200 (Ok ''body''))" and ?off = "demo_env (SendFailed ''offline'')"
  obtain r w1 where run: "asset ?on demo_registry None INDEX_FILE empty_world = (r, w1)"
    by (cases "asset ?on demo_registry None INDEX_FILE empty_world")
  have "fst (asset ?on demo_registry None INDEX_FILE empty_world) = Ok ''body''"
    by code_simp
  with run have ok: "asset ?on demo_registry None INDEX_FILE empty_world = (Ok ''body'', w1)"
    by simp
  have e: "INDEX_FILE \<in> {INDEX_FILE, MANIFESTS_FILE}" "faultless ?on" "faultless ?off" "mw_fetched empty_world = []"
    "mw_fetched (empty_world\<lparr> mw_files := mw_files w1 \<rparr>) = []"
    "file_get (empty_world\<lparr> mw_files := mw_files w1 \<rparr>) (cache_path demo_registry None INDEX_FILE)
       = file_get w1 (cache_path demo_registry None INDEX_FILE)"
    and h: "\<And>n. me_http ?off n (asset_url (reg_base_url demo_registry) None INDEX_FILE) = SendFailed ''offline''"
    by (simp_all add: faultless_def demo_env_def empty_world_def file_get_def)
  from cached_asset_contract [OF e(1,2,3) ok e(4,5,6) h] ok show ?thesis
    by (auto simp: Let_def split: prod.splits)
qed

end
