(* ===== verification/Installer.thy ===== *)
theory Installer
  imports Registry
begin

text \<open>
  Installing, updating and removing marketplace primitives: \<^verbatim>\<open>marketplace/installer.rs\<close>, the files of
  \<^verbatim>\<open>marketplace/storage.rs\<close> and the commands of \<^verbatim>\<open>marketplace/cli.rs\<close>. An install downloads an archive into a
  temporary directory, checks it against the published checksum, unpacks it into the bin directory and
  records it. The lemmas say what an install can change on disk, that a checksum that does not match keeps
  the bin directory as it was, and what a batch of installs reports.
\<close>

section \<open>Storage\<close>

record storage =
  st_config_dir :: string
  st_cache_dir :: string
  st_data_dir :: string

definition config_path :: "storage \<Rightarrow> string" where
  "config_path st = path_join (st_config_dir st) ''marketplace.toml''"

definition manifest_path :: "storage \<Rightarrow> string" where
  "manifest_path st = path_join (st_data_dir st) ''.installed.toml''"

definition bin_dir :: "storage \<Rightarrow> string" where
  "bin_dir st = path_join (st_data_dir st) ''bin''"

definition default_market_config :: market_config where
  "default_market_config = \<lparr> mc_registry_url = DEFAULT_REGISTRY_URL \<rparr>"

definition save_config :: "market_env \<Rightarrow> storage \<Rightarrow> market_config \<Rightarrow> unit market_io" where
  "save_config env st config = (case me_show_config env config of
      Inl e \<Rightarrow> io_fail (TomlSerialize (config_path st) e)
    | Inr text \<Rightarrow> fs_write env (config_path st) text)"

definition load_config :: "market_env \<Rightarrow> storage \<Rightarrow> market_config market_io" where
  "load_config env st =
     observe (\<lambda>w. exists_path w (config_path st)) (\<lambda>there.
       if \<not> there then io_return default_market_config
       else
         and_then (fs_read env (config_path st)) (\<lambda>text.
         and_then (io_lift (parse_toml (me_parse_config env) text (config_path st))) (\<lambda>config.
         case migrated_registry_url (mc_registry_url config) of
           None \<Rightarrow> io_return config
         | Some current \<Rightarrow>
             and_then (eprintln (''Note: registry_url pointed at the retired emergent-registry repository; using ''
                @ current @ '' instead.'')) (\<lambda>_.
             on_result (save_config env st (config\<lparr> mc_registry_url := current \<rparr>))
               (\<lambda>e. and_then (eprintln (''Warning: could not rewrite '' @ config_path st @ '': '' @ market_error_text e))
                  (\<lambda>_. io_return (config\<lparr> mc_registry_url := current \<rparr>)))
               (\<lambda>_. io_return (config\<lparr> mc_registry_url := current \<rparr>))))))"

definition load_manifest :: "market_env \<Rightarrow> storage \<Rightarrow> installation_manifest market_io" where
  "load_manifest env st =
     observe (\<lambda>w. exists_path w (manifest_path st)) (\<lambda>there.
       if \<not> there then io_return []
       else and_then (fs_read env (manifest_path st)) (\<lambda>text.
         io_lift (parse_toml (me_parse_installed env) text (manifest_path st))))"

definition save_manifest :: "market_env \<Rightarrow> storage \<Rightarrow> installation_manifest \<Rightarrow> unit market_io" where
  "save_manifest env st m = (case me_show_installed env m of
      Inl e \<Rightarrow> io_fail (TomlSerialize (manifest_path st) e)
    | Inr text \<Rightarrow> fs_write env (manifest_path st) text)"

section \<open>Checksums\<close>

definition expected_checksum :: "(string \<rightharpoonup> string) option \<Rightarrow> string \<Rightarrow> string option \<Rightarrow> string option" where
  "expected_checksum published filename from_manifest =
     (case Option.bind published (\<lambda>sums. sums filename) of Some s \<Rightarrow> Some s | None \<Rightarrow> from_manifest)"

definition check_checksum :: "string \<Rightarrow> string \<Rightarrow> (market_error, unit) result" where
  "check_checksum actual expected =
     (if eq_ignore_ascii_case actual (trim expected) then Ok () else Err (ChecksumMismatch (trim expected) actual))"

definition verify_archive :: "market_env \<Rightarrow> string \<Rightarrow> string option \<Rightarrow> bool market_io" where
  "verify_archive env archive expected = (case expected of
      None \<Rightarrow> io_return False
    | Some e \<Rightarrow>
        and_then (fs_read env archive) (\<lambda>bytes.
        and_then (io_lift (check_checksum (me_sha256_hex env bytes) e)) (\<lambda>_. io_return True)))"

section \<open>Download and extraction\<close>

definition download_binary :: "market_env \<Rightarrow> string \<Rightarrow> string \<Rightarrow> unit market_io" where
  "download_binary env url dest w = (case send_request env url w of
      (SendFailed e, w) \<Rightarrow> (Err (Download url e), w)
    | (Response status body, w) \<Rightarrow>
        if \<not> is_success status then
          (Err (InvalidManifest (''HTTP '' @ me_status_text env status @ '' when downloading '' @ url)), w)
        else (case body of Inl e \<Rightarrow> (Err (Download url e), w) | Inr bytes \<Rightarrow> fs_write env dest bytes w))"

text \<open>
  The unpackers yield the entries they write, up to the one they fail at. An entry's name is relative to the
  directory unpacked into.
\<close>

fun unpack_entries :: "string \<Rightarrow> (string \<times> string) list \<Rightarrow> files \<Rightarrow> files" where
  "unpack_entries dest [] fs = fs"
| "unpack_entries dest ((name, bytes) # es) fs = unpack_entries dest es (file_put (path_join dest name) bytes fs)"

definition unpack :: "string \<Rightarrow> string \<Rightarrow> (string \<times> string) list \<times> string option \<Rightarrow> unit market_io" where
  "unpack archive dest r w =
     (let w = w\<lparr> mw_files := unpack_entries dest (fst r) (mw_files w) \<rparr>
      in case snd r of Some e \<Rightarrow> (Err (ExtractionFailed archive e), w) | None \<Rightarrow> (Ok (), w))"

definition extract_archive :: "market_env \<Rightarrow> string \<Rightarrow> string \<Rightarrow> unit market_io" where
  "extract_archive env archive dest =
     and_then (fs_read env archive) (\<lambda>bytes.
       let extension = (case path_extension archive of Some e \<Rightarrow> e | None \<Rightarrow> [])
       in if extension = ''gz'' then unpack archive dest (me_untar env bytes)
          else if extension = ''zip'' then unpack archive dest (me_unzip env bytes)
          else io_fail (InvalidManifest (''Unsupported archive format: '' @ extension)))"

section \<open>Installing\<close>

record installer =
  ins_storage :: storage
  ins_registry :: registry
  ins_platform :: string

record install_options =
  io_name :: string
  io_version :: "string option"
  io_force :: bool
  io_dry_run :: bool

record install_result =
  ir_name :: string
  ir_version :: string
  ir_binary_path :: string

definition check_not_installed :: "market_env \<Rightarrow> installer \<Rightarrow> install_options \<Rightarrow> string \<Rightarrow> unit market_io" where
  "check_not_installed env ins opts version =
     (if io_force opts then io_return ()
      else and_then (load_manifest env (ins_storage ins)) (\<lambda>m.
        case map_of m (io_name opts) of
          Some p \<Rightarrow> if ip_version p = version then io_fail (AlreadyInstalled (io_name opts) version) else io_return ()
        | None \<Rightarrow> io_return ()))"

text \<open>The temporary directory lives until the function returns, on every path; failures to remove it are ignored.\<close>

definition with_tempdir :: "market_env \<Rightarrow> (string \<Rightarrow> 'a market_io) \<Rightarrow> 'a market_io" where
  "with_tempdir env f =
     observe (\<lambda>w. me_tempdir env (mw_tick w)) (\<lambda>temp.
     and_then (fs_touch env) (\<lambda>_ w. case f temp w of
        (r, w) \<Rightarrow> (r, snd (fs_remove_dir_all env temp w))))"

definition record_installed ::
  "market_env \<Rightarrow> installer \<Rightarrow> install_options \<Rightarrow> primitive_manifest \<Rightarrow> string \<Rightarrow> string \<Rightarrow> unit market_io" where
  "record_installed env ins opts manifest version binary_path =
     and_then (load_manifest env (ins_storage ins)) (\<lambda>m.
     observe (\<lambda>w. me_now env (mw_tick w)) (\<lambda>now.
     save_manifest env (ins_storage ins) ((io_name opts,
        \<lparr> ip_name = io_name opts, ip_version = version, ip_kind = mpi_kind (pmf_primitive manifest),
          ip_binary_path = binary_path, ip_installed_at = now \<rparr>) # filter (\<lambda>(n, _). n \<noteq> io_name opts) m)))"

text \<open>The checks before anything is unpacked.\<close>

definition download_and_verify ::
  "market_env \<Rightarrow> installer \<Rightarrow> install_options \<Rightarrow> primitive_manifest \<Rightarrow> string \<Rightarrow> string \<Rightarrow> string \<Rightarrow> unit market_io" where
  "download_and_verify env ins opts manifest version filename archive_path =
     and_then (eprintln (''Downloading '' @ io_name opts @ '' v'' @ version @ ''...'')) (\<lambda>_.
     and_then (download_binary env (asset_url (bi_release_url (pmf_binaries manifest)) (Some version) filename) archive_path) (\<lambda>_.
     and_then (release_checksums env (bi_release_url (pmf_binaries manifest)) version) (\<lambda>published.
     and_then (verify_archive env archive_path (expected_checksum published filename
         (checksum_for (pmf_binaries manifest) (ins_platform ins)))) (\<lambda>verified.
     eprintln (if verified then ''Checksum verified.''
       else ''Warning: release v'' @ version @ '' publishes no checksum for '' @ filename @ ''; installing unverified.'')))))"

text \<open>
  \<^verbatim>\<open>std::fs::metadata\<close>: it fails on a path where there is nothing, and succeeds on a file and on a directory.
\<close>

definition fs_metadata :: "market_env \<Rightarrow> string \<Rightarrow> unit market_io" where
  "fs_metadata env p w = ((case me_fault env (mw_tick w) of
      Some f \<Rightarrow> Err (Io (iof_text f))
    | None \<Rightarrow> if exists_path w p then Ok () else Err (Io ''No such file or directory'')), tick w)"

text \<open>
  On Unix: what lies under the primitive's name is made executable, be it a file or a directory, which fails
  if there is nothing.
\<close>

definition install_archive ::
  "market_env \<Rightarrow> installer \<Rightarrow> install_options \<Rightarrow> primitive_manifest \<Rightarrow> string \<Rightarrow> string \<Rightarrow> string \<Rightarrow> install_result market_io" where
  "install_archive env ins opts manifest version filename temp =
     (let archive_path = path_join temp filename; binary_path = path_join (bin_dir (ins_storage ins)) (io_name opts)
      in and_then (download_and_verify env ins opts manifest version filename archive_path) (\<lambda>_.
         and_then (eprintln ''Extracting...'') (\<lambda>_.
         and_then (extract_archive env archive_path (bin_dir (ins_storage ins))) (\<lambda>_.
         and_then (fs_metadata env binary_path) (\<lambda>_.
         and_then (fs_touch env) (\<lambda>_.
         and_then (record_installed env ins opts manifest version binary_path) (\<lambda>_.
         and_then (eprintln (''Successfully installed '' @ io_name opts @ '' v'' @ version)) (\<lambda>_.
         io_return \<lparr> ir_name = io_name opts, ir_version = version, ir_binary_path = binary_path \<rparr>))))))))"

definition install_described :: "market_env \<Rightarrow> installer \<Rightarrow> install_options \<Rightarrow> primitive_manifest \<Rightarrow> install_result market_io" where
  "install_described env ins opts manifest =
     (let version = (case io_version opts of Some v \<Rightarrow> v | None \<Rightarrow> mpi_version (pmf_primitive manifest))
      in and_then (check_not_installed env ins opts version) (\<lambda>_.
      case map_of (bi_targets (pmf_binaries manifest)) (ins_platform ins) of
        None \<Rightarrow> io_fail (PlatformNotSupported (ins_platform ins) (io_name opts))
      | Some filename \<Rightarrow>
          if io_dry_run opts then
            and_then (eprintln (''[DRY RUN] Would install '' @ io_name opts @ '' v'' @ version)) (\<lambda>_.
            and_then (eprintln (''[DRY RUN] Platform: '' @ ins_platform ins)) (\<lambda>_.
            and_then (eprintln (''[DRY RUN] File: '' @ filename)) (\<lambda>_.
            io_return \<lparr> ir_name = io_name opts, ir_version = version, ir_binary_path = [] \<rparr>)))
          else
            and_then (fs_touch env) (\<lambda>_.
            with_tempdir env (install_archive env ins opts manifest version filename))))"

definition install :: "market_env \<Rightarrow> installer \<Rightarrow> install_options \<Rightarrow> install_result market_io" where
  "install env ins opts =
     and_then (get_manifest env (ins_registry ins) (io_name opts) (io_version opts)) (install_described env ins opts)"

section \<open>Removing and updating\<close>

definition remove :: "market_env \<Rightarrow> installer \<Rightarrow> string \<Rightarrow> unit market_io" where
  "remove env ins name =
     and_then (load_manifest env (ins_storage ins)) (\<lambda>m.
       case map_of m name of
         None \<Rightarrow> io_fail (PrimitiveNotFound name)
       | Some installed \<Rightarrow>
           and_then (observe (\<lambda>w. exists_path w (ip_binary_path installed)) (\<lambda>there.
             if there then fs_remove_file env (ip_binary_path installed) else io_return ())) (\<lambda>_.
           and_then (save_manifest env (ins_storage ins) (filter (\<lambda>(n, _). n \<noteq> name) m)) (\<lambda>_.
           eprintln (''Successfully removed '' @ name))))"

definition update :: "market_env \<Rightarrow> installer \<Rightarrow> string \<Rightarrow> bool \<Rightarrow> install_result option market_io" where
  "update env ins name dry_run =
     and_then (load_manifest env (ins_storage ins)) (\<lambda>m.
       case map_of m name of
         None \<Rightarrow> io_fail (PrimitiveNotFound name)
       | Some installed \<Rightarrow>
           and_then (get_manifest env (ins_registry ins) name None) (\<lambda>registry_manifest.
             let latest = mpi_version (pmf_primitive registry_manifest)
             in if ip_version installed = latest then
                  (if dry_run then io_return None
                   else and_then (eprintln (name @ '' is already up-to-date (v'' @ latest @ '')'')) (\<lambda>_. io_return None))
                else if dry_run then
                  and_then (eprintln (''[DRY RUN] Would update '' @ name @ '' from v'' @ ip_version installed @ '' to v'' @ latest))
                    (\<lambda>_. io_return None)
                else
                  and_then (eprintln (''Updating '' @ name @ '' from v'' @ ip_version installed @ '' to v'' @ latest @ ''...'')) (\<lambda>_.
                  and_then (install env ins \<lparr> io_name = name, io_version = Some latest, io_force = True, io_dry_run = False \<rparr>)
                    (\<lambda>r. io_return (Some r)))))"

definition is_installed :: "market_env \<Rightarrow> installer \<Rightarrow> string \<Rightarrow> bool market_io" where
  "is_installed env ins name =
     and_then (load_manifest env (ins_storage ins)) (\<lambda>m. io_return (map_of m name \<noteq> None))"

definition list_installed :: "market_env \<Rightarrow> installer \<Rightarrow> installed_primitive list market_io" where
  "list_installed env ins = and_then (load_manifest env (ins_storage ins)) (\<lambda>m. io_return (map snd m))"

section \<open>What installing touches\<close>

lemma confined_load_manifest [frame]: "confined A (load_manifest env st)"
  unfolding load_manifest_def by (intro frame)

lemma confined_case_result [frame]:
  "(\<And>e. r = Inl e \<Longrightarrow> confined A (f e)) \<Longrightarrow> (\<And>x. r = Inr x \<Longrightarrow> confined A (g x)) \<Longrightarrow> confined A (case r of Inl e \<Rightarrow> f e | Inr x \<Rightarrow> g x)"
  by (cases r) auto

lemma confined_save_manifest [frame]: "A (manifest_path st) \<Longrightarrow> confined A (save_manifest env st m)"
  unfolding save_manifest_def by (intro frame)

lemma confined_download_binary [frame]: "A dest \<Longrightarrow> confined A (download_binary env url dest)"
  using confined_writes(1) [of A dest env]
  by (auto simp: confined_def download_binary_def send_request_def split: http_answer.split sum.split)

lemma confined_verify_archive [frame]: "confined A (verify_archive env archive expected)"
  unfolding verify_archive_def by (intro frame)

lemma confined_check_not_installed [frame]: "confined A (check_not_installed env ins opts version)"
  unfolding check_not_installed_def by (intro frame)

lemma confined_download_and_verify [frame]:
  "A archive \<Longrightarrow> confined A (download_and_verify env ins opts m v f archive)"
  unfolding download_and_verify_def by (intro frame)

lemma with_tempdir_run:
  "with_tempdir env f w = (case fs_touch env w of
      (Inl e, w1) \<Rightarrow> (Err e, w1)
    | (Inr _, w1) \<Rightarrow> (fst (f (me_tempdir env (mw_tick w)) w1),
        snd (fs_remove_dir_all env (me_tempdir env (mw_tick w)) (snd (f (me_tempdir env (mw_tick w)) w1)))))"
  by (simp add: with_tempdir_def run_simps split: prod.split sum.split)

section \<open>A tampered archive\<close>

text \<open>What reaches the archive file is what the network answered.\<close>

lemma download_binary_Ok:
  assumes "download_binary env url dest w = (Ok u, w')"
  obtains n status bytes where "me_http env n url = Response status (Ok bytes)" "file_get w' dest = Some bytes"
  using assms
  by (auto simp: download_binary_def send_request_def fs_write_def split: http_answer.splits sum.splits option.splits if_splits)

lemma release_checksums_files: "release_checksums env url v w = (r, w') \<Longrightarrow> file_get w' p = file_get w p"
  by (rule confinedD' [OF confined_release_checksums [where A = "\<lambda>_. False"]]) auto

text \<open>The release lists a checksum for the file, whenever it is asked.\<close>

definition publishes_checksum :: "market_env \<Rightarrow> string \<Rightarrow> string \<Rightarrow> string \<Rightarrow> string \<Rightarrow> bool" where
  "publishes_checksum env release_url version filename checksum \<longleftrightarrow>
     (\<forall>n. case me_http env n (asset_url release_url (Some version) CHECKSUMS_FILE) of
        Response status (Inr text) \<Rightarrow> is_success status \<and> parse_checksums text filename = Some checksum
      | _ \<Rightarrow> False)"

lemma release_checksums_published:
  assumes "publishes_checksum env release_url version filename checksum"
  shows "\<exists>sums w'. release_checksums env release_url version w = (Ok (Some sums), w') \<and> sums filename = Some checksum"
  using assms [unfolded publishes_checksum_def, rule_format, of "mw_tick w"]
  by (auto simp: release_checksums_def run_simps http_get_def send_request_def split: http_answer.splits sum.splits)

text \<open>No answer to the request for the file has the checksum.\<close>

definition never_matches :: "market_env \<Rightarrow> string \<Rightarrow> string \<Rightarrow> bool" where
  "never_matches env url checksum \<longleftrightarrow> (\<forall>n. case me_http env n url of
      Response status (Inr bytes) \<Rightarrow> \<not> eq_ignore_ascii_case (me_sha256_hex env bytes) (trim checksum)
    | _ \<Rightarrow> True)"

lemma verify_archive_mismatch:
  assumes "file_get w archive = Some bytes" and "\<not> eq_ignore_ascii_case (me_sha256_hex env bytes) (trim checksum)"
  shows "\<exists>e w'. verify_archive env archive (Some checksum) w = (Err e, w')"
  using assms by (auto simp: verify_archive_def run_simps fs_read_def check_checksum_def split: option.split)

lemma download_and_verify_refuses:
  assumes pub: "publishes_checksum env (bi_release_url (pmf_binaries m)) version filename checksum"
    and bad: "never_matches env (asset_url (bi_release_url (pmf_binaries m)) (Some version) filename) checksum"
  shows "\<exists>e w'. download_and_verify env ins opts m version filename archive w = (Err e, w')"
proof -
  let ?url = "asset_url (bi_release_url (pmf_binaries m)) (Some version) filename"
  let ?w = "w\<lparr> mw_log := mw_log w @ [''Downloading '' @ io_name opts @ '' v'' @ version @ ''...''] \<rparr>"
  obtain r w1 where d: "download_binary env ?url archive ?w = (r, w1)"
    by (cases "download_binary env ?url archive ?w")
  show ?thesis
  proof (cases r)
    case (Inl e)
    then show ?thesis
      using d by (simp add: download_and_verify_def run_simps eprintln_def)
  next
    case (Inr u)
    with d obtain n status bytes where b: "me_http env n ?url = Response status (Ok bytes)" "file_get w1 archive = Some bytes"
      by (metis download_binary_Ok)
    obtain sums w2 where s: "release_checksums env (bi_release_url (pmf_binaries m)) version w1 = (Ok (Some sums), w2)"
      "sums filename = Some checksum"
      using release_checksums_published [OF pub] by blast
    have "file_get w2 archive = Some bytes"
      using b(2) release_checksums_files [OF s(1)] by simp
    moreover have "\<not> eq_ignore_ascii_case (me_sha256_hex env bytes) (trim checksum)"
      using bad [unfolded never_matches_def, rule_format, of n] b(1) by simp
    ultimately obtain e w3 where "verify_archive env archive (Some checksum) w2 = (Err e, w3)"
      using verify_archive_mismatch by blast
    then show ?thesis
      using d Inr s by (simp add: download_and_verify_def run_simps eprintln_def expected_checksum_def)
  qed
qed

lemma under_join: "\<not> starts_with p ''/'' \<Longrightarrow> under d (path_join d p)"
  by (simp add: under_def path_join_relative)

lemma plain_relative: "plain_component c \<Longrightarrow> \<not> starts_with c ''/''"
  by (cases c) (auto simp: plain_component_def)

lemma fs_remove_dir_all_files: "\<not> under d p \<Longrightarrow> file_get (snd (fs_remove_dir_all env d w)) p = file_get w p"
  by (rule confinedD [OF confined_remove_dir]) auto

lemma install_archive_refused:
  assumes "publishes_checksum env (bi_release_url (pmf_binaries m)) version filename checksum"
    and "never_matches env (asset_url (bi_release_url (pmf_binaries m)) (Some version) filename) checksum"
    and "plain_component filename"
  shows "\<exists>e w'. with_tempdir env (install_archive env ins opts m version filename) w = (Err e, w')
    \<and> (\<forall>p. (\<forall>n. \<not> under (me_tempdir env n) p) \<longrightarrow> file_get w' p = file_get w p)"
proof -
  let ?t = "me_tempdir env (mw_tick w)"
  obtain r w1 where touch: "fs_touch env w = (r, w1)" "\<And>p. file_get w1 p = file_get w p"
    by (auto simp: fs_touch_def)
  obtain e w2 where refused: "download_and_verify env ins opts m version filename (path_join ?t filename) w1 = (Err e, w2)"
    using download_and_verify_refuses [OF assms(1,2)] by blast
  have area: "confined (under ?t) (download_and_verify env ins opts m version filename (path_join ?t filename))"
    using under_join [OF plain_relative [OF assms(3)]] by (intro frame)
  then have same: "file_get w2 p = file_get w p" if "\<not> under ?t p" for p
    using confinedD' [OF area refused that] touch(2) by auto
  have "install_archive env ins opts m version filename ?t w1 = (Err e, w2)"
    using refused by (simp add: install_archive_def Let_def run_simps)
  then show ?thesis
    using touch same fs_remove_dir_all_files [of ?t _ env w2]
    by (cases r) (auto simp: with_tempdir_run)
qed

section \<open>Properties\<close>

text \<open>
  The release the manifest names publishes a checksum for the archive of this platform, and no answer of the
  network to the download satisfies it.
\<close>

definition tampered_release :: "market_env \<Rightarrow> installer \<Rightarrow> install_options \<Rightarrow> primitive_manifest \<Rightarrow> bool" where
  "tampered_release env ins opts m \<longleftrightarrow>
     (case map_of (bi_targets (pmf_binaries m)) (ins_platform ins) of
        None \<Rightarrow> True
      | Some filename \<Rightarrow>
         (let version = (case io_version opts of Some v \<Rightarrow> v | None \<Rightarrow> mpi_version (pmf_primitive m));
              url = bi_release_url (pmf_binaries m)
          in (\<exists>checksum. publishes_checksum env url version filename checksum
               \<and> never_matches env (asset_url url (Some version) filename) checksum)))"

lemma install_described_refused:
  assumes "\<not> io_dry_run opts" and bad: "tampered_release env ins opts m"
    and plain: "\<And>filename. map_of (bi_targets (pmf_binaries m)) (ins_platform ins) = Some filename \<Longrightarrow> plain_component filename"
  shows "\<exists>e w'. install_described env ins opts m w = (Err e, w')
    \<and> (\<forall>p. (\<forall>n. \<not> under (me_tempdir env n) p) \<longrightarrow> file_get w' p = file_get w p)"
proof -
  define version where "version = (case io_version opts of Some v \<Rightarrow> v | None \<Rightarrow> mpi_version (pmf_primitive m))"
  obtain r2 w2 where c: "check_not_installed env ins opts version w = (r2, w2)"
    by (cases "check_not_installed env ins opts version w")
  have f2: "file_get w2 p = file_get w p" for p
    using confinedD' [OF confined_check_not_installed [where A = "\<lambda>_. False"] c] by simp
  obtain r3 w3 where t: "fs_touch env w2 = (r3, w3)" "\<And>p. file_get w3 p = file_get w2 p"
    by (auto simp: fs_touch_def)
  show ?thesis
  proof (cases "map_of (bi_targets (pmf_binaries m)) (ins_platform ins)")
    case None
    then show ?thesis
      using c f2 by (cases r2) (auto simp: install_described_def run_simps Let_def version_def)
  next
    case (Some filename)
    then obtain checksum where k:
      "publishes_checksum env (bi_release_url (pmf_binaries m)) version filename checksum"
      "never_matches env (asset_url (bi_release_url (pmf_binaries m)) (Some version) filename) checksum"
      using bad by (auto simp: tampered_release_def Let_def version_def)
    obtain e w4 where "with_tempdir env (install_archive env ins opts m version filename) w3 = (Err e, w4)"
      "\<forall>p. (\<forall>n. \<not> under (me_tempdir env n) p) \<longrightarrow> file_get w4 p = file_get w3 p"
      using install_archive_refused [OF k plain [OF Some]] by blast
    then show ?thesis
      using c t Some f2 assms(1)
      by (cases r2; cases r3) (auto simp: install_described_def run_simps Let_def version_def)
  qed
qed


section \<open>A finished install\<close>

lemma exists_path_file: "file_get w p \<noteq> None \<Longrightarrow> exists_path w p"
  by (auto simp: exists_path_def file_get_def under_def list_ex_iff dest!: map_of_SomeD)

lemma exists_path_iff: "exists_path w p \<longleftrightarrow> (\<exists>q. under p q \<and> file_get w q \<noteq> None)"
  by (force simp: exists_path_def file_get_def list_ex_iff map_of_eq_None_iff)

lemma binary_path_apart:
  assumes "plain_component name"
  shows "path_join (bin_dir st) name \<noteq> manifest_path st"
proof -
  have "\<exists>x. dir_prefix (d @ ''bin'') = d @ ''bin'' @ x" for d
    by (simp add: dir_prefix_def)
  then obtain x where "path_join (bin_dir st) name = dir_prefix (st_data_dir st) @ ''bin'' @ x @ name"
    using plain_relative [OF assms] by (auto simp: path_join_relative bin_dir_def)
  then show ?thesis
    by (simp add: path_join_relative manifest_path_def)
qed

text \<open>The list of installed primitives as the disk has it.\<close>

definition manifest_on_disk :: "market_env \<Rightarrow> storage \<Rightarrow> market_world \<Rightarrow> installation_manifest \<Rightarrow> bool" where
  "manifest_on_disk env st w m \<longleftrightarrow>
     (\<exists>text. file_get w (manifest_path st) = Some text \<and> me_parse_installed env text = Ok m)"

lemma load_manifest_on_disk:
  "faultless env \<Longrightarrow> manifest_on_disk env st w m \<Longrightarrow> load_manifest env st w = (Ok m, tick w)"
  by (auto simp: load_manifest_def manifest_on_disk_def run_simps exists_path_file faultless_runs parse_toml_def)

lemma save_manifest_on_disk:
  assumes "save_manifest env st m w = (Ok u, w')"
    and "\<And>text. me_show_installed env m = Ok text \<Longrightarrow> me_parse_installed env text = Ok m"
  shows "manifest_on_disk env st w' m" and "is_ok (me_show_installed env m)" and "\<And>p. p \<noteq> manifest_path st \<Longrightarrow> file_get w' p = file_get w p"
  using assms
  by (auto simp: save_manifest_def manifest_on_disk_def io_fail_def fs_write_def split: sum.splits option.splits)

lemma record_installed_Ok:
  assumes "record_installed env ins opts manifest version bp w = (Ok u, w')"
    and codec: "\<And>m text. me_show_installed env m = Ok text \<Longrightarrow> me_parse_installed env text = Ok m"
  shows "\<exists>m ip. manifest_on_disk env (ins_storage ins) w' m \<and> is_ok (me_show_installed env m) \<and> map_of m (io_name opts) = Some ip
      \<and> ip_version ip = version \<and> ip_binary_path ip = bp"
    and "\<And>p. p \<noteq> manifest_path (ins_storage ins) \<Longrightarrow> file_get w' p = file_get w p"
proof -
  obtain m w1 where l: "load_manifest env (ins_storage ins) w = (Ok m, w1)"
    and s: "save_manifest env (ins_storage ins) ((io_name opts,
        \<lparr> ip_name = io_name opts, ip_version = version, ip_kind = mpi_kind (pmf_primitive manifest),
          ip_binary_path = bp, ip_installed_at = me_now env (mw_tick w1) \<rparr>) # filter (\<lambda>(n, _). n \<noteq> io_name opts) m) w1 = (Ok u, w')"
    using assms(1) by (auto simp: record_installed_def and_then_Ok_iff observe_def)
  show "\<exists>m ip. manifest_on_disk env (ins_storage ins) w' m \<and> is_ok (me_show_installed env m) \<and> map_of m (io_name opts) = Some ip
      \<and> ip_version ip = version \<and> ip_binary_path ip = bp"
    using save_manifest_on_disk(1,2) [OF s codec] by fastforce
  show "file_get w' p = file_get w p" if "p \<noteq> manifest_path (ins_storage ins)" for p
    using save_manifest_on_disk(3) [OF s codec that] confinedD' [OF confined_load_manifest [where A = "\<lambda>_. False"] l] by simp
qed

lemma fs_read_Ok: "fs_read env p w = (Ok b, w') \<Longrightarrow> file_get w' p = Some b"
  by (auto simp: fs_read_def split: option.splits)

lemma fs_metadata_Ok: "fs_metadata env p w = (Ok u, w') \<Longrightarrow> exists_path w' p"
  by (auto simp: fs_metadata_def exists_path_def tick_def split: option.splits if_splits)

text \<open>What is recorded beside the binary leaves it there, be it a file or a directory.\<close>

lemma record_installed_keeps:
  assumes "record_installed env ins opts manifest version bp w = (Ok u, w')" "exists_path w p"
    and codec: "\<And>m text. me_show_installed env m = Ok text \<Longrightarrow> me_parse_installed env text = Ok m"
  shows "exists_path w' p"
proof -
  obtain q where q: "under p q" "file_get w q \<noteq> None"
    using assms(2) by (auto simp: exists_path_iff)
  have "file_get w' (manifest_path (ins_storage ins)) \<noteq> None"
    using record_installed_Ok(1) [OF assms(1) codec] by (auto simp: manifest_on_disk_def)
  then have "file_get w' q \<noteq> None"
    using q record_installed_Ok(2) [OF assms(1) codec, of q] by fastforce
  with q show ?thesis
    by (auto simp: exists_path_iff)
qed

lemma install_archive_Ok:
  assumes "install_archive env ins opts manifest version filename temp w = (Ok r, w')"
    and codec: "\<And>m text. me_show_installed env m = Ok text \<Longrightarrow> me_parse_installed env text = Ok m"
  shows "r = \<lparr> ir_name = io_name opts, ir_version = version, ir_binary_path = path_join (bin_dir (ins_storage ins)) (io_name opts) \<rparr>"
    and "exists_path w' (path_join (bin_dir (ins_storage ins)) (io_name opts))"
    and "\<exists>m ip. manifest_on_disk env (ins_storage ins) w' m \<and> is_ok (me_show_installed env m) \<and> map_of m (io_name opts) = Some ip
      \<and> ip_version ip = version \<and> ip_binary_path ip = path_join (bin_dir (ins_storage ins)) (io_name opts)"
proof -
  let ?bp = "path_join (bin_dir (ins_storage ins)) (io_name opts)"
  obtain w1 w2 w3 w4 where steps: "fs_metadata env ?bp w1 = (Ok (), w2)" "fs_touch env w2 = (Ok (), w3)"
    "record_installed env ins opts manifest version ?bp w3 = (Ok (), w4)"
    and e: "w' = w4\<lparr> mw_log := mw_log w4 @ [''Successfully installed '' @ io_name opts @ '' v'' @ version] \<rparr>"
    and r: "r = \<lparr> ir_name = io_name opts, ir_version = version, ir_binary_path = ?bp \<rparr>"
    using assms(1) unfolding install_archive_def Let_def and_then_Ok_iff eprintln_def io_return_def by auto
  have "exists_path w3 ?bp"
    using fs_metadata_Ok [OF steps(1)] steps(2) by (auto simp: fs_touch_def exists_path_def tick_def)
  then show "exists_path w' ?bp"
    using record_installed_keeps [OF steps(3) _ codec] by (simp add: e exists_path_def)
  show "\<exists>m ip. manifest_on_disk env (ins_storage ins) w' m \<and> is_ok (me_show_installed env m) \<and> map_of m (io_name opts) = Some ip
      \<and> ip_version ip = version \<and> ip_binary_path ip = ?bp"
    using record_installed_Ok(1) [OF steps(3) codec] by (simp add: e manifest_on_disk_def)
qed (use assms(1) in \<open>auto simp: install_archive_def Let_def and_then_Ok_iff io_return_def\<close>)

lemma install_Ok:
  assumes "install env ins opts w = (Ok r, w')" and "\<not> io_dry_run opts"
    and codec: "\<And>m text. me_show_installed env m = Ok text \<Longrightarrow> me_parse_installed env text = Ok m"
    and apart: "\<And>n. \<not> under (me_tempdir env n) (manifest_path (ins_storage ins))"
      "\<And>n p. under (path_join (bin_dir (ins_storage ins)) (io_name opts)) p \<Longrightarrow> \<not> under (me_tempdir env n) p"
  shows "ir_binary_path r = path_join (bin_dir (ins_storage ins)) (io_name opts)"
    and "exists_path w' (path_join (bin_dir (ins_storage ins)) (io_name opts))"
    and "\<exists>m ip. manifest_on_disk env (ins_storage ins) w' m \<and> is_ok (me_show_installed env m) \<and> map_of m (io_name opts) = Some ip
      \<and> ip_version ip = ir_version r \<and> ip_binary_path ip = ir_binary_path r"
proof -
  obtain m w1 where "install_described env ins opts m w1 = (Ok r, w')"
    using assms(1) by (auto simp: install_def and_then_Ok_iff)
  then obtain version filename w2 where "with_tempdir env (install_archive env ins opts m version filename) w2 = (Ok r, w')"
    using assms(2) by (auto simp: install_described_def Let_def and_then_Ok_iff io_fail_def split: option.splits)
  then obtain temp n w3 w4 where i: "install_archive env ins opts m version filename temp w3 = (Ok r, w4)"
    and t: "temp = me_tempdir env n" "w' = snd (fs_remove_dir_all env temp w4)"
    by (auto simp: with_tempdir_run split: prod.splits sum.splits) (metis prod.collapse)
  have kept: "file_get w' p = file_get w4 p" if "\<not> under temp p" for p
    using fs_remove_dir_all_files [OF that] t(2) by simp
  note fin = install_archive_Ok [OF i codec]
  show "ir_binary_path r = path_join (bin_dir (ins_storage ins)) (io_name opts)"
    using fin(1) by simp
  show "exists_path w' (path_join (bin_dir (ins_storage ins)) (io_name opts))"
    using fin(2) kept apart(2) t(1) by (auto simp: exists_path_iff)
  show "\<exists>m ip. manifest_on_disk env (ins_storage ins) w' m \<and> is_ok (me_show_installed env m) \<and> map_of m (io_name opts) = Some ip
      \<and> ip_version ip = ir_version r \<and> ip_binary_path ip = ir_binary_path r"
    using fin(1,3) kept [of "manifest_path (ins_storage ins)"] apart(1) t(1) by (simp add: manifest_on_disk_def)
qed

lemma remove_run:
  assumes "faultless env" "manifest_on_disk env (ins_storage ins) w m" "map_of m name = Some ip"
    and "ip_binary_path ip \<noteq> manifest_path (ins_storage ins)" "file_get w (ip_binary_path ip) \<noteq> None"
    and "is_ok (me_show_installed env (filter (\<lambda>(n, _). n \<noteq> name) m))"
      "\<And>m text. me_show_installed env m = Ok text \<Longrightarrow> me_parse_installed env text = Ok m"
  shows "\<exists>w'. remove env ins name w = (Ok (), w') \<and> file_get w' (ip_binary_path ip) = None
    \<and> manifest_on_disk env (ins_storage ins) w' (filter (\<lambda>(n, _). n \<noteq> name) m)"
proof -
  let ?m = "filter (\<lambda>(n, _). n \<noteq> name) m"
  obtain t where t: "me_show_installed env ?m = Ok t" "me_parse_installed env t = Ok ?m"
    using assms(6) assms(7) [of ?m] by (auto simp: is_ok_iff)
  have "exists_path (tick w) (ip_binary_path ip)"
    using assms(5) by (intro exists_path_file) simp
  moreover obtain b where "file_get w (ip_binary_path ip) = Some b"
    using assms(5) by auto
  ultimately show ?thesis
    using assms(1,3,4) t(2)
    by (auto simp: remove_def run_simps load_manifest_on_disk [OF assms(1,2)] fs_remove_file_def faultless_def save_manifest_def
        t(1) faultless_runs [OF assms(1)] eprintln_def manifest_on_disk_def)
qed

text \<open>A directory is not removed as a file, and what could not be removed stays on the list.\<close>

lemma remove_directory:
  assumes "faultless env" "manifest_on_disk env (ins_storage ins) w m" "map_of m name = Some ip"
    and "exists_path w (ip_binary_path ip)" "file_get w (ip_binary_path ip) = None"
  shows "\<exists>e w'. remove env ins name w = (Err e, w') \<and> manifest_on_disk env (ins_storage ins) w' m"
proof -
  have "exists_path (tick w) (ip_binary_path ip)"
    using assms(4) by (simp add: exists_path_def tick_def)
  with assms show ?thesis
    by (simp add: remove_def run_simps load_manifest_on_disk [OF assms(1,2)] fs_remove_file_def faultless_def manifest_on_disk_def)
qed

text \<open>
  C28. Install, then remove. After an install that reports success, whatever happened on the way, something lies
  at the path it reports in the bin directory and the list of installed primitives names the primitive with the
  version reported; and installing that version again without \<^verbatim>\<open>--force\<close> is refused as already installed. If
  what lies there is a file, removing the primitive, when the file system works, deletes it and takes the name off
  the list. If it is a directory (the install accepts an archive that unpacks to a directory of that name),
  removing it fails and the name stays on the list. Assumed are: the name asked for is a plain file name
  (\<open>plain_component\<close>: not empty, \<open>.\<close> or \<open>..\<close>, without a slash); the TOML reader reads back what the writer
  wrote; a list that can be written can be written with entries left out; and no temporary directory holds the
  list of installed primitives or anything at the binary's path.
\<close>

theorem install_then_remove:
  assumes "install env ins opts w = (Ok r, w')" and "\<not> io_dry_run opts" and "plain_component (io_name opts)"
    and codec: "\<And>m P. is_ok (me_show_installed env m) \<Longrightarrow> is_ok (me_show_installed env (filter P m))"
      "\<And>m text. me_show_installed env m = Ok text \<Longrightarrow> me_parse_installed env text = Ok m"
    and apart: "\<And>n. \<not> under (me_tempdir env n) (manifest_path (ins_storage ins))"
      "\<And>n p. under (path_join (bin_dir (ins_storage ins)) (io_name opts)) p \<Longrightarrow> \<not> under (me_tempdir env n) p"
    and later: "faultless env'" "me_show_installed env' = me_show_installed env" "me_parse_installed env' = me_parse_installed env"
  shows "ir_binary_path r = path_join (bin_dir (ins_storage ins)) (io_name opts) \<and> exists_path w' (ir_binary_path r)
    \<and> fst (is_installed env' ins (io_name opts) w') = Ok True
    \<and> fst (check_not_installed env' ins (opts\<lparr> io_force := False \<rparr>) (ir_version r) w')
        = Err (AlreadyInstalled (io_name opts) (ir_version r))
    \<and> (if file_get w' (ir_binary_path r) \<noteq> None
       then \<exists>w2. remove env' ins (io_name opts) w' = (Ok (), w2) \<and> file_get w2 (ir_binary_path r) = None
          \<and> fst (is_installed env' ins (io_name opts) w2) = Ok False
       else \<exists>e w2. remove env' ins (io_name opts) w' = (Err e, w2) \<and> fst (is_installed env' ins (io_name opts) w2) = Ok True)"
proof -
  note i = install_Ok [OF assms(1,2) codec(2) apart]
  obtain m ip where "manifest_on_disk env (ins_storage ins) w' m"
    and m: "map_of m (io_name opts) = Some ip" "ip_version ip = ir_version r" "ip_binary_path ip = ir_binary_path r"
      "is_ok (me_show_installed env m)"
    using i(3) by auto
  then have d: "manifest_on_disk env' (ins_storage ins) w' m"
    by (simp add: manifest_on_disk_def later(3))
  note l = load_manifest_on_disk [OF later(1)]
  have e: "exists_path w' (ip_binary_path ip)"
    using i(1,2) m(3) by simp
  have listed: "fst (is_installed env' ins (io_name opts) v) = Ok True" if "manifest_on_disk env' (ins_storage ins) v m" for v
    using m(1) l [OF that] by (simp add: is_installed_def run_simps)
  have again: "fst (check_not_installed env' ins (opts\<lparr> io_force := False \<rparr>) (ir_version r) w')
      = Err (AlreadyInstalled (io_name opts) (ir_version r))"
    using m l [OF d] by (simp add: check_not_installed_def run_simps)
  have "\<exists>w2. remove env' ins (io_name opts) w' = (Ok (), w2) \<and> file_get w2 (ir_binary_path r) = None
      \<and> fst (is_installed env' ins (io_name opts) w2) = Ok False" if "file_get w' (ir_binary_path r) \<noteq> None"
  proof -
    have bp: "ip_binary_path ip \<noteq> manifest_path (ins_storage ins)" "file_get w' (ip_binary_path ip) \<noteq> None"
      using binary_path_apart [OF assms(3)] i(1) m(3) that by auto
    obtain w2 where "remove env' ins (io_name opts) w' = (Ok (), w2)" "file_get w2 (ip_binary_path ip) = None"
      "manifest_on_disk env' (ins_storage ins) w2 (filter (\<lambda>(n, _). n \<noteq> io_name opts) m)"
      using remove_run [OF later(1) d m(1) bp] codec(1) [OF m(4)] codec(2) later(2,3) by auto
    with l show ?thesis
      by (auto simp: m(3) is_installed_def run_simps map_of_filter_key)
  qed
  moreover have "\<exists>e w2. remove env' ins (io_name opts) w' = (Err e, w2) \<and> fst (is_installed env' ins (io_name opts) w2) = Ok True"
    if "file_get w' (ir_binary_path r) = None"
    using remove_directory [OF later(1) d m(1) e] that listed m(3) by auto
  ultimately show ?thesis
    using i(1) e m(3) listed [OF d] again by simp
qed

subsection \<open>A release with one tool\<close>

definition demo_manifest :: primitive_manifest where
  "demo_manifest = \<lparr> pmf_primitive = \<lparr> mpi_name = ''tool'', mpi_version = ''1.0'', mpi_kind = ''sink'', mpi_description = [],
       mpi_homepage = None, mpi_license = None, mpi_runtime = None \<rparr>,
     pmf_messages = \<lparr> mi_publishes = [], mi_subscribes = [] \<rparr>, pmf_args = [],
     pmf_binaries = \<lparr> bi_release_url = ''https://r'', bi_targets = [(''linux'', ''tool.gz'')], bi_checksums = [] \<rparr> \<rparr>"

definition demo_installer :: installer where
  "demo_installer = \<lparr> ins_storage = \<lparr> st_config_dir = ''/g'', st_cache_dir = ''/c'', st_data_dir = ''/d'' \<rparr>,
     ins_registry = demo_registry, ins_platform = ''linux'' \<rparr>"

definition demo_options :: install_options where
  "demo_options = \<lparr> io_name = ''tool'', io_version = None, io_force = False, io_dry_run = False \<rparr>"

definition demo_entry :: "string \<times> installed_primitive" where
  "demo_entry = (''tool'', \<lparr> ip_name = ''tool'', ip_version = ''1.0'', ip_kind = ''sink'', ip_binary_path = ''/d/bin/tool'',
     ip_installed_at = ''now'' \<rparr>)"

text \<open>A server that serves \<open>bytes\<close> as every archive; the hash of a text is the text itself.\<close>

definition release_env :: "string \<Rightarrow> string \<Rightarrow> market_env" where
  "release_env bytes sums = (demo_env (SendFailed []))\<lparr>
     me_http := (\<lambda>_ url. Response 200 (Ok (if ends_with url CHECKSUMS_FILE then sums else bytes))),
     me_parse_bundle := (\<lambda>_. Ok \<lparr> mb_version = ''1.0'', mb_manifests = [(''tool'', demo_manifest)] \<rparr>),
     me_parse_installed := (\<lambda>s. Ok (if s = [] then [] else [demo_entry])),
     me_show_installed := (\<lambda>m. if m = [] then Ok [] else if m = [demo_entry] then Ok ''tool'' else Err ''unknown'') \<rparr>"

lemma release_env_simps:
  "me_tempdir (release_env b s) n = ''/tmp/x''" "me_fault (release_env b s) n = None" "me_sha256_hex (release_env b s) = (\<lambda>x. x)"
  "me_http (release_env b s) n url = Response 200 (Ok (if ends_with url CHECKSUMS_FILE then s else b))"
  "me_parse_installed (release_env b s) = (\<lambda>s. Ok (if s = [] then [] else [demo_entry]))"
  "me_show_installed (release_env b s) = (\<lambda>m. if m = [] then Ok [] else if m = [demo_entry] then Ok ''tool'' else Err ''unknown'')"
  by (simp_all add: release_env_def demo_env_def)


theorem install_then_remove_witness:
  "\<exists>r w1 w2. install (release_env ''good'' ''good  tool.gz'') demo_installer demo_options empty_world = (Ok r, w1)
     \<and> file_get w1 (ir_binary_path r) \<noteq> None
     \<and> remove (release_env ''good'' ''good  tool.gz'') demo_installer ''tool'' w1 = (Ok (), w2) \<and> file_get w2 (ir_binary_path r) = None"
proof -
  let ?e = "release_env ''good'' ''good  tool.gz''"
  have "is_ok (fst (install ?e demo_installer demo_options empty_world))"
    by code_simp
  then obtain r w1 where i: "install ?e demo_installer demo_options empty_world = (Ok r, w1)"
    by (cases "install ?e demo_installer demo_options empty_world") (auto simp: is_ok_iff)
  have o: "\<not> io_dry_run demo_options" "plain_component (io_name demo_options)" "io_name demo_options = ''tool''"
    and u: "\<not> under ''/tmp/x'' (manifest_path (ins_storage demo_installer))"
    by code_simp+
  have bin: "path_join (bin_dir (ins_storage demo_installer)) (io_name demo_options) = ''/d/bin/tool''"
    by code_simp
  have slash: "path_join ''/d/bin/tool'' [] = ''/d/bin/tool/''" "path_join ''/tmp/x'' [] = ''/tmp/x/''"
    by code_simp+
  have "under ''/d/bin/tool'' p \<Longrightarrow> \<exists>q. p = ''/d'' @ q" "under ''/tmp/x'' p \<Longrightarrow> \<exists>q. p = ''/t'' @ q" for p
    by (auto simp: under_def slash starts_with_def) (metis append_Cons append_take_drop_id)+
  then have "under ''/d/bin/tool'' p \<Longrightarrow> \<not> under ''/tmp/x'' p" for p
    by fastforce
  with bin have apart: "under (path_join (bin_dir (ins_storage demo_installer)) (io_name demo_options)) p \<Longrightarrow>
      \<not> under (me_tempdir ?e n) p" for n p
    by (simp add: release_env_simps)
  have "file_get (snd (install ?e demo_installer demo_options empty_world)) ''/d/bin/tool'' \<noteq> None"
    by code_simp
  then have tool: "file_get w1 ''/d/bin/tool'' \<noteq> None"
    by (simp add: i)
  have c: "is_ok (me_show_installed ?e m) \<Longrightarrow> is_ok (me_show_installed ?e (filter P m))"
    "me_show_installed ?e m = Ok t \<Longrightarrow> me_parse_installed ?e t = Ok m" for m P t
    by (auto simp: release_env_simps split: if_splits)
  have f: "faultless ?e"
    by (simp add: faultless_def release_env_simps)
  show ?thesis
    using install_then_remove [OF i o(1,2) c _ apart f refl refl] u i o(3) tool bin by (auto simp: release_env_simps)
qed

end
