(* ===== verification/Market_Cli.thy ===== *)
theory Market_Cli
  imports Installer
begin

text \<open>
  The marketplace commands: \<^verbatim>\<open>marketplace/cli.rs\<close>. The commands that only look (and every dry run) are shown
  to change nothing but the cache and a retired address in the configuration; a batch of installs or removals
  tries every name and reports exactly how many failed; tables are aligned.
\<close>

section \<open>Commands\<close>

datatype market_command =
    List_Cmd "string option" bool bool "string option"
  | Install_Cmd "string list" "string option" bool bool bool
  | Remove_Cmd "string list" bool
  | Update_Cmd "string option" bool
  | Info_Cmd string bool
  | Search_Cmd string bool

text \<open>
  The terminal: whether the standard output is one, and the answer to a prompt. \<open>json_view\<close> is what is handed
  to \<^verbatim>\<open>serde_json::to_string_pretty\<close>, the parameter \<open>pretty\<close>.
\<close>

record terminal =
  tm_is_tty :: bool
  tm_confirm :: "string \<Rightarrow> (string, bool) result"

datatype json_view =
    Json_Installed "installed_primitive list"
  | Json_Entries "primitive_entry list"
  | Json_Manifest primitive_manifest

type_synonym json_writer = "json_view \<Rightarrow> (string, string) result"

section \<open>Output\<close>

fun println_all :: "string list \<Rightarrow> unit market_io" where
  "println_all [] = io_return ()"
| "println_all (l # ls) = and_then (println l) (\<lambda>_. println_all ls)"

text \<open>\<^verbatim>\<open>{:width$}\<close> pads on the right up to a number of characters; the widths are numbers of bytes.\<close>

definition pad_to :: "nat \<Rightarrow> string \<Rightarrow> string" where
  "pad_to width s = s @ replicate (width - char_count s) (CHR '' '')"

fun widen :: "nat list \<Rightarrow> string list \<Rightarrow> nat list" where
  "widen (n # ws) (cell # row) = max n (length cell) # widen ws row"
| "widen ws _ = ws"

definition column_widths :: "string list \<Rightarrow> string list list \<Rightarrow> nat list" where
  "column_widths headers rows = foldl widen (map length headers) rows"

fun pad_row :: "nat list \<Rightarrow> string list \<Rightarrow> string list" where
  "pad_row ws [] = []"
| "pad_row [] (cell # row) = pad_to 0 cell # pad_row [] row"
| "pad_row (n # ws) (cell # row) = pad_to n cell # pad_row ws row"

definition table_lines :: "string list \<Rightarrow> string list list \<Rightarrow> string list" where
  "table_lines headers rows =
     (let widths = column_widths headers rows
      in join_with ''  '' (pad_row widths headers)
         # join_with ''  '' (map (\<lambda>w. replicate w (CHR ''-'')) widths)
         # map (\<lambda>row. join_with ''  '' (pad_row widths row)) rows)"

definition format_table :: "string list \<Rightarrow> string list list \<Rightarrow> unit market_io" where
  "format_table headers rows =
     (if rows = [] then eprintln ''No items found'' else println_all (table_lines headers rows))"

definition format_json :: "json_writer \<Rightarrow> json_view \<Rightarrow> string market_io" where
  "format_json pretty v = (case pretty v of Inl e \<Rightarrow> io_fail (JsonParse e) | Inr s \<Rightarrow> io_return s)"

definition confirm :: "terminal \<Rightarrow> string \<Rightarrow> bool market_io" where
  "confirm tm prompt = (case tm_confirm tm prompt of Inl e \<Rightarrow> io_fail (Io e) | Inr b \<Rightarrow> io_return b)"

section \<open>Handlers\<close>

definition entry_row :: "primitive_entry \<Rightarrow> string list" where
  "entry_row p = [pe_name p, pe_version p, pe_kind p, pe_description p]"

definition installed_row :: "installed_primitive \<Rightarrow> string list" where
  "installed_row p = [ip_name p, ip_version p, ip_kind p, ip_installed_at p]"

definition handle_list ::
  "market_env \<Rightarrow> json_writer \<Rightarrow> installer \<Rightarrow> registry \<Rightarrow> string option \<Rightarrow> bool \<Rightarrow> bool \<Rightarrow> unit market_io" where
  "handle_list env pretty ins reg kind installed json =
     (if installed then
        and_then (list_installed env ins) (\<lambda>primitives.
          if json then and_then (format_json pretty (Json_Installed primitives)) println
          else format_table [''NAME'', ''VERSION'', ''KIND'', ''INSTALLED''] (map installed_row primitives))
      else
        and_then (fetch_index env reg) (\<lambda>index.
          let filtered = (case kind of Some k \<Rightarrow> filter_by_kind index k | None \<Rightarrow> rm_primitives index)
          in if json then and_then (format_json pretty (Json_Entries filtered)) println
             else format_table [''NAME'', ''VERSION'', ''KIND'', ''DESCRIPTION''] (map entry_row filtered)))"

text \<open>
  The loop of \<^verbatim>\<open>handle_install\<close> and \<^verbatim>\<open>handle_remove\<close>: every name is tried, a failure is printed and counted.
\<close>

fun batch :: "(string \<Rightarrow> 'a market_io) \<Rightarrow> string list \<Rightarrow> usize \<Rightarrow> usize \<Rightarrow> (usize \<times> usize) market_io" where
  "batch act [] succeeded failed = io_return (succeeded, failed)"
| "batch act (name # names) succeeded failed =
     on_result (act name)
       (\<lambda>e. and_then (eprintln ([CHR 0xE2, CHR 0x9C, CHR 0x97] @ '' '' @ name @ '': '' @ market_error_text e))
          (\<lambda>_. batch act names succeeded (failed + 1)))
       (\<lambda>_. batch act names (succeeded + 1) failed)"

definition batch_report :: "string \<Rightarrow> usize \<Rightarrow> usize \<times> usize \<Rightarrow> unit market_io" where
  "batch_report verb count counts = (case counts of (succeeded, failed) \<Rightarrow>
     and_then (if count > 1 then eprintln (verb @ '' '' @ show_nat succeeded @ '' of '' @ show_nat count @ '' primitives'')
               else io_return ())
       (\<lambda>_. if failed > 0 then io_fail (BatchFailed succeeded failed) else io_return ()))"

definition handle_install ::
  "market_env \<Rightarrow> terminal \<Rightarrow> installer \<Rightarrow> string list \<Rightarrow> string option \<Rightarrow> bool \<Rightarrow> bool \<Rightarrow> bool \<Rightarrow> unit market_io" where
  "handle_install env tm ins names version force dry_run yes =
     (if names = [] then io_fail (InvalidManifest ''at least one primitive name is required'')
      else if length names > 1 \<and> version \<noteq> None then
        io_fail (InvalidManifest ''--version can only be used when installing a single primitive'')
      else
        and_then
          (if \<not> yes \<and> \<not> dry_run \<and> tm_is_tty tm then
             confirm tm (''Install '' @ join_with '', '' names
               @ (case version of Some v \<Rightarrow> '' (v'' @ v @ '')'' | None \<Rightarrow> '' (latest)'') @ ''?'')
           else io_return True)
          (\<lambda>go. if \<not> go then eprintln ''Installation cancelled''
            else and_then
              (batch (\<lambda>name. install env ins \<lparr> io_name = name, io_version = version, io_force = force, io_dry_run = dry_run \<rparr>)
                names 0 0)
              (batch_report ''Installed'' (length names))))"

definition handle_remove :: "market_env \<Rightarrow> terminal \<Rightarrow> installer \<Rightarrow> string list \<Rightarrow> bool \<Rightarrow> unit market_io" where
  "handle_remove env tm ins names yes =
     (if names = [] then io_fail (InvalidManifest ''at least one primitive name is required'')
      else
        and_then
          (if \<not> yes \<and> tm_is_tty tm then confirm tm (''Remove '' @ join_with '', '' names @ ''?'') else io_return True)
          (\<lambda>go. if \<not> go then eprintln ''Removal cancelled''
            else and_then (batch (remove env ins) names 0 0) (batch_report ''Removed'' (length names))))"

fun update_each :: "market_env \<Rightarrow> installer \<Rightarrow> bool \<Rightarrow> installed_primitive list \<Rightarrow> unit market_io" where
  "update_each env ins dry_run [] = io_return ()"
| "update_each env ins dry_run (p # ps) =
     and_then (update env ins (ip_name p) dry_run) (\<lambda>_. update_each env ins dry_run ps)"

definition handle_update :: "market_env \<Rightarrow> installer \<Rightarrow> registry \<Rightarrow> string option \<Rightarrow> bool \<Rightarrow> unit market_io" where
  "handle_update env ins reg name dry_run =
     and_then (on_result (fetch_index env reg) (\<lambda>_. io_return ()) (\<lambda>_. io_return ())) (\<lambda>_.
       case name of
         Some n \<Rightarrow> and_then (update env ins n dry_run) (\<lambda>_. io_return ())
       | None \<Rightarrow> and_then (list_installed env ins) (update_each env ins dry_run))"

definition argument_lines :: "argument_info \<Rightarrow> string list" where
  "argument_lines a =
     (''  --'' @ arg_long a @ (if arg_required a then '' (required)'' else ''''))
     # (if arg_description a \<noteq> [] then [''    '' @ arg_description a] else [])
     @ (case arg_env a of Some e \<Rightarrow> [''    env: '' @ e] | None \<Rightarrow> [])"

definition titled :: "string \<Rightarrow> string list \<Rightarrow> string list" where
  "titled title items = (if items = [] then [] else title # map (\<lambda>m. ''  - '' @ m) items)"

definition info_lines :: "primitive_manifest \<Rightarrow> string list" where
  "info_lines m =
     (let p = pmf_primitive m
      in [''Name: '' @ mpi_name p, ''Version: '' @ mpi_version p, ''Kind: '' @ mpi_kind p]
         @ (if mpi_description p \<noteq> [] then [''Description: '' @ mpi_description p] else [])
         @ (case mpi_runtime p of Some r \<Rightarrow> [''Runtime: '' @ r] | None \<Rightarrow> [])
         @ ['''']
         @ titled ''Publishes:'' (mi_publishes (pmf_messages m))
         @ titled ''Subscribes:'' (mi_subscribes (pmf_messages m))
         @ (if pmf_args m = [] then [] else ['''', ''Arguments:''] @ concat (map argument_lines (pmf_args m)))
         @ ['''', ''Platforms:''] @ map (\<lambda>(t, _). ''  - '' @ t) (bi_targets (pmf_binaries m)))"

definition handle_info :: "market_env \<Rightarrow> json_writer \<Rightarrow> registry \<Rightarrow> string \<Rightarrow> bool \<Rightarrow> unit market_io" where
  "handle_info env pretty reg name json =
     and_then (get_manifest env reg name None) (\<lambda>m.
       if json then and_then (format_json pretty (Json_Manifest m)) println else println_all (info_lines m))"

definition handle_search ::
  "market_env \<Rightarrow> (string \<Rightarrow> string) \<Rightarrow> json_writer \<Rightarrow> registry \<Rightarrow> string \<Rightarrow> bool \<Rightarrow> unit market_io" where
  "handle_search env lower pretty reg query json =
     and_then (fetch_index env reg) (\<lambda>index.
       let results = search lower index query
       in if json then and_then (format_json pretty (Json_Entries results)) println
          else format_table [''NAME'', ''VERSION'', ''KIND'', ''DESCRIPTION''] (map entry_row results))"

text \<open>\<^verbatim>\<open>MarketplaceStorage::new\<close>: \<open>dirs\<close> are the directories of the user, if they can be determined.\<close>

definition storage_new :: "market_env \<Rightarrow> storage option \<Rightarrow> storage market_io" where
  "storage_new env dirs = (case dirs of
      None \<Rightarrow> io_fail (XdgDirectories ''Could not determine XDG directories'')
    | Some d \<Rightarrow>
       (let st = d\<lparr> st_cache_dir := path_join (st_cache_dir d) ''registry'', st_data_dir := path_join (st_data_dir d) ''primitives'' \<rparr>
        in and_then (fs_touch env) (\<lambda>_. and_then (fs_touch env) (\<lambda>_. and_then (fs_touch env) (\<lambda>_. io_return st)))))"

definition run_command ::
  "market_env \<Rightarrow> (string \<Rightarrow> string) \<Rightarrow> json_writer \<Rightarrow> terminal \<Rightarrow> string \<Rightarrow> storage \<Rightarrow> string \<Rightarrow> market_command \<Rightarrow> unit market_io" where
  "run_command env lower pretty tm platform st url command =
     (let reg = \<lparr> reg_cache_dir = st_cache_dir st, reg_base_url = url \<rparr>;
          ins = \<lparr> ins_storage = st, ins_registry = reg, ins_platform = platform \<rparr>
      in case command of
           List_Cmd kind installed json columns \<Rightarrow> handle_list env pretty ins reg kind installed json
         | Install_Cmd names version force dry_run yes \<Rightarrow> handle_install env tm ins names version force dry_run yes
         | Remove_Cmd names yes \<Rightarrow> handle_remove env tm ins names yes
         | Update_Cmd name dry_run \<Rightarrow> handle_update env ins reg name dry_run
         | Info_Cmd name json \<Rightarrow> handle_info env pretty reg name json
         | Search_Cmd query json \<Rightarrow> handle_search env lower pretty reg query json)"

definition execute ::
  "market_env \<Rightarrow> (string \<Rightarrow> string) \<Rightarrow> json_writer \<Rightarrow> terminal \<Rightarrow> string \<Rightarrow> storage option \<Rightarrow> market_command \<Rightarrow> unit market_io" where
  "execute env lower pretty tm platform dirs command =
     and_then (storage_new env dirs) (\<lambda>st.
     and_then (load_config env st) (\<lambda>config.
     run_command env lower pretty tm platform st (mc_registry_url config) command))"

section \<open>What a command touches\<close>

lemma confined_println_all [frame]: "confined A (println_all ls)"
  by (induction ls) (auto intro: frame)

lemma confined_output [frame]:
  "confined A (format_table headers rows)" "confined A (format_json pretty v)" "confined A (confirm tm prompt)"
  unfolding format_table_def format_json_def confirm_def by (intro frame)+

lemma confined_fetch_index [frame]:
  "(\<And>p. cache_area reg None INDEX_FILE p \<Longrightarrow> A p) \<Longrightarrow> confined A (fetch_index env reg)"
  unfolding fetch_index_def fetch_index_at_def by (intro frame)

lemma confined_list_installed [frame]: "confined A (list_installed env ins)"
  unfolding list_installed_def by (intro frame)

lemma confined_dry_install [frame]:
  assumes "io_dry_run opts" and "\<And>p. cache_area (ins_registry ins) (io_version opts) MANIFESTS_FILE p \<Longrightarrow> A p"
  shows "confined A (install env ins opts)"
proof -
  have "confined A (install_described env ins opts m)" for m
    unfolding install_described_def Let_def by (intro frame) (use assms(1) in simp_all)
  then show ?thesis
    unfolding install_def using assms(2) by (intro frame)
qed

lemma confined_dry_update [frame]:
  "(\<And>p. cache_area (ins_registry ins) None MANIFESTS_FILE p \<Longrightarrow> A p) \<Longrightarrow> confined A (update env ins name True)"
  unfolding update_def Let_def by (intro frame) simp_all

lemma confined_update_each [frame]:
  "(\<And>p. cache_area (ins_registry ins) None MANIFESTS_FILE p \<Longrightarrow> A p) \<Longrightarrow> confined A (update_each env ins True ps)"
  by (induction ps) (auto intro!: frame)

lemma confined_batch [frame]: "(\<And>name. confined A (act name)) \<Longrightarrow> confined A (batch act names s f)"
  by (induction names arbitrary: s f) (auto intro!: frame)

lemma confined_batch_report [frame]: "confined A (batch_report verb count counts)"
  unfolding batch_report_def by (cases counts) (auto intro!: frame)

lemma confined_load_config [frame]: "A (config_path st) \<Longrightarrow> confined A (load_config env st)"
  unfolding load_config_def save_config_def by (intro frame)

lemma confined_storage_new [frame]: "confined A (storage_new env dirs)"
  unfolding storage_new_def Let_def by (intro frame)

text \<open>The commands that only look, and the version they look at.\<close>

fun read_only :: "market_command \<Rightarrow> bool" where
  "read_only (Install_Cmd names version force dry_run yes) = dry_run"
| "read_only (Remove_Cmd names yes) = False"
| "read_only (Update_Cmd name dry_run) = dry_run"
| "read_only _ = True"

fun command_version :: "market_command \<Rightarrow> string option" where
  "command_version (Install_Cmd names version force dry_run yes) = version"
| "command_version _ = None"

definition registry_area :: "storage \<Rightarrow> string option \<Rightarrow> string \<Rightarrow> bool" where
  "registry_area st version p \<longleftrightarrow> (\<exists>url. \<exists>file \<in> {INDEX_FILE, MANIFESTS_FILE}.
     cache_area \<lparr> reg_cache_dir = st_cache_dir st, reg_base_url = url \<rparr> version file p)"

lemma confined_run_command:
  assumes "read_only command" and "\<And>p. registry_area st (command_version command) p \<Longrightarrow> A p"
  shows "confined A (run_command env lower pretty tm platform st url command)"
proof -
  have a: "cache_area \<lparr> reg_cache_dir = st_cache_dir st, reg_base_url = url \<rparr> (command_version command) MANIFESTS_FILE p \<Longrightarrow> A p"
    "cache_area \<lparr> reg_cache_dir = st_cache_dir st, reg_base_url = url \<rparr> (command_version command) INDEX_FILE p \<Longrightarrow> A p" for p
    using assms(2) [of p] by (auto simp: registry_area_def)
  show ?thesis
  proof (cases command)
    case (List_Cmd kind installed json columns)
    with a show ?thesis
      by (auto simp: run_command_def handle_list_def Let_def intro!: frame)
  next
    case (Install_Cmd names version force dry_run yes)
    with a assms(1) show ?thesis
      by (auto simp: run_command_def handle_install_def Let_def intro!: frame)
  next
    case (Remove_Cmd names yes)
    with assms(1) show ?thesis
      by simp
  next
    case (Update_Cmd name dry_run)
    with a assms(1) show ?thesis
      by (auto simp: run_command_def handle_update_def Let_def intro!: frame)
  next
    case (Info_Cmd name json)
    with a show ?thesis
      by (auto simp: run_command_def handle_info_def Let_def intro!: frame)
  next
    case (Search_Cmd query json)
    with a show ?thesis
      by (auto simp: run_command_def handle_search_def Let_def intro!: frame)
  qed
qed

section \<open>Batches\<close>

text \<open>
  A batch as a specification: \<open>rs\<close> are the results of the single runs, each in the world the one before left,
  up to what was printed in between.
\<close>

fun runs_in_order :: "(string \<Rightarrow> 'a market_io) \<Rightarrow> string list \<Rightarrow> market_world \<Rightarrow> (market_error, 'a) result list \<Rightarrow> market_world \<Rightarrow> bool" where
  "runs_in_order act [] w [] w' \<longleftrightarrow> w' = w"
| "runs_in_order act (name # names) w (r # rs) w' \<longleftrightarrow>
     (\<exists>w1 l. act name w = (r, w1) \<and> runs_in_order act names (w1\<lparr> mw_log := mw_log w1 @ l \<rparr>) rs w' \<and> (is_ok r \<longleftrightarrow> l = []))"
| "runs_in_order act _ w _ w' \<longleftrightarrow> False"

lemma batch_runs:
  "\<exists>rs w'. batch act names s f w = (Ok (s + length (filter is_ok rs), f + length (filter (\<lambda>r. \<not> is_ok r) rs)), w')
     \<and> length rs = length names \<and> runs_in_order act names w rs w'"
proof (induction names arbitrary: s f w)
  case (Cons name names)
  obtain r w1 where a: "act name w = (r, w1)"
    by (cases "act name w")
  define l where "l = (case r of Inr _ \<Rightarrow> []
    | Inl e \<Rightarrow> [[CHR 0xE2, CHR 0x9C, CHR 0x97] @ '' '' @ name @ '': '' @ market_error_text e])"
  let ?w = "w1\<lparr> mw_log := mw_log w1 @ l \<rparr>"
  obtain rs w' where ih: "batch act names (s + (if is_ok r then 1 else 0)) (f + (if is_ok r then 0 else 1)) ?w
      = (Ok (s + (if is_ok r then 1 else 0) + length (filter is_ok rs),
             f + (if is_ok r then 0 else 1) + length (filter (\<lambda>r. \<not> is_ok r) rs)), w')"
    "length rs = length names" "runs_in_order act names ?w rs w'"
    using Cons.IH by blast
  have "batch act (name # names) s f w
      = batch act names (s + (if is_ok r then 1 else 0)) (f + (if is_ok r then 0 else 1)) ?w"
    using a by (cases r) (simp_all add: run_simps eprintln_def l_def)
  moreover have "runs_in_order act (name # names) w (r # rs) w'"
    using a ih(3) by (cases r) (auto simp: l_def)
  ultimately show ?case
    using ih(1,2) by (intro exI [of _ "r # rs"] exI [of _ w']) auto
qed (auto simp: run_simps)

text \<open>Every name was tried, and the result says how many failed.\<close>

definition accounted ::
  "(string \<Rightarrow> 'a market_io) \<Rightarrow> string list \<Rightarrow> market_world \<Rightarrow> (market_error, unit) result \<times> market_world \<Rightarrow> bool" where
  "accounted act names w out \<longleftrightarrow> (\<exists>rs w1. length rs = length names \<and> runs_in_order act names w rs w1
     \<and> fst out = (if list_all is_ok rs then Ok ()
          else Err (BatchFailed (length (filter is_ok rs)) (length names - length (filter is_ok rs))))
     \<and> mw_files (snd out) = mw_files w1)"

lemma batch_command: "accounted act names w (and_then (batch act names 0 0) (batch_report verb (length names)) w)"
proof -
  obtain rs w1 where b: "batch act names 0 0 w = (Ok (length (filter is_ok rs), length (filter (\<lambda>r. \<not> is_ok r) rs)), w1)"
    "length rs = length names" "runs_in_order act names w rs w1"
    using batch_runs [of act names 0 0 w] by auto
  have failed: "length (filter (\<lambda>r. \<not> is_ok r) rs) = length names - length (filter is_ok rs)"
    using sum_length_filter_compl [of is_ok rs] b(2) by simp
  have "list_all is_ok rs \<longleftrightarrow> length (filter (\<lambda>r. \<not> is_ok r) rs) = 0"
    by (simp add: list_all_iff filter_empty_conv)
  then show ?thesis
    using b unfolding accounted_def failed
    by (intro exI [of _ rs] exI [of _ w1]) (simp add: run_simps batch_report_def eprintln_def)
qed

section \<open>Tables\<close>

lemma char_count_append: "char_count (a @ b) = char_count a + char_count b"
  by (simp add: char_count_def)

lemma char_count_ascii: "\<not> is_continuation c \<Longrightarrow> char_count (replicate n c) = n"
  by (simp add: char_count_def)

lemma char_count_pad: "char_count s \<le> n \<Longrightarrow> char_count (pad_to n s) = n"
  by (simp add: pad_to_def char_count_append char_count_ascii is_continuation_def)

lemma char_count_le: "char_count s \<le> length s"
  by (simp add: char_count_def)

lemma char_count_join:
  "char_count (join_with sep ws) = sum_list (map char_count ws) + (length ws - 1) * char_count sep"
  by (induction sep ws rule: join_with.induct) (simp_all add: char_count_append char_count_def)

lemma length_widen [simp]: "length (widen ws row) = length ws"
  by (induction ws row rule: widen.induct) auto

lemma widen_ge: "list_all2 (\<le>) ws (widen ws row)"
  by (induction ws row rule: widen.induct) (auto simp: list_all2_refl)

lemma widen_cells: "length row = length ws \<Longrightarrow> list_all2 (\<lambda>n cell. length cell \<le> n) (widen ws row) row"
  by (induction ws row rule: widen.induct) auto

definition fits :: "nat list \<Rightarrow> string list \<Rightarrow> bool" where
  "fits ws row = list_all2 (\<lambda>n cell. length cell \<le> n) ws row"

lemma fits_mono: "fits ws row \<Longrightarrow> list_all2 (\<le>) ws ws' \<Longrightarrow> fits ws' row"
  unfolding fits_def list_all2_conv_all_nth by (metis le_trans)

lemma column_widths_fit:
  assumes "list_all (\<lambda>row. length row = length ws) rows"
  shows "list_all2 (\<le>) ws (foldl widen ws rows) \<and> list_all (fits (foldl widen ws rows)) rows"
  using assms
proof (induction rows arbitrary: ws)
  case (Cons row rows)
  then have ih: "list_all2 (\<le>) (widen ws row) (foldl widen (widen ws row) rows)"
    "list_all (fits (foldl widen (widen ws row) rows)) rows"
    by auto
  moreover have "fits (widen ws row) row"
    using Cons.prems widen_cells by (simp add: fits_def)
  ultimately show ?case
    using widen_ge [of ws row] fits_mono [OF _ ih(1)] by (auto intro: list_all2_trans [OF le_trans])
qed (simp add: list_all2_refl)

lemma char_count_row: "fits ws row \<Longrightarrow> map char_count (pad_row ws row) = ws"
proof (induction ws row rule: pad_row.induct)
  case (3 n ws cell row)
  then show ?case
    using char_count_le [of cell] by (simp add: fits_def char_count_pad)
qed (auto simp: fits_def)

lemma length_pad_row [simp]: "length (pad_row ws row) = length row"
  by (induction ws row rule: pad_row.induct) auto

text \<open>
  Every line of a table has the same number of characters: the columns line up, whatever the cells contain,
  although widths are counted in bytes and cells padded in characters.
\<close>

theorem table_lines_aligned:
  assumes "list_all (\<lambda>row. length row = length headers) rows"
  shows "\<exists>n. list_all (\<lambda>l. char_count l = n) (table_lines headers rows)"
proof -
  let ?ws = "column_widths headers rows"
  have len: "length ?ws = length headers" and fit: "fits ?ws headers" "list_all (fits ?ws) rows"
    using column_widths_fit [of "map length headers" rows] assms
    by (auto simp: column_widths_def fits_def list_all2_map1 dest: list_all2_lengthD)
       (auto simp: list_all2_conv_all_nth)
  have rule: "map char_count (map (\<lambda>w. replicate w (CHR ''-'')) ?ws) = ?ws"
    by (simp add: char_count_ascii is_continuation_def comp_def)
  have cells: "char_count (join_with ''  '' ws) = sum_list ?ws + (length headers - 1) * char_count ''  ''"
    if "map char_count ws = ?ws" "length ws = length headers" for ws
    using that by (simp add: char_count_join)
  have "char_count (join_with ''  '' (pad_row ?ws row)) = sum_list ?ws + (length headers - 1) * char_count ''  ''"
    if "row \<in> set rows" for row
    using that fit(2) assms char_count_row by (intro cells) (auto simp: list_all_iff)
  moreover have "char_count (join_with ''  '' (pad_row ?ws headers)) = sum_list ?ws + (length headers - 1) * char_count ''  ''"
    "char_count (join_with ''  '' (map (\<lambda>w. replicate w (CHR ''-'')) ?ws)) = sum_list ?ws + (length headers - 1) * char_count ''  ''"
    using char_count_row [OF fit(1)] rule len by (intro cells; simp)+
  ultimately show ?thesis
    by (auto simp: table_lines_def Let_def list_all_iff)
qed

section \<open>Properties\<close>

text \<open>
  C30. Looking changes nothing. Listing, searching, showing a primitive, and any install or update with
  \<^verbatim>\<open>--dry-run\<close>, whatever the network and the file system answer, leave every file as it was except the
  registry's cache for the release looked at (and the retired clone beside it) and the marketplace
  configuration, whose retired registry address may be rewritten.
\<close>

theorem read_only_commands:
  assumes "read_only command"
    and "st = dirs\<lparr> st_cache_dir := path_join (st_cache_dir dirs) ''registry'', st_data_dir := path_join (st_data_dir dirs) ''primitives'' \<rparr>"
    and "\<not> registry_area st (command_version command) p" and "p \<noteq> config_path st"
  shows "file_get (snd (execute env lower pretty tm platform (Some dirs) command w)) p = file_get w p"
proof -
  let ?A = "\<lambda>q. q = config_path st \<or> registry_area st (command_version command) q"
  have "confined ?A (run_command env lower pretty tm platform st url command)" for url
    using assms(1) by (intro confined_run_command) auto
  then have "confined ?A (and_then (load_config env st) (\<lambda>config.
      run_command env lower pretty tm platform st (mc_registry_url config) command))"
    by (intro frame) simp
  moreover have "x = st" if "storage_new env (Some dirs) v = (Ok x, v')" for v x v'
    using that by (auto simp: storage_new_def Let_def and_then_Ok_iff io_return_def assms(2))
  ultimately have "confined ?A (execute env lower pretty tm platform (Some dirs) command)"
    unfolding execute_def by (intro confined_and_then_Ok [OF confined_storage_new]) auto
  then show ?thesis
    using assms(3,4) by (auto intro: confinedD)
qed

definition demo_dirs :: storage where
  "demo_dirs = \<lparr> st_config_dir = ''/g'', st_cache_dir = ''/c'', st_data_dir = ''/d'' \<rparr>"

definition demo_terminal :: terminal where
  "demo_terminal = \<lparr> tm_is_tty = False, tm_confirm = (\<lambda>_. Ok False) \<rparr>"

text \<open>The assets of the registry, as the paths on disk show it: a change is in this directory or the clone's.\<close>

lemma registry_area_prefix:
  assumes "registry_area st version p" and "case version of Some v \<Rightarrow> is_safe_version v | None \<Rightarrow> True"
  shows "starts_with p (dir_prefix (st_cache_dir st))"
proof -
  obtain url "file" where f: "file \<in> {INDEX_FILE, MANIFESTS_FILE}"
    and a: "cache_area \<lparr> reg_cache_dir = st_cache_dir st, reg_base_url = url \<rparr> version file p"
    using assms(1) by (auto simp: registry_area_def)
  let ?reg = "\<lparr> reg_cache_dir = st_cache_dir st, reg_base_url = url \<rparr>"
  obtain stem where s: "plain_component (stem @ ''.toml'')" "plain_component (stem @ ''.part'')"
    "cache_path ?reg version file = path_join (path_join (reg_cache_dir ?reg) (cache_scope version)) (stem @ ''.toml'')"
    "with_extension ''part'' (cache_path ?reg version file)
       = path_join (path_join (reg_cache_dir ?reg) (cache_scope version)) (stem @ ''.part'')"
    by (rule cache_path_parts [OF f assms(2)])
  have "starts_with (path_join (path_join d c) e) (dir_prefix d)" if "plain_component c" "plain_component e" for d c e
    using that [THEN plain_relative] by (simp add: path_join_relative dir_prefix_def [of "_ @ _"])
  moreover have "starts_with (path_join (path_join d ''repo'') [] @ x) (dir_prefix d)" for d x
    by (simp add: path_join_relative dir_prefix_def [of "_ @ _"])
  ultimately show ?thesis
    using a s cache_scope_plain [OF assms(2)]
    by (auto simp: cache_area_def under_def path_join_relative starts_with_iff_prefix prefix_def)
qed

theorem read_only_commands_witness:
  "file_get (snd (execute (release_env ''good'' ''good  tool.gz'') id (\<lambda>_. Ok []) demo_terminal ''linux'' (Some demo_dirs)
      (Install_Cmd [''tool''] None False True False) empty_world)) ''/d/primitives/bin/tool'' = None"
proof -
  let ?st = "demo_dirs\<lparr> st_cache_dir := path_join (st_cache_dir demo_dirs) ''registry'',
     st_data_dir := path_join (st_data_dir demo_dirs) ''primitives'' \<rparr>" and ?c = "Install_Cmd [''tool''] None False True False"
  have c: "read_only ?c" "\<not> starts_with ''/d/primitives/bin/tool'' (dir_prefix (st_cache_dir ?st))"
    "''/d/primitives/bin/tool'' \<noteq> config_path ?st" "file_get empty_world ''/d/primitives/bin/tool'' = None"
    by code_simp+
  then have "\<not> registry_area ?st (command_version ?c) ''/d/primitives/bin/tool''"
    using registry_area_prefix [of ?st None] by auto
  from read_only_commands [OF c(1) refl this c(3)] c(4) show ?thesis
    by simp
qed

text \<open>
  A batch tries everything and counts exactly. An install of several names with a pinned version, or of no
  name, is refused before anything happens. Otherwise, once the user agrees, every name is tried in order,
  each in the world its predecessors left, failures included; the command succeeds if all of them did, and
  otherwise reports how many succeeded and how many failed, which add up to the number of names. Removals are
  the same.
\<close>

theorem batch_accounts_for_every_name:
  assumes "yes \<or> \<not> tm_is_tty tm"
  shows "(if names = [] \<or> length names > 1 \<and> version \<noteq> None
      then \<exists>e. handle_install env tm ins names version force dry_run yes w = (Err (InvalidManifest e), w)
      else accounted (\<lambda>n. install env ins \<lparr> io_name = n, io_version = version, io_force = force, io_dry_run = dry_run \<rparr>)
        names w (handle_install env tm ins names version force dry_run yes w))
    \<and> (if names = [] then \<exists>e. handle_remove env tm ins names yes w = (Err (InvalidManifest e), w)
       else accounted (remove env ins) names w (handle_remove env tm ins names yes w))"
proof -
  have "handle_install env tm ins names version force dry_run yes w =
      and_then (batch (\<lambda>n. install env ins \<lparr> io_name = n, io_version = version, io_force = force, io_dry_run = dry_run \<rparr>) names 0 0)
        (batch_report ''Installed'' (length names)) w"
    if "\<not> (names = [] \<or> length names > 1 \<and> version \<noteq> None)"
    using that assms by (auto simp: handle_install_def run_simps)
  moreover have "handle_remove env tm ins names yes w =
      and_then (batch (remove env ins) names 0 0) (batch_report ''Removed'' (length names)) w" if "names \<noteq> []"
    using that assms by (auto simp: handle_remove_def run_simps)
  moreover have "\<exists>e. handle_install env tm ins names version force dry_run yes w = (Err (InvalidManifest e), w)"
    if "names = [] \<or> length names > 1 \<and> version \<noteq> None"
    using that by (auto simp: handle_install_def io_fail_def)
  moreover have "\<exists>e. handle_remove env tm ins names yes w = (Err (InvalidManifest e), w)" if "names = []"
    using that by (simp add: handle_remove_def io_fail_def)
  ultimately show ?thesis
    by (cases "names = [] \<or> length names > 1 \<and> version \<noteq> None") (auto simp: batch_command)
qed

theorem batch_accounts_for_every_name_witness:
  "accounted (remove (release_env ''good'' []) demo_installer) [''a'', ''b''] empty_world
     (handle_remove (release_env ''good'' []) demo_terminal demo_installer [''a'', ''b''] False empty_world)
   \<and> fst (handle_remove (release_env ''good'' []) demo_terminal demo_installer [''a'', ''b''] False empty_world) = Err (BatchFailed 0 2)"
proof -
  have "False \<or> \<not> tm_is_tty demo_terminal"
    by (simp add: demo_terminal_def)
  from batch_accounts_for_every_name [OF this, of "[''a'', ''b'']" None "release_env ''good'' []" demo_installer False False empty_world]
  have "accounted (remove (release_env ''good'' []) demo_installer) [''a'', ''b''] empty_world
     (handle_remove (release_env ''good'' []) demo_terminal demo_installer [''a'', ''b''] False empty_world)"
    by simp
  moreover have "fst (handle_remove (release_env ''good'' []) demo_terminal demo_installer [''a'', ''b''] False empty_world) = Err (BatchFailed 0 2)"
    by code_simp
  ultimately show ?thesis
    by blast
qed

end
