(* ===== verification/Self_Update.thy ===== *)
theory Self_Update
  imports Installer
begin

text \<open>
  The engine's update of itself: \<^verbatim>\<open>update.rs\<close>. The running binary is moved aside, the new one copied into its
  place, and the old one moved back if the copy fails. The lemmas follow the binary through every failure.
  Errors are the texts of \<^verbatim>\<open>anyhow\<close>.
\<close>

section \<open>Steps with context\<close>

type_synonym 'a update_io = "market_world \<Rightarrow> (string, 'a) result \<times> market_world"

text \<open>\<^verbatim>\<open>.context(c)?\<close>, then the rest; and what goes on without a result.\<close>

definition or_bail :: "'a market_io \<Rightarrow> string \<Rightarrow> ('a \<Rightarrow> 'b update_io) \<Rightarrow> 'b update_io" where
  "or_bail m c f w = (case m w of (Inl e, w) \<Rightarrow> (Err c, w) | (Inr x, w) \<Rightarrow> f x w)"

definition bail :: "string \<Rightarrow> 'a update_io" where
  "bail c w = (Err c, w)"

definition finish :: "unit update_io" where
  "finish w = (Ok (), w)"

definition anyway :: "'a market_io \<Rightarrow> 'b update_io \<Rightarrow> 'b update_io" where
  "anyway m f w = f (snd (m w))"

text \<open>\<^verbatim>\<open>std::fs::copy\<close>: a failure after the target is opened leaves part of the source there.\<close>

definition fs_copy :: "market_env \<Rightarrow> string \<Rightarrow> string \<Rightarrow> unit market_io" where
  "fs_copy env p q = observe (\<lambda>w. file_get w p) (\<lambda>there. case there of
      None \<Rightarrow> io_fail (Io ''No such file or directory'')
    | Some b \<Rightarrow> fs_write env q b)"

section \<open>The latest release\<close>

definition GITHUB_REPO :: string where
  "GITHUB_REPO = ''Govcraft/emergent''"

record update_args =
  ua_force :: bool
  ua_dry_run :: bool

text \<open>\<open>release\<close> reads the tag out of the JSON answer.\<close>

definition fetch_latest_version :: "market_env \<Rightarrow> (string \<Rightarrow> (string, string) result) \<Rightarrow> string update_io" where
  "fetch_latest_version env release w =
     (let url = ''https://api.github.com/repos/'' @ GITHUB_REPO @ ''/releases/latest''
      in case send_request env url w of
           (SendFailed _, w) \<Rightarrow> (Err ''Failed to fetch latest release from GitHub'', w)
         | (Response status body, w) \<Rightarrow>
             if \<not> is_success status then
               (Err (''GitHub API returned HTTP '' @ me_status_text env status @ '': '' @ url), w)
             else (case body of
                 Inl _ \<Rightarrow> (Err ''Failed to parse GitHub release response'', w)
               | Inr text \<Rightarrow> (case release text of
                     Inl _ \<Rightarrow> (Err ''Failed to parse GitHub release response'', w)
                   | Inr tag \<Rightarrow> (Ok (case strip_prefix ''v'' tag of Some v \<Rightarrow> v | None \<Rightarrow> tag), w))))"

section \<open>Download and extraction\<close>

definition download :: "market_env \<Rightarrow> string \<Rightarrow> string \<Rightarrow> unit update_io \<Rightarrow> unit update_io" where
  "download env url dest rest w = (case send_request env url w of
      (SendFailed _, w) \<Rightarrow> (Err (''Failed to download '' @ url), w)
    | (Response status body, w) \<Rightarrow>
        if \<not> is_success status then (Err (''HTTP '' @ me_status_text env status @ '' when downloading '' @ url), w)
        else (case body of
            Inl _ \<Rightarrow> (Err (''Failed to read response from '' @ url), w)
          | Inr bytes \<Rightarrow> or_bail (fs_write env dest bytes) ''Failed to write downloaded file'' (\<lambda>_. rest) w))"

definition extract_tar_gz :: "market_env \<Rightarrow> string \<Rightarrow> string \<Rightarrow> unit update_io \<Rightarrow> unit update_io" where
  "extract_tar_gz env archive dest rest =
     or_bail (fs_read env archive) (''Failed to open archive: '' @ archive) (\<lambda>bytes.
     or_bail (unpack archive dest (me_untar env bytes)) (''Failed to extract archive: '' @ archive) (\<lambda>_. rest))"

section \<open>Replacing the binary\<close>

definition replace_binary :: "market_env \<Rightarrow> string \<Rightarrow> string \<Rightarrow> string \<Rightarrow> unit update_io" where
  "replace_binary env new_binary exe latest =
     (let backup = with_extension ''bak'' exe
      in or_bail (fs_rename env exe backup) (''Failed to backup current binary to '' @ backup) (\<lambda>_ w.
           case fs_copy env new_binary exe w of
             (Inl _, w) \<Rightarrow> anyway (fs_rename env backup exe) (bail ''Failed to install new binary (restored backup)'') w
           | (Inr _, w) \<Rightarrow>
               anyway (fs_touch env) (anyway (fs_remove_file env backup)
                 (anyway (eprintln (''Successfully updated emergent to '' @ latest)) finish)) w))"

text \<open>Once the archive is unpacked. The listing of the directory at the end of the error is left out.\<close>

definition install_extracted :: "market_env \<Rightarrow> string \<Rightarrow> string \<Rightarrow> string \<Rightarrow> unit update_io" where
  "install_extracted env new_binary exe latest w =
     (if \<not> exists_path w new_binary then (Err ''Expected binary 'emergent' not found in archive.'', w)
      else or_bail (fs_touch env) ''Failed to set executable permissions'' (\<lambda>_. replace_binary env new_binary exe latest) w)"

definition update_in :: "market_env \<Rightarrow> string \<Rightarrow> string \<Rightarrow> string \<Rightarrow> string \<Rightarrow> string \<Rightarrow> unit update_io" where
  "update_in env temp archive_name url exe latest =
     (let archive_path = path_join temp archive_name; new_binary = path_join temp ''emergent''
      in anyway (eprintln (''Downloading '' @ archive_name @ ''...''))
        (download env url archive_path
        (anyway (eprintln ''Extracting...'')
        (extract_tar_gz env archive_path temp
        (install_extracted env new_binary exe latest)))))"

definition arrow :: string where
  "arrow = [CHR '' '', CHR 0xE2, CHR 0x86, CHR 0x92, CHR '' '']"

text \<open>\<open>exe\<close> is the path of the running binary, if it can be determined; \<open>current\<close> the version built in.\<close>

definition perform_update :: "market_env \<Rightarrow> string \<Rightarrow> string \<Rightarrow> string \<Rightarrow> string \<Rightarrow> unit update_io" where
  "perform_update env archive_name url exe latest w =
     (let temp = me_tempdir env (mw_tick w)
      in or_bail (fs_touch env) ''Failed to create temp directory'' (\<lambda>_ w.
           case update_in env temp archive_name url exe latest w of
             (r, w) \<Rightarrow> (r, snd (fs_remove_dir_all env temp w))) w)"

definition archive_name_for :: "string \<Rightarrow> string \<Rightarrow> string" where
  "archive_name_for latest platform = ''emergent-'' @ latest @ ''-'' @ platform @ ''.tar.gz''"

definition download_url_for :: "string \<Rightarrow> string \<Rightarrow> string" where
  "download_url_for latest platform =
     ''https://github.com/'' @ GITHUB_REPO @ ''/releases/download/v'' @ latest @ ''/'' @ archive_name_for latest platform"

definition execute_update ::
  "market_env \<Rightarrow> (string \<Rightarrow> (string, string) result) \<Rightarrow> string \<Rightarrow> string \<Rightarrow> (string, string) result \<Rightarrow> update_args \<Rightarrow> unit update_io" where
  "execute_update env release current platform exe args w =
     (case fetch_latest_version env release
             (w\<lparr> mw_log := mw_log w @ [''Current version: '' @ current, ''Checking for updates... ''] \<rparr>) of
        (Inl e, w) \<Rightarrow> (Err e, w)
      | (Inr latest, w) \<Rightarrow>
          anyway (eprintln (''latest is '' @ latest))
            (if current = latest \<and> \<not> ua_force args then anyway (eprintln ''Already up to date.'') finish
             else anyway (if current = latest then eprintln ''Already on latest, but --force specified.'' else io_return ())
               (let archive_name = archive_name_for latest platform; url = download_url_for latest platform
                in case exe of
                     Inl _ \<Rightarrow> bail ''Failed to determine current executable path''
                   | Inr exe \<Rightarrow>
                       if ua_dry_run args then
                         anyway (eprintln (''Would update: '' @ current @ arrow @ latest))
                           (anyway (eprintln (''Platform: '' @ platform))
                           (anyway (eprintln (''Download: '' @ url)) (anyway (eprintln (''Binary: '' @ exe)) finish)))
                       else
                         anyway (eprintln (''Updating '' @ current @ arrow @ latest @ ''...''))
                           (perform_update env archive_name url exe latest))) w)"

section \<open>Where a step leads\<close>

lemma fs_write_files:
  "p \<noteq> q \<Longrightarrow> file_get (snd (fs_write env q b w)) p = file_get w p"
  by (rule confinedD [OF confined_writes(1) [where A = "\<lambda>p. p = q"]]) auto

lemma download_cases:
  obtains (failed) e w1 where "download env url dest rest w = (Err e, w1)" "\<And>p. p \<noteq> dest \<Longrightarrow> file_get w1 p = file_get w p"
  | (fetched) n status bytes w1 where "download env url dest rest w = rest w1" "file_get w1 dest = Some bytes"
      "me_http env n url = Response status (Ok bytes)" "\<And>p. p \<noteq> dest \<Longrightarrow> file_get w1 p = file_get w p"
proof (cases "me_http env (mw_tick w) url")
  case (SendFailed e)
  then show ?thesis
    by (intro failed [of _ "tick (w\<lparr> mw_requests := mw_requests w @ [url] \<rparr>)"]) (auto simp: download_def send_request_def)
next
  case (Response status body)
  let ?w = "tick (w\<lparr> mw_requests := mw_requests w @ [url] \<rparr>)"
  show ?thesis
  proof (cases "is_success status \<and> is_ok body")
    case True
    then obtain bytes where b: "body = Ok bytes"
      by (auto simp: is_ok_iff)
    obtain r w1 where wr: "fs_write env dest bytes ?w = (r, w1)"
      by (cases "fs_write env dest bytes ?w")
    have keep: "\<And>p. p \<noteq> dest \<Longrightarrow> file_get w1 p = file_get w p"
      using fs_write_files [of _ dest env bytes ?w] wr by simp
    show ?thesis
    proof (cases r)
      case (Inl e)
      then show ?thesis
        using True b Response wr keep by (intro failed [of _ w1]) (auto simp: download_def send_request_def or_bail_def)
    next
      case (Inr u)
      then have "file_get w1 dest = Some bytes"
        using wr by (auto simp: fs_write_def split: option.splits)
      then show ?thesis
        using True b Response wr keep Inr by (intro fetched [of w1 bytes]) (auto simp: download_def send_request_def or_bail_def)
    qed
  next
    case False
    then have "\<exists>e. download env url dest rest w = (Err e, ?w)"
      using Response by (cases body) (auto simp: download_def send_request_def)
    then show ?thesis
      using failed [of _ ?w] by auto
  qed
qed

lemma unpack_entries_get:
  "map_of (unpack_entries dest es fs) p = Some b \<Longrightarrow>
     (\<exists>name. p = path_join dest name \<and> (name, b) \<in> set es) \<or> map_of fs p = Some b"
  by (induction dest es fs rule: unpack_entries.induct) (auto simp: file_put_def map_of_filter_key split: if_splits)

lemma unpack_entries_there:
  "(name, b) \<in> set es \<or> map_of fs (path_join dest name) \<noteq> None \<Longrightarrow> map_of (unpack_entries dest es fs) (path_join dest name) \<noteq> None"
  by (induction dest es fs rule: unpack_entries.induct) (auto simp: file_put_def map_of_filter_key)

lemma unpack_entries_other:
  "\<forall>(name, b) \<in> set es. path_join dest name \<noteq> p \<Longrightarrow> map_of (unpack_entries dest es fs) p = map_of fs p"
  by (induction dest es fs rule: unpack_entries.induct) (auto simp: file_put_def map_of_filter_key)

definition relative_entries :: "market_env \<Rightarrow> bool" where
  "relative_entries env \<longleftrightarrow> (\<forall>bytes. list_all (\<lambda>(name, _). \<not> starts_with name ''/'') (fst (me_untar env bytes)))"

lemma relative_entry_name:
  assumes "relative_entries env" "(name, b) \<in> set (fst (me_untar env bytes))" "path_join d ''emergent'' = path_join d name"
  shows "name = ''emergent''"
proof -
  have "\<not> starts_with name ''/''"
    using assms(1,2) by (auto simp: relative_entries_def list_all_iff)
  with assms(3) show ?thesis
    by (simp add: path_join_relative)
qed

lemma extract_cases:
  assumes "relative_entries env"
  obtains (failed) e w1 where "extract_tar_gz env archive dest rest w = (Err e, w1)"
      "\<And>p. \<not> under dest p \<Longrightarrow> file_get w1 p = file_get w p"
  | (unpacked) bytes w1 where "extract_tar_gz env archive dest rest w = rest w1" "file_get w archive = Some bytes"
      "\<And>p. \<not> under dest p \<Longrightarrow> file_get w1 p = file_get w p"
      "\<And>p b. file_get w1 p = Some b \<Longrightarrow> (\<exists>name. p = path_join dest name \<and> (name, b) \<in> set (fst (me_untar env bytes))) \<or> file_get w p = Some b"
      "\<And>name b. (name, b) \<in> set (fst (me_untar env bytes)) \<Longrightarrow> file_get w1 (path_join dest name) \<noteq> None"
proof -
  obtain r w1 where rd: "fs_read env archive w = (r, w1)" and keep: "\<And>p. file_get w1 p = file_get w p"
    using confinedD [OF confined_reads(2) [where A = "\<lambda>_. False" and env = env and q = archive], where w = w] by (cases "fs_read env archive w") auto
  show ?thesis
  proof (cases r)
    case (Inl e)
    then show ?thesis
      using rd keep by (intro failed [of _ w1]) (auto simp: extract_tar_gz_def or_bail_def)
  next
    case (Inr bytes)
    define w2 where "w2 = w1\<lparr> mw_files := unpack_entries dest (fst (me_untar env bytes)) (mw_files w1) \<rparr>"
    have "\<forall>(name, b) \<in> set (fst (me_untar env bytes)). path_join dest name \<noteq> p" if "\<not> under dest p" for p
      using assms that under_join by (fastforce simp: relative_entries_def list_all_iff)
    then have out: "file_get w2 p = file_get w p" if "\<not> under dest p" for p
      using that unpack_entries_other [of "fst (me_untar env bytes)" dest p "mw_files w1"] keep [of p]
      by (simp add: w2_def file_get_def)
    have ins: "(\<exists>name. p = path_join dest name \<and> (name, b) \<in> set (fst (me_untar env bytes))) \<or> file_get w p = Some b"
      if "file_get w2 p = Some b" for p b
      using that unpack_entries_get [of dest _ "mw_files w1" p b] keep [of p] by (simp add: w2_def file_get_def)
    have there: "file_get w2 (path_join dest name) \<noteq> None" if "(name, b) \<in> set (fst (me_untar env bytes))" for name b
      using unpack_entries_there [of name b] that by (simp add: w2_def file_get_def)
    have b: "file_get w archive = Some bytes"
      using rd Inr fs_read_Ok [of env archive w bytes w1] keep by simp
    show ?thesis
      using rd Inr out ins there b failed [of _ w2] unpacked [of w2 bytes]
      by (cases "snd (me_untar env bytes)") (auto simp: extract_tar_gz_def or_bail_def unpack_def Let_def w2_def [symmetric])
  qed
qed

text \<open>
  The copy and the rename that puts the old binary back are the last two of the \<open>n\<close> operations: the rename
  failed, and so did the copy, unless there was no file to copy (\<open>absent\<close>).
\<close>

definition restore_failed :: "market_env \<Rightarrow> nat \<Rightarrow> bool \<Rightarrow> (string, unit) result \<Rightarrow> bool" where
  "restore_failed env n absent r \<longleftrightarrow> r = Err ''Failed to install new binary (restored backup)'' \<and> 2 \<le> n
     \<and> me_fault env (n - 1) \<noteq> None \<and> (me_fault env (n - 2) \<noteq> None \<or> absent)"

lemma ticks:
  "fs_rename env p q w = (r, w') \<Longrightarrow> mw_tick w' = Suc (mw_tick w)"
  "fs_remove_dir_all env p w = (u, w') \<Longrightarrow> mw_tick w' = Suc (mw_tick w)"
  by (auto simp: fs_rename_def fs_remove_dir_all_def tick_def Let_def split: option.splits)

lemma fs_rename_fails:
  assumes "fs_rename env p q w = (r, w')" "file_get w p = Some b"
  shows "(me_fault env (mw_tick w) \<noteq> None \<and> (\<forall>f. file_get w' f = file_get w f)) \<or> file_get w' q = Some b"
  using assms by (auto simp: fs_rename_def split: option.splits)

lemma fs_copy_fails:
  assumes "fs_copy env p q w = (Err e, w')"
  shows "(file_get w p = None \<and> w' = w) \<or> (me_fault env (mw_tick w) \<noteq> None \<and> mw_tick w' = Suc (mw_tick w))"
  using assms by (auto simp: fs_copy_def run_simps fs_write_def io_fail_def tick_def split: option.splits)

lemma replace_binary_outcome:
  assumes "file_get w exe = Some old" and "with_extension ''bak'' exe \<noteq> exe"
    and "new_binary \<noteq> exe" "new_binary \<noteq> with_extension ''bak'' exe"
    and "replace_binary env new_binary exe latest w = (r, w')"
  shows "file_get w' exe = Some old \<or> (r = Ok () \<and> file_get w' exe = file_get w new_binary \<and> file_get w new_binary \<noteq> None)
    \<or> (restore_failed env (mw_tick w') (file_get w new_binary = None) r \<and> file_get w' (with_extension ''bak'' exe) = Some old)"
proof -
  let ?b = "with_extension ''bak'' exe"
  obtain r1 w1 where m: "fs_rename env exe ?b w = (r1, w1)"
    by (cases "fs_rename env exe ?b w")
  show ?thesis
  proof (cases r1)
    case (Inl e)
    then have "file_get w1 exe = Some old"
      using m assms(1) by (auto simp: fs_rename_def split: option.splits)
    then show ?thesis
      using m Inl assms(5) by (simp add: replace_binary_def Let_def or_bail_def)
  next
    case (Inr u)
    then have w1: "file_get w1 ?b = Some old" "file_get w1 new_binary = file_get w new_binary"
      using m assms(1,2,3,4) by (auto simp: fs_rename_def split: option.splits)
    obtain r2 w2 where c: "fs_copy env new_binary exe w1 = (r2, w2)"
      by (cases "fs_copy env new_binary exe w1")
    have w2: "file_get w2 ?b = Some old"
      using c w1(1) assms(2) fs_write_files [of ?b exe env _ w1]
      by (auto simp: fs_copy_def run_simps split: option.splits) (metis snd_conv)
    show ?thesis
    proof (cases r2)
      case (Inl e)
      obtain r3 w3 where undo: "fs_rename env ?b exe w2 = (r3, w3)"
        by (cases "fs_rename env ?b exe w2")
      then have w': "w' = w3" "r = Err ''Failed to install new binary (restored backup)''"
        using m Inr c \<open>r2 = Inl e\<close> assms(5) by (auto simp: replace_binary_def Let_def or_bail_def anyway_def bail_def)
      have "me_fault env (mw_tick w2 - 1) \<noteq> None \<or> file_get w new_binary = None"
        using fs_copy_fails [of env new_binary exe w1 e w2] c Inl w1(2) by auto
      moreover have "mw_tick w2 \<ge> 1" "mw_tick w3 = Suc (mw_tick w2)"
        using ticks(1) [OF m] ticks(1) [OF undo] fs_copy_fails [of env new_binary exe w1 e w2] c Inl by auto
      ultimately show ?thesis
        using fs_rename_fails [OF undo w2] w2 by (auto simp: w' restore_failed_def numeral_2_eq_2)
    next
      case (Inr u2)
      have "file_get w2 exe = file_get w new_binary" "file_get w new_binary \<noteq> None"
        using c Inr w1(2) by (auto simp: fs_copy_def run_simps fs_write_def split: option.splits)
      moreover have "r = Ok ()" "file_get w' exe = file_get w2 exe"
        using m \<open>r1 = Inr u\<close> c Inr assms(2,5) by (auto simp: replace_binary_def Let_def or_bail_def anyway_def finish_def
            eprintln_def fs_remove_file_def fs_touch_def split: option.splits)
      ultimately show ?thesis
        by simp
    qed
  qed
qed

lemma install_extracted_outcome:
  assumes "file_get w exe = Some old" and "with_extension ''bak'' exe \<noteq> exe"
    and "new_binary \<noteq> exe" "new_binary \<noteq> with_extension ''bak'' exe"
    and "install_extracted env new_binary exe latest w = (r, w')"
  shows "file_get w' exe = Some old \<or> (r = Ok () \<and> file_get w' exe = file_get w new_binary \<and> file_get w new_binary \<noteq> None)
    \<or> (restore_failed env (mw_tick w') (file_get w new_binary = None) r \<and> file_get w' (with_extension ''bak'' exe) = Some old)"
proof -
  obtain r1 w1 where t: "fs_touch env w = (r1, w1)" "\<And>p. file_get w1 p = file_get w p"
    by (auto simp: fs_touch_def)
  show ?thesis
  proof (cases "exists_path w new_binary \<and> is_ok r1")
    case True
    then have "replace_binary env new_binary exe latest w1 = (r, w')"
      using assms(5) t(1) by (auto simp: install_extracted_def or_bail_def is_ok_iff)
    from replace_binary_outcome [OF _ assms(2-4) this, of old] assms(1) show ?thesis
      by (simp add: t(2))
  next
    case False
    then show ?thesis
      using assms(1,5) t by (auto simp: install_extracted_def or_bail_def is_ok_iff split: sum.splits if_splits)
  qed
qed

text \<open>The archive and the binary in the temporary directory are different files.\<close>

lemma archive_name_plain: "\<not> starts_with (archive_name_for v p) ''/''" "archive_name_for v p \<noteq> ''emergent''"
  by (simp_all add: archive_name_for_def)

lemma update_in_outcome:
  assumes "relative_entries env" and "file_get w exe = Some old" and "with_extension ''bak'' exe \<noteq> exe"
    and temp: "\<And>p. under temp p \<Longrightarrow> file_get w p = None" "\<not> under temp (with_extension ''bak'' exe)"
    and name: "\<not> starts_with name ''/''" "name \<noteq> ''emergent''"
    and run: "update_in env temp name url exe latest w = (r, w')"
  shows "file_get w' exe = Some old
    \<or> (r = Ok () \<and> (\<exists>n status bytes new. me_http env n url = Response status (Ok bytes)
        \<and> (''emergent'', new) \<in> set (fst (me_untar env bytes)) \<and> file_get w' exe = Some new))
    \<or> (\<exists>n status bytes. me_http env n url = Response status (Ok bytes)
        \<and> restore_failed env (mw_tick w') (\<forall>b. (''emergent'', b) \<notin> set (fst (me_untar env bytes))) r
        \<and> file_get w' (with_extension ''bak'' exe) = Some old)"
proof -
  let ?archive = "path_join temp name" and ?new = "path_join temp ''emergent''"
  let ?w0 = "w\<lparr> mw_log := mw_log w @ [''Downloading '' @ name @ ''...''] \<rparr>"
  let ?put = "install_extracted env ?new exe latest"
  define rest where "rest = anyway (eprintln ''Extracting...'') (extract_tar_gz env ?archive temp ?put)"
  have apart: "\<not> under temp exe" "under temp ?archive" "under temp ?new" "?new \<noteq> ?archive"
    using temp(1) [of exe] assms(2) under_join [of "''emergent''"] under_join [OF name(1)] name
    by (auto simp: path_join_relative)
  then have "exe \<noteq> ?archive"
    by auto
  note apart = apart this
  have d: "download env url ?archive rest ?w0 = (r, w')"
    using run by (simp add: update_in_def Let_def anyway_def eprintln_def rest_def)
  show ?thesis
  proof (cases rule: download_cases [where env = env and url = url and dest = ?archive and rest = rest and w = ?w0])
    case (fetched n status bytes w1)
    let ?w1 = "w1\<lparr> mw_log := mw_log w1 @ [''Extracting...''] \<rparr>"
    have e: "extract_tar_gz env ?archive temp ?put ?w1 = (r, w')"
      using d fetched(1) by (simp add: rest_def anyway_def eprintln_def)
    have w1: "file_get w1 exe = Some old" "file_get w1 ?new = None"
      using fetched(4) assms(2) apart temp(1) by auto
    show ?thesis
      using assms(1)
    proof (cases rule: extract_cases [where archive = ?archive and dest = temp and rest = ?put and w = ?w1])
      case (unpacked bytes' w2)
      have same: "bytes' = bytes" and exe2: "file_get w2 exe = Some old"
        using unpacked(2) fetched(2) unpacked(3) [OF apart(1)] w1 by simp_all
      have new: "(''emergent'', b) \<in> set (fst (me_untar env bytes))" if "file_get w2 ?new = Some b" for b
        using unpacked(4) [OF that] w1(2) relative_entry_name [OF assms(1)] by (auto simp: same)
      have "?put w2 = (r, w')" "?new \<noteq> exe" "?new \<noteq> with_extension ''bak'' exe"
        using e unpacked(1) apart temp(2) by auto
      note put = install_extracted_outcome [OF exe2 assms(3) this(2,3,1)]
      have "(\<forall>b. (''emergent'', b) \<notin> set (fst (me_untar env bytes)))" if "file_get w2 ?new = None"
        using unpacked(5) [of "''emergent''"] that by (auto simp: same)
      then have "restore_failed env (mw_tick w') (\<forall>b. (''emergent'', b) \<notin> set (fst (me_untar env bytes))) r"
        if "restore_failed env (mw_tick w') (file_get w2 ?new = None) r"
        using that by (auto simp: restore_failed_def)
      with put new fetched(3) show ?thesis
        by (elim disjE) (fastforce, fastforce, blast)
    qed (use e w1 apart in auto)
  qed (use d assms(2) apart in auto)
qed

lemma perform_update_outcome:
  assumes "file_get w exe = Some old" and "with_extension ''bak'' exe \<noteq> exe" and "relative_entries env"
    and "\<And>n p. under (me_tempdir env n) p \<Longrightarrow> file_get w p = None" and "\<And>n. \<not> under (me_tempdir env n) (with_extension ''bak'' exe)"
    and name: "\<not> starts_with name ''/''" "name \<noteq> ''emergent''"
    and "perform_update env name url exe latest w = (r, w')"
  shows "file_get w' exe = Some old
    \<or> (r = Ok () \<and> (\<exists>n status bytes new. me_http env n url = Response status (Ok bytes)
        \<and> (''emergent'', new) \<in> set (fst (me_untar env bytes)) \<and> file_get w' exe = Some new))
    \<or> (\<exists>n status bytes. me_http env n url = Response status (Ok bytes)
        \<and> restore_failed env (mw_tick w' - 1) (\<forall>b. (''emergent'', b) \<notin> set (fst (me_untar env bytes))) r
        \<and> file_get w' (with_extension ''bak'' exe) = Some old)"
proof -
  let ?t = "me_tempdir env (mw_tick w)"
  obtain r1 w1 where t: "fs_touch env w = (r1, w1)" "\<And>p. file_get w1 p = file_get w p"
    by (auto simp: fs_touch_def)
  obtain r2 w2 where u: "update_in env ?t name url exe latest w1 = (r2, w2)"
    by (cases "update_in env ?t name url exe latest w1")
  note outcome = update_in_outcome [OF assms(3) _ assms(2) _ assms(5) name u, of old]
  have "\<not> under ?t exe"
    using assms(1,4) by force
  then have "file_get (snd (fs_remove_dir_all env ?t w2)) p = file_get w2 p" if "p \<in> {exe, with_extension ''bak'' exe}" for p
    using that assms(5) fs_remove_dir_all_files [of ?t p env w2] by auto
  moreover have "mw_tick (snd (fs_remove_dir_all env ?t w2)) = Suc (mw_tick w2)"
    using ticks(2) by (metis prod.collapse)
  ultimately show ?thesis
    using assms(1,4,8) t u outcome by (cases r1) (auto simp: perform_update_def Let_def or_bail_def)
qed

section \<open>Properties\<close>

text \<open>
  C26. Updating never loses the engine. Whatever the network answers and whichever file operation fails, after
  the update command the running binary is still in place; or the command succeeded and in its place is,
  complete, the binary from an archive the network served for the release; or the command failed and the old
  binary lies beside it under the extension \<^verbatim>\<open>.bak\<close>. The last happens only when putting it back failed too: the
  last operation on files before the temporary directory is removed, the rename of the backup to the binary's
  path, failed, and so did the one before it, the copy of the new binary (an I/O error, or the archive served holds
  no file \<^verbatim>\<open>emergent\<close> that could be copied). So if no two successive operations fail and the archive holds the
  binary, the old or the new binary is in place. The unpacker is assumed to write inside the directory it is
  given, temporary directories to be fresh, and the binary's name not to end in \<^verbatim>\<open>.bak\<close> itself.
\<close>

theorem engine_binary_survives:
  assumes "file_get w exe = Some old" and "with_extension ''bak'' exe \<noteq> exe" and "relative_entries env"
    and "\<And>n p. under (me_tempdir env n) p \<Longrightarrow> file_get w p = None" and "\<And>n. \<not> under (me_tempdir env n) (with_extension ''bak'' exe)"
    and "execute_update env release current platform (Ok exe) args w = (r, w')"
  shows "file_get w' exe = Some old
    \<or> (r = Ok () \<and> (\<exists>latest n status bytes new.
          me_http env n (download_url_for latest platform) = Response status (Ok bytes)
        \<and> (''emergent'', new) \<in> set (fst (me_untar env bytes)) \<and> file_get w' exe = Some new))
    \<or> (\<exists>latest n status bytes. me_http env n (download_url_for latest platform) = Response status (Ok bytes)
        \<and> restore_failed env (mw_tick w' - 1) (\<forall>b. (''emergent'', b) \<notin> set (fst (me_untar env bytes))) r
        \<and> file_get w' (with_extension ''bak'' exe) = Some old)"
proof -
  let ?w = "w\<lparr> mw_log := mw_log w @ [''Current version: '' @ current, ''Checking for updates... ''] \<rparr>"
  obtain f w1 where f: "fetch_latest_version env release ?w = (f, w1)" "\<And>p. file_get w1 p = file_get w p"
    by (cases "fetch_latest_version env release ?w")
       (auto simp: fetch_latest_version_def Let_def send_request_def split: http_answer.splits sum.splits if_splits)
  show ?thesis
  proof (cases "\<exists>latest. f = Ok latest \<and> \<not> (current = latest \<and> \<not> ua_force args) \<and> \<not> ua_dry_run args")
    case False
    then have "file_get w' exe = file_get w1 exe"
      using assms(6) f(1)
      by (cases f) (auto simp: execute_update_def Let_def anyway_def eprintln_def finish_def io_return_def split: if_splits)
    then show ?thesis
      using f(2) assms(1) by simp
  next
    case True
    then obtain latest where l: "f = Ok latest" "\<not> (current = latest \<and> \<not> ua_force args)" "\<not> ua_dry_run args"
      by blast
    have "\<exists>logged. perform_update env (archive_name_for latest platform) (download_url_for latest platform) exe latest (w1\<lparr> mw_log := logged \<rparr>) = (r, w')"
      using assms(6) f(1) l
      by (cases "current = latest"; simp add: execute_update_def Let_def anyway_def eprintln_def io_return_def; metis)
    then obtain logged where "perform_update env (archive_name_for latest platform) (download_url_for latest platform) exe latest (w1\<lparr> mw_log := logged \<rparr>) = (r, w')"
      by blast
    from perform_update_outcome [OF _ assms(2,3) _ assms(5) archive_name_plain this, of old] f(2) assms(1,4) show ?thesis
      by fastforce
  qed
qed

theorem engine_binary_survives_witness:
  "let env = (demo_env (Response 200 (Ok ''new'')))\<lparr> me_untar := (\<lambda>b. ([(''emergent'', b)], None)) \<rparr>;
       w = empty_world\<lparr> mw_files := [(''/opt/emergent'', ''old'')] \<rparr>;
       (r, w') = execute_update env (\<lambda>_. Ok ''v2'') ''1'' ''linux'' (Ok ''/opt/emergent'') \<lparr> ua_force = False, ua_dry_run = False \<rparr> w
   in file_get w' ''/opt/emergent'' = Some ''new'' \<and> (''emergent'', ''new'') \<in> set (fst (me_untar env ''new''))"
proof -
  let ?e = "(demo_env (Response 200 (Ok ''new'')))\<lparr> me_untar := (\<lambda>b. ([(''emergent'', b)], None)) \<rparr>"
  let ?w = "empty_world\<lparr> mw_files := [(''/opt/emergent'', ''old'')] \<rparr>"
  let ?run = "execute_update ?e (\<lambda>_. Ok ''v2'') ''1'' ''linux'' (Ok ''/opt/emergent'') \<lparr> ua_force = False, ua_dry_run = False \<rparr> ?w"
  have f: "file_get ?w ''/opt/emergent'' = Some ''old''" "with_extension ''bak'' ''/opt/emergent'' \<noteq> ''/opt/emergent''"
    "\<not> under ''/tmp/x'' ''/opt/emergent''" "\<not> under ''/tmp/x'' (with_extension ''bak'' ''/opt/emergent'')"
    "file_get (snd ?run) ''/opt/emergent'' = Some ''new'' \<and> is_ok (fst ?run)"
    by code_simp+
  have rel: "relative_entries ?e" and temp: "me_tempdir ?e n = ''/tmp/x''"
    and new: "me_http ?e n url = Response status (Ok bytes) \<longleftrightarrow> status = 200 \<and> bytes = ''new''" for n url status bytes
    by (auto simp: relative_entries_def demo_env_def)
  have fresh: "under (me_tempdir ?e n) p \<Longrightarrow> file_get ?w p = None" "\<not> under (me_tempdir ?e n) (with_extension ''bak'' ''/opt/emergent'')" for n p
    using f(3,4) unfolding temp by (auto simp: file_get_def)
  obtain r w' where run: "?run = (r, w')"
    by (cases ?run)
  from engine_binary_survives [OF f(1,2) rel fresh run] f(5) run show ?thesis
    by (auto simp: Let_def new split: prod.splits)
qed

end
