(* ===== verification/Scaffold.thy ===== *)
theory Scaffold
  imports Registry Messages
begin

text \<open>
  The \<^verbatim>\<open>scaffold\<close> command (\<^verbatim>\<open>scaffold/*.rs\<close>) and the \<^verbatim>\<open>init\<close> command (\<^verbatim>\<open>init/*.rs\<close>). A scaffold run is a workflow of
  three actors: the source makes a request of the arguments or of a dialogue, the handler renders one template
  per file and announces each, the sink writes the files and reports. The sink takes its messages one
  after the other, so the run is the handler's messages folded over the sink's state. Case conversion, template
  rendering, prompts, the text of JSON values and the search for an interpreter are parameters; files live in the
  world of \<open>Registry\<close>.
\<close>

section \<open>Requests\<close>

datatype language = Rust | TypeScript | Python

datatype primitive_type = SourceType | HandlerType | SinkType

definition language_as_str :: "language \<Rightarrow> string" where
  "language_as_str l = (case l of Rust \<Rightarrow> ''rust'' | TypeScript \<Rightarrow> ''typescript'' | Python \<Rightarrow> ''python'')"

definition language_from_str :: "(string \<Rightarrow> string) \<Rightarrow> string \<Rightarrow> (string, language) result" where
  "language_from_str lower s =
     (let l = lower s
      in if l = ''rust'' \<or> l = ''rs'' then Ok Rust
         else if l = ''typescript'' \<or> l = ''ts'' then Ok TypeScript
         else if l = ''python'' \<or> l = ''py'' then Ok Python
         else Err (''Unknown language: '' @ s @ ''. Valid options: rust, typescript, python''))"

definition primitive_type_as_str :: "primitive_type \<Rightarrow> string" where
  "primitive_type_as_str t = (case t of SourceType \<Rightarrow> ''source'' | HandlerType \<Rightarrow> ''handler'' | SinkType \<Rightarrow> ''sink'')"

definition primitive_type_from_str :: "(string \<Rightarrow> string) \<Rightarrow> string \<Rightarrow> (string, primitive_type) result" where
  "primitive_type_from_str lower s =
     (let l = lower s
      in if l = ''source'' then Ok SourceType
         else if l = ''handler'' then Ok HandlerType
         else if l = ''sink'' then Ok SinkType
         else Err (''Unknown primitive type: '' @ s @ ''. Valid options: source, handler, sink''))"

record scaffold_request =
  sr_language :: language
  sr_name :: string
  sr_primitive_type :: primitive_type
  sr_subscribes :: "string list"
  sr_publishes :: "string list"
  sr_description :: string
  sr_output_dir :: string
  sr_dry_run :: bool
  sr_json_output :: bool

record scaffold_args =
  sa_language :: "string option"
  sa_primitive_type :: "string option"
  sa_name :: "string option"
  sa_subscribes :: "string option"
  sa_publishes :: "string option"
  sa_output :: "string option"
  sa_description :: "string option"
  sa_dry_run :: bool
  sa_json :: bool

datatype scaffold_error =
    Cancelled
  | InvalidInput string
  | IoError string
  | DialoguerError string
  | TemplateError string
  | WriteError string

definition scaffold_error_text :: "scaffold_error \<Rightarrow> string" where
  "scaffold_error_text e = (case e of
      Cancelled \<Rightarrow> ''Operation cancelled by user''
    | InvalidInput m \<Rightarrow> ''Invalid input: '' @ m
    | IoError m \<Rightarrow> ''IO error: '' @ m
    | DialoguerError m \<Rightarrow> ''Prompt error: '' @ m
    | TemplateError m \<Rightarrow> ''Template error: '' @ m
    | WriteError m \<Rightarrow> ''Write error: '' @ m)"

definition parse_comma_list :: "string \<Rightarrow> string list" where
  "parse_comma_list s = filter (\<lambda>w. w \<noteq> []) (map trim (split_on (CHR '','') s))"

text \<open>\<open>snake\<close> is \<^verbatim>\<open>to_snake_case\<close> of the case conversion package.\<close>

definition snake_char :: "char \<Rightarrow> bool" where
  "snake_char c \<longleftrightarrow> is_ascii_lowercase c \<or> is_ascii_uppercase c \<or> is_ascii_digit c \<or> c = CHR ''_''"

definition validate_name :: "(string \<Rightarrow> string) \<Rightarrow> string \<Rightarrow> (string, unit) result" where
  "validate_name snake name =
     (if name = [] then Err ''Name cannot be empty''
      else if snake name \<noteq> name then Err (''Name should be snake_case: suggested '' @ quoted (snake name))
      else if \<not> list_all snake_char name then Err ''Name can only contain alphanumeric characters and underscores''
      else if is_ascii_digit (hd name) then Err ''Name cannot start with a number''
      else (case PrimitiveName_new name of Inr _ \<Rightarrow> Ok () | Inl e \<Rightarrow> Err (show_invalid_primitive_name e)))"

definition has_required_args :: "scaffold_args \<Rightarrow> bool" where
  "has_required_args a \<longleftrightarrow> sa_primitive_type a \<noteq> None \<and> sa_name a \<noteq> None"

text \<open>\<open>invalid_input\<close> turns a failed parse into \<^verbatim>\<open>ScaffoldError::InvalidInput\<close>.\<close>

definition invalid_input :: "(string, 'a) result \<Rightarrow> (scaffold_error, 'a) result" where
  "invalid_input r = (case r of Inl e \<Rightarrow> Err (InvalidInput e) | Inr x \<Rightarrow> Ok x)"

definition then_try :: "('e, 'a) result \<Rightarrow> ('a \<Rightarrow> ('e, 'b) result) \<Rightarrow> ('e, 'b) result" where
  "then_try r f = (case r of Inl e \<Rightarrow> Err e | Inr x \<Rightarrow> f x)"

definition listed :: "string option \<Rightarrow> string list" where
  "listed s = (case s of Some x \<Rightarrow> parse_comma_list x | None \<Rightarrow> [])"

definition build_from_args ::
  "(string \<Rightarrow> string) \<Rightarrow> (string \<Rightarrow> string) \<Rightarrow> scaffold_args \<Rightarrow> (scaffold_error, scaffold_request) result" where
  "build_from_args lower snake a =
     then_try (case sa_language a of Some s \<Rightarrow> invalid_input (language_from_str lower s) | None \<Rightarrow> Ok Rust) (\<lambda>language.
     then_try (case sa_primitive_type a of
         Some s \<Rightarrow> invalid_input (primitive_type_from_str lower s) | None \<Rightarrow> Err (InvalidInput ''--type is required'')) (\<lambda>ty.
     then_try (case sa_name a of Some n \<Rightarrow> Ok n | None \<Rightarrow> Err (InvalidInput ''--name is required'')) (\<lambda>name.
     then_try (invalid_input (validate_name snake name)) (\<lambda>_.
     Ok \<lparr> sr_language = language, sr_name = name, sr_primitive_type = ty,
          sr_subscribes = listed (sa_subscribes a), sr_publishes = listed (sa_publishes a),
          sr_description = (case sa_description a of Some d \<Rightarrow> d | None \<Rightarrow> ''A '' @ primitive_type_as_str ty @ '' primitive''),
          sr_output_dir = (case sa_output a of Some d \<Rightarrow> d | None \<Rightarrow> ''./'' @ name),
          sr_dry_run = sa_dry_run a, sr_json_output = sa_json a \<rparr>))))"

text \<open>
  The prompts: \<open>dg_select\<close> yields the index chosen, \<open>dg_input\<close> the text entered for a prompt with a default. The
  prompt for the name asks again until its validator accepts.
\<close>

record dialogue =
  dg_select :: "string \<Rightarrow> (string, nat) result"
  dg_input :: "string \<Rightarrow> string \<Rightarrow> (string, string) result"

definition prompted :: "(string, 'a) result \<Rightarrow> (scaffold_error, 'a) result" where
  "prompted r = (case r of Inl e \<Rightarrow> Err (DialoguerError e) | Inr x \<Rightarrow> Ok x)"

definition type_purpose :: "primitive_type \<Rightarrow> string" where
  "type_purpose t = (case t of
      SourceType \<Rightarrow> ''emits events'' | HandlerType \<Rightarrow> ''transforms events'' | SinkType \<Rightarrow> ''consumes events'')"

definition choose_language :: "(string \<Rightarrow> string) \<Rightarrow> dialogue \<Rightarrow> scaffold_args \<Rightarrow> (scaffold_error, language) result" where
  "choose_language lower dg a = (case sa_language a of
      Some s \<Rightarrow> invalid_input (language_from_str lower s)
    | None \<Rightarrow> then_try (prompted (dg_select dg ''Select language'')) (\<lambda>i.
        Ok (if i = 1 then TypeScript else if i = 2 then Python else Rust)))"

definition choose_type :: "(string \<Rightarrow> string) \<Rightarrow> dialogue \<Rightarrow> scaffold_args \<Rightarrow> (scaffold_error, primitive_type) result" where
  "choose_type lower dg a = (case sa_primitive_type a of
      Some s \<Rightarrow> invalid_input (primitive_type_from_str lower s)
    | None \<Rightarrow> then_try (prompted (dg_select dg ''Select primitive type'')) (\<lambda>i.
        Ok (if i = 1 then HandlerType else if i = 2 then SinkType else SourceType)))"

definition choose_name :: "(string \<Rightarrow> string) \<Rightarrow> dialogue \<Rightarrow> scaffold_args \<Rightarrow> primitive_type \<Rightarrow> (scaffold_error, string) result" where
  "choose_name snake dg a ty = (case sa_name a of
      Some n \<Rightarrow> then_try (invalid_input (validate_name snake n)) (\<lambda>_. Ok n)
    | None \<Rightarrow> prompted (dg_input dg ''Primitive name (snake_case)'' (''my_'' @ primitive_type_as_str ty)))"

definition entered :: "dialogue \<Rightarrow> string \<Rightarrow> string \<Rightarrow> string option \<Rightarrow> (scaffold_error, string) result" where
  "entered dg prompt fallback given = (case given of Some s \<Rightarrow> Ok s | None \<Rightarrow> prompted (dg_input dg prompt fallback))"

definition run_wizard ::
  "(string \<Rightarrow> string) \<Rightarrow> (string \<Rightarrow> string) \<Rightarrow> dialogue \<Rightarrow> scaffold_args \<Rightarrow> (scaffold_error, scaffold_request) result" where
  "run_wizard lower snake dg a =
     then_try (choose_language lower dg a) (\<lambda>language.
     then_try (choose_type lower dg a) (\<lambda>ty.
     then_try (choose_name snake dg a ty) (\<lambda>name.
     then_try (entered dg ''Description'' (''A '' @ primitive_type_as_str ty @ '' that '' @ type_purpose ty) (sa_description a)) (\<lambda>description.
     then_try (if ty = SourceType then Ok []
       else then_try (entered dg ''Message types to subscribe (comma-separated)'' ''timer.tick'' (sa_subscribes a))
         (\<lambda>s. Ok (parse_comma_list s))) (\<lambda>subscribes.
     then_try (if ty = SinkType then Ok []
       else then_try (entered dg ''Message types to publish (comma-separated)'' (name @ ''.output'') (sa_publishes a))
         (\<lambda>s. Ok (parse_comma_list s))) (\<lambda>publishes.
     then_try (entered dg ''Output directory'' (''./'' @ name) (sa_output a)) (\<lambda>output_dir.
     Ok \<lparr> sr_language = language, sr_name = name, sr_primitive_type = ty, sr_subscribes = subscribes,
          sr_publishes = publishes, sr_description = description, sr_output_dir = output_dir,
          sr_dry_run = sa_dry_run a, sr_json_output = sa_json a \<rparr>)))))))"

section \<open>The requirement on the SDK\<close>

definition numeric :: "string \<Rightarrow> bool" where
  "numeric s \<longleftrightarrow> s \<noteq> [] \<and> list_all is_ascii_digit s"

definition release_major_minor :: "string \<Rightarrow> string option" where
  "release_major_minor version = (case split_on (CHR ''.'') version of
      [major, minor, patch] \<Rightarrow>
        if numeric major \<and> numeric minor \<and> numeric patch
        then Some (take (length major + 1 + length minor) version) else None
    | _ \<Rightarrow> None)"

definition cargo_requirement :: "string \<Rightarrow> string" where
  "cargo_requirement version = (case release_major_minor version of Some r \<Rightarrow> r | None \<Rightarrow> version)"

definition python_requirement :: "string \<Rightarrow> string" where
  "python_requirement version = (if release_major_minor version \<noteq> None then ''~='' @ version else ''=='' @ version)"

definition jsr_requirement :: "string \<Rightarrow> string" where
  "jsr_requirement version = (if release_major_minor version \<noteq> None then ''^'' @ version else version)"

definition sdk_requirement :: "language \<Rightarrow> string \<Rightarrow> string" where
  "sdk_requirement l version = (case l of
      Rust \<Rightarrow> cargo_requirement version | Python \<Rightarrow> python_requirement version | TypeScript \<Rightarrow> jsr_requirement version)"

section \<open>Templates\<close>

record template_context =
  tc_name :: string
  tc_name_snake :: string
  tc_name_pascal :: string
  tc_primitive_type :: string
  tc_subscribes :: "string list"
  tc_publishes :: "string list"
  tc_description :: string
  tc_sdk_requirement :: string

definition build_template_context ::
  "(string \<Rightarrow> string) \<Rightarrow> (string \<Rightarrow> string) \<Rightarrow> string \<Rightarrow> scaffold_request \<Rightarrow> template_context" where
  "build_template_context snake pascal sdk_version r =
     \<lparr> tc_name = sr_name r, tc_name_snake = snake (sr_name r), tc_name_pascal = pascal (sr_name r),
       tc_primitive_type = primitive_type_as_str (sr_primitive_type r), tc_subscribes = sr_subscribes r,
       tc_publishes = sr_publishes r, tc_description = sr_description r,
       tc_sdk_requirement = sdk_requirement (sr_language r) sdk_version \<rparr>"

text \<open>
  The registry lists the same files for every type of primitive of a language and has a template for each of them;
  \<open>bodies\<close> are the embedded template files.
\<close>

definition files_for :: "language \<Rightarrow> primitive_type \<Rightarrow> string list" where
  "files_for l t = (case l of
      Rust \<Rightarrow> [''Cargo.toml'', ''src/main.rs'']
    | TypeScript \<Rightarrow> [''deno.json'', ''main.ts'']
    | Python \<Rightarrow> [''pyproject.toml'', ''main.py''])"

definition template_get :: "(language \<Rightarrow> primitive_type \<Rightarrow> string \<Rightarrow> string) \<Rightarrow> language \<Rightarrow> primitive_type \<Rightarrow> string \<Rightarrow> string option" where
  "template_get bodies l t f = (if f \<in> set (files_for l t) then Some (bodies l t f) else None)"

text \<open>The template package parses and renders; the errors are prefixed.\<close>

record template_engine =
  te_parse :: "string \<Rightarrow> string option"
  te_render :: "string \<Rightarrow> template_context \<Rightarrow> (string, string) result"

definition render_template :: "template_engine \<Rightarrow> string \<Rightarrow> template_context \<Rightarrow> (string, string) result" where
  "render_template te body ctx = (case te_parse te body of
      Some e \<Rightarrow> Err (''Failed to parse template: '' @ e)
    | None \<Rightarrow> (case te_render te body ctx of
          Inl e \<Rightarrow> Err (''Failed to render template: '' @ e) | Inr s \<Rightarrow> Ok s))"

section \<open>The handler: rendering\<close>

record template_failure =
  tf_file :: string
  tf_reason :: string

definition template_failure_text :: "template_failure \<Rightarrow> string" where
  "template_failure_text f = tf_file f @ '' ('' @ tf_reason f @ '')''"

definition scaffold_error_of :: "usize \<Rightarrow> string list \<Rightarrow> template_failure list \<Rightarrow> string option" where
  "scaffold_error_of expected written failures =
     (if failures \<noteq> [] then
        Some (''scaffold failed for '' @ show_nat (length failures) @ '' of '' @ show_nat expected @ '' file(s): ''
          @ join_with '', '' (map template_failure_text failures))
      else if length written < expected then
        Some (''scaffold wrote '' @ show_nat (length written) @ '' of '' @ show_nat expected @ '' file(s)'')
      else None)"

record template_rendered =
  tr_file_path :: string
  tr_content :: string
  tr_file_index :: usize
  tr_total_files :: usize

record all_rendered =
  ar_total_files :: usize
  ar_files :: "string list"
  ar_failures :: "template_failure list"

text \<open>The loop of the handler: the messages broadcast, the files rendered and the failures, in order.\<close>

fun render_each ::
  "(string \<Rightarrow> string option) \<Rightarrow> (string \<Rightarrow> (string, string) result) \<Rightarrow> usize \<Rightarrow> usize \<Rightarrow> string list
     \<Rightarrow> template_rendered list \<times> string list \<times> template_failure list" where
  "render_each get render count i [] = ([], [], [])"
| "render_each get render count i (f # fs) =
     (let (ms, done, failed) = render_each get render count (Suc i) fs
      in case get f of
           None \<Rightarrow> (ms, done, \<lparr> tf_file = f, tf_reason = ''template not found'' \<rparr> # failed)
         | Some body \<Rightarrow> (case render body of
               Inr content \<Rightarrow> (\<lparr> tr_file_path = f, tr_content = content, tr_file_index = i, tr_total_files = count \<rparr> # ms, f # done, failed)
             | Inl e \<Rightarrow> (ms, done, \<lparr> tf_file = f, tf_reason = e \<rparr> # failed)))"

record scaffold_tools =
  st_lower :: "string \<Rightarrow> string"
  st_snake :: "string \<Rightarrow> string"
  st_pascal :: "string \<Rightarrow> string"
  st_sdk_version :: string
  st_bodies :: "language \<Rightarrow> primitive_type \<Rightarrow> string \<Rightarrow> string"
  st_engine :: template_engine
  st_which :: "string \<Rightarrow> string option"
  st_show_json :: "json \<Rightarrow> string"

definition on_scaffold_request :: "scaffold_tools \<Rightarrow> scaffold_request \<Rightarrow> template_rendered list \<times> all_rendered" where
  "on_scaffold_request tools r =
     (let ctx = build_template_context (st_snake tools) (st_pascal tools) (st_sdk_version tools) r;
          files = files_for (sr_language r) (sr_primitive_type r);
          none = (if files = [] then [\<lparr> tf_file = language_as_str (sr_language r) @ '' '' @ primitive_type_as_str (sr_primitive_type r),
             tf_reason = ''no templates are registered for this language and primitive type'' \<rparr>] else []);
          (ms, done, failed) = render_each (template_get (st_bodies tools) (sr_language r) (sr_primitive_type r))
             (\<lambda>body. render_template (st_engine tools) body ctx) (length files) 0 files
      in (ms, \<lparr> ar_total_files = length files, ar_files = done, ar_failures = none @ failed \<rparr>))"

section \<open>The sink: writing\<close>

record file_writer =
  fw_files_written :: "string list"
  fw_write_failures :: "template_failure list"

definition io_error_text :: "market_error \<Rightarrow> string" where
  "io_error_text e = (case e of Io t \<Rightarrow> t | _ \<Rightarrow> market_error_text e)"

definition path_parent :: "string \<Rightarrow> string" where
  "path_parent p = (case rev (split_on (CHR ''/'') p) of [] \<Rightarrow> [] | _ # ds \<Rightarrow> join_with ''/'' (rev ds))"

definition file_action :: "scaffold_tools \<Rightarrow> string \<Rightarrow> string \<Rightarrow> string \<Rightarrow> string" where
  "file_action tools action full content = st_show_json tools
     (JObject [(''action'', JString action), (''file'', JString full), (''size'', JInt (int (length content)))])"

definition on_template_rendered ::
  "market_env \<Rightarrow> scaffold_tools \<Rightarrow> scaffold_request \<Rightarrow> template_rendered \<Rightarrow> file_writer \<times> market_world \<Rightarrow> file_writer \<times> market_world" where
  "on_template_rendered env tools r m s = (case s of (fw, w) \<Rightarrow>
     (let full = path_join (sr_output_dir r) (tr_file_path m); content = tr_content m;
          keep = fw\<lparr> fw_files_written := fw_files_written fw @ [tr_file_path m] \<rparr>;
          lose = (\<lambda>reason. fw\<lparr> fw_write_failures := fw_write_failures fw @ [\<lparr> tf_file = tr_file_path m, tf_reason = reason \<rparr>] \<rparr>)
      in if sr_dry_run r then
           (keep, w\<lparr> mw_out := mw_out w @ (if sr_json_output r then [file_action tools ''preview'' full content]
              else [''Would create: '' @ full, ''--- '' @ tr_file_path m @ '' ---'', content, ''---'']) \<rparr>)
         else (case fs_touch env w of
             (Inl e, w) \<Rightarrow> (lose (''failed to create directory '' @ path_parent full @ '': '' @ io_error_text e), w)
           | (Inr _, w) \<Rightarrow> (case fs_write env full content w of
                 (Inl e, w) \<Rightarrow> (lose (''failed to write '' @ full @ '': '' @ io_error_text e), w)
               | (Inr _, w) \<Rightarrow> (keep, w\<lparr> mw_out := mw_out w @ [if sr_json_output r then file_action tools ''created'' full content
                    else ''Created: '' @ full] \<rparr>)))))"

record scaffold_complete =
  sc_files_written :: "string list"
  sc_output_dir :: string
  sc_success :: bool
  sc_error :: "string option"
  sc_dry_run :: bool

definition resolve_interpreter_path :: "scaffold_tools \<Rightarrow> string \<Rightarrow> string" where
  "resolve_interpreter_path tools command = (case st_which tools command of Some p \<Rightarrow> p | None \<Rightarrow> command)"

definition in_quotes :: "string \<Rightarrow> string" where
  "in_quotes s = CHR 0x22 # s @ [CHR 0x22]"

definition toml_list :: "string list \<Rightarrow> string" where
  "toml_list xs = ''['' @ join_with '', '' (map in_quotes xs) @ '']''"

definition config_snippet_lines :: "scaffold_tools \<Rightarrow> scaffold_request \<Rightarrow> string list" where
  "config_snippet_lines tools r =
     (let section = (case sr_primitive_type r of SourceType \<Rightarrow> ''sources'' | HandlerType \<Rightarrow> ''handlers'' | SinkType \<Rightarrow> ''sinks'');
          dir = sr_output_dir r;
          (path, args) = (case sr_language r of
              Rust \<Rightarrow> (''./target/release/'' @ sr_name r, toml_list [])
            | Python \<Rightarrow> (resolve_interpreter_path tools ''uv'', toml_list [''run'', ''--project'', dir, ''python'', dir @ ''/main.py''])
            | TypeScript \<Rightarrow> (resolve_interpreter_path tools ''deno'',
                toml_list [''run'', ''--allow-env'', ''--allow-read'', ''--allow-net=unix'', dir @ ''/main.ts'']))
      in [''[['' @ section @ '']]'', ''name = '' @ in_quotes (sr_name r), ''path = '' @ in_quotes path, ''args = '' @ args, ''enabled = true'']
         @ (if sr_subscribes r = [] then [] else [''subscribes = '' @ toml_list (sr_subscribes r)])
         @ (if sr_publishes r = [] then [] else [''publishes = '' @ toml_list (sr_publishes r)]))"

definition format_config_snippet :: "scaffold_tools \<Rightarrow> scaffold_request \<Rightarrow> string" where
  "format_config_snippet tools r = join_with [CHR 0x0A] (config_snippet_lines tools r)"

definition next_steps :: "scaffold_tools \<Rightarrow> scaffold_request \<Rightarrow> string list" where
  "next_steps tools r =
     ['''', ''Next steps:'', ''  1. Build your primitive:'', ''     cd '' @ sr_output_dir r,
      (case sr_language r of
         Rust \<Rightarrow> ''     cargo build --release''
       | Python \<Rightarrow> ''     uv sync        # or: pip install -e .''
       | TypeScript \<Rightarrow> ''     deno install    # pre-resolve dependencies and generate lockfile''),
      ''  2. Create a config file (if you don't have one):'', ''     emergent init'', ''  3. Add to your emergent.toml:'']
     @ map (\<lambda>l. ''     '' @ l) (text_lines (format_config_snippet tools r))
     @ [''  4. Start the engine:'', ''     emergent --config ./emergent.toml'']"

definition complete_json :: "scaffold_request \<Rightarrow> all_rendered \<Rightarrow> template_failure list \<Rightarrow> string option \<Rightarrow> json" where
  "complete_json r m failures error = JObject
     [(''action'', JString (if sr_dry_run r then ''preview_complete'' else ''scaffold_complete'')),
      (''files'', JArray (map JString (ar_files m))), (''output_dir'', JString (sr_output_dir r)), (''success'', JBool (error = None)),
      (''failures'', JArray (map (\<lambda>f. JObject [(''file'', JString (tf_file f)), (''reason'', JString (tf_reason f))]) failures)),
      (''error'', case error of Some e \<Rightarrow> JString e | None \<Rightarrow> JNull)]"

definition on_all_rendered ::
  "scaffold_tools \<Rightarrow> scaffold_request \<Rightarrow> all_rendered \<Rightarrow> file_writer \<times> market_world \<Rightarrow> scaffold_complete \<times> file_writer \<times> market_world" where
  "on_all_rendered tools r m s = (case s of (fw, w) \<Rightarrow>
     (let failures = ar_failures m @ fw_write_failures fw;
          error = scaffold_error_of (ar_total_files m) (ar_files m) failures;
          made = show_nat (length (ar_files m)) @ '' file(s) '';
          w = (if sr_json_output r then w\<lparr> mw_out := mw_out w @ [st_show_json tools (complete_json r m failures error)] \<rparr>
            else if error \<noteq> None then w\<lparr> mw_log := mw_log w @ ['''', ''The '' @ (if sr_dry_run r then ''preview'' else ''generated primitive'')
                @ '' in '' @ sr_output_dir r @ '' is incomplete.''] \<rparr>
            else if sr_dry_run r then w\<lparr> mw_out := mw_out w @ ['''', ''Dry run complete. '' @ made @ ''would be created in '' @ sr_output_dir r] \<rparr>
            else w\<lparr> mw_out := mw_out w @ ['''', ''Scaffold complete! '' @ made @ ''created in '' @ sr_output_dir r] @ next_steps tools r \<rparr>)
      in (\<lparr> sc_files_written = ar_files m, sc_output_dir = sr_output_dir r, sc_success = (error = None), sc_error = error,
            sc_dry_run = sr_dry_run r \<rparr>, fw\<lparr> fw_write_failures := [] \<rparr>, w)))"

section \<open>The run\<close>

definition file_writer_start :: file_writer where
  "file_writer_start = \<lparr> fw_files_written = [], fw_write_failures = [] \<rparr>"

definition scaffold_files :: "market_env \<Rightarrow> scaffold_tools \<Rightarrow> scaffold_request \<Rightarrow> market_world \<Rightarrow> scaffold_complete \<times> market_world" where
  "scaffold_files env tools r w =
     (let (ms, m) = on_scaffold_request tools r;
          (c, fw, w) = on_all_rendered tools r m (foldl (\<lambda>s m. on_template_rendered env tools r m s) (file_writer_start, w) ms)
      in (c, w))"

text \<open>The source: the request it makes of the arguments or of the dialogue, or why the run ends before any template.\<close>

datatype source_message = ScaffoldRequestMessage scaffold_request | ScaffoldAborted string bool

definition on_start_scaffold :: "scaffold_tools \<Rightarrow> dialogue \<Rightarrow> scaffold_args \<Rightarrow> market_world \<Rightarrow> source_message \<times> market_world" where
  "on_start_scaffold tools dg a w =
     (case (if has_required_args a then build_from_args (st_lower tools) (st_snake tools) a
            else run_wizard (st_lower tools) (st_snake tools) dg a) of
        Inr r \<Rightarrow> (ScaffoldRequestMessage r, w)
      | Inl e \<Rightarrow> if e = Cancelled then (ScaffoldAborted ''scaffold cancelled'' True, w\<lparr> mw_log := mw_log w @ [''Scaffold cancelled.''] \<rparr>)
          else (ScaffoldAborted (scaffold_error_text e) False, w))"

text \<open>
  The command waits half a minute for the result. \<open>scaffold_wait\<close> is how the wait ends: a result in time, the
  channel closed, or the deadline.
\<close>

datatype scaffold_wait = Reported | ChannelClosed | TimedOut

definition run_scaffold ::
  "market_env \<Rightarrow> scaffold_tools \<Rightarrow> dialogue \<Rightarrow> scaffold_wait \<Rightarrow> scaffold_args \<Rightarrow> market_world \<Rightarrow> (string, unit) result \<times> market_world" where
  "run_scaffold env tools dg wait a w =
     (let (outcome, w) = (case on_start_scaffold tools dg a w of
             (ScaffoldRequestMessage r, w) \<Rightarrow> (case scaffold_files env tools r w of
                 (c, w) \<Rightarrow> ((case sc_error c of Some e \<Rightarrow> Err e | None \<Rightarrow> Ok ()), w))
           | (ScaffoldAborted reason cancelled, w) \<Rightarrow> (if cancelled then Ok () else Err reason, w))
      in case wait of
           Reported \<Rightarrow> (outcome, w)
         | ChannelClosed \<Rightarrow> (Err ''the scaffold workflow ended before reporting a result'', w)
         | TimedOut \<Rightarrow> (Err ''the scaffold workflow timed out after 30 seconds'', w))"

section \<open>A starter configuration\<close>

record init_args =
  ia_name :: "string option"
  ia_output :: string
  ia_force :: bool
  ia_dry_run :: bool

text \<open>
  \<open>overwrite\<close> is the answer to the prompt, \<open>None\<close> without a terminal; \<open>engine_name\<close> likewise. \<open>render\<close> is the
  rendered template for a name. Errors are texts. A directory is there when a file is under it.
\<close>

definition init_execute ::
  "market_env \<Rightarrow> (string, bool) result option \<Rightarrow> (string, string) result option \<Rightarrow> (string \<Rightarrow> (string, string) result) \<Rightarrow> init_args
     \<Rightarrow> market_world \<Rightarrow> (string, unit) result \<times> market_world" where
  "init_execute env overwrite engine_name render a w =
     (case (if exists_path w (ia_output a) \<and> \<not> ia_force a \<and> \<not> ia_dry_run a then
              (case overwrite of
                 Some (Inl e) \<Rightarrow> Some (''Prompt error: '' @ e)
               | Some (Inr False) \<Rightarrow> Some ''Aborted''
               | Some (Inr True) \<Rightarrow> None
               | None \<Rightarrow> Some (ia_output a @ '' already exists. Use --force to overwrite.''))
            else None) of
        Some e \<Rightarrow> (Err e, w)
      | None \<Rightarrow>
         (case (case ia_name a of Some n \<Rightarrow> Ok n | None \<Rightarrow> (case engine_name of
              Some (Inr n) \<Rightarrow> Ok n | Some (Inl e) \<Rightarrow> Err (''Prompt error: '' @ e) | None \<Rightarrow> Ok ''emergent'')) of
            Inl e \<Rightarrow> (Err e, w)
          | Inr name \<Rightarrow> (case render name of
                Inl e \<Rightarrow> (Err (''Template error: '' @ e), w)
              | Inr content \<Rightarrow>
                  if ia_dry_run a then (Ok (), w\<lparr> mw_out := mw_out w @ [content] \<rparr>)
                  else (case (if path_parent (ia_output a) \<noteq> [] \<and> \<not> exists_path w (path_parent (ia_output a)) then fs_touch env w else (Ok (), w)) of
                      (Inl e, w) \<Rightarrow> (Err (io_error_text e), w)
                    | (Inr _, w) \<Rightarrow> (case fs_write env (ia_output a) content w of
                          (Inl e, w) \<Rightarrow> (Err (io_error_text e), w)
                        | (Inr _, w) \<Rightarrow> (Ok (), w\<lparr> mw_log := mw_log w @ [''Created '' @ ia_output a, '''', ''Next steps:'',
                             ''  1. Add primitives to your config:'', ''     emergent scaffold'', ''  2. Start the engine:'',
                             ''     emergent --config '' @ ia_output a] \<rparr>))))))"

section \<open>What a run leaves on disk\<close>

definition full_path :: "scaffold_request \<Rightarrow> template_rendered \<Rightarrow> string" where
  "full_path r m = path_join (sr_output_dir r) (tr_file_path m)"

lemma on_template_rendered_cases:
  assumes "\<not> sr_dry_run r" "on_template_rendered env tools r m (fw, w) = (fw', w')"
  obtains (written) "fw_write_failures fw' = fw_write_failures fw" "file_get w' (full_path r m) = Some (tr_content m)"
      "\<And>p. p \<noteq> full_path r m \<Longrightarrow> file_get w' p = file_get w p"
  | (failed) reason where "\<not> faultless env"
      "fw_write_failures fw' = fw_write_failures fw @ [\<lparr> tf_file = tr_file_path m, tf_reason = reason \<rparr>]"
proof (cases "me_fault env (mw_tick w) = None \<and> me_fault env (Suc (mw_tick w)) = None")
  case True
  then show ?thesis
    using assms by (intro written) (auto simp: on_template_rendered_def Let_def full_path_def fs_touch_def fs_write_def tick_def file_get_def
        file_put_def map_of_filter_key split: option.splits)
next
  case False
  then have "\<not> faultless env"
    by (auto simp: faultless_def)
  moreover have "\<exists>reason. fw_write_failures fw' = fw_write_failures fw @ [\<lparr> tf_file = tr_file_path m, tf_reason = reason \<rparr>]"
    using False assms by (auto simp: on_template_rendered_def Let_def fs_touch_def fs_write_def tick_def split: option.splits)
  ultimately show ?thesis
    using failed by blast
qed

lemma sink_fold:
  assumes "\<not> sr_dry_run r"
    and "foldl (\<lambda>s m. on_template_rendered env tools r m s) (fw, w) ms = (fw', w')" "distinct (map (full_path r) ms)"
  shows "\<exists>lost. fw_write_failures fw' = fw_write_failures fw @ lost
    \<and> (lost = [] \<longrightarrow> (\<forall>m \<in> set ms. file_get w' (full_path r m) = Some (tr_content m))
        \<and> (\<forall>p. p \<notin> full_path r ` set ms \<longrightarrow> file_get w' p = file_get w p))
    \<and> (faultless env \<longrightarrow> lost = [])"
  using assms(2,3)
proof (induction ms arbitrary: fw w)
  case (Cons m ms)
  obtain fw1 w1 where s: "on_template_rendered env tools r m (fw, w) = (fw1, w1)"
    by (cases "on_template_rendered env tools r m (fw, w)")
  then have "foldl (\<lambda>s m. on_template_rendered env tools r m s) (fw1, w1) ms = (fw', w')" "distinct (map (full_path r) ms)"
    using Cons.prems by simp_all
  from Cons.IH [OF this] obtain lost where ih: "fw_write_failures fw' = fw_write_failures fw1 @ lost"
    "lost = [] \<longrightarrow> (\<forall>m \<in> set ms. file_get w' (full_path r m) = Some (tr_content m))
      \<and> (\<forall>p. p \<notin> full_path r ` set ms \<longrightarrow> file_get w' p = file_get w1 p)" "faultless env \<longrightarrow> lost = []"
    by blast
  from assms(1) s show ?case
  proof (cases rule: on_template_rendered_cases)
    case written
    then show ?thesis
      using ih Cons.prems(2) by (intro exI [of _ lost]) auto
  next
    case (failed reason)
    then show ?thesis
      using ih by (intro exI [of _ "\<lparr> tf_file = tr_file_path m, tf_reason = reason \<rparr> # lost"]) auto
  qed
qed simp

text \<open>What becomes of a file, and the loop in terms of it.\<close>

definition render_outcome :: "(string \<Rightarrow> string option) \<Rightarrow> (string \<Rightarrow> (string, string) result) \<Rightarrow> string \<Rightarrow> (string, string) result" where
  "render_outcome get render f = (case get f of None \<Rightarrow> Err ''template not found'' | Some body \<Rightarrow> render body)"

lemma render_each_spec:
  "render_each get render count i fs = (ms, done, failed) \<Longrightarrow>
     done = filter (\<lambda>f. is_ok (render_outcome get render f)) fs \<and> map tr_file_path ms = done
     \<and> map tf_file failed = filter (\<lambda>f. \<not> is_ok (render_outcome get render f)) fs
     \<and> (\<forall>m \<in> set ms. render_outcome get render (tr_file_path m) = Ok (tr_content m))"
proof (induction fs arbitrary: i ms "done" failed)
  case (Cons f fs)
  obtain ms1 done1 failed1 where r: "render_each get render count (Suc i) fs = (ms1, done1, failed1)"
    by (cases "render_each get render count (Suc i) fs") auto
  from Cons.IH [OF r] Cons.prems r show ?case
    by (auto simp: render_outcome_def split: option.splits sum.splits)
qed simp

lemma files_for_plain:
  "distinct (files_for l t)" "files_for l t \<noteq> []" "list_all (\<lambda>f. \<not> starts_with f ''/'') (files_for l t)"
  by (cases l; simp add: files_for_def)+

lemma distinct_full_paths:
  assumes "distinct (map tr_file_path ms)" "\<forall>m \<in> set ms. \<not> starts_with (tr_file_path m) ''/''"
  shows "distinct (map (full_path r) ms)"
proof -
  have "map (full_path r) ms = map (\<lambda>f. dir_prefix (sr_output_dir r) @ f) (map tr_file_path ms)"
    using assms(2) by (simp add: full_path_def path_join_relative)
  then show ?thesis
    using assms(1) by (simp add: distinct_map inj_on_def)
qed

lemma contains_str_join: "x \<in> set xs \<Longrightarrow> contains_str x f \<Longrightarrow> contains_str (join_with sep xs) f"
proof (induction sep xs rule: join_with.induct)
  case (3 sep w v ws)
  have app: "contains_str s f \<Longrightarrow> contains_str (a @ s @ b) f" for s a b
    unfolding contains_str_iff by (metis append.assoc)
  show ?case
  proof (cases "x = w")
    case True
    then show ?thesis
      using 3(3) app [of w "[]"] by simp
  next
    case False
    then show ?thesis
      using 3 app [of "join_with sep (v # ws)" "w @ sep" "[]"] by simp
  qed
qed auto

lemma contains_str_prefix: "contains_str s f \<Longrightarrow> contains_str (a @ s) f"
  unfolding contains_str_iff by (metis append.assoc)

lemma error_names_failures:
  assumes "scaffold_error_of n ws failures = Some e" and "t \<in> set failures"
  shows "contains_str e (tf_file t)"
proof -
  have "contains_str (template_failure_text t) (tf_file t)"
    by (auto simp: template_failure_text_def contains_str_iff intro: exI [of _ "[]"])
  then have "contains_str (join_with '', '' (map template_failure_text failures)) (tf_file t)"
    using assms(2) by (intro contains_str_join [of "template_failure_text t"]) auto
  moreover obtain before where "e = before @ join_with '', '' (map template_failure_text failures)"
    using assms by (auto simp: scaffold_error_of_def simp flip: append.assoc split: if_splits)
  ultimately show ?thesis
    by (simp add: contains_str_prefix)
qed

section \<open>Properties\<close>

text \<open>The outcome of rendering one file of a request.\<close>

definition file_outcome :: "scaffold_tools \<Rightarrow> scaffold_request \<Rightarrow> string \<Rightarrow> (string, string) result" where
  "file_outcome tools r f = render_template (st_engine tools) (st_bodies tools (sr_language r) (sr_primitive_type r) f)
     (build_template_context (st_snake tools) (st_pascal tools) (st_sdk_version tools) r)"

lemma on_scaffold_request_spec:
  assumes "on_scaffold_request tools r = (ms, m)"
  shows "ar_total_files m = length (files_for (sr_language r) (sr_primitive_type r))"
    and "ar_files m = filter (\<lambda>f. is_ok (file_outcome tools r f)) (files_for (sr_language r) (sr_primitive_type r))"
    and "map tr_file_path ms = ar_files m"
    and "map tf_file (ar_failures m) = filter (\<lambda>f. \<not> is_ok (file_outcome tools r f)) (files_for (sr_language r) (sr_primitive_type r))"
    and "\<forall>t \<in> set ms. file_outcome tools r (tr_file_path t) = Ok (tr_content t)"
proof -
  let ?fs = "files_for (sr_language r) (sr_primitive_type r)"
  let ?get = "template_get (st_bodies tools) (sr_language r) (sr_primitive_type r)"
  let ?render = "\<lambda>body. render_template (st_engine tools) body
    (build_template_context (st_snake tools) (st_pascal tools) (st_sdk_version tools) r)"
  obtain rendered failed where e: "render_each ?get ?render (length ?fs) 0 ?fs = (ms, rendered, failed)"
    and m: "m = \<lparr> ar_total_files = length ?fs, ar_files = rendered, ar_failures = failed \<rparr>"
    using assms files_for_plain(2) by (auto simp: on_scaffold_request_def Let_def split: prod.splits)
  have o: "render_outcome ?get ?render f = file_outcome tools r f" if "f \<in> set ?fs" for f
    using that by (simp add: render_outcome_def template_get_def file_outcome_def)
  note spec = render_each_spec [OF e]
  then have sub: "tr_file_path t \<in> set ?fs" if "t \<in> set ms" for t
    using that by (metis (no_types, lifting) filter_is_subset image_eqI list.set_map subsetD)
  show "ar_total_files m = length ?fs" "map tr_file_path ms = ar_files m"
    using spec by (simp_all add: m)
  show "ar_files m = filter (\<lambda>f. is_ok (file_outcome tools r f)) ?fs"
    "map tf_file (ar_failures m) = filter (\<lambda>f. \<not> is_ok (file_outcome tools r f)) ?fs"
    using spec o by (simp_all add: m cong: filter_cong)
  show "\<forall>t \<in> set ms. file_outcome tools r (tr_file_path t) = Ok (tr_content t)"
    using spec o sub by auto
qed

lemma dry_run_writes_nothing:
  assumes "sr_dry_run r" "scaffold_files env tools r w = (c, w')"
  shows "file_get w' p = file_get w p"
proof -
  obtain ms m where h: "on_scaffold_request tools r = (ms, m)"
    by (cases "on_scaffold_request tools r")
  have "file_get (snd (foldl (\<lambda>s m. on_template_rendered env tools r m s) (fw0, w0) ms)) p = file_get w0 p" for fw0 w0
    using assms(1) by (induction ms arbitrary: fw0 w0) (auto simp: on_template_rendered_def Let_def split: prod.split)
  from this [of file_writer_start w] show ?thesis
    using assms h by (auto simp: scaffold_files_def on_all_rendered_def Let_def split: if_splits prod.splits)
qed

text \<open>A run that writes: the failures of the handler and those of the sink decide, and nothing lost means everything written.\<close>

lemma writing_run:
  assumes "\<not> sr_dry_run r" "scaffold_files env tools r w = (c, w')" "on_scaffold_request tools r = (ms, m)"
  obtains lost where "sc_error c = scaffold_error_of (ar_total_files m) (ar_files m) (ar_failures m @ lost)"
    "faultless env \<longrightarrow> lost = []" "lost = [] \<longrightarrow> (\<forall>t \<in> set ms. file_get w' (full_path r t) = Some (tr_content t))"
proof -
  note spec = on_scaffold_request_spec [OF assms(3)]
  obtain fw w1 where f: "foldl (\<lambda>s m. on_template_rendered env tools r m s) (file_writer_start, w) ms = (fw, w1)"
    by (cases "foldl (\<lambda>s m. on_template_rendered env tools r m s) (file_writer_start, w) ms")
  have "tr_file_path ` set ms \<subseteq> set (files_for (sr_language r) (sr_primitive_type r))"
    using spec(2) by (simp flip: list.set_map add: spec(3))
  then have "\<forall>t \<in> set ms. \<not> starts_with (tr_file_path t) ''/''"
    using files_for_plain(3) [of "sr_language r" "sr_primitive_type r"] by (auto simp: list_all_iff)
  then have d: "distinct (map (full_path r) ms)"
    using spec(2,3) files_for_plain(1) by (intro distinct_full_paths) auto
  have "sc_error c = scaffold_error_of (ar_total_files m) (ar_files m) (ar_failures m @ fw_write_failures fw)"
    "\<And>p. file_get w' p = file_get w1 p"
    using assms(2,3) f by (auto simp: scaffold_files_def on_all_rendered_def Let_def split: if_splits)
  then show ?thesis
    using sink_fold [OF assms(1) f d] by (intro that [of "fw_write_failures fw"]) (auto simp: file_writer_start_def)
qed

lemma run_error_iff:
  assumes "on_scaffold_request tools r = (ms, m)"
  shows "scaffold_error_of (ar_total_files m) (ar_files m) (ar_failures m @ lost) = None
    \<longleftrightarrow> list_all (\<lambda>f. is_ok (file_outcome tools r f)) (files_for (sr_language r) (sr_primitive_type r)) \<and> lost = []"
proof -
  note spec = on_scaffold_request_spec [OF assms]
  have "ar_failures m = [] \<longleftrightarrow> list_all (\<lambda>f. is_ok (file_outcome tools r f)) (files_for (sr_language r) (sr_primitive_type r))"
    using spec(4) by (auto simp: list_all_iff filter_empty_conv dest: arg_cong [of _ _ length])
  then show ?thesis
    using spec(1,2) by (auto simp: scaffold_error_of_def list_all_iff filter_id_conv [THEN iffD2])
qed

text \<open>
  C31. A scaffold run is complete or it fails. If a run that writes files reports no error, every file of the
  requested language and type is on disk under the output directory with exactly the rendered content;
  if some file did not render, the run fails with an error that names it; and when every template renders and
  no file operation fails, the run succeeds. A dry run changes no file.
\<close>

theorem scaffold_complete_or_fails:
  assumes "scaffold_files env tools r w = (c, w')"
  shows "if sr_dry_run r then \<forall>p. file_get w' p = file_get w p
    else let files = files_for (sr_language r) (sr_primitive_type r) in
      (sc_error c = None \<longrightarrow> (\<forall>f \<in> set files. \<exists>content. file_outcome tools r f = Ok content
          \<and> file_get w' (path_join (sr_output_dir r) f) = Some content))
      \<and> (\<forall>f \<in> set files. \<not> is_ok (file_outcome tools r f) \<longrightarrow> (\<exists>e. sc_error c = Some e \<and> contains_str e f))
      \<and> (faultless env \<and> list_all (\<lambda>f. is_ok (file_outcome tools r f)) files \<longrightarrow> sc_error c = None)"
proof (cases "sr_dry_run r")
  case True
  then show ?thesis
    using dry_run_writes_nothing assms by simp
next
  case False
  let ?files = "files_for (sr_language r) (sr_primitive_type r)"
  obtain ms m where h: "on_scaffold_request tools r = (ms, m)"
    by (cases "on_scaffold_request tools r")
  note spec = on_scaffold_request_spec [OF h]
  obtain lost where e: "sc_error c = scaffold_error_of (ar_total_files m) (ar_files m) (ar_failures m @ lost)"
    and lost: "faultless env \<longrightarrow> lost = []" "lost = [] \<longrightarrow> (\<forall>t \<in> set ms. file_get w' (full_path r t) = Some (tr_content t))"
    by (rule writing_run [OF False assms h])
  have none: "sc_error c = None \<longleftrightarrow> list_all (\<lambda>f. is_ok (file_outcome tools r f)) ?files \<and> lost = []"
    by (simp add: e run_error_iff [OF h])
  have "\<exists>e. sc_error c = Some e \<and> contains_str e f" if f: "f \<in> set ?files" "\<not> is_ok (file_outcome tools r f)" for f
  proof -
    have "f \<in> set (map tf_file (ar_failures m))"
      using f spec(4) by simp
    then obtain t where t: "t \<in> set (ar_failures m @ lost)" "f = tf_file t"
      by auto
    obtain x where "sc_error c = Some x"
      using none f by (cases "sc_error c") (auto simp: list_all_iff)
    then show ?thesis
      using error_names_failures [OF _ t(1)] t(2) by (simp add: e)
  qed
  moreover have "\<exists>content. file_outcome tools r f = Ok content \<and> file_get w' (path_join (sr_output_dir r) f) = Some content"
    if "f \<in> set ?files" "sc_error c = None" for f
  proof -
    have "f \<in> set (map tr_file_path ms)"
      using that none spec(2,3) by (simp add: list_all_iff)
    then show ?thesis
      using spec(5) lost(2) that(2) none by (auto simp: full_path_def)
  qed
  ultimately show ?thesis
    using False lost(1) none by (auto simp: Let_def)
qed

definition demo_tools :: "string option \<Rightarrow> scaffold_tools" where
  "demo_tools broken = \<lparr> st_lower = id, st_snake = id, st_pascal = id, st_sdk_version = ''0.13.1'', st_bodies = (\<lambda>_ _ f. f),
     st_engine = \<lparr> te_parse = (\<lambda>body. if broken = Some body then Some ''bad'' else None), te_render = (\<lambda>body c. Ok (body @ tc_sdk_requirement c)) \<rparr>,
     st_which = (\<lambda>_. None), st_show_json = (\<lambda>_. ''{}'') \<rparr>"

definition demo_request :: scaffold_request where
  "demo_request = \<lparr> sr_language = Python, sr_name = ''p'', sr_primitive_type = SinkType, sr_subscribes = [''a''], sr_publishes = [],
     sr_description = ''d'', sr_output_dir = ''p'', sr_dry_run = False, sr_json_output = False \<rparr>"

theorem scaffold_complete_or_fails_witness:
  "sc_error (fst (scaffold_files (demo_env (SendFailed ''offline'')) (demo_tools None) demo_request empty_world)) = None
   \<and> file_get (snd (scaffold_files (demo_env (SendFailed ''offline'')) (demo_tools None) demo_request empty_world)) ''p/main.py'' = Some ''main.py~=0.13.1''
   \<and> (\<exists>e. sc_error (fst (scaffold_files (demo_env (SendFailed ''offline'')) (demo_tools (Some ''main.py'')) demo_request empty_world)) = Some e \<and> contains_str e ''main.py'')"
proof -
  note run = scaffold_complete_or_fails [OF surjective_pairing, where r = demo_request and env = "demo_env (SendFailed ''offline'')" and w = empty_world]
  have r: "\<not> sr_dry_run demo_request" "files_for (sr_language demo_request) (sr_primitive_type demo_request) = [''pyproject.toml'', ''main.py'']"
    "path_join (sr_output_dir demo_request) ''main.py'' = ''p/main.py''"
    by code_simp+
  have o: "file_outcome (demo_tools None) demo_request ''main.py'' = Ok ''main.py~=0.13.1''"
    "is_ok (file_outcome (demo_tools None) demo_request ''pyproject.toml'')"
    "\<not> is_ok (file_outcome (demo_tools (Some ''main.py'')) demo_request ''main.py'')"
    by code_simp+
  have f: "faultless (demo_env (SendFailed ''offline''))"
    by (simp add: faultless_def demo_env_def)
  show ?thesis
    using run [where tools = "demo_tools None"] run [where tools = "demo_tools (Some ''main.py'')"] r o f by (simp add: Let_def)
qed

text \<open>
  A name taken from the command line is one the engine accepts in a configuration, and a starter configuration
  replaces a file only with leave.
\<close>

lemma scaffolded_name_is_accepted:
  "build_from_args lower snake a = Ok r \<Longrightarrow> is_ok (PrimitiveName_new (sr_name r)) \<and> sa_name a = Some (sr_name r)"
  by (auto simp: build_from_args_def then_try_def invalid_input_def validate_name_def is_ok_def split: option.splits sum.splits if_splits)

lemma init_keeps_an_existing_file:
  assumes "exists_path w (ia_output a)" "\<not> ia_force a" "overwrite \<noteq> Some (Ok True)"
    and "init_execute env overwrite engine_name render a w = (r, w')"
  shows "file_get w' p = file_get w p"
proof (cases "ia_dry_run a")
  case True
  then show ?thesis
    using assms(4) by (auto simp: init_execute_def split: option.splits sum.splits)
next
  case False
  then show ?thesis
    using assms by (auto simp: init_execute_def split: option.splits sum.splits bool.splits)
qed

end
