(* ===== verification/Http_Api.thy ===== *)
theory Http_Api
  imports Engine_Main
begin

text \<open>
  The HTTP API of the engine (\<^verbatim>\<open>emergent-engine/src/main.rs\<close>, the server task of \<^verbatim>\<open>main\<close>): one route, the topology, behind
  the host guard of \<open>Api_Host\<close>. Routing and the HTTP protocol are the router library's; a request here is one the
  router gives to the route, with the \<^verbatim>\<open>Host\<close> values it carries (\<open>None\<close> for one that is no text) and the authority
  of its request line.
\<close>

section \<open>The server\<close>

record api_request =
  ar_host_values :: "string option list"
  ar_authority :: "string option"

datatype api_response = ApiTopology json | ApiMisdirected string

definition MISDIRECTED_BODY :: string where
  "MISDIRECTED_BODY = ''Misdirected Request: this server does not answer to the host name in the request. ''
     @ ''If the name is its own, list it in [engine].api_allowed_hosts.'' @ nl"

definition get_topology :: "pid \<Rightarrow> process_manager \<Rightarrow> json" where
  "get_topology engine_pid pm = topology_payload_json (build_topology_payload engine_pid (list_all_infos pm))"

definition api_respond :: "string list \<Rightarrow> pid \<Rightarrow> process_manager \<Rightarrow> api_request \<Rightarrow> api_response" where
  "api_respond allowed engine_pid pm r = (case guard_host allowed (ar_host_values r) (ar_authority r) of
      Answered \<Rightarrow> ApiTopology (get_topology engine_pid pm)
    | Misdirected421 \<Rightarrow> ApiMisdirected MISDIRECTED_BODY)"

text \<open>
  The task of the server: nothing with the port 0; otherwise an attempt to bind, what it logs, and the responder
  if it could.
\<close>

definition serve_api ::
  "(string \<Rightarrow> (string, unit) result) \<Rightarrow> (string \<Rightarrow> string option) \<Rightarrow> emergent_config
     \<Rightarrow> string list \<times> (pid \<Rightarrow> process_manager \<Rightarrow> api_request \<Rightarrow> api_response) option" where
  "serve_api bind_to url_host c =
     (let allowed = allowed_api_hosts url_host c;
          bind_addr = ''127.0.0.1:'' @ show_nat (unat (ec_api_port (cfg_engine c)))
      in if \<not> api_enabled (cfg_engine c) then ([''HTTP API server disabled (api_port = 0)''], None)
         else (case bind_to bind_addr of
             Inl e \<Rightarrow> ([''Failed to bind HTTP API server to '' @ bind_addr @ '': '' @ e
                 @ ''. Set api_port to a different value in [engine] config, or set api_port = 0 to disable the HTTP API.''], None)
           | Inr _ \<Rightarrow> ([''HTTP API server listening on http://'' @ bind_addr, ''HTTP API answers to: '' @ describe_allowed_hosts allowed],
               Some (api_respond allowed))))"

section \<open>The names the server answers to\<close>

lemma parse_allowed_hosts_from_is_ok:
  "list_all (\<lambda>v. is_ok (parse_allowed_host uh v)) vs \<Longrightarrow> is_ok (parse_allowed_hosts_from uh hosts vs)"
  by (induction vs arbitrary: hosts) (auto simp: is_ok_iff)

text \<open>In a valid configuration the fallback to no names is never taken.\<close>

lemma allowed_hosts_of_valid:
  assumes "is_ok (validate exists_at url_host c)"
  shows "set (allowed_api_hosts url_host c) =
    {h. \<exists>v \<in> set (ec_api_allowed_hosts (cfg_engine c)). parse_host_name url_host v = Some h}"
proof -
  have "list_all (\<lambda>v. is_ok (parse_allowed_host url_host v)) (ec_api_allowed_hosts (cfg_engine c))"
    using assms by (simp add: config_check.passes_iff issues_def Let_def issues_Nil_iffs)
  then obtain hs where "parse_allowed_hosts_from url_host [] (ec_api_allowed_hosts (cfg_engine c)) = Ok hs"
    using parse_allowed_hosts_from_is_ok [of url_host "ec_api_allowed_hosts (cfg_engine c)" "[]"] by (auto simp: is_ok_iff)
  then show ?thesis
    using parse_allowed_hosts_from_Ok by (simp add: allowed_api_hosts_def parse_allowed_hosts_def)
qed

section \<open>Properties\<close>

text \<open>
  C17. The HTTP API and the bus agree, and the API answers only to its own names. With a valid configuration the
  server gives the topology exactly to the requests that carry at most one \<^verbatim>\<open>Host\<close> text, name some host, and
  name only IP addresses, \<^verbatim>\<open>localhost\<close> and the names the configuration lists; every other request gets the
  refusal, which holds nothing of the topology. The body it gives is the payload of the answer the
  broker would send over the bus at that moment, and the SDK reads it as the list of all primitives with the
  engine's own entry first. Exactly with the port 0, or when the loopback address with the configured port
  cannot be bound, nothing is served.
\<close>

theorem api_answers_like_the_bus:
  assumes valid: "is_ok (validate exists_at url_host c)"
    and bus: "msg_type req = ''system.request.topology''"
      "on_emergent_message to_str store engine_pid pm mid ts req env b = Some b'"
  shows "case snd (serve_api bind_to url_host c) of
      None \<Rightarrow> ec_api_port (cfg_engine c) = 0 \<or> \<not> is_ok (bind_to (''127.0.0.1:'' @ show_nat (unat (ec_api_port (cfg_engine c)))))
    | Some respond \<Rightarrow>
        ec_api_port (cfg_engine c) \<noteq> 0 \<and> is_ok (bind_to (''127.0.0.1:'' @ show_nat (unat (ec_api_port (cfg_engine c))))) \<and> (
        let hs = List.map_filter id (ar_host_values r);
            named = hs @ (case ar_authority r of Some a \<Rightarrow> [a] | None \<Rightarrow> []);
            own = (\<lambda>h. is_ipv4 h \<or> is_bracketed_ipv6 h \<or> h = ''localhost''
              \<or> (\<exists>v \<in> set (ec_api_allowed_hosts (cfg_engine c)). parse_host_name url_host v = Some h));
            answer = response_message mid ts ''system.response.topology'' (get_topology engine_pid pm) req
        in respond engine_pid pm r =
             (if length hs \<le> 1 \<and> named \<noteq> [] \<and> list_all (\<lambda>v. \<exists>h. host_of v = Some h \<and> own h) named
              then ApiTopology (msg_payload answer) else ApiMisdirected MISDIRECTED_BODY)
           \<and> last (br_forwarded b') = engine_notification to_str answer
           \<and> decode_topology (msg_payload answer) = Some (map sdk_view (build_topology_payload engine_pid (list_all_infos pm))))"
proof (cases "snd (serve_api bind_to url_host c)")
  case None
  then show ?thesis
    by (auto simp: serve_api_def Let_def api_enabled_def is_ok_def split: if_splits sum.splits)
next
  case (Some respond)
  then have respond: "respond = api_respond (allowed_api_hosts url_host c)"
    and served: "ec_api_port (cfg_engine c) \<noteq> 0" "is_ok (bind_to (''127.0.0.1:'' @ show_nat (unat (ec_api_port (cfg_engine c)))))"
    by (auto simp: serve_api_def Let_def api_enabled_def is_ok_def split: if_splits sum.splits)
  have known: "h \<in> set (allowed_api_hosts url_host c) \<longleftrightarrow>
      (\<exists>v \<in> set (ec_api_allowed_hosts (cfg_engine c)). parse_host_name url_host v = Some h)" for h
    by (simp add: allowed_hosts_of_valid [OF valid])
  have "br_forwarded b' = br_forwarded b @ map (engine_notification to_str) (outgoing engine_pid (ClientMessage pm mid ts req env))"
    using broker_step_spec [of to_str store engine_pid b "ClientMessage pm mid ts req env"] bus(2) by (auto simp: broker_step_def)
  then show ?thesis
    using Some bus(1) served
    by (simp add: respond api_respond_def guard_host_def Let_def is_accept_def decide_request_Accept_iff decide_host_Accept_iff known_host_def
        known get_topology_def response_message_def decode_topology_payload)
qed

theorem api_answers_like_the_bus_witness:
  "snd (serve_api (\<lambda>_. Err ''in use'') (pf_url_host sample_platform) sample_run_config) = None
   \<and> (\<exists>respond. snd (serve_api (\<lambda>_. Ok ()) (pf_url_host sample_platform) sample_run_config) = Some respond
     \<and> respond 7 (process_manager_new [] 0) \<lparr> ar_host_values = [Some ''localhost:80''], ar_authority = None \<rparr>
         = ApiTopology (get_topology 7 (process_manager_new [] 0))
     \<and> respond 7 (process_manager_new [] 0) \<lparr> ar_host_values = [Some ''evil.example''], ar_authority = None \<rparr>
         = ApiMisdirected MISDIRECTED_BODY)"
proof -
  let ?pm = "process_manager_new [] 0" and ?cid = "CorrelationId ''cor_1''"
  let ?env = "\<lparr> re_reply_to = ''broker'', re_recipient = None \<rparr>"
  have "topology_request ''log'' ?cid (MessageId ''msg_1'') (Timestamp 0) \<noteq> None"
    by code_simp
  then obtain req where "topology_request ''log'' ?cid (MessageId ''msg_1'') (Timestamp 0) = Some req"
    by blast
  then have req: "msg_type req = ''system.request.topology''"
    by (simp add: topology_request_fields)
  obtain b' where b': "on_emergent_message id (\<lambda>_ s. (s, Ok ())) 7 ?pm (MessageId ''msg_2'') (Timestamp 1) req ?env (broker_start ()) = Some b'"
    using broker_step_spec [of id "\<lambda>_ s. (s, Ok ())" 7 "broker_start ()" "ClientMessage ?pm (MessageId ''msg_2'') (Timestamp 1) req ?env"]
    by (auto simp: broker_step_def)
  have valid: "is_ok (validate (pf_exists sample_platform) (pf_url_host sample_platform) sample_run_config)"
    by (simp add: config_check.passes_iff sample_run_config_facts)
  have "ec_api_port (cfg_engine sample_run_config) \<noteq> 0" and none: "ec_api_allowed_hosts (cfg_engine sample_run_config) = []"
    by code_simp+
  then have served: "snd (serve_api (\<lambda>_. Ok ()) (pf_url_host sample_platform) sample_run_config) \<noteq> None"
    by (simp add: serve_api_def api_enabled_def Let_def)
  have local: "host_of ''localhost:80'' = Some ''localhost''"
    by code_simp
  have foreign: "host_of ''evil.example'' = Some ''evil.example''"
    by code_simp
  have neither: "\<not> is_ipv4 ''evil.example''" "\<not> is_bracketed_ipv6 ''evil.example''"
    by code_simp+
  note t = api_answers_like_the_bus [OF valid req b', of "\<lambda>_. Ok ()"]
  from served obtain respond where r: "snd (serve_api (\<lambda>_. Ok ()) (pf_url_host sample_platform) sample_run_config) = Some respond"
    by blast
  have "snd (serve_api (\<lambda>_. Err ''in use'') (pf_url_host sample_platform) sample_run_config) = None"
    using api_answers_like_the_bus [OF valid req b', of "\<lambda>_. Err ''in use''"] by (cases "snd (serve_api (\<lambda>_. Err ''in use'') (pf_url_host sample_platform) sample_run_config)") (auto simp: is_ok_def)
  then show ?thesis
    using t [of "\<lparr> ar_host_values = [Some ''localhost:80''], ar_authority = None \<rparr>"]
      t [of "\<lparr> ar_host_values = [Some ''evil.example''], ar_authority = None \<rparr>"] local foreign neither none
    by (simp add: r Let_def response_message_def map_filter_simps)
qed

end
