(* ===== verification/Utf8.thy ===== *)
theory Utf8
  imports Prelude
begin

text \<open>
  UTF-8 as the standard library checks it: strings of the sources are byte lists that are valid, and bytes that come from
  outside (the output of a child, a file of the kernel) have to be checked or repaired.
\<close>

definition utf8_length :: "char \<Rightarrow> nat" where
  "utf8_length c = (let b = of_char c :: nat in
     if b < 0x80 then 1 else if 0xC2 \<le> b \<and> b \<le> 0xDF then 2 else if 0xE0 \<le> b \<and> b \<le> 0xEF then 3
     else if 0xF0 \<le> b \<and> b \<le> 0xF4 then 4 else 0)"

definition utf8_continuation :: "char \<Rightarrow> bool" where
  "utf8_continuation c = (let b = of_char c :: nat in 0x80 \<le> b \<and> b \<le> 0xBF)"

definition utf8_second :: "char \<Rightarrow> char \<Rightarrow> bool" where
  "utf8_second lead c = (let a = of_char lead :: nat; b = of_char c :: nat in
     if a = 0xE0 then 0xA0 \<le> b \<and> b \<le> 0xBF else if a = 0xED then 0x80 \<le> b \<and> b \<le> 0x9F
     else if a = 0xF0 then 0x90 \<le> b \<and> b \<le> 0xBF else if a = 0xF4 then 0x80 \<le> b \<and> b \<le> 0x8F
     else utf8_continuation c)"

text \<open>How many bytes of a sequence that starts with \<open>lead\<close> are there, the lead included.\<close>

definition utf8_matched :: "char \<Rightarrow> string \<Rightarrow> nat" where
  "utf8_matched lead s = (case s of
      c # r \<Rightarrow> if utf8_length lead \<ge> 2 \<and> utf8_second lead c
        then 2 + length (takeWhile utf8_continuation (take (utf8_length lead - 2) r)) else 1
    | [] \<Rightarrow> 1)"

text \<open>\<^verbatim>\<open>str::from_utf8\<close> accepts exactly the texts that are whole sequences one after the other.\<close>

function utf8_valid :: "string \<Rightarrow> bool" where
  "utf8_valid [] = True"
| "utf8_valid (c # s) = (let n = utf8_matched c s in n = utf8_length c \<and> utf8_valid (drop (n - 1) s))"
  by pat_completeness auto

termination
  by (relation "measure length") auto

text \<open>
  \<^verbatim>\<open>String::from_utf8_lossy\<close>: valid sequences stay, and each longest beginning of a sequence that breaks off becomes one
  replacement character.
\<close>

function utf8_lossy :: "string \<Rightarrow> string" where
  "utf8_lossy [] = []"
| "utf8_lossy (c # s) =
     (let n = utf8_matched c s
      in (if n = utf8_length c then c # take (n - 1) s else [CHR 0xEF, CHR 0xBF, CHR 0xBD]) @ utf8_lossy (drop (n - 1) s))"
  by pat_completeness auto

termination
  by (relation "measure length") auto

lemma utf8_matched_pos: "utf8_matched c s \<ge> 1"
  by (auto simp: utf8_matched_def split: list.split)

lemma utf8_matched_le: "utf8_matched c s \<le> Suc (length s)"
proof (cases s)
  case (Cons x r)
  have "length (takeWhile utf8_continuation (take n r)) \<le> length r" for n
    using length_takeWhile_le [of utf8_continuation "take n r"] by simp
  then show ?thesis
    by (simp add: Cons utf8_matched_def)
qed (simp add: utf8_matched_def)

text \<open>Repair changes nothing that is valid, and what it gives is valid.\<close>

lemma utf8_lossy_valid: "utf8_valid s \<Longrightarrow> utf8_lossy s = s"
  by (induction s rule: utf8_valid.induct) (auto simp: Let_def simp del: append_take_drop_id, metis append_Cons append_take_drop_id)

lemma utf8_whole:
  assumes "utf8_matched c s = utf8_length c"
  shows "utf8_valid (c # take (utf8_length c - 1) s @ t) = utf8_valid t"
proof -
  let ?n = "utf8_length c" and ?u = "take (utf8_length c - 1) s @ t"
  have n: "?n - 1 \<le> length s" "?n \<ge> 1"
    using utf8_matched_le [of c s] utf8_matched_pos [of c s] assms by simp_all
  have "utf8_matched c ?u = ?n"
  proof (cases "?n = 1")
    case True
    then show ?thesis
      by (auto simp: utf8_matched_def split: list.split)
  next
    case False
    then obtain x r where s: "s = x # r" "utf8_second c x" "length (takeWhile utf8_continuation (take (?n - 2) r)) = ?n - 2" "?n \<ge> 2"
      using assms n by (auto simp: utf8_matched_def split: list.splits if_splits)
    then have "takeWhile utf8_continuation (take (?n - 2) r) = take (?n - 2) r"
      using n(1) by (metis length_takeWhile_le length_take min_def nat_le_linear takeWhile_eq_take take_all)
    with s n show ?thesis
      by (simp add: utf8_matched_def take_Cons' numeral_2_eq_2)
  qed
  then show ?thesis
    using n by simp
qed

lemma utf8_lossy_is_valid: "utf8_valid (utf8_lossy s)"
proof (induction s rule: utf8_lossy.induct)
  case (2 c s)
  have r: "utf8_valid (CHR 0xEF # CHR 0xBF # CHR 0xBD # t) = utf8_valid t" for t
    using utf8_whole [of "CHR 0xEF" "[CHR 0xBF, CHR 0xBD]" t]
    by (simp add: utf8_matched_def utf8_length_def utf8_second_def utf8_continuation_def)
  show ?case
  proof (cases "utf8_matched c s = utf8_length c")
    case True
    then show ?thesis
      using 2 utf8_whole [OF True] by (simp add: Let_def del: utf8_valid.simps)
  next
    case False
    then show ?thesis
      using 2 by (simp add: Let_def r del: utf8_valid.simps)
  qed
qed simp

lemma utf8_ascii: "list_all (\<lambda>c. of_char c < (0x80 :: nat)) s \<Longrightarrow> utf8_valid s"
  by (induction s) (auto simp: utf8_matched_def utf8_length_def split: list.split)

end
