(* ===== verification/Proc_Stat.thy ===== *)
theory Proc_Stat
  imports Ipc_Identity Registry Api_Host Utf8
begin

text \<open>
  How the engine learns the parent of a process (\<^verbatim>\<open>proc_parent_of\<close> and \<^verbatim>\<open>ancestry_available\<close> of
  \<^verbatim>\<open>emergent-engine/src/ipc_identity.rs\<close>): it reads the kernel's line about the process, in which the fourth field
  is the parent and the second the name of the executable, which the process itself chooses. \<open>fs\<close> gives the bytes of
  a file, if it can be read.
\<close>

section \<open>Reading the line\<close>

definition read_to_string :: "(string \<Rightarrow> string option) \<Rightarrow> string \<Rightarrow> string option" where
  "read_to_string fs path = (case fs path of
      Some bytes \<Rightarrow> if utf8_valid bytes then Some bytes else None | None \<Rightarrow> None)"

text \<open>The part behind the last \<open>c\<close>: the second half of \<^verbatim>\<open>rsplit_once\<close>.\<close>

definition after_last :: "char \<Rightarrow> string \<Rightarrow> string option" where
  "after_last c s = (if c \<in> set s then Some (rev (takeWhile (\<lambda>x. x \<noteq> c) (rev s))) else None)"

lemma find_mem: "List.find P xs = Some u \<Longrightarrow> u \<in> set xs \<and> P u"
  by (auto simp: find_Some_iff)

lemma white_space_units_heads:
  "u \<in> set white_space_units \<Longrightarrow> u \<noteq> [] \<and> (of_char (hd u) \<le> (0x20 :: nat) \<or> of_char (hd u) \<ge> (0x7F :: nat))"
proof -
  have "list_all (\<lambda>u. u \<noteq> [] \<and> (of_char (hd u) \<le> (0x20 :: nat) \<or> of_char (hd u) \<ge> (0x7F :: nat))) white_space_units"
    by (simp only: white_space_units_code list.pred_inject) simp
  then show "u \<in> set white_space_units \<Longrightarrow> ?thesis"
    by (simp add: list_all_iff)
qed

lemma split_once_white_space_length: "split_once_white_space s = Some (a, b) \<Longrightarrow> length b < length s"
proof (induction s arbitrary: a)
  case (Cons c s)
  show ?case
  proof (cases "List.find (\<lambda>u. starts_with (c # s) u) white_space_units")
    case None
    then obtain a' where "split_once_white_space s = Some (a', b)"
      using Cons.prems by (cases "split_once_white_space s") (simp_all split: prod.splits)
    then show ?thesis
      using Cons.IH by fastforce
  next
    case (Some u)
    then have "u \<noteq> []"
      using white_space_units_heads [OF conjunct1 [OF find_mem [OF Some]]] by simp
    moreover have "b = drop (length u) (c # s)"
      using Some Cons.prems by simp
    ultimately show ?thesis
      by (cases u) simp_all
  qed
qed simp

lemma strip_units_length: "length (strip_units us n s) \<le> length s"
proof (induction n arbitrary: s)
  case (Suc n)
  show ?case
  proof (cases "List.find (\<lambda>u. starts_with s u) us")
    case (Some u)
    then show ?thesis
      using Suc [of "drop (length u) s"] by simp
  qed simp
qed simp

function split_whitespace :: "string \<Rightarrow> string list" where
  "split_whitespace s =
     (let t = trim_start s
      in if t = [] then []
         else case split_once_white_space t of
           None \<Rightarrow> [t]
         | Some (w, rest) \<Rightarrow> w # split_whitespace rest)"
  by pat_completeness auto

termination
proof (relation "measure length")
  fix s t x w rest
  assume "t = trim_start s" "split_once_white_space t = Some x" "(w, rest) = x"
  then show "(rest, s) \<in> measure length"
    using split_once_white_space_length [of t w rest] strip_units_length [of white_space_units "length s" s]
    by (auto simp: trim_start_def)
qed simp

declare split_whitespace.simps [simp del]

text \<open>\<^verbatim>\<open>str::parse::<u32>\<close>: a sign is taken, a value that does not fit is refused.\<close>

definition parse_u32 :: "string \<Rightarrow> u32 option" where
  "parse_u32 s = (let ds = (case strip_prefix ''+'' s of Some r \<Rightarrow> r | None \<Rightarrow> s)
     in if ds = [] \<or> \<not> list_all is_ascii_digit ds \<or> dec_value ds \<ge> 2 ^ 32 then None else Some (word_of_nat (dec_value ds)))"

definition stat_path :: "pid \<Rightarrow> string" where
  "stat_path p = ''/proc/'' @ show_nat (unat p) @ ''/stat''"

definition proc_parent_of :: "(string \<Rightarrow> string option) \<Rightarrow> pid \<Rightarrow> pid option" where
  "proc_parent_of fs p = do {
     stat \<leftarrow> read_to_string fs (stat_path p);
     after_comm \<leftarrow> after_last (CHR '')'') stat;
     let fields = split_whitespace after_comm;
     field \<leftarrow> (if length fields > 1 then Some (fields ! 1) else None);
     parse_u32 field
   }"

definition ancestry_available :: "(string \<Rightarrow> string option) \<Rightarrow> pid \<Rightarrow> bool" where
  "ancestry_available fs own_pid = (proc_parent_of fs own_pid \<noteq> None)"

section \<open>Fields of ASCII text\<close>

definition plain :: "char \<Rightarrow> bool" where
  "plain c \<longleftrightarrow> of_char c > (0x20 :: nat) \<and> of_char c < (0x7F :: nat)"

lemma plain_not_white: "plain c \<Longrightarrow> List.find (starts_with (c # s)) white_space_units = None"
proof -
  assume c: "plain c"
  have "\<not> starts_with (c # s) u" if "u \<in> set white_space_units" for u
    using white_space_units_heads [OF that] c by (cases u) (auto simp: plain_def)
  then show ?thesis
    by (simp add: find_None_iff)
qed

lemma space_white: "List.find (starts_with (CHR '' '' # s)) white_space_units = Some '' ''"
  by (simp add: white_space_units_code)

lemma trim_start_plain: "plain c \<Longrightarrow> trim_start (c # s) = c # s" "plain c \<Longrightarrow> trim_start (CHR '' '' # c # s) = c # s"
  by (simp_all add: trim_start_def plain_not_white space_white)

lemma split_once_word: "list_all plain w \<Longrightarrow> split_once_white_space (w @ CHR '' '' # s) = Some (w, s)"
  by (induction w) (simp_all add: plain_not_white space_white)

lemma split_whitespace_word:
  assumes "w \<noteq> []" "list_all plain w"
  shows "split_whitespace (CHR '' '' # w @ CHR '' '' # s) = w # split_whitespace s"
    and "split_whitespace (w @ CHR '' '' # s) = w # split_whitespace s"
  using assms split_once_word [OF assms(2), of s]
  by (subst split_whitespace.simps; cases w; simp add: trim_start_plain)+

lemma digit_char_value: "d < 10 \<Longrightarrow> is_ascii_digit (digit_char d) \<and> digit_value (digit_char d) = d \<and> plain (digit_char d)"
  by (simp add: digit_char_def is_ascii_digit_def digit_value_def plain_def)

lemma show_nat_digits:
  "show_nat n \<noteq> [] \<and> list_all is_ascii_digit (show_nat n) \<and> list_all plain (show_nat n) \<and> dec_value (show_nat n) = n"
proof (induction n rule: show_nat.induct)
  case (1 n)
  show ?case
  proof (cases "n < 10")
    case True
    then show ?thesis
      by (simp add: show_nat.simps [of n] digit_char_value dec_value_def)
  next
    case False
    with 1 digit_char_value [of "n mod 10"] show ?thesis
      by (subst (1 2 3 4) show_nat.simps) (simp add: dec_value_def)
  qed
qed

lemma parse_show_u32: "parse_u32 (show_nat (unat p)) = Some p"
proof -
  note d = show_nat_digits [of "unat p"]
  have "strip_prefix ''+'' (show_nat (unat p)) = None"
    using d by (cases "show_nat (unat p)") (auto simp: strip_prefix_None_iff is_ascii_digit_def)
  then show ?thesis
    using d unsigned_less [of p, where 'a = nat] by (simp add: parse_u32_def)
qed

section \<open>Properties\<close>

text \<open>
  The line the kernel writes about a process: its number, the name in parentheses, a letter for its state, its
  parent, and further numbers.
\<close>

definition stat_line :: "pid \<Rightarrow> string \<Rightarrow> char \<Rightarrow> pid \<Rightarrow> string \<Rightarrow> string" where
  "stat_line p name state parent rest =
     show_nat (unat p) @ '' ('' @ name @ '') '' @ [state] @ '' '' @ show_nat (unat parent) @ '' '' @ rest"

lemma after_last_append: "c \<notin> set b \<Longrightarrow> after_last c (a @ c # b) = Some b"
  by (subst after_last_def, simp, subst takeWhile_append2, auto)

lemma after_comm:
  assumes "plain state" "state \<noteq> CHR '')''" "CHR '')'' \<notin> set rest"
  shows "after_last (CHR '')'') (stat_line p name state parent rest) = Some ('' '' @ [state] @ '' '' @ show_nat (unat parent) @ '' '' @ rest)"
proof -
  have "CHR '')'' \<notin> set (show_nat (unat parent))"
    using show_nat_digits [of "unat parent"] by (auto simp: list_all_iff is_ascii_digit_def)
  then have "CHR '')'' \<notin> set ('' '' @ [state] @ '' '' @ show_nat (unat parent) @ '' '' @ rest)"
    using assms by simp
  from after_last_append [OF this, of "show_nat (unat p) @ '' ('' @ name"] show ?thesis
    by (simp add: stat_line_def)
qed

lemma fields_of_line:
  assumes "plain state"
  shows "split_whitespace ('' '' @ [state] @ '' '' @ show_nat (unat parent) @ '' '' @ rest)
    = [state] # show_nat (unat parent) # split_whitespace rest"
  using assms show_nat_digits [of "unat parent"] split_whitespace_word(1) [of "[state]" "show_nat (unat parent) @ '' '' @ rest"]
    split_whitespace_word(2) [of "show_nat (unat parent)" rest]
  by simp

text \<open>
  C15. A process cannot lie about its parent. Whatever the processes are called, with spaces, parentheses or
  numbers in their names, the parent the engine reads is the parent the kernel reports, for every process whose line is
  UTF-8, and none for the others; so when all lines are, the walk names a connecting process after exactly the nearest of
  its ancestors (itself included) that the engine started, no process between them being the engine or init. Assumed of
  the kernel: the state is one visible character and nothing after the name holds a closing parenthesis.
\<close>

theorem walk_over_proc_is_the_process_tree:
  assumes proc: "\<And>p. fs (stat_path p) = map_option (\<lambda>q. stat_line p (name p) (state p) q (rest p)) (parent p)"
    and kernel: "\<And>p. plain (state p) \<and> state p \<noteq> CHR '')'' \<and> CHR '')'' \<notin> set (rest p)"
  shows "proc_parent_of fs p = (case parent p of
      Some q \<Rightarrow> if utf8_valid (stat_line p (name p) (state p) q (rest p)) then Some q else None | None \<Rightarrow> None)
    \<and> ((\<forall>p q. parent p = Some q \<longrightarrow> utf8_valid (stat_line p (name p) (state p) q (rest p))) \<longrightarrow>
      (resolve_ancestry (Some p) engine_pid children (proc_parent_of fs) = ResolvedPrimitive n \<longleftrightarrow>
        nearest_child MAX_ANCESTRY_DEPTH p engine_pid children parent n))"
proof -
  have p: "proc_parent_of fs p = (case parent p of
      Some q \<Rightarrow> if utf8_valid (stat_line p (name p) (state p) q (rest p)) then Some q else None | None \<Rightarrow> None)" for p
    using kernel [of p]
    by (cases "parent p") (simp_all add: proc_parent_of_def read_to_string_def proc after_comm fields_of_line [simplified] parse_show_u32 Let_def)
  have "proc_parent_of fs = parent" if "\<forall>p q. parent p = Some q \<longrightarrow> utf8_valid (stat_line p (name p) (state p) q (rest p))"
    using that by (intro ext) (auto simp: p split: option.split)
  then show ?thesis
    using p by (simp add: resolve_ancestry_Primitive_iff)
qed

theorem walk_over_proc_is_the_process_tree_witness:
  "let fs = (\<lambda>path. Some (take (length path - 11) (drop 6 path) @ '' () S 1 () S 7 0''))
   in proc_parent_of fs 9 = Some 7
    \<and> resolve_ancestry (Some 9) 2 [7 \<mapsto> ''timer''] (proc_parent_of fs) = ResolvedPrimitive ''timer''"
proof -
  define fs :: "string \<Rightarrow> string option" where "fs = (\<lambda>path. Some (take (length path - 11) (drop 6 path) @ '' () S 1 () S 7 0''))"
  let ?name = "\<lambda>_ :: pid. '') S 1 (''" and ?parent = "\<lambda>_ :: pid. Some (7 :: pid)"
  have seven: "show_nat 7 = ''7''"
    by code_simp
  have proc: "fs (stat_path p) = map_option (\<lambda>q. stat_line p (?name p) (CHR ''S'') q ''0'') (?parent p)" for p
    by (simp add: fs_def stat_path_def stat_line_def seven)
  have utf8: "utf8_valid (stat_line p '') S 1 ('' (CHR ''S'') 7 ''0'')" for p
    using show_nat_digits [of "unat p"]
    by (intro utf8_ascii) (auto simp: stat_line_def list_all_iff is_ascii_digit_def seven)
  have near: "nearest_child MAX_ANCESTRY_DEPTH 9 2 [7 \<mapsto> ''timer''] ?parent ''timer''"
    using nearest_child_Suc [of 15 9 2 "[7 \<mapsto> ''timer'']" ?parent "''timer''"]
      nearest_child_Suc [of 14 7 2 "[7 \<mapsto> ''timer'']" ?parent "''timer''"]
    by (simp add: MAX_ANCESTRY_DEPTH_def passes_def word_le_nat_alt)
  show ?thesis
    using walk_over_proc_is_the_process_tree [where fs = fs and name = ?name and state = "\<lambda>_. CHR ''S''"
        and rest = "\<lambda>_. ''0''" and parent = ?parent and p = 9 and engine_pid = 2 and children = "[7 \<mapsto> ''timer'']" and n = "''timer''",
        OF proc] utf8 near
    by (simp add: plain_def fs_def [symmetric] Let_def)
qed

end
