(* ===== verification/Parent_Death.thy ===== *)
theory Parent_Death
  imports Prelude
begin

text \<open>
  The guard that ties a child's life to the engine's (\<^verbatim>\<open>arm_parent_death_signal\<close> of
  \<^verbatim>\<open>emergent-engine/src/primitive_actor.rs\<close>, run by \<^verbatim>\<open>pre_exec\<close> between fork and exec). The function is a
  sequence of system calls, and the engine can die between any two of them: its calls are the points of \<open>arm_point\<close>,
  and the step relation interleaves them with the death of the engine. Of the kernel the model uses what
  \<^verbatim>\<open>prctl(2)\<close>, \<^verbatim>\<open>fork(2)\<close>, \<^verbatim>\<open>execve(2)\<close> and \<^verbatim>\<open>signal(7)\<close> say: a forked child has no parent-death signal
  but the signal handlers of its parent; an orphan is given to another process; a program that raises
  privileges loses the parent-death signal, and every program starts without handlers.

  The last lemmas say when a child can outlive the engine without having been told.
\<close>

section \<open>The guard\<close>

type_synonym errno = nat

datatype arm_point = At_prctl | At_getppid | Returned "(errno, unit) result" | At_exit int

datatype sys_answer = PrctlAnswer "(errno, unit) result" | GetppidAnswer pid

definition arm_parent_death_signal :: "pid \<Rightarrow> arm_point \<Rightarrow> sys_answer \<Rightarrow> arm_point" where
  "arm_parent_death_signal engine_pid point answer = (case (point, answer) of
      (At_prctl, PrctlAnswer (Inl e)) \<Rightarrow> Returned (Err e)
    | (At_prctl, PrctlAnswer (Inr _)) \<Rightarrow> At_getppid
    | (At_getppid, GetppidAnswer ppid) \<Rightarrow> if ppid \<noteq> engine_pid then At_exit 1 else Returned (Ok ())
    | _ \<Rightarrow> point)"

section \<open>The child and the kernel\<close>

datatype child_phase = PreExec arm_point | Program | Gone | Killed

text \<open>\<open>pd_swallowed\<close>: the signal came before the exec and ran the handler the engine had installed.\<close>

record pd_world =
  pd_engine_alive :: bool
  pd_ppid :: pid
  pd_armed :: bool
  pd_handler :: bool
  pd_phase :: child_phase
  pd_told :: bool
  pd_swallowed :: bool
  pd_privileged :: bool

definition forked :: "pid \<Rightarrow> bool \<Rightarrow> pd_world" where
  "forked engine_pid handler = \<lparr> pd_engine_alive = True, pd_ppid = engine_pid, pd_armed = False, pd_handler = handler,
     pd_phase = PreExec At_prctl, pd_told = False, pd_swallowed = False, pd_privileged = False \<rparr>"

definition deliver_sigterm :: "pd_world \<Rightarrow> pd_world" where
  "deliver_sigterm w = (case pd_phase w of
      PreExec _ \<Rightarrow> if pd_handler w then w\<lparr> pd_swallowed := True \<rparr> else w\<lparr> pd_phase := Killed \<rparr>
    | Program \<Rightarrow> w\<lparr> pd_told := True \<rparr>
    | _ \<Rightarrow> w)"

datatype pd_label = Call sys_answer | Exits | ExecFails | Exec bool | EngineDies pid | ProgramEnds

inductive pd_step :: "pid \<Rightarrow> pd_world \<Rightarrow> pd_label \<Rightarrow> pd_world \<Rightarrow> bool" for engine_pid where
  prctl: "pd_phase w = PreExec At_prctl \<Longrightarrow>
     pd_step engine_pid w (Call (PrctlAnswer r)) (w\<lparr> pd_armed := is_ok r,
       pd_phase := PreExec (arm_parent_death_signal engine_pid At_prctl (PrctlAnswer r)) \<rparr>)"
| getppid: "pd_phase w = PreExec At_getppid \<Longrightarrow>
     pd_step engine_pid w (Call (GetppidAnswer (pd_ppid w))) (w\<lparr>
       pd_phase := PreExec (arm_parent_death_signal engine_pid At_getppid (GetppidAnswer (pd_ppid w))) \<rparr>)"
| exit_called: "pd_phase w = PreExec (At_exit code) \<Longrightarrow> pd_step engine_pid w Exits (w\<lparr> pd_phase := Gone \<rparr>)"
| refused: "pd_phase w = PreExec (Returned (Err e)) \<Longrightarrow> pd_step engine_pid w Exits (w\<lparr> pd_phase := Gone \<rparr>)"
| exec_fails: "pd_phase w = PreExec (Returned (Ok ())) \<Longrightarrow> pd_step engine_pid w ExecFails (w\<lparr> pd_phase := Gone \<rparr>)"
| exec: "pd_phase w = PreExec (Returned (Ok ())) \<Longrightarrow>
     pd_step engine_pid w (Exec privileged) (w\<lparr> pd_phase := Program, pd_handler := False,
       pd_armed := (pd_armed w \<and> \<not> privileged), pd_privileged := privileged \<rparr>)"
| engine_dies: "pd_engine_alive w \<Longrightarrow> reaper \<noteq> engine_pid \<Longrightarrow>
     pd_step engine_pid w (EngineDies reaper)
       (let w' = w\<lparr> pd_engine_alive := False, pd_ppid := reaper \<rparr>
        in if pd_armed w then deliver_sigterm w' else w')"
| program_ends: "pd_phase w = Program \<Longrightarrow> pd_step engine_pid w ProgramEnds (w\<lparr> pd_phase := Gone \<rparr>)"

section \<open>Its invariant\<close>

text \<open>Who is the parent, when the signal is armed, and what a child without an engine has been through.\<close>

definition pd_ok :: "pid \<Rightarrow> bool \<Rightarrow> pd_world \<Rightarrow> bool" where
  "pd_ok engine_pid handler w \<longleftrightarrow>
     (pd_engine_alive w \<longleftrightarrow> pd_ppid w = engine_pid)
     \<and> (pd_phase w = PreExec At_getppid \<or> pd_phase w = PreExec (Returned (Ok ())) \<longrightarrow> pd_armed w)
     \<and> (pd_handler w \<or> pd_swallowed w \<longrightarrow> handler)
     \<and> (pd_phase w = Program \<longrightarrow> pd_privileged w \<or> pd_armed w)
     \<and> (pd_told w \<or> pd_swallowed w \<or> pd_phase w = Killed \<longrightarrow> \<not> pd_engine_alive w)
     \<and> (\<not> pd_engine_alive w \<longrightarrow> pd_phase w = PreExec (Returned (Ok ())) \<longrightarrow> pd_swallowed w)
     \<and> (\<not> pd_engine_alive w \<longrightarrow> pd_phase w = Program \<longrightarrow> pd_told w \<or> pd_swallowed w \<or> pd_privileged w)"

lemma forked_ok: "pd_ok e h (forked e h)"
  by (simp add: pd_ok_def forked_def)

lemma pd_step_ok: "pd_step e w l w' \<Longrightarrow> pd_ok e h w \<Longrightarrow> pd_ok e h w'"
  by (induction rule: pd_step.induct)
     (auto simp: pd_ok_def arm_parent_death_signal_def deliver_sigterm_def is_ok_def Let_def
       split: sum.splits child_phase.splits if_splits)

interpretation guard: machine_invariant "\<lambda>w. w = forked e h" "pd_step e" "pd_ok e h" for e h
  by unfold_locales (auto intro: forked_ok pd_step_ok)

section \<open>Properties\<close>

definition orphaned :: "pd_world \<Rightarrow> bool" where
  "orphaned w \<longleftrightarrow> pd_phase w = Program \<and> \<not> pd_engine_alive w \<and> \<not> pd_told w \<and> \<not> pd_privileged w"

text \<open>A child is signalled only after the engine's death.\<close>

lemma told_after_death:
  assumes "reach (\<lambda>w. w = forked e h) (pd_step e) w" "pd_told w \<or> pd_phase w = Killed"
  shows "\<not> pd_engine_alive w"
  using guard.reach_inv [OF assms(1)] assms(2) by (auto simp: pd_ok_def)

text \<open>The one way past the guard: the engine dies between the check and the exec, and its own handler takes the signal.\<close>

definition last_moment :: "pid \<Rightarrow> pid \<Rightarrow> pd_world" where
  "last_moment e reaper = \<lparr> pd_engine_alive = False, pd_ppid = reaper, pd_armed = True, pd_handler = False,
     pd_phase = Program, pd_told = False, pd_swallowed = True, pd_privileged = False \<rparr>"

lemma last_moment_reached:
  assumes "r \<noteq> e"
  shows "reach (\<lambda>w. w = forked e True) (pd_step e) (last_moment e r)"
proof -
  define w1 where "w1 = (forked e True)\<lparr> pd_armed := True, pd_phase := PreExec At_getppid \<rparr>"
  define w2 where "w2 = w1\<lparr> pd_phase := PreExec (Returned (Ok ())) \<rparr>"
  define w3 where "w3 = w2\<lparr> pd_engine_alive := False, pd_ppid := r, pd_swallowed := True \<rparr>"
  have "pd_step e (forked e True) (Call (PrctlAnswer (Ok ()))) w1"
    using prctl [of "forked e True" e "Ok ()"] by (simp add: forked_def w1_def arm_parent_death_signal_def is_ok_def)
  moreover have "pd_step e w1 (Call (GetppidAnswer e)) w2"
    using getppid [of w1 e] by (simp add: forked_def w1_def w2_def arm_parent_death_signal_def)
  moreover have "pd_step e w2 (EngineDies r) w3"
    using engine_dies [of w2 r e] assms by (simp add: forked_def w1_def w2_def w3_def deliver_sigterm_def)
  moreover have "pd_step e w3 (Exec False) (last_moment e r)"
    using exec [of w3 e False] by (simp add: forked_def w1_def w2_def w3_def last_moment_def)
  moreover have "reach (\<lambda>w. w = forked e True) (pd_step e) (forked e True)"
    by (simp add: reach_init)
  ultimately show ?thesis
    by (blast intro: reach_step)
qed

text \<open>
  C4. No child outlives the engine unnoticed, with one exception. Whatever the moment the engine dies at, between
  any two calls of the guard or later, a child that goes on to run its program has been sent SIGTERM, unless the program raises
  privileges (for which the kernel drops the request). That holds exactly when the engine has no SIGTERM handler of its own
  installed at the fork: the child inherits the handler until the exec, and a signal that arrives after the check of the
  parent and before the exec runs the handler and is lost.
\<close>

theorem unnoticed_orphan_iff_handler:
  "(\<exists>w. reach (\<lambda>w. w = forked engine_pid handler) (pd_step engine_pid) w \<and> orphaned w) \<longleftrightarrow> handler"
proof
  assume "\<exists>w. reach (\<lambda>w. w = forked engine_pid handler) (pd_step engine_pid) w \<and> orphaned w"
  then obtain w where "reach (\<lambda>w. w = forked engine_pid handler) (pd_step engine_pid) w" "orphaned w"
    by blast
  with guard.reach_inv [of engine_pid handler w] show handler
    by (auto simp: pd_ok_def orphaned_def)
next
  assume handler
  moreover have "engine_pid + 1 \<noteq> engine_pid"
    by simp
  ultimately show "\<exists>w. reach (\<lambda>w. w = forked engine_pid handler) (pd_step engine_pid) w \<and> orphaned w"
    using last_moment_reached [of "engine_pid + 1" engine_pid]
    by (intro exI [of _ "last_moment engine_pid (engine_pid + 1)"]) (simp add: last_moment_def orphaned_def)
qed

end
