(* ===== verification/Store_Open.thy ===== *)
theory Store_Open
  imports Event_Store Config
begin

text \<open>
  Opening the event stores (\<^verbatim>\<open>SqliteEventStore::new\<close>, \<^verbatim>\<open>in_memory\<close> and \<^verbatim>\<open>configure_journal\<close> of
  \<^verbatim>\<open>event_store/sqlite.rs\<close>, \<^verbatim>\<open>init_event_stores\<close> of \<^verbatim>\<open>main.rs\<close>).

  As in the theory of the stores, each SQL text the code runs is a field of a record, here over a connection \<open>'d\<close> and
  the files \<open>'f\<close> a connection is opened on; dropping the store closes the connection. What SQLite promises of
  them is the locale \<open>sql_database\<close>, which extends the one of the statements and is interpreted on files that hold
  lists of rows.
\<close>

section \<open>Opening\<close>

record ('d, 'f) sql_open =
  so_open :: "string \<Rightarrow> 'f \<Rightarrow> (string, 'd) result"
  so_open_in_memory :: "(string, 'd) result"
  so_journal_wal :: "'d \<Rightarrow> (string, string \<times> 'd) result"
  so_synchronous_normal :: "'d \<Rightarrow> (string, 'd) result"
  so_create_if_missing :: "'d \<Rightarrow> (string, 'd) result"
  so_create :: "'d \<Rightarrow> (string, 'd) result"
  so_close :: "'d \<Rightarrow> 'f \<Rightarrow> 'f"

text \<open>The lines logged, then the connection.\<close>

definition configure_journal :: "('d, 'f) sql_open \<Rightarrow> 'd \<Rightarrow> string list \<times> (string, 'd) result" where
  "configure_journal opn conn = (case so_journal_wal opn conn of
      Inl e \<Rightarrow> ([], Err e)
    | Inr (mode, conn) \<Rightarrow>
        (if to_ascii_lowercase mode \<noteq> ''wal''
         then [''SQLite event store could not switch to WAL mode; readers may block event writes''] else [],
         so_synchronous_normal opn conn))"

definition sqlite_new ::
  "('d, 'f) sql_open \<Rightarrow> string \<Rightarrow> 'f \<Rightarrow> string list \<times> (event_store_error, 'd sqlite_store) result" where
  "sqlite_new opn db_path fs = (case so_open opn db_path fs of
      Inl e \<Rightarrow> ([], Err (ES_Sqlite (SqlFailure e)))
    | Inr conn \<Rightarrow> (case configure_journal opn conn of (lines, r) \<Rightarrow> (lines,
        res_bind (sql_err (res_bind r (so_create_if_missing opn))) (\<lambda>conn. Ok \<lparr> sq_conn = conn, sq_poisoned = False \<rparr>))))"

definition sqlite_in_memory :: "('d, 'f) sql_open \<Rightarrow> (event_store_error, 'd sqlite_store) result" where
  "sqlite_in_memory opn =
     res_bind (sql_err (res_bind (so_open_in_memory opn) (so_create opn)))
       (\<lambda>conn. Ok \<lparr> sq_conn = conn, sq_poisoned = False \<rparr>)"

text \<open>An error with the context \<^verbatim>\<open>anyhow\<close> puts before it.\<close>

definition init_event_stores ::
  "('d, 'f) sql_open \<Rightarrow> (string \<Rightarrow> (string, unit) result) \<Rightarrow> (string \<rightharpoonup> string) \<Rightarrow> 'f \<Rightarrow> emergent_config
     \<Rightarrow> string list \<times> (string \<times> event_store_error, 'd store_wrapper) result" where
  "init_event_stores opn create_dir_all files fs config =
     (let es = cfg_event_store config in
      case json_log_new (es_json_log_dir es) files (create_dir_all (es_json_log_dir es)) of
        Inl e \<Rightarrow> ([], Err (''Failed to create JSON event log'', e))
      | Inr json_log \<Rightarrow> (case sqlite_new opn (es_sqlite_path es) fs of
          (lines, Inl e) \<Rightarrow> (lines, Err (''Failed to create SQLite event store'', e))
        | (lines, Inr sqlite) \<Rightarrow> (lines, Ok \<lparr> sw_json_log = Some json_log, sw_sqlite = Some sqlite \<rparr>)))"

section \<open>What SQLite promises\<close>

text \<open>
  \<open>stored p f\<close> are the rows of the database file \<open>p\<close>, none where there is no table. A connection shows the rows of its
  file; pragmas and \<^verbatim>\<open>CREATE .. IF NOT EXISTS\<close> change no row; no statement turns to another file; a closed
  database is in its file.
\<close>

locale sql_database = sql_events ops rows for ops :: "'d sql_ops" and rows +
  fixes opn :: "('d, 'f) sql_open" and stored :: "string \<Rightarrow> 'f \<Rightarrow> event_row list" and file_of :: "'d \<Rightarrow> string option"
  assumes open_rows: "so_open opn p f = Ok d \<Longrightarrow> mset (rows d) = mset (stored p f) \<and> file_of d = Some p"
    and open_in_memory_rows: "so_open_in_memory opn = Ok d \<Longrightarrow> rows d = [] \<and> file_of d = None"
    and journal_rows: "so_journal_wal opn d = Ok (mode, d') \<Longrightarrow> mset (rows d') = mset (rows d) \<and> file_of d' = file_of d"
    and synchronous_rows: "so_synchronous_normal opn d = Ok d' \<Longrightarrow> mset (rows d') = mset (rows d) \<and> file_of d' = file_of d"
    and create_rows: "so_create_if_missing opn d = Ok d' \<Longrightarrow> mset (rows d') = mset (rows d) \<and> file_of d' = file_of d"
    and create_new_rows: "so_create opn d = Ok d' \<Longrightarrow> rows d' = [] \<and> file_of d' = file_of d"
    and replace_file: "sql_replace ops r d = Ok d' \<Longrightarrow> file_of d' = file_of d"
    and delete_file: "sql_delete_below ops t d = Ok (n, d') \<Longrightarrow> file_of d' = file_of d"
    and checkpoint_file: "sql_checkpoint ops d = Ok d' \<Longrightarrow> file_of d' = file_of d"
    and close_rows: "file_of d = Some p \<Longrightarrow> mset (stored p (so_close opn d f)) = mset (rows d)"
begin

lemma sqlite_new_rows:
  assumes "sqlite_new opn p f = (lines, Ok q)"
  shows "mset (rows (sq_conn q)) = mset (stored p f)" "file_of (sq_conn q) = Some p" "\<not> sq_poisoned q"
  using assms
  by (auto simp: sqlite_new_def configure_journal_def res_bind_Ok_iff split: sum.splits prod.splits
      dest!: open_rows journal_rows synchronous_rows create_rows)

lemma in_memory_empty: "sqlite_in_memory opn = Ok q \<Longrightarrow> rows (sq_conn q) = [] \<and> file_of (sq_conn q) = None \<and> \<not> sq_poisoned q"
  by (auto simp: sqlite_in_memory_def res_bind_Ok_iff dest!: open_in_memory_rows create_new_rows)

lemma init_stores_sqlite:
  assumes "init_event_stores opn mk files f c = (lines, Ok w)"
  obtains q log where "sw_sqlite w = Some q" "sw_json_log w = Some log"
    "sqlite_new opn (es_sqlite_path (cfg_event_store c)) f = (lines, Ok q)"
  using assms by (auto simp: init_event_stores_def Let_def split: sum.splits prod.splits)

text \<open>A store closed and opened again on the same file shows the same rows.\<close>

lemma reopened:
  assumes "file_of d = Some p" "sqlite_new opn p (so_close opn d f) = (lines, Ok q)"
  shows "mset (rows (sq_conn q)) = mset (rows d)"
  using close_rows [OF assms(1), of f] sqlite_new_rows(1) [OF assms(2)] by simp

text \<open>A run that stores one row, and a second run on the same configuration: the rows the second one sees.\<close>

lemma restart_rows:
  assumes first: "init_event_stores opn mk files f c = (lines, Ok w)" "sw_sqlite w = Some q"
    and again: "init_event_stores opn mk' files' (so_close opn (sq_conn q') f) c = (lines', Ok w')" "sw_sqlite w' = Some q2"
    and rep: "sql_replace ops row (sq_conn q) = Ok (sq_conn q')"
  shows "set (rows (sq_conn q2)) =
      {x \<in> set (stored (es_sqlite_path (cfg_event_store c)) f). ev_id x \<noteq> ev_id row} \<union> {row}"
    and "\<not> sq_poisoned q2"
proof -
  let ?p = "es_sqlite_path (cfg_event_store c)"
  have q: "sqlite_new opn ?p f = (lines, Ok q)"
    using init_stores_sqlite [OF first(1)] first(2) by fastforce
  have q2: "sqlite_new opn ?p (so_close opn (sq_conn q') f) = (lines', Ok q2)"
    using init_stores_sqlite [OF again(1)] again(2) by fastforce
  have f: "file_of (sq_conn q') = Some ?p"
    using replace_file [OF rep] sqlite_new_rows(2) [OF q] by simp
  have "set (rows (sq_conn q2)) = set (rows (sq_conn q'))" "set (rows (sq_conn q)) = set (stored ?p f)"
    using arg_cong [OF reopened [OF f q2], of set_mset] arg_cong [OF sqlite_new_rows(1) [OF q], of set_mset] by simp_all
  then show "set (rows (sq_conn q2)) = {x \<in> set (stored ?p f). ev_id x \<noteq> ev_id row} \<union> {row}"
    using replace_set [OF rep] by simp
  show "\<not> sq_poisoned q2"
    by (rule sqlite_new_rows(3) [OF q2])
qed

end

section \<open>Files of rows\<close>

record file_db =
  fdb_path :: "string option"
  fdb_rows :: "event_row list"

definition on_rows :: "(event_row list \<Rightarrow> (string, event_row list) result) \<Rightarrow> file_db \<Rightarrow> (string, file_db) result" where
  "on_rows f d = res_bind (f (fdb_rows d)) (\<lambda>rs. Ok (d\<lparr> fdb_rows := rs \<rparr>))"

definition file_ops :: "file_db sql_ops" where
  "file_ops =
     \<lparr> sql_replace = (\<lambda>r. on_rows (sql_replace list_ops r)),
       sql_select = (\<lambda>w d. sql_select list_ops w (fdb_rows d)),
       sql_count = (\<lambda>d. sql_count list_ops (fdb_rows d)),
       sql_delete_below = (\<lambda>t d. res_bind (sql_delete_below list_ops t (fdb_rows d)) (\<lambda>(n, rs). Ok (n, d\<lparr> fdb_rows := rs \<rparr>))),
       sql_checkpoint = (\<lambda>d. Ok d) \<rparr>"

definition file_rows :: "string \<Rightarrow> (string \<rightharpoonup> event_row list) \<Rightarrow> event_row list" where
  "file_rows p f = (case f p of Some rs \<Rightarrow> rs | None \<Rightarrow> [])"

definition file_open :: "(file_db, string \<rightharpoonup> event_row list) sql_open" where
  "file_open =
     \<lparr> so_open = (\<lambda>p f. Ok \<lparr> fdb_path = Some p, fdb_rows = file_rows p f \<rparr>),
       so_open_in_memory = Ok \<lparr> fdb_path = None, fdb_rows = [] \<rparr>,
       so_journal_wal = (\<lambda>d. Ok (''wal'', d)), so_synchronous_normal = Ok, so_create_if_missing = Ok,
       so_create = (\<lambda>d. if fdb_rows d = [] then Ok d else Err ''table events already exists''),
       so_close = (\<lambda>d f. case fdb_path d of Some p \<Rightarrow> f(p \<mapsto> fdb_rows d) | None \<Rightarrow> f) \<rparr>"

lemma on_rows_Ok: "on_rows f d = Ok d' \<longleftrightarrow> (\<exists>rs. f (fdb_rows d) = Ok rs \<and> d' = d\<lparr> fdb_rows := rs \<rparr>)"
  by (auto simp: on_rows_def res_bind_Ok_iff)

interpretation file_database: sql_database file_ops fdb_rows file_open file_rows fdb_path
  by unfold_locales
     (auto simp: file_ops_def file_open_def file_rows_def on_rows_Ok res_bind_Ok_iff split: if_splits option.splits
       dest: list_table.replace_rows list_table.select_rows list_table.select_sorted list_table.count_rows
         list_table.delete_rows list_table.delete_number)

section \<open>Properties\<close>

text \<open>\<^verbatim>\<open>init_event_stores\<close> succeeds exactly when every call it makes does, whatever journal mode SQLite settles on.\<close>

lemma init_event_stores_Ok_iff:
  "is_ok (snd (init_event_stores opn mk files f c)) \<longleftrightarrow>
     is_ok (mk (es_json_log_dir (cfg_event_store c)))
     \<and> (\<exists>d0 mode d1 d2. so_open opn (es_sqlite_path (cfg_event_store c)) f = Ok d0 \<and> so_journal_wal opn d0 = Ok (mode, d1)
          \<and> so_synchronous_normal opn d1 = Ok d2 \<and> is_ok (so_create_if_missing opn d2))"
  by (cases "mk (es_json_log_dir (cfg_event_store c))"; cases "so_open opn (es_sqlite_path (cfg_event_store c)) f")
     (auto simp: init_event_stores_def json_log_new_def sqlite_new_def configure_journal_def res_bind_Ok_iff is_ok_iff sql_err_def Let_def
       split: sum.splits prod.splits)

lemma projr_read_type:
  assumes "is_ok (row_to_message from_str prefix_of parse_json r)"
  shows "msg_type (projr (row_to_message from_str prefix_of parse_json r)) = ev_message_type r"
  using row_to_message_type [OF is_ok_projr [OF assms]] .

text \<open>
  C21. Events survive a restart of the engine. Where the database file could be read, an event stored through the stores
  that \<^verbatim>\<open>init_event_stores\<close> opened is found again by type once the engine has ended and opened the same stores anew:
  the query succeeds and gives messages of that type only, in timestamp order. Among them is the stored event, with every
  field as it was stored except that its payload and its metadata are what the JSON parser makes of the texts written for
  them (the payload null and the metadata absent where it refuses the text); where the parser reads back what was written
  for this payload and this metadata, that is the stored event itself. And every row of that type that was in the file before
  under another id is among them. Assumed of the packages: what SQLite promises of the statements, of opening and of closing,
  and that identifiers are read back as written. Nothing is assumed of the JSON package.
\<close>

theorem events_survive_restart:
  assumes db: "sql_database ops rows opn stored file_of"
    and ids: "\<And>t. from_str (to_str t) = Ok t"
    and readable: "table_readable (row_to_message from_str prefix_of parse_json) (stored (es_sqlite_path (cfg_event_store c)) f)"
    and first: "init_event_stores opn mk files f c = (lines, Ok w)" "sw_sqlite w = Some q"
    and m: "message_ok prefix_of m"
    and store: "sqlite_store_event to_str to_text ops m q = Ok q'"
    and again: "init_event_stores opn mk' files' (so_close opn (sq_conn q') f) c = (lines', Ok w')" "sw_sqlite w' = Some q''"
    and select: "sql_select ops (TypeIs (msg_type m)) (sq_conn q'') = Ok rs"
  shows "\<exists>ms. query_by_type (row_to_message from_str prefix_of parse_json) ops (msg_type m) q'' = Ok ms
    \<and> reread to_text parse_json m \<in> set ms
    \<and> (reads_back to_text parse_json (msg_payload m) \<and> (\<forall>v. msg_metadata m = Some v \<longrightarrow> reads_back to_text parse_json v)
        \<longrightarrow> m \<in> set ms)
    \<and> list_all (\<lambda>x. msg_type x = msg_type m) ms
    \<and> sorted (map (\<lambda>x. uint (as_millis (msg_timestamp_ms x))) ms)
    \<and> (\<forall>r \<in> set (stored (es_sqlite_path (cfg_event_store c)) f). ev_message_type r = msg_type m \<longrightarrow>
         ev_id r \<noteq> to_str (MessageId_inner (msg_id m)) \<longrightarrow>
         (\<exists>x \<in> set ms. row_to_message from_str prefix_of parse_json r = Ok x))"
proof -
  let ?read = "row_to_message from_str prefix_of parse_json"
  obtain row where row: "message_to_row to_str to_text m = Ok row" and rep: "sql_replace ops row (sq_conn q) = Ok (sq_conn q')"
    using store by (rule stored_row)
  let ?m = "reread to_text parse_json m"
  have rm: "?read row = Ok ?m"
    by (rule row_reread [OF ids m row])
  have id: "ev_id row = to_str (MessageId_inner (msg_id m))"
    using row by (auto simp: message_to_row_def split: sum.splits option.splits)
  note r = sql_database.restart_rows [OF db first again rep]
  have good: "is_ok (?read x)" if "x \<in> set (rows (sq_conn q''))" for x
    using that readable rm by (auto simp: r table_readable_def list_all_iff)
  have rs: "set rs = {x \<in> set (rows (sq_conn q'')). ev_message_type x = msg_type m}"
    using sql_events.select_set [OF sql_database.axioms(1) [OF db] select] by simp
  have q: "query_by_type ?read ops (msg_type m) q'' = Ok (map (\<lambda>x. projr (?read x)) rs)"
    unfolding query_by_type_def by (rule run_query_readable [OF select r(2)]) (simp add: good rs)
  have "msg_type ?m = msg_type m"
    by (simp add: reread_def)
  then have found: "?m \<in> set (map (\<lambda>x. projr (?read x)) rs)"
    using rm row_to_message_type [OF rm] by (force simp: rs r)
  moreover have "reads_back to_text parse_json (msg_payload m) \<and> (\<forall>v. msg_metadata m = Some v \<longrightarrow> reads_back to_text parse_json v)
      \<longrightarrow> m \<in> set (map (\<lambda>x. projr (?read x)) rs)"
    using found reread_same [OF row] by metis
  moreover have "list_all (\<lambda>x. msg_type x = msg_type m) (map (\<lambda>x. projr (?read x)) rs)"
    using good by (auto simp: list_all_iff rs projr_read_type)
  moreover
  have ts: "map (\<lambda>x. uint (as_millis (msg_timestamp_ms x))) (map (\<lambda>x. projr (?read x)) rs) = map ev_timestamp_ms rs"
    using row_to_message_timestamp [OF is_ok_projr [OF good]] by (simp add: rs)
  have "sorted (map (\<lambda>x. uint (as_millis (msg_timestamp_ms x))) (map (\<lambda>x. projr (?read x)) rs))"
    unfolding ts by (rule sql_events.select_sorted [OF sql_database.axioms(1) [OF db] select])
  moreover have "\<exists>x \<in> set (map (\<lambda>x. projr (?read x)) rs). ?read y = Ok x"
    if "y \<in> set (stored (es_sqlite_path (cfg_event_store c)) f)" "ev_message_type y = msg_type m"
      "ev_id y \<noteq> to_str (MessageId_inner (msg_id m))" for y
  proof -
    have y: "y \<in> set rs"
      using that by (simp add: rs r id)
    then show ?thesis
      using is_ok_projr [OF good [of y]] by (auto simp: rs intro!: bexI [of _ y])
  qed
  ultimately show ?thesis
    using q by blast
qed

theorem events_survive_restart_witness:
  "\<exists>w q q' w' q'' ms. init_event_stores file_open (\<lambda>_. Ok ()) (\<lambda>_. None) (\<lambda>_. None) sample_config = ([], Ok w)
     \<and> sw_sqlite w = Some q
     \<and> sqlite_store_event id null_text file_ops sample_message q = Ok q'
     \<and> init_event_stores file_open (\<lambda>_. Ok ()) (\<lambda>_. None) (so_close file_open (sq_conn q') (\<lambda>_. None)) sample_config = ([], Ok w')
     \<and> sw_sqlite w' = Some q''
     \<and> query_by_type (row_to_message ok_id (take 3) null_parse) file_ops ''tick'' q'' = Ok ms \<and> sample_message \<in> set ms"
proof -
  let ?init = "\<lambda>f. init_event_stores file_open (\<lambda>_. Ok ()) (\<lambda>_. None) f sample_config"
  have wal: "to_ascii_lowercase ''wal'' = ''wal''"
    by code_simp
  obtain w q where w: "?init (\<lambda>_. None) = ([], Ok w)" "sw_sqlite w = Some q" "\<not> sq_poisoned q"
    by (simp add: init_event_stores_def json_log_new_def sqlite_new_def configure_journal_def file_open_def Let_def wal sql_err_def)
  obtain q' where s: "sqlite_store_event id null_text file_ops sample_message q = Ok q'"
    using w(3) by (simp add: sqlite_store_event_def with_conn_def message_to_row_def sample_message_def null_text_def
        transpose_opt_def i64_of_u64_def file_ops_def list_ops_def on_rows_def sql_err_def)
  obtain w' q'' where w': "?init (so_close file_open (sq_conn q') (\<lambda>_. None)) = ([], Ok w')" "sw_sqlite w' = Some q''"
    by (simp add: init_event_stores_def json_log_new_def sqlite_new_def configure_journal_def file_open_def Let_def wal sql_err_def)
  obtain rs where r: "sql_select file_ops (TypeIs (msg_type sample_message)) (sq_conn q'') = Ok rs"
    by (simp add: file_ops_def list_ops_def)
  have i: "ok_id (id t) = Ok t" for t
    by (simp add: ok_id_def)
  have j: "reads_back null_text null_parse (msg_payload sample_message)" "msg_metadata sample_message = None"
    by (simp_all add: reads_back_def null_text_def null_parse_def sample_message_def)
  have e: "table_readable (row_to_message ok_id (take 3) null_parse) (file_rows p (\<lambda>_. None))" for p
    by (simp add: table_readable_def file_rows_def)
  have m: "message_ok (take 3) sample_message"
    by code_simp
  show ?thesis
    using events_survive_restart [OF file_database.sql_database_axioms i e w(1,2) m s w' r] j w w' s
    by (auto simp: sample_message_def)
qed

end
