(* ===== verification/Id_Text.thy ===== *)
theory Id_Text
  imports Messages
begin

text \<open>
  The text and JSON forms of the validated newtypes of \<^verbatim>\<open>sdks/rust/src/types/\<close>: fresh identifiers, suffixes, the
  messages of the errors, and the \<^verbatim>\<open>Serialize\<close> and \<^verbatim>\<open>Deserialize\<close> implementations.

  As in the theory of the newtypes the TypeID package is a parameter: \<open>create\<close> makes a fresh value under a prefix,
  \<open>suffix_of\<close>, \<open>to_str\<close>, \<open>from_str\<close> and \<open>prefix_of\<close> are its functions and \<open>show_e\<close> the text of its error.
\<close>

section \<open>Identifiers\<close>

definition MessageId_new :: "(string \<Rightarrow> 't) \<Rightarrow> 't message_id" where
  "MessageId_new create = MessageId (create MessageId_PREFIX)"

definition CorrelationId_new :: "(string \<Rightarrow> 't) \<Rightarrow> 't correlation_id" where
  "CorrelationId_new create = CorrelationId (create CorrelationId_PREFIX)"

definition CausationId_new :: "(string \<Rightarrow> 't) \<Rightarrow> 't causation_id" where
  "CausationId_new create = CausationId (create CausationId_PREFIX)"

definition MessageId_suffix :: "('t \<Rightarrow> string) \<Rightarrow> 't message_id \<Rightarrow> string" where
  "MessageId_suffix suffix_of i = suffix_of (MessageId_inner i)"

definition CorrelationId_suffix :: "('t \<Rightarrow> string) \<Rightarrow> 't correlation_id \<Rightarrow> string" where
  "CorrelationId_suffix suffix_of i = suffix_of (CorrelationId_inner i)"

definition CausationId_suffix :: "('t \<Rightarrow> string) \<Rightarrow> 't causation_id \<Rightarrow> string" where
  "CausationId_suffix suffix_of i = suffix_of (CausationId_inner i)"

definition show_invalid_message_id :: "('e \<Rightarrow> string) \<Rightarrow> 'e invalid_id \<Rightarrow> string" where
  "show_invalid_message_id show_e err = (case err of
      IdParse e \<Rightarrow> ''invalid message ID: '' @ show_e e
    | WrongPrefix expected actual \<Rightarrow> ''expected prefix '' @ quoted expected @ '', got '' @ quoted actual)"

definition show_invalid_correlation_id :: "('e \<Rightarrow> string) \<Rightarrow> 'e invalid_id \<Rightarrow> string" where
  "show_invalid_correlation_id show_e err = (case err of
      IdParse e \<Rightarrow> ''invalid correlation ID: '' @ show_e e
    | WrongPrefix expected actual \<Rightarrow> ''expected prefix '' @ quoted expected @ '', got '' @ quoted actual)"

definition show_invalid_causation_id :: "('e \<Rightarrow> string) \<Rightarrow> 'e invalid_id \<Rightarrow> string" where
  "show_invalid_causation_id show_e err = (case err of
      IdParse e \<Rightarrow> ''invalid causation ID: '' @ show_e e
    | WrongPrefix expected actual \<Rightarrow> ''expected prefix '' @ quoted expected @ '', got '' @ quoted actual)"

section \<open>JSON\<close>

text \<open>The deserialiser's own complaint about a value of the wrong kind, or the type's.\<close>

datatype de_error = InvalidType json | CustomError string

text \<open>\<^verbatim>\<open>String::deserialize\<close>, then the type's parser with its error as a custom one.\<close>

definition deserialize_parsed :: "(string \<Rightarrow> ('e, 'a) result) \<Rightarrow> ('e \<Rightarrow> string) \<Rightarrow> json \<Rightarrow> (de_error, 'a) result" where
  "deserialize_parsed parse show_err v = (case v of
      JString s \<Rightarrow> (case parse s of Inl e \<Rightarrow> Err (CustomError (show_err e)) | Inr x \<Rightarrow> Ok x)
    | _ \<Rightarrow> Err (InvalidType v))"

definition MessageId_serialize :: "('t \<Rightarrow> string) \<Rightarrow> 't message_id \<Rightarrow> json" where
  "MessageId_serialize to_str i = JString (to_str (MessageId_inner i))"

definition CorrelationId_serialize :: "('t \<Rightarrow> string) \<Rightarrow> 't correlation_id \<Rightarrow> json" where
  "CorrelationId_serialize to_str i = JString (to_str (CorrelationId_inner i))"

definition CausationId_serialize :: "('t \<Rightarrow> string) \<Rightarrow> 't causation_id \<Rightarrow> json" where
  "CausationId_serialize to_str i = JString (to_str (CausationId_inner i))"

definition MessageId_deserialize ::
  "(string \<Rightarrow> ('e, 't) result) \<Rightarrow> ('t \<Rightarrow> string) \<Rightarrow> ('e \<Rightarrow> string) \<Rightarrow> json \<Rightarrow> (de_error, 't message_id) result" where
  "MessageId_deserialize from_str prefix_of show_e =
     deserialize_parsed (MessageId_parse from_str prefix_of) (show_invalid_message_id show_e)"

definition CorrelationId_deserialize ::
  "(string \<Rightarrow> ('e, 't) result) \<Rightarrow> ('t \<Rightarrow> string) \<Rightarrow> ('e \<Rightarrow> string) \<Rightarrow> json \<Rightarrow> (de_error, 't correlation_id) result" where
  "CorrelationId_deserialize from_str prefix_of show_e =
     deserialize_parsed (CorrelationId_parse from_str prefix_of) (show_invalid_correlation_id show_e)"

definition CausationId_deserialize ::
  "(string \<Rightarrow> ('e, 't) result) \<Rightarrow> ('t \<Rightarrow> string) \<Rightarrow> ('e \<Rightarrow> string) \<Rightarrow> json \<Rightarrow> (de_error, 't causation_id) result" where
  "CausationId_deserialize from_str prefix_of show_e =
     deserialize_parsed (CausationId_parse from_str prefix_of) (show_invalid_causation_id show_e)"

definition MessageType_serialize :: "message_type \<Rightarrow> json" where
  "MessageType_serialize t = JString t"

definition MessageType_deserialize :: "json \<Rightarrow> (de_error, message_type) result" where
  "MessageType_deserialize = deserialize_parsed MessageType_new show_invalid_message_type"

definition PrimitiveName_serialize :: "primitive_name \<Rightarrow> json" where
  "PrimitiveName_serialize n = JString n"

definition PrimitiveName_deserialize :: "json \<Rightarrow> (de_error, primitive_name) result" where
  "PrimitiveName_deserialize = deserialize_parsed PrimitiveName_new show_invalid_primitive_name"

text \<open>\<^verbatim>\<open>Timestamp\<close> derives both forms, transparent over its \<^verbatim>\<open>u64\<close>.\<close>

definition Timestamp_serialize :: "timestamp \<Rightarrow> json" where
  "Timestamp_serialize t = JInt (uint (as_millis t))"

definition Timestamp_deserialize :: "json \<Rightarrow> (de_error, timestamp) result" where
  "Timestamp_deserialize v = (case v of
      JInt i \<Rightarrow> if 0 \<le> i \<and> i < 2 ^ 64 then Ok (Timestamp (word_of_int i)) else Err (InvalidType v)
    | _ \<Rightarrow> Err (InvalidType v))"

section \<open>The contract of a JSON form\<close>

text \<open>
  \<open>valid\<close> are the values the type's constructor makes: each is read back as it was written, and nothing else is read.
\<close>

locale json_form =
  fixes ser :: "'a \<Rightarrow> json" and de :: "json \<Rightarrow> (de_error, 'a) result" and valid :: "'a \<Rightarrow> bool"
  assumes de_ser: "valid x \<Longrightarrow> de (ser x) = Ok x"
    and de_valid: "de v = Ok x \<Longrightarrow> valid x"
begin

lemma read_write_read: "de v = Ok x \<Longrightarrow> de (ser x) = Ok x"
  by (rule de_ser [OF de_valid])

lemma ser_inj: "valid x \<Longrightarrow> valid y \<Longrightarrow> ser x = ser y \<Longrightarrow> x = y"
  by (metis de_ser sum.inject(2))

end

lemma deserialize_parsed_Ok_iff: "deserialize_parsed parse show_err v = Ok x \<longleftrightarrow> (\<exists>s. v = JString s \<and> parse s = Ok x)"
  by (auto simp: deserialize_parsed_def split: json.splits sum.splits)

interpretation message_type_json: json_form MessageType_serialize MessageType_deserialize "\<lambda>t. MessageType_new t = Ok t"
  by unfold_locales
     (auto simp: MessageType_serialize_def MessageType_deserialize_def deserialize_parsed_Ok_iff MessageType_new_Ok_iff)

interpretation primitive_name_json: json_form PrimitiveName_serialize PrimitiveName_deserialize "\<lambda>n. PrimitiveName_new n = Ok n"
  by unfold_locales
     (auto simp: PrimitiveName_serialize_def PrimitiveName_deserialize_def deserialize_parsed_Ok_iff PrimitiveName_new_Ok_iff)

interpretation timestamp_json: json_form Timestamp_serialize Timestamp_deserialize "\<lambda>_. True"
proof unfold_locales
  show "Timestamp_deserialize (Timestamp_serialize t) = Ok t" for t
    using uint_bounded [of "as_millis t"] by (cases t) (simp add: Timestamp_serialize_def Timestamp_deserialize_def)
qed simp

text \<open>What the TypeID package documents: an identifier is read back from its text. Each of the three forms then is one.\<close>

locale type_id_package =
  fixes from_str :: "string \<Rightarrow> ('e, 't) result" and to_str :: "'t \<Rightarrow> string" and prefix_of :: "'t \<Rightarrow> string"
    and show_e :: "'e \<Rightarrow> string"
  assumes from_to: "from_str (to_str t) = Ok t"

sublocale type_id_package \<subseteq> message_id_json: json_form "MessageId_serialize to_str"
  "MessageId_deserialize from_str prefix_of show_e" "\<lambda>i. prefix_of (MessageId_inner i) = MessageId_PREFIX"
proof unfold_locales
  show "MessageId_deserialize from_str prefix_of show_e (MessageId_serialize to_str i) = Ok i"
    if "prefix_of (MessageId_inner i) = MessageId_PREFIX" for i
    using that from_to
    by (cases i) (simp add: MessageId_serialize_def MessageId_deserialize_def deserialize_parsed_Ok_iff msg_id.parse_Ok)
qed (auto simp: MessageId_deserialize_def deserialize_parsed_Ok_iff dest: msg_id.parse_inner)

sublocale type_id_package \<subseteq> correlation_id_json: json_form "CorrelationId_serialize to_str"
  "CorrelationId_deserialize from_str prefix_of show_e" "\<lambda>i. prefix_of (CorrelationId_inner i) = CorrelationId_PREFIX"
proof unfold_locales
  show "CorrelationId_deserialize from_str prefix_of show_e (CorrelationId_serialize to_str i) = Ok i"
    if "prefix_of (CorrelationId_inner i) = CorrelationId_PREFIX" for i
    using that from_to
    by (cases i) (simp add: CorrelationId_serialize_def CorrelationId_deserialize_def deserialize_parsed_Ok_iff cor_id.parse_Ok)
qed (auto simp: CorrelationId_deserialize_def deserialize_parsed_Ok_iff dest: cor_id.parse_inner)

sublocale type_id_package \<subseteq> causation_id_json: json_form "CausationId_serialize to_str"
  "CausationId_deserialize from_str prefix_of show_e"
  "\<lambda>i. prefix_of (CausationId_inner i) = CausationId_PREFIX \<or> prefix_of (CausationId_inner i) = MessageId_PREFIX"
proof unfold_locales
  show "CausationId_deserialize from_str prefix_of show_e (CausationId_serialize to_str i) = Ok i"
    if "prefix_of (CausationId_inner i) = CausationId_PREFIX \<or> prefix_of (CausationId_inner i) = MessageId_PREFIX" for i
    using that from_to
    by (cases i) (auto simp: CausationId_serialize_def CausationId_deserialize_def deserialize_parsed_Ok_iff cau_id.parse_Ok)
qed (auto simp: CausationId_deserialize_def deserialize_parsed_Ok_iff dest!: cau_id.parse_inner)

context type_id_package
begin

text \<open>A message id read as a causation id is the causation id made from it.\<close>

lemma message_id_as_causation:
  assumes "prefix_of (MessageId_inner m) = MessageId_PREFIX"
  shows "CausationId_deserialize from_str prefix_of show_e (MessageId_serialize to_str m) = Ok (causation_from_message m)"
  using assms causation_id_json.de_ser [of "causation_from_message m"]
  by (simp add: causation_from_message_def CausationId_serialize_def MessageId_serialize_def)

text \<open>A fresh identifier of each type is valid where the package keeps the prefix it is given.\<close>

lemma fresh_valid:
  assumes "\<And>p. prefix_of (create p) = p"
  shows "MessageId_deserialize from_str prefix_of show_e (MessageId_serialize to_str (MessageId_new create)) = Ok (MessageId_new create)"
    and "CorrelationId_deserialize from_str prefix_of show_e (CorrelationId_serialize to_str (CorrelationId_new create))
      = Ok (CorrelationId_new create)"
    and "CausationId_deserialize from_str prefix_of show_e (CausationId_serialize to_str (CausationId_new create))
      = Ok (CausationId_new create)"
  using assms
  by (simp_all add: message_id_json.de_ser correlation_id_json.de_ser causation_id_json.de_ser
      MessageId_new_def CorrelationId_new_def CausationId_new_def)

end

text \<open>Identifiers as their own text, the prefix the part before the underscore.\<close>

interpretation text_ids: type_id_package "\<lambda>s. Ok s :: (string, string) result" "\<lambda>s. s" "takeWhile (\<lambda>c. c \<noteq> CHR ''_'')" "\<lambda>e. e"
  by unfold_locales simp

end
