(* ===== verification/Command_Line.thy ===== *)
theory Command_Line
  imports Engine_Main
begin

text \<open>
  The entry of the two programs: \<^verbatim>\<open>main\<close> of \<^verbatim>\<open>emergent-engine/src/main.rs\<close> up to the start of the engine, with its
  subcommands and the choice of a log writer, and \<^verbatim>\<open>init_tracing\<close> of \<^verbatim>\<open>sdks/rust/src/connection.rs\<close> for a primitive.

  The parsed arguments are a record; the subcommands other than \<^verbatim>\<open>validate\<close> are arguments, modelled in the theories
  of the marketplace, the scaffold and the update. A subscriber is its filter, its writer and whether it writes colour
  codes (\<open>None\<close>: the library decides); the library's default writer is the standard output. \<open>parses\<close> says which texts
  are log filters.
\<close>

section \<open>Subscribers\<close>

datatype log_writer = To_Stdout | To_Stderr | To_File string

record subscriber =
  sub_filter :: string
  sub_writer :: log_writer
  sub_ansi :: "bool option"

text \<open>\<^verbatim>\<open>tracing_subscriber::fmt().with_env_filter(filter)\<close>.\<close>

definition fmt_subscriber :: "string \<Rightarrow> subscriber" where
  "fmt_subscriber flt = \<lparr> sub_filter = flt, sub_writer = To_Stdout, sub_ansi = None \<rparr>"

definition try_env_filter :: "(string \<Rightarrow> bool) \<Rightarrow> string option \<Rightarrow> string option" where
  "try_env_filter parses env = (case env of Some v \<Rightarrow> if parses v then Some v else None | None \<Rightarrow> None)"

section \<open>The engine's command line\<close>

datatype ('i, 's, 'm, 'u) command =
    Command_Init 'i
  | Command_Scaffold 's
  | Command_Marketplace 'm
  | Command_Update 'u
  | Command_Validate validate_args

record ('i, 's, 'm, 'u) args =
  arg_config :: "string option"
  arg_socket :: "string option"
  arg_verbose :: bool
  arg_log_stdout :: bool
  arg_command :: "('i, 's, 'm, 'u) command option"

record ('i, 's, 'm, 'u) command_runs =
  run_init :: "'i \<Rightarrow> (string, unit) result"
  run_scaffold_command :: "'s \<Rightarrow> (string, unit) result"
  run_marketplace :: "'m \<Rightarrow> (string, unit) result"
  run_update :: "'u \<Rightarrow> (string, unit) result"

definition subcommand_subscriber :: "('i, 's, 'm, 'u) command \<Rightarrow> subscriber" where
  "subcommand_subscriber c =
     (let s = fmt_subscriber ''info,acton_reactive=off''
      in case c of Command_Validate _ \<Rightarrow> s\<lparr> sub_writer := To_Stderr \<rparr> | _ \<Rightarrow> s)"

text \<open>
  How \<^verbatim>\<open>main\<close> ends before the engine: with the result of a subcommand, with the text and the exit code of
  \<^verbatim>\<open>validate\<close>, or not, and then the engine starts on the configuration and the socket it is given.
\<close>

datatype main_outcome = SubcommandEnds "(string, unit) result" | ValidateEnds string int | EngineStarts "string option" "string option"

definition main_dispatch ::
  "('i, 's, 'm, 'u) command_runs \<Rightarrow> (string option \<Rightarrow> validate_args \<Rightarrow> string \<times> int) \<Rightarrow> ('i, 's, 'm, 'u) args
     \<Rightarrow> subscriber option \<times> main_outcome" where
  "main_dispatch runs validate_command a = (case arg_command a of
      None \<Rightarrow> (None, EngineStarts (arg_config a) (arg_socket a))
    | Some c \<Rightarrow> (Some (subcommand_subscriber c), case c of
        Command_Init i \<Rightarrow> SubcommandEnds (run_init runs i)
      | Command_Scaffold s \<Rightarrow> SubcommandEnds (run_scaffold_command runs s)
      | Command_Marketplace m \<Rightarrow> SubcommandEnds (run_marketplace runs m)
      | Command_Update u \<Rightarrow> SubcommandEnds (run_update runs u)
      | Command_Validate v \<Rightarrow> (case validate_command (arg_config a) v of (out, code) \<Rightarrow> ValidateEnds out code)))"

text \<open>
  \<open>RUST_LOG\<close> sets the filter; \<open>open_log\<close> creates or opens a file to append to. Besides the subscriber: the line
  printed when the log file cannot be opened.
\<close>

definition log_directory :: "string option \<Rightarrow> string \<Rightarrow> string" where
  "log_directory data_dir name = (case data_dir of Some d \<Rightarrow> path_join d name | None \<Rightarrow> ''.'')"

definition engine_subscriber ::
  "(string \<Rightarrow> bool) \<Rightarrow> string option \<Rightarrow> bool \<Rightarrow> string option \<Rightarrow> (string \<Rightarrow> (string, unit) result) \<Rightarrow> string \<Rightarrow> log_destination
     \<Rightarrow> subscriber \<times> string list" where
  "engine_subscriber parses rust_log stdout_is_terminal data_dir open_log engine_name destination =
     (let flt = (case try_env_filter parses rust_log of Some f \<Rightarrow> f | None \<Rightarrow> ''info,acton_reactive=off'');
          s = fmt_subscriber flt
      in case destination of
           Terminal \<Rightarrow> (s, [])
         | Stdout \<Rightarrow> (s\<lparr> sub_writer := To_Stdout, sub_ansi := Some stdout_is_terminal \<rparr>, [])
         | LogFile \<Rightarrow>
             (let path = path_join (log_directory data_dir engine_name) ''emergent.log''
              in case open_log path of
                   Inr _ \<Rightarrow> (s\<lparr> sub_writer := To_File path, sub_ansi := Some False \<rparr>, [])
                 | Inl e \<Rightarrow> (s\<lparr> sub_writer := To_Stderr, sub_ansi := Some False \<rparr>,
                     [''Cannot open '' @ path @ '': '' @ e @ ''. Logging to stderr instead.''])))"

section \<open>A primitive's tracing\<close>

text \<open>
  \<open>None\<close> when the primitive has installed its own; \<open>emergent_log\<close> and \<open>rust_log\<close> are the two variables. A file that
  cannot be opened leaves the primitive silent: the filter \<open>off\<close>.
\<close>

definition init_tracing ::
  "(string \<Rightarrow> bool) \<Rightarrow> bool \<Rightarrow> string option \<Rightarrow> string option \<Rightarrow> string option \<Rightarrow> (string \<Rightarrow> (string, unit) result) \<Rightarrow> string
     \<Rightarrow> subscriber option" where
  "init_tracing parses has_been_set emergent_log rust_log data_dir open_log name =
     (if has_been_set then None
      else let flt = (case try_env_filter parses emergent_log of Some f \<Rightarrow> f
                      | None \<Rightarrow> (case try_env_filter parses rust_log of Some f \<Rightarrow> f | None \<Rightarrow> ''info''));
               wants_stderr = (case emergent_log of Some v \<Rightarrow> to_ascii_lowercase v = ''stderr'' | None \<Rightarrow> False)
           in if wants_stderr then Some (fmt_subscriber ''info'')
              else let path = path_join (log_directory data_dir name) ''primitive.log''
                   in (case open_log path of
                         Inr _ \<Rightarrow> Some ((fmt_subscriber flt)\<lparr> sub_writer := To_File path, sub_ansi := Some False \<rparr>)
                       | Inl _ \<Rightarrow> Some (fmt_subscriber ''off'')))"

section \<open>What reaches the standard output\<close>

text \<open>\<^verbatim>\<open>validate\<close> keeps the standard output for its result, the other subcommands log there.\<close>

lemma subcommand_writes_stdout_iff:
  "sub_writer (subcommand_subscriber c) = To_Stdout \<longleftrightarrow> (\<forall>v. c \<noteq> Command_Validate v)"
  by (cases c) (simp_all add: subcommand_subscriber_def fmt_subscriber_def Let_def)

text \<open>The engine starts exactly without a subcommand, and then no subscriber is installed before its configuration is read.\<close>

lemma engine_starts_iff:
  "(\<exists>c s. snd (main_dispatch runs validate_command a) = EngineStarts c s) \<longleftrightarrow> arg_command a = None"
  "fst (main_dispatch runs validate_command a) = None \<longleftrightarrow> arg_command a = None"
  by (auto simp: main_dispatch_def split: option.splits command.splits prod.splits)

text \<open>A running engine writes its log lines to its standard output only when asked to.\<close>

lemma engine_stdout_iff:
  "sub_writer (fst (engine_subscriber parses rust_log tty data_dir open_log name (log_destination_for verbose log_stdout env))) = To_Stdout
     \<longleftrightarrow> verbose \<or> log_stdout \<or> env_flag_enabled env"
  by (auto simp: engine_subscriber_def log_destination_for_def fmt_subscriber_def Let_def split: sum.splits)

text \<open>\<^verbatim>\<open>--verbose\<close> chooses the writer; the filter is the one of every other run.\<close>

lemma verbose_keeps_filter:
  "sub_filter (fst (engine_subscriber parses rust_log tty data_dir open_log name d))
     = sub_filter (fst (engine_subscriber parses rust_log tty' data_dir' open_log' name' d'))"
  by (auto simp: engine_subscriber_def fmt_subscriber_def Let_def split: log_destination.splits sum.splits)

text \<open>
  A primitive's lines go to its log file or nowhere, but with \<^verbatim>\<open>EMERGENT_LOG=stderr\<close> they go to the standard output:
  the subscriber keeps the library's writer.
\<close>

lemma primitive_log_lines:
  assumes "init_tracing parses has_been_set emergent_log rust_log data_dir open_log name = Some s" "sub_filter s \<noteq> ''off''"
  shows "(sub_writer s = To_Stdout \<and> (\<exists>v. emergent_log = Some v \<and> to_ascii_lowercase v = ''stderr''))
    \<or> sub_writer s = To_File (path_join (log_directory data_dir name) ''primitive.log'')"
  using assms by (auto simp: init_tracing_def fmt_subscriber_def Let_def split: if_splits option.splits sum.splits)

end
