(* ===== verification/Message_Queue.thy ===== *)
theory Message_Queue
  imports Prelude
begin

text \<open>
  The stream a primitive reads its messages from (\<^verbatim>\<open>MessageStream\<close> of \<^verbatim>\<open>sdks/rust/src/stream.rs\<close>): the receiving end of
  the channel whose sending end is the task of \<^verbatim>\<open>push_to_message_stream\<close>. Of the channel the model uses what
  \<^verbatim>\<open>tokio::sync::mpsc\<close> documents: a bounded queue, a send that waits for room, a receiver that still gives what
  was queued after it was closed or after the last sender is gone, and then gives the end.
\<close>

section \<open>The stream\<close>

record 'm queue_stream =
  qs_queue :: "'m list"
  qs_closed :: bool
  qs_sender_alive :: bool
  qs_connection :: bool

datatype 'm poll = Pending | Ready "'m option"

definition stream_new :: "'m queue_stream" where
  "stream_new = \<lparr> qs_queue = [], qs_closed = False, qs_sender_alive = True, qs_connection = False \<rparr>"

definition stream_owning :: "'m queue_stream \<Rightarrow> 'm queue_stream" where
  "stream_owning s = s\<lparr> qs_connection := True \<rparr>"

definition stream_poll_next :: "'m queue_stream \<Rightarrow> 'm poll \<times> 'm queue_stream" where
  "stream_poll_next s = (case qs_queue s of
      m # ms \<Rightarrow> (Ready (Some m), s\<lparr> qs_queue := ms \<rparr>)
    | [] \<Rightarrow> (if qs_closed s \<or> \<not> qs_sender_alive s then Ready None else Pending, s))"

text \<open>\<^verbatim>\<open>try_recv\<close> has an error for an empty queue and one for an ended stream; \<^verbatim>\<open>ok\<close> makes both nothing.\<close>

definition stream_try_next :: "'m queue_stream \<Rightarrow> 'm option \<times> 'm queue_stream" where
  "stream_try_next s = (case stream_poll_next s of (Ready m, s) \<Rightarrow> (m, s) | (Pending, s) \<Rightarrow> (None, s))"

definition stream_close :: "'m queue_stream \<Rightarrow> 'm queue_stream" where
  "stream_close s = s\<lparr> qs_closed := True \<rparr>"

text \<open>The sending end: a message is taken, given back because the receiver is closed, or has to wait.\<close>

definition STREAM_CAPACITY :: nat where
  "STREAM_CAPACITY = 256"

datatype send_result = Sent | SendRefused | SendWaits

definition stream_send :: "'m \<Rightarrow> 'm queue_stream \<Rightarrow> send_result \<times> 'm queue_stream" where
  "stream_send m s =
     (if qs_closed s then (SendRefused, s)
      else if length (qs_queue s) \<ge> STREAM_CAPACITY then (SendWaits, s)
      else (Sent, s\<lparr> qs_queue := qs_queue s @ [m] \<rparr>))"

section \<open>What is sent is what is read\<close>

datatype 'm stream_op = Send 'm | PollNext | TryNext | CloseStream | SenderGone

text \<open>A stream with what its sender was told was sent and what its reader was given.\<close>

record 'm stream_run =
  sr_stream :: "'m queue_stream"
  sr_sent :: "'m list"
  sr_read :: "'m list"
  sr_ended :: bool

definition run_start :: "'m stream_run" where
  "run_start = \<lparr> sr_stream = stream_new, sr_sent = [], sr_read = [], sr_ended = False \<rparr>"

definition took :: "'m option \<Rightarrow> 'm list" where
  "took r = (case r of Some m \<Rightarrow> [m] | None \<Rightarrow> [])"

definition stream_op_step :: "'m stream_run \<Rightarrow> 'm stream_op \<Rightarrow> 'm stream_run" where
  "stream_op_step r op = (case op of
      Send m \<Rightarrow> if \<not> qs_sender_alive (sr_stream r) then r
        else (case stream_send m (sr_stream r) of (res, s) \<Rightarrow>
          r\<lparr> sr_stream := s, sr_sent := sr_sent r @ (if res = Sent then [m] else []) \<rparr>)
    | PollNext \<Rightarrow> (case stream_poll_next (sr_stream r) of
        (Ready m, s) \<Rightarrow> r\<lparr> sr_stream := s, sr_read := sr_read r @ took m, sr_ended := (sr_ended r \<or> m = None) \<rparr>
      | (Pending, s) \<Rightarrow> r\<lparr> sr_stream := s \<rparr>)
    | TryNext \<Rightarrow> (case stream_try_next (sr_stream r) of (m, s) \<Rightarrow> r\<lparr> sr_stream := s, sr_read := sr_read r @ took m \<rparr>)
    | CloseStream \<Rightarrow> r\<lparr> sr_stream := stream_close (sr_stream r) \<rparr>
    | SenderGone \<Rightarrow> r\<lparr> sr_stream := (sr_stream r)\<lparr> qs_sender_alive := False \<rparr> \<rparr>)"

definition run_ok :: "'m stream_run \<Rightarrow> bool" where
  "run_ok r \<longleftrightarrow> sr_sent r = sr_read r @ qs_queue (sr_stream r) \<and> length (qs_queue (sr_stream r)) \<le> STREAM_CAPACITY
     \<and> (sr_ended r \<longrightarrow> qs_queue (sr_stream r) = [] \<and> (qs_closed (sr_stream r) \<or> \<not> qs_sender_alive (sr_stream r)))"

lemma poll_next_cases:
  obtains m ms where "qs_queue s = m # ms" "stream_poll_next s = (Ready (Some m), s\<lparr> qs_queue := ms \<rparr>)"
  | "qs_queue s = []" "qs_closed s \<or> \<not> qs_sender_alive s" "stream_poll_next s = (Ready None, s)"
  | "qs_queue s = []" "\<not> qs_closed s" "qs_sender_alive s" "stream_poll_next s = (Pending, s)"
  by (cases "qs_queue s") (auto simp: stream_poll_next_def split: if_splits)

lemma stream_op_step_ok: "run_ok r \<Longrightarrow> run_ok (stream_op_step r op)"
proof (cases op)
  case PollNext
  then show "run_ok r \<Longrightarrow> ?thesis"
    by (cases "sr_stream r" rule: poll_next_cases) (auto simp: stream_op_step_def run_ok_def took_def)
next
  case TryNext
  then show "run_ok r \<Longrightarrow> ?thesis"
    by (cases "sr_stream r" rule: poll_next_cases) (auto simp: stream_op_step_def stream_try_next_def run_ok_def took_def)
qed (auto simp: stream_op_step_def run_ok_def stream_send_def stream_close_def)

interpretation stream_runs: step_function stream_op_step run_ok
  by unfold_locales (rule stream_op_step_ok)

lemma run_start_ok: "run_ok run_start"
  by (simp add: run_ok_def run_start_def stream_new_def STREAM_CAPACITY_def)

section \<open>Properties\<close>

text \<open>
  The stream gives what was sent to it, once each and in order, whatever the interleaving of sends, reads,
  the close and the end of the sender: what was read is always the beginning of what was sent, at most the
  capacity of the channel behind, and once a read has given the end, all of it was read, however early the stream
  was closed.
\<close>

theorem stream_gives_what_was_sent:
  "prefix (sr_read (run_steps stream_op_step run_start ops)) (sr_sent (run_steps stream_op_step run_start ops))
    \<and> length (sr_sent (run_steps stream_op_step run_start ops)) \<le> length (sr_read (run_steps stream_op_step run_start ops)) + STREAM_CAPACITY
    \<and> (sr_ended (run_steps stream_op_step run_start ops)
        \<longrightarrow> sr_read (run_steps stream_op_step run_start ops) = sr_sent (run_steps stream_op_step run_start ops))"
  using stream_runs.run_inv [OF run_start_ok, of ops] by (simp add: run_ok_def prefix_def)

end
