(* ===== verification/Example_Primitives.thy ===== *)
theory Example_Primitives
  imports Sdk_Helpers Broker Utf8
begin

text \<open>
  The example primitives written with the Rust SDK: the timer source, the filter and exec handlers, the console and
  log sinks (\<^verbatim>\<open>examples/sources/timer\<close>, \<^verbatim>\<open>examples/handlers/*\<close>, \<^verbatim>\<open>examples/sinks/*\<close>). Each is a small program over the
  client of \<open>Sdk_Client\<close>: it connects, subscribes, and loops over what \<^verbatim>\<open>select!\<close> gives it. The results of the calls to
  the SDK are arguments, and so are the child process of the exec handler, the text of JSON values, the clock and
  the log file's writes, each of which may fail.
\<close>

section \<open>What the programs share\<close>

text \<open>
  \<open>draw n\<close> is the identifier and the time the \<open>n\<close>th \<^verbatim>\<open>EmergentMessage::new\<close> of a program takes. A publish hands a
  message to the client; what it returns is ignored by all these programs.
\<close>

type_synonym 't draws = "nat \<Rightarrow> 't message_id \<times> timestamp"

record 't outbox =
  ob_drawn :: nat
  ob_published :: "'t emergent_message list"

definition outbox_start :: "'t outbox" where
  "outbox_start = \<lparr> ob_drawn = 0, ob_published = [] \<rparr>"

text \<open>A new message of a type, completed and published: \<open>None\<close> is the panic on a type that is not valid.\<close>

definition emit ::
  "'t draws \<Rightarrow> string \<Rightarrow> ('t emergent_message \<Rightarrow> 't emergent_message) \<Rightarrow> 't outbox \<Rightarrow> 't outbox option" where
  "emit draw t build ob = (case draw (ob_drawn ob) of (mid, ts) \<Rightarrow>
     map_option (\<lambda>m. \<lparr> ob_drawn = ob_drawn ob + 1, ob_published = ob_published ob @ [build m] \<rparr>)
       (new_with_id_and_timestamp t mid ts))"

datatype loop_ending = StillLooping | LoopDisconnected | LoopStreamEnded | LoopPanicked

fun select_loop :: "('m \<Rightarrow> 's \<Rightarrow> 's option) \<Rightarrow> 's \<Rightarrow> 'm loop_input list \<Rightarrow> 's \<times> loop_ending" where
  "select_loop step s [] = (s, StillLooping)"
| "select_loop step s (loop_input.SigTerm # ins) = (s, LoopDisconnected)"
| "select_loop step s (StreamEnded # ins) = (s, LoopStreamEnded)"
| "select_loop step s (Delivered m # ins) = (case step m s of
      None \<Rightarrow> (s, LoopPanicked) | Some s' \<Rightarrow> select_loop step s' ins)"

text \<open>How \<^verbatim>\<open>main\<close> ends: by \<^verbatim>\<open>exit(1)\<close> with lines on the error output, by an error it returns, or after its loop.\<close>

datatype 'a main_end = Exited "string list" | MainError string | Looped 'a

definition exit_on :: "string \<Rightarrow> (client_error, 'a) result \<Rightarrow> ('a \<Rightarrow> 'b main_end) \<Rightarrow> 'b main_end" where
  "exit_on what r k = (case r of Inl e \<Rightarrow> Exited [what @ '': '' @ show_client_error e] | Inr x \<Rightarrow> k x)"

definition question_mark :: "(string, 'a) result \<Rightarrow> ('a \<Rightarrow> 'b main_end) \<Rightarrow> 'b main_end" where
  "question_mark r k = (case r of Inl e \<Rightarrow> MainError e | Inr x \<Rightarrow> k x)"

definition connect_failed :: string where
  "connect_failed = ''Failed to connect to Emergent engine''"

definition env_name_or :: "string \<Rightarrow> string option \<Rightarrow> string" where
  "env_name_or dflt env = (case env of Some n \<Rightarrow> n | None \<Rightarrow> dflt)"

text \<open>
  A field of a struct as serde reads it: from an object by its key, from an array by its place. An array may leave
  out the last fields when they have defaults.
\<close>

definition struct_field :: "nat \<Rightarrow> nat \<Rightarrow> nat \<Rightarrow> string \<Rightarrow> json \<Rightarrow> json option" where
  "struct_field least most i k v = (case v of
      JArray xs \<Rightarrow> if least \<le> length xs \<and> length xs \<le> most \<and> i < length xs then Some (xs ! i) else None
    | _ \<Rightarrow> json_get k v)"

definition struct_shape :: "nat \<Rightarrow> nat \<Rightarrow> json \<Rightarrow> bool" where
  "struct_shape least most v = (case v of
      JArray xs \<Rightarrow> least \<le> length xs \<and> length xs \<le> most | JObject _ \<Rightarrow> True | _ \<Rightarrow> False)"

section \<open>The timer source\<close>

record timer_args =
  ta_interval :: u64
  ta_max_ticks :: u64

definition timer_tick_payload :: "u64 \<Rightarrow> u64 \<Rightarrow> json" where
  "timer_tick_payload sequence interval_ms =
     JObject [(''sequence'', JInt (uint sequence)), (''interval_ms'', JInt (uint interval_ms))]"

datatype timer_input = IntervalTick | TimerSigTerm

text \<open>\<open>sequence + 1\<close> wraps, as the release build does.\<close>

fun timer_loop :: "'t draws \<Rightarrow> timer_args \<Rightarrow> u64 \<Rightarrow> 't outbox \<Rightarrow> timer_input list \<Rightarrow> 't outbox \<times> loop_ending" where
  "timer_loop draw a sequence ob [] = (ob, StillLooping)"
| "timer_loop draw a sequence ob (TimerSigTerm # ins) = (ob, LoopDisconnected)"
| "timer_loop draw a sequence ob (IntervalTick # ins) =
     (let sequence = sequence + 1
      in case emit draw ''timer.tick'' (with_payload (timer_tick_payload sequence (ta_interval a))) ob of
           None \<Rightarrow> (ob, LoopPanicked)
         | Some ob \<Rightarrow>
             if ta_max_ticks a > 0 \<and> sequence \<ge> ta_max_ticks a then (ob, LoopDisconnected)
             else timer_loop draw a sequence ob ins)"

text \<open>An interval of no length is a panic of the timer.\<close>

definition timer_main ::
  "string option \<Rightarrow> (string \<Rightarrow> (client_error, unit) result) \<Rightarrow> (string, unit) result \<Rightarrow> 't draws \<Rightarrow> timer_args \<Rightarrow> timer_input list
     \<Rightarrow> ('t outbox \<times> loop_ending) main_end" where
  "timer_main env connect signals draw a ins =
     exit_on connect_failed (connect (env_name_or ''timer_source'' env)) (\<lambda>_.
     question_mark signals (\<lambda>_.
     Looped (if ta_interval a = 0 then (outbox_start, LoopPanicked) else timer_loop draw a 0 outbox_start ins)))"

section \<open>The filter handler\<close>

definition read_tick :: "json \<Rightarrow> (u64 \<times> u64) option" where
  "read_tick v = do {
     sequence \<leftarrow> read_u64 (struct_field 2 2 0 ''sequence'' v);
     interval_ms \<leftarrow> read_u64 (struct_field 2 2 1 ''interval_ms'' v);
     Some (sequence, interval_ms)
   }"

definition is_multiple_of :: "u64 \<Rightarrow> u64 \<Rightarrow> bool" where
  "is_multiple_of a b = (if b = 0 then a = 0 else a mod b = 0)"

definition filtered_payload :: "u64 \<Rightarrow> u64 \<Rightarrow> u64 \<Rightarrow> json" where
  "filtered_payload sequence interval_ms every = JObject
     [(''original_sequence'', JInt (uint sequence)), (''original_interval_ms'', JInt (uint interval_ms)),
      (''filter_reason'', JString (''every_'' @ show_nat (unat every) @ ''th'')), (''filter_every'', JInt (uint every))]"

definition processed_payload :: "u64 \<Rightarrow> bool \<Rightarrow> u64 \<Rightarrow> json" where
  "processed_payload sequence passed every = JObject
     [(''original_sequence'', JInt (uint sequence)), (''action'', JString (if passed then ''passed'' else ''filtered'')),
      (''reason'', JString (if passed then ''every_'' @ show_nat (unat every) @ ''th'' else ''not_multiple_of_'' @ show_nat (unat every)))]"

definition caused_by :: "'t emergent_message \<Rightarrow> json \<Rightarrow> 't emergent_message \<Rightarrow> 't emergent_message" where
  "caused_by m payload out = with_payload payload (with_causation_from_message (msg_id m) out)"

definition filter_step :: "'t draws \<Rightarrow> u64 \<Rightarrow> 't emergent_message \<Rightarrow> 't outbox \<Rightarrow> 't outbox option" where
  "filter_step draw every m ob = (case read_tick (msg_payload m) of
      None \<Rightarrow> Some ob
    | Some (sequence, interval_ms) \<Rightarrow>
        if is_multiple_of sequence every then
          Option.bind (emit draw ''timer.filtered'' (caused_by m (filtered_payload sequence interval_ms every)) ob) (\<lambda>ob.
            emit draw ''filter.processed'' (caused_by m (processed_payload sequence True every)) ob)
        else emit draw ''filter.processed'' (caused_by m (processed_payload sequence False every)) ob)"

definition filter_main ::
  "string option \<Rightarrow> (string \<Rightarrow> (client_error, unit) result) \<Rightarrow> (string list \<Rightarrow> (client_error, unit) result) \<Rightarrow> (string, unit) result
     \<Rightarrow> 't draws \<Rightarrow> u64 \<Rightarrow> 't emergent_message loop_input list \<Rightarrow> ('t outbox \<times> loop_ending) main_end" where
  "filter_main env connect subscribe signals draw every ins =
     exit_on connect_failed (connect (env_name_or ''filter_handler'' env)) (\<lambda>_.
     exit_on ''Failed to subscribe'' (subscribe [''timer.tick'']) (\<lambda>_.
     question_mark signals (\<lambda>_. Looped (select_loop (filter_step draw every) outbox_start ins))))"

section \<open>The exec handler\<close>

record exec_args =
  ea_publish_as :: string
  ea_error_as :: string
  ea_timeout :: u64
  ea_command :: "string list"

record exec_result =
  er_stdout_payload :: json
  er_stderr :: "string option"

datatype exec_error =
    ExecFailed int string string
  | ExecTimeout string
  | ExecSpawnFailed string string
  | ExecStdinFailed string string

text \<open>
  The child: whether it was spawned, what writing its input gave, and what the wait within the timeout gave. \<open>run\<close>
  is given the command, the timeout in milliseconds and the bytes for the input.
\<close>

datatype stdin_outcome = StdinWritten | StdinBrokenPipe | StdinError string

datatype wait_outcome = WaitTimedOut | WaitError string | Waited "int option" string string

record child_run =
  cr_spawn :: "(string, unit) result"
  cr_stdin :: stdin_outcome
  cr_wait :: wait_outcome

record exec_world =
  ew_run :: "string list \<Rightarrow> u64 \<Rightarrow> string \<Rightarrow> child_run"
  ew_to_vec :: "json \<Rightarrow> string"
  ew_from_slice :: "string \<Rightarrow> json option"

definition execute_command ::
  "exec_world \<Rightarrow> json \<Rightarrow> string list \<Rightarrow> u64 \<Rightarrow> (exec_error, exec_result) result" where
  "execute_command ew payload command timeout_ms =
     (let command_str = join_with '' '' command; child = ew_run ew command timeout_ms (ew_to_vec ew payload)
      in case cr_spawn child of
           Inl e \<Rightarrow> Err (ExecSpawnFailed e command_str)
         | Inr _ \<Rightarrow> (case cr_stdin child of
             StdinError e \<Rightarrow> Err (ExecStdinFailed e command_str)
           | _ \<Rightarrow> (case cr_wait child of
               WaitTimedOut \<Rightarrow> Err (ExecTimeout command_str)
             | WaitError e \<Rightarrow> Err (ExecSpawnFailed e command_str)
             | Waited code out err \<Rightarrow>
                 (let exit_code = (case code of Some c \<Rightarrow> c | None \<Rightarrow> -1)
                  in if exit_code \<noteq> 0 then Err (ExecFailed exit_code (utf8_lossy err) command_str)
                     else Ok \<lparr> er_stdout_payload = (case ew_from_slice ew out of
                            Some v \<Rightarrow> v | None \<Rightarrow> JObject [(''output'', JString (trim (utf8_lossy out)))]),
                          er_stderr = (let s = trim (utf8_lossy err) in if s = [] then None else Some s) \<rparr>))))"

definition exec_error_payload :: "exec_error \<Rightarrow> json" where
  "exec_error_payload e = (case e of
      ExecFailed code err command \<Rightarrow> JObject [(''exit_code'', JInt code), (''stderr'', JString err), (''command'', JString command)]
    | ExecTimeout command \<Rightarrow>
        JObject [(''exit_code'', JNull), (''stderr'', JString ''process timed out''), (''command'', JString command)]
    | ExecSpawnFailed err command \<Rightarrow> JObject [(''exit_code'', JNull), (''stderr'', JString err), (''command'', JString command)]
    | ExecStdinFailed err command \<Rightarrow>
        JObject [(''exit_code'', JNull), (''stderr'', JString (''stdin write failed: '' @ err)), (''command'', JString command)])"

definition answering :: "'t emergent_message \<Rightarrow> json \<Rightarrow> 't emergent_message \<Rightarrow> 't emergent_message" where
  "answering m payload out =
     with_payload payload (with_correlation_id_option (msg_correlation_id m) (with_causation_from_message (msg_id m) out))"

definition exec_step :: "exec_world \<Rightarrow> 't draws \<Rightarrow> exec_args \<Rightarrow> 't emergent_message \<Rightarrow> 't outbox \<Rightarrow> 't outbox option" where
  "exec_step ew draw a m ob = (case execute_command ew (msg_payload m) (ea_command a) (ea_timeout a) of
      Inr r \<Rightarrow> emit draw (ea_publish_as a) (\<lambda>out.
        let out = answering m (er_stdout_payload r) out
        in case er_stderr r of Some err \<Rightarrow> with_metadata (JObject [(''stderr'', JString err)]) out | None \<Rightarrow> out) ob
    | Inl e \<Rightarrow> emit draw (ea_error_as a) (answering m (exec_error_payload e)) ob)"

definition exec_main ::
  "string option \<Rightarrow> (string \<Rightarrow> (client_error, unit) result) \<Rightarrow> (client_error, string list) result
     \<Rightarrow> (string list \<Rightarrow> (client_error, unit) result) \<Rightarrow> (string, unit) result \<Rightarrow> exec_world \<Rightarrow> 't draws \<Rightarrow> exec_args
     \<Rightarrow> 't emergent_message loop_input list \<Rightarrow> ('t outbox \<times> loop_ending) main_end" where
  "exec_main env connect subscriptions subscribe signals ew draw a ins =
     (if ea_command a = [] then
        Exited [''Error: no command specified. Provide a command after '' @ quoted ''--'' @ ''.'',
          ''Example: exec-handler --publish-as data.out -- jq '' @ quoted ''.'']
      else let name = env_name_or ''exec_handler'' env in
        exit_on connect_failed (connect name) (\<lambda>_.
        exit_on ''Failed to get subscriptions'' subscriptions (\<lambda>topics.
        if topics = [] then Exited [''No subscription topics configured for '' @ quoted name]
        else exit_on ''Failed to subscribe'' (subscribe topics) (\<lambda>_.
          question_mark signals (\<lambda>_. Looped (select_loop (exec_step ew draw a) outbox_start ins))))))"

section \<open>The console sink\<close>

record console_system_payload =
  csp_name :: string
  csp_kind :: string
  csp_error :: "string option"

definition read_system_payload :: "json \<Rightarrow> console_system_payload option" where
  "read_system_payload v = (if \<not> struct_shape 2 3 v then None else do {
     name \<leftarrow> Option.bind (struct_field 2 3 0 ''name'' v) json_as_str;
     kind \<leftarrow> Option.bind (struct_field 2 3 1 ''kind'' v) json_as_str;
     error \<leftarrow> read_optional json_as_str (struct_field 2 3 2 ''error'' v);
     Some \<lparr> csp_name = name, csp_kind = kind, csp_error = error \<rparr>
   })"

definition read_processed :: "json \<Rightarrow> (u64 \<times> string \<times> string option) option" where
  "read_processed v = (if \<not> struct_shape 2 3 v then None else do {
     sequence \<leftarrow> read_u64 (struct_field 2 3 0 ''original_sequence'' v);
     action \<leftarrow> Option.bind (struct_field 2 3 1 ''action'' v) json_as_str;
     reason \<leftarrow> read_optional json_as_str (struct_field 2 3 2 ''reason'' v);
     Some (sequence, action, reason)
   })"

definition read_filtered :: "json \<Rightarrow> (u64 \<times> string option \<times> u64 option) option" where
  "read_filtered v = (if \<not> struct_shape 1 3 v then None else do {
     sequence \<leftarrow> read_u64 (struct_field 1 3 0 ''original_sequence'' v);
     reason \<leftarrow> read_optional json_as_str (struct_field 1 3 1 ''filter_reason'' v);
     every \<leftarrow> read_optional (\<lambda>j. read_u64 (Some j)) (struct_field 1 3 2 ''filter_every'' v);
     Some (sequence, reason, every)
   })"

text \<open>\<^verbatim>\<open>&message_id[..8]\<close> panics on a text of fewer than eight bytes; identifiers are ASCII.\<close>

definition first_eight :: "string \<Rightarrow> string option" where
  "first_eight s = (if length s < 8 then None else Some (take 8 s))"

definition filter_info :: "string option \<Rightarrow> u64 option \<Rightarrow> string" where
  "filter_info reason every = (case (reason, every) of
      (Some r, Some n) \<Rightarrow> ''('' @ r @ '' every '' @ show_nat (unat n) @ '')''
    | (Some r, None) \<Rightarrow> ''('' @ r @ '')''
    | (None, Some n) \<Rightarrow> ''(every '' @ show_nat (unat n) @ '')''
    | (None, None) \<Rightarrow> [])"

definition lifecycle_line :: "string \<Rightarrow> string \<Rightarrow> console_system_payload \<Rightarrow> string option" where
  "lifecycle_line tag message_id p =
     map_option (\<lambda>i. tag @ '' '' @ csp_name p @ '' ('' @ csp_kind p @ '') ['' @ i @ '']'') (first_eight message_id)"

text \<open>\<open>None\<close> is a panic.\<close>

definition format_message :: "(json \<Rightarrow> string) \<Rightarrow> string \<Rightarrow> string \<Rightarrow> json \<Rightarrow> string option" where
  "format_message show_json t message_id payload =
     (let fallback = Some (''['' @ t @ ''] '' @ show_json payload)
      in if starts_with t ''system.started.'' then
           (case read_system_payload payload of Some p \<Rightarrow> lifecycle_line ''[STARTED]'' message_id p | None \<Rightarrow> fallback)
         else if starts_with t ''system.stopped.'' then
           (case read_system_payload payload of Some p \<Rightarrow> lifecycle_line ''[STOPPED]'' message_id p | None \<Rightarrow> fallback)
         else if starts_with t ''system.error.'' then
           (case read_system_payload payload of
              Some p \<Rightarrow> Some (''[ERROR] '' @ csp_name p @ '' ('' @ csp_kind p @ ''): ''
                @ (case csp_error p of Some e \<Rightarrow> e | None \<Rightarrow> ''unknown error''))
            | None \<Rightarrow> fallback)
         else if t = ''filter.processed'' then
           (case read_processed payload of
              Some (n, action, reason) \<Rightarrow> Some (trim (''[FILTER] tick #'' @ show_nat (unat n) @ '' '' @ action @ '' ''
                @ (case reason of Some r \<Rightarrow> r | None \<Rightarrow> [])))
            | None \<Rightarrow> fallback)
         else if t = ''timer.filtered'' then
           (case read_filtered payload of
              Some (n, reason, every) \<Rightarrow> Some (trim (''[FILTERED] tick #'' @ show_nat (unat n) @ '' '' @ filter_info reason every))
            | None \<Rightarrow> fallback)
         else fallback)"

text \<open>The topics of both sinks: from the command line, or the configured ones.\<close>

definition sink_topics :: "string option \<Rightarrow> (client_error, string list) result \<Rightarrow> (client_error, string list) result" where
  "sink_topics override configured = (case override of
      Some s \<Rightarrow> Ok (map trim (split_on (CHR '','') s)) | None \<Rightarrow> configured)"

text \<open>The lines printed so far are the state; \<open>clock n\<close> is the time of day of the \<open>n\<close>th line.\<close>

definition console_step ::
  "(json \<Rightarrow> string) \<Rightarrow> ('t \<Rightarrow> string) \<Rightarrow> (nat \<Rightarrow> string) \<Rightarrow> 't emergent_message \<Rightarrow> string list \<Rightarrow> string list option" where
  "console_step show_json to_str clock m out =
     map_option (\<lambda>line. out @ [''['' @ clock (length out) @ ''] '' @ line])
       (format_message show_json (msg_type m) (to_str (MessageId_inner (msg_id m))) (msg_payload m))"

definition console_main ::
  "string option \<Rightarrow> (string \<Rightarrow> (client_error, unit) result) \<Rightarrow> (client_error, string list) result
     \<Rightarrow> (string list \<Rightarrow> (client_error, unit) result) \<Rightarrow> (string, unit) result \<Rightarrow> (json \<Rightarrow> string) \<Rightarrow> ('t \<Rightarrow> string) \<Rightarrow> (nat \<Rightarrow> string)
     \<Rightarrow> string option \<Rightarrow> 't emergent_message loop_input list \<Rightarrow> (string list \<times> loop_ending) main_end" where
  "console_main env connect configured subscribe signals show_json to_str clock override ins =
     (case connect (env_name_or ''console_sink'' env) of
        Inl e \<Rightarrow> Exited [connect_failed @ '': '' @ show_client_error e,
          ''Make sure the engine is running and EMERGENT_SOCKET is set.'']
      | Inr _ \<Rightarrow>
          exit_on ''Failed to get subscriptions from engine'' (sink_topics override configured) (\<lambda>topics.
          exit_on ''Failed to subscribe'' (subscribe topics) (\<lambda>_.
          question_mark signals (\<lambda>_. Looped (select_loop (console_step show_json to_str clock) [] ins)))))"

section \<open>The log sink\<close>

record log_entry =
  le_timestamp :: string
  le_message_id :: string
  le_message_type :: string
  le_source :: string
  le_payload :: string

definition to_log_line :: "log_entry \<Rightarrow> string" where
  "to_log_line e = ''['' @ le_timestamp e @ ''] id='' @ le_message_id e @ '' type='' @ le_message_type e @ '' source='' @ le_source e
     @ '' payload='' @ le_payload e @ [CHR 0x0A]"

text \<open>
  The file opened for appending. \<open>fault n\<close> says what becomes of the \<open>n\<close>th write: \<open>None\<close> when all of it is written,
  otherwise how many bytes were and the error.
\<close>

record log_file =
  lf_text :: string
  lf_writes :: nat

definition log_write :: "(nat \<Rightarrow> (nat \<times> string) option) \<Rightarrow> string \<Rightarrow> log_file \<Rightarrow> log_file \<times> (string, unit) result" where
  "log_write fault s f = (case fault (lf_writes f) of
      None \<Rightarrow> (\<lparr> lf_text = lf_text f @ s, lf_writes = lf_writes f + 1 \<rparr>, Ok ())
    | Some (k, e) \<Rightarrow> (\<lparr> lf_text = lf_text f @ take k s, lf_writes = lf_writes f + 1 \<rparr>, Err e))"

record log_world =
  lw_fault :: "nat \<Rightarrow> (nat \<times> string) option"
  lw_clock :: "nat \<Rightarrow> string"
  lw_show_json :: "json \<Rightarrow> string"
  lw_show_topics :: "string list \<Rightarrow> string"

definition message_entry :: "log_world \<Rightarrow> ('t \<Rightarrow> string) \<Rightarrow> 't emergent_message \<Rightarrow> nat \<Rightarrow> log_entry" where
  "message_entry lw to_str m n = \<lparr> le_timestamp = lw_clock lw n, le_message_id = to_str (MessageId_inner (msg_id m)),
     le_message_type = msg_type m, le_source = msg_source m, le_payload = lw_show_json lw (msg_payload m) \<rparr>"

definition log_step :: "log_world \<Rightarrow> ('t \<Rightarrow> string) \<Rightarrow> 't emergent_message \<Rightarrow> log_file \<Rightarrow> log_file option" where
  "log_step lw to_str m f = Some (fst (log_write (lw_fault lw) (to_log_line (message_entry lw to_str m (lf_writes f))) f))"

definition startup_line :: "string \<Rightarrow> string \<Rightarrow> string" where
  "startup_line now topics = ''['' @ now @ ''] === Log Sink started, subscribing to: '' @ topics @ '' ==='' @ [CHR 0x0A]"

definition shutdown_line :: "string \<Rightarrow> string" where
  "shutdown_line now = ''['' @ now @ ''] === Log Sink stopped ==='' @ [CHR 0x0A]"

text \<open>\<open>opened\<close> is the file after \<^verbatim>\<open>open\<close>. The marker at the end is written when the loop was left, not after a panic.\<close>

definition log_main ::
  "string option \<Rightarrow> (string \<Rightarrow> (client_error, unit) result) \<Rightarrow> (client_error, string list) result
     \<Rightarrow> (string list \<Rightarrow> (client_error, unit) result) \<Rightarrow> (string, unit) result \<Rightarrow> log_world \<Rightarrow> ('t \<Rightarrow> string)
     \<Rightarrow> (string, log_file) result \<Rightarrow> string option \<Rightarrow> 't emergent_message loop_input list \<Rightarrow> (log_file \<times> loop_ending) main_end" where
  "log_main env connect configured subscribe signals lw to_str opened override ins =
     exit_on connect_failed (connect (env_name_or ''log_sink'' env)) (\<lambda>_.
     exit_on ''Failed to get subscriptions from engine'' (sink_topics override configured) (\<lambda>topics.
     question_mark opened (\<lambda>f.
     (case log_write (lw_fault lw) (startup_line (lw_clock lw (lf_writes f)) (lw_show_topics lw topics)) f of
        (f, written) \<Rightarrow> question_mark written (\<lambda>_.
          exit_on ''Failed to subscribe'' (subscribe topics) (\<lambda>_.
          question_mark signals (\<lambda>_.
          (case select_loop (log_step lw to_str) f ins of
             (f, e) \<Rightarrow> Looped (if e \<in> {LoopDisconnected, LoopStreamEnded}
                 then (fst (log_write (lw_fault lw) (shutdown_line (lw_clock lw (lf_writes f))) f), e) else (f, e))))))))))"

section \<open>Lemmas on loops and messages\<close>

lemma select_loop_append:
  "select_loop step s (map Delivered ms @ ins) = (case select_loop step s (map Delivered ms) of
      (s', StillLooping) \<Rightarrow> select_loop step s' ins | r \<Rightarrow> r)"
  by (induction ms arbitrary: s) (auto split: option.split)

definition blank_message :: "'t draws \<Rightarrow> nat \<Rightarrow> string \<Rightarrow> 't emergent_message" where
  "blank_message draw n t = \<lparr>msg_id = fst (draw n), msg_type = t, msg_source = PrimitiveName_unknown, msg_correlation_id = None,
     msg_causation_id = None, msg_timestamp_ms = snd (draw n), msg_payload = JNull, msg_metadata = None\<rparr>"

lemma emit_eq:
  "emit draw t build ob = (if is_ok (MessageType_new t)
     then Some \<lparr> ob_drawn = Suc (ob_drawn ob), ob_published = ob_published ob @ [build (blank_message draw (ob_drawn ob) t)] \<rparr> else None)"
  by (auto simp: emit_def new_with_id_and_timestamp_def try_new_with_id_and_timestamp_def blank_message_def MessageType_new_def is_ok_def
      split: prod.split sum.split)

lemma example_types_valid:
  "is_ok (MessageType_new ''timer.tick'')" "is_ok (MessageType_new ''timer.filtered'')" "is_ok (MessageType_new ''filter.processed'')"
  by code_simp+

lemma builder_frames [simp]:
  "msg_type (caused_by m p out) = msg_type out" "msg_causation_id (caused_by m p out) = Some (causation_from_message (msg_id m))"
  "msg_payload (caused_by m p out) = p" "msg_type (answering m p out) = msg_type out" "msg_payload (answering m p out) = p"
  "msg_causation_id (answering m p out) = Some (causation_from_message (msg_id m))"
  "msg_correlation_id (answering m p out) = msg_correlation_id m"
  by (simp_all add: caused_by_def answering_def with_payload_def with_causation_from_message_def with_correlation_id_option_def)

lemma blank_message_type [simp]: "msg_type (blank_message draw n t) = t"
  by (simp add: blank_message_def)

lemma unat_word_of_nat64: "n < 2 ^ 64 \<Longrightarrow> unat (word_of_nat n :: u64) = n"
  by (simp add: unsigned_of_nat take_bit_nat_eq_self)

section \<open>The timer\<close>

definition timer_message :: "'t draws \<Rightarrow> u64 \<Rightarrow> nat \<Rightarrow> 't emergent_message" where
  "timer_message draw interval i =
     with_payload (timer_tick_payload (word_of_nat (Suc i)) interval) (blank_message draw i ''timer.tick'')"

lemma timer_runs_to_its_limit:
  "k < unat (ta_max_ticks a) \<Longrightarrow> ob_drawn ob = k \<Longrightarrow>
   timer_loop draw a (word_of_nat k) ob (replicate (unat (ta_max_ticks a) - k) IntervalTick @ rest)
   = (\<lparr> ob_drawn = unat (ta_max_ticks a),
        ob_published = ob_published ob @ map (timer_message draw (ta_interval a)) [k..<unat (ta_max_ticks a)] \<rparr>, LoopDisconnected)"
proof (induction "unat (ta_max_ticks a) - k" arbitrary: k ob)
  case (Suc n)
  have bound: "Suc k < 2 ^ 64"
    using Suc.prems(1) unsigned_less [of "ta_max_ticks a", where 'a = nat] by simp
  define w :: u64 where "w = word_of_nat (Suc k)"
  then have u: "unat w = Suc k" and w: "word_of_nat k + 1 = w"
    using unat_word_of_nat64 [of "Suc k"] bound by simp_all
  have le: "ta_max_ticks a \<le> w \<longleftrightarrow> unat (ta_max_ticks a) = Suc k" and pos: "0 < ta_max_ticks a"
    using Suc.prems(1) by (auto simp: word_le_nat_alt word_less_nat_alt u)
  have split: "replicate (unat (ta_max_ticks a) - k) IntervalTick = IntervalTick # replicate (unat (ta_max_ticks a) - Suc k) IntervalTick"
    using Suc.prems(1) by (metis Suc_diff_Suc replicate_Suc)
  let ?ob = "\<lparr> ob_drawn = Suc k, ob_published = ob_published ob @ [timer_message draw (ta_interval a) k] \<rparr>"
  have e: "emit draw ''timer.tick'' (with_payload (timer_tick_payload w (ta_interval a))) ob = Some ?ob"
    using Suc.prems(2) by (simp add: emit_eq example_types_valid timer_message_def w_def)
  show ?case
  proof (cases "unat (ta_max_ticks a) = Suc k")
    case True
    then show ?thesis
      by (simp add: split Let_def w e le pos)
  next
    case False
    with Suc.prems have "Suc k < unat (ta_max_ticks a)"
      by simp
    with Suc.hyps(1) [of "Suc k" ?ob, folded w_def] Suc.hyps(2) False show ?thesis
      by (simp add: split Let_def w e le upt_conv_Cons)
  qed
qed simp

section \<open>The filter\<close>

lemma read_tick_payload: "read_tick (timer_tick_payload s i) = Some (s, i)"
  by (simp add: read_tick_def timer_tick_payload_def struct_field_def read_u64_uint)

lemma is_multiple_of_iff:
  assumes "s < 2 ^ 64"
  shows "is_multiple_of (word_of_nat s) every \<longleftrightarrow> unat every dvd s"
proof -
  have "is_multiple_of (word_of_nat s) every \<longleftrightarrow> unat (word_of_nat s :: u64) mod unat every = 0"
    by (auto simp: is_multiple_of_def unat_mod unat_eq_0 simp flip: unat_eq_0)
  then show ?thesis
    using assms by (simp add: unat_word_of_nat64 dvd_eq_mod_eq_0)
qed

text \<open>What the filter says about the tick number \<open>s\<close>: types and payloads in order.\<close>

definition filter_answers :: "u64 \<Rightarrow> u64 \<Rightarrow> nat \<Rightarrow> (string \<times> json) list" where
  "filter_answers every interval s = (let w = word_of_nat s in
     if unat every dvd s
     then [(''timer.filtered'', filtered_payload w interval every), (''filter.processed'', processed_payload w True every)]
     else [(''filter.processed'', processed_payload w False every)])"

definition digest :: "'t emergent_message \<Rightarrow> string \<times> 't causation_id option \<times> json" where
  "digest m = (msg_type m, msg_causation_id m, msg_payload m)"

lemma filter_step_tick:
  assumes "read_tick (msg_payload m) = Some (word_of_nat s, interval)" "s < 2 ^ 64"
  shows "\<exists>ob'. filter_step draw every m ob = Some ob' \<and> map digest (ob_published ob') = map digest (ob_published ob)
       @ map (\<lambda>(t, p). (t, Some (causation_from_message (msg_id m)), p)) (filter_answers every interval s)"
  using assms
  by (cases "unat every dvd s")
     (simp_all add: filter_step_def emit_eq example_types_valid is_multiple_of_iff filter_answers_def digest_def Let_def)

lemma filter_over_ticks:
  assumes "length ms = length ss" "list_all2 (\<lambda>m s. read_tick (msg_payload m) = Some (word_of_nat s, interval) \<and> s < 2 ^ 64) ms ss"
  shows "\<exists>ob'. select_loop (filter_step draw every) ob (map Delivered ms @ [StreamEnded]) = (ob', LoopStreamEnded)
    \<and> map digest (ob_published ob') = map digest (ob_published ob)
        @ concat (map2 (\<lambda>m s. map (\<lambda>(t, p). (t, Some (causation_from_message (msg_id m)), p)) (filter_answers every interval s)) ms ss)"
  using assms
proof (induction ms ss arbitrary: ob rule: list_induct2)
  case (Cons m ms s ss)
  then obtain ob1 where s: "filter_step draw every m ob = Some ob1"
    "map digest (ob_published ob1) = map digest (ob_published ob)
       @ map (\<lambda>(t, p). (t, Some (causation_from_message (msg_id m)), p)) (filter_answers every interval s)"
    using filter_step_tick [of m s interval draw every ob] by fastforce
  with Cons.IH [of ob1] Cons.prems show ?case
    by auto
qed simp

section \<open>From the timer through the engine\<close>

definition ordinary :: "'t emergent_message \<Rightarrow> bool" where
  "ordinary m \<longleftrightarrow> msg_type m \<notin> {''system.request.subscriptions'', ''system.request.topology'', ''system.shutdown''}
     \<and> json_get ''stdout'' (msg_payload m) = None"

lemma broker_run_total: "\<exists>b'. broker_run to_str store engine_pid b is = Some b'"
  by (induction "is" arbitrary: b) (auto simp: broker_step_spec)

lemma broker_passes_on:
  assumes "broker_run to_str store engine_pid b (map (\<lambda>m. ClientMessage pm (mid m) (ts m) m (env m)) ms) = Some b'" "list_all ordinary ms"
  shows "br_forwarded b' = br_forwarded b @ map (engine_notification to_str) ms"
  using assms
  by (induction ms arbitrary: b) (auto simp: broker_step_spec ordinary_def)

lemma stream_passes_on:
  assumes ids: "\<And>t. from_str (to_str t) = Ok t"
    and ms: "list_all (\<lambda>m. ordinary m \<and> message_ok prefix_of m \<and> msg_metadata m \<noteq> Some JNull) ms"
  shows "push_to_message_stream (bridge_notification from_str prefix_of parse_json lower unwrap kind bmid bts)
      (map (\<lambda>n. (n, True)) (map (engine_notification to_str) ms)) = (ms, PushChannelClosed)"
  using ms
proof (induction ms)
  case (Cons m ms)
  then have m: "ordinary m" "message_ok prefix_of m" "msg_metadata m \<noteq> Some JNull"
    by simp_all
  then have "bridge_notification from_str prefix_of parse_json lower unwrap kind bmid bts (engine_notification to_str m) = BridgeForward m"
    using message_value_roundtrip [OF ids m(2,3)]
    by (auto simp: bridge_notification_def engine_notification_def notification_message_def carries_emergent_message_def ordinary_def
        message_ok_def unwrap_stdout_def)
  with Cons show ?case
    by simp
qed simp

lemma timer_message_fields:
  "msg_type (timer_message draw i k) = ''timer.tick''" "msg_id (timer_message draw i k) = fst (draw k)"
  "msg_payload (timer_message draw i k) = timer_tick_payload (word_of_nat (Suc k)) i" "msg_metadata (timer_message draw i k) = None"
  "msg_source (timer_message draw i k) = PrimitiveName_unknown"
  "msg_correlation_id (timer_message draw i k) = None" "msg_causation_id (timer_message draw i k) = None"
  by (simp_all add: timer_message_def blank_message_def with_payload_def)

lemma stamped_tick:
  fixes interval :: u64
  assumes "PrimitiveName_new name = Ok n" "prefix_of (MessageId_inner (fst (draw k))) = MessageId_PREFIX"
    and m: "m = with_source_name n (timer_message draw interval k)"
  shows "stamp_source name (timer_message draw interval k) = Ok m" "msg_id m = fst (draw k)" "ordinary m" "message_ok prefix_of m"
    "msg_metadata m \<noteq> Some JNull" "read_tick (msg_payload m) = Some (word_of_nat (Suc k), interval)"
proof -
  have "is_ok (PrimitiveName_new n)"
    using assms(1) by (auto simp: PrimitiveName_new_def is_ok_def split: if_splits)
  then show "message_ok prefix_of m"
    using assms(2) example_types_valid(1) by (simp add: m message_ok_def with_source_name_def timer_message_fields)
  show "stamp_source name (timer_message draw interval k) = Ok m"
    using assms(1) by (simp add: stamp_source_def m PrimitiveName_is_default_def PrimitiveName_unknown_def PrimitiveName_UNKNOWN_def timer_message_fields)
  show "read_tick (msg_payload m) = Some (word_of_nat (Suc k), interval)"
    by (simp add: m with_source_name_def timer_message_fields read_tick_payload del: of_nat_Suc)
  show "ordinary m"
    by (simp add: m with_source_name_def timer_message_fields ordinary_def timer_tick_payload_def)
qed (simp_all add: m with_source_name_def timer_message_fields)

text \<open>How many ticks pass.\<close>

lemma passing_ticks: "length (filter (\<lambda>i. k dvd Suc i) [0..<n]) = n div k"
  by (induction n) (auto simp: div_Suc dvd_eq_mod_eq_0)

lemma filtered_count:
  "length (filter (\<lambda>(t, _, _). t = ''timer.filtered'') (concat (map (\<lambda>i. map (\<lambda>(t, p). (t, c i, p)) (filter_answers every interval (Suc i))) is)))
   = length (filter (\<lambda>i. unat every dvd Suc i) is)"
  by (induction "is") (auto simp: filter_answers_def Let_def)

section \<open>The exec handler's answers\<close>

definition exec_answer :: "exec_world \<Rightarrow> exec_args \<Rightarrow> 't emergent_message \<Rightarrow> 't emergent_message \<Rightarrow> bool" where
  "exec_answer ew a m out \<longleftrightarrow>
     msg_causation_id out = Some (causation_from_message (msg_id m)) \<and> msg_correlation_id out = msg_correlation_id m
     \<and> (let child = ew_run ew (ea_command a) (ea_timeout a) (ew_to_vec ew (msg_payload m))
        in if is_ok (cr_spawn child) \<and> (\<forall>e. cr_stdin child \<noteq> StdinError e) \<and> (\<exists>o' e. cr_wait child = Waited (Some 0) o' e)
           then msg_type out = ea_publish_as a
             \<and> (\<forall>o' e v. cr_wait child = Waited (Some 0) o' e \<and> ew_from_slice ew o' = Some v \<longrightarrow> msg_payload out = v)
           else msg_type out = ea_error_as a)"

lemma exec_step_answers:
  assumes "is_ok (MessageType_new (ea_publish_as a))" "is_ok (MessageType_new (ea_error_as a))"
  shows "\<exists>out. exec_step ew draw a m ob = Some \<lparr> ob_drawn = Suc (ob_drawn ob), ob_published = ob_published ob @ [out] \<rparr> \<and> exec_answer ew a m out"
proof -
  let ?child = "ew_run ew (ea_command a) (ea_timeout a) (ew_to_vec ew (msg_payload m))"
  show ?thesis
    using assms
    by (cases "cr_spawn ?child"; cases "cr_stdin ?child"; cases "cr_wait ?child")
       (auto simp: exec_step_def execute_command_def emit_eq exec_answer_def Let_def with_metadata_def is_ok_def split: option.split)
qed

lemma exec_over_messages:
  assumes "is_ok (MessageType_new (ea_publish_as a))" "is_ok (MessageType_new (ea_error_as a))"
  shows "\<exists>ob' outs. select_loop (exec_step ew draw a) ob (map Delivered ms @ [StreamEnded]) = (ob', LoopStreamEnded)
    \<and> ob_published ob' = ob_published ob @ outs \<and> list_all2 (exec_answer ew a) ms outs"
proof (induction ms arbitrary: ob)
  case (Cons m ms)
  obtain out where o: "exec_step ew draw a m ob = Some \<lparr> ob_drawn = Suc (ob_drawn ob), ob_published = ob_published ob @ [out] \<rparr>"
    "exec_answer ew a m out"
    using exec_step_answers [OF assms] by blast
  with Cons.IH [of "\<lparr> ob_drawn = Suc (ob_drawn ob), ob_published = ob_published ob @ [out] \<rparr>"] show ?case
    by (auto intro: exI [of _ "out # _"])
qed simp

section \<open>Properties\<close>

text \<open>
  C16. A workflow end to end. A timer limited to \<open>n\<close> ticks publishes \<open>n\<close> messages and disconnects; stamped by
  the SDK and handled by the engine's broker, they arrive on the filter's stream unchanged and in order, whatever
  the broker's state and whether or not the stream unwraps; and the filter, set to pass every \<open>k\<close>th tick, publishes for
  each tick in order exactly one verdict, preceded by a \<^verbatim>\<open>timer.filtered\<close> event when the number is a multiple
  of \<open>k\<close>, each caused by its tick. So \<open>n div k\<close> ticks pass, and none when \<open>k\<close> is 0.
\<close>

theorem tick_pipeline:
  assumes ids: "\<And>t. from_str (to_str t) = Ok t"
    and draws: "\<And>i. prefix_of (MessageId_inner (fst (draw i))) = MessageId_PREFIX"
    and name: "is_ok (PrimitiveName_new name)"
    and limit: "0 < ta_max_ticks a"
    and timer: "timer_loop draw a 0 outbox_start (replicate (unat (ta_max_ticks a)) IntervalTick @ later) = (ticks, ending)"
    and stamped: "map (stamp_source name) (ob_published ticks) = map Ok ms"
    and engine: "broker_run to_str store engine_pid b (map (\<lambda>m. ClientMessage pm (mid m) (ts m) m (env m)) ms) = Some b'"
    and stream: "push_to_message_stream (bridge_notification from_str prefix_of parse_json lower unwrap ''handler'' bmid bts)
        (map (\<lambda>n. (n, True)) (drop (length (br_forwarded b)) (br_forwarded b'))) = (received, closed)"
    and handler: "select_loop (filter_step fdraw every) outbox_start (map Delivered received @ [StreamEnded]) = (verdicts, fending)"
  shows "ending = LoopDisconnected \<and> length ms = unat (ta_max_ticks a) \<and> received = ms \<and> fending = LoopStreamEnded
    \<and> map digest (ob_published verdicts) = concat (map (\<lambda>i.
        map (\<lambda>(t, p). (t, Some (causation_from_message (fst (draw i))), p)) (filter_answers every (ta_interval a) (Suc i)))
        [0..<unat (ta_max_ticks a)])
    \<and> length (filter (\<lambda>m. msg_type m = ''timer.filtered'') (ob_published verdicts)) = unat (ta_max_ticks a) div unat every"
proof -
  let ?n = "unat (ta_max_ticks a)"
  obtain n where n: "PrimitiveName_new name = Ok n"
    using name by (auto simp: is_ok_iff)
  let ?m = "\<lambda>i. with_source_name n (timer_message draw (ta_interval a) i)"
  note tick = stamped_tick [where draw = draw and interval = "ta_interval a" and prefix_of = prefix_of, OF n draws refl]
  have "0 < ?n"
    using limit by (simp add: word_less_nat_alt)
  then have t: "ob_published ticks = map (timer_message draw (ta_interval a)) [0..<?n]" "ending = LoopDisconnected"
    using timer_runs_to_its_limit [of 0 a outbox_start draw later] timer by (auto simp: outbox_start_def)
  then have ms: "ms = map ?m [0..<?n]"
    using arg_cong [OF stamped, of "map projr"] tick(1) by (simp add: comp_def)
  have ok: "list_all (\<lambda>m. ordinary m \<and> message_ok prefix_of m \<and> msg_metadata m \<noteq> Some JNull) ms" "list_all ordinary ms"
    using tick(3-5) by (auto simp: ms list_all_iff)
  have r: "received = ms"
    using stream broker_passes_on [OF engine ok(2)] stream_passes_on [OF ids ok(1)] by simp
  have "list_all2 (\<lambda>m s. read_tick (msg_payload m) = Some (word_of_nat s, ta_interval a) \<and> s < 2 ^ 64) ms (map Suc [0..<?n])"
    using tick(6) unsigned_less [of "ta_max_ticks a", where 'a = nat] by (auto simp: ms list_all2_conv_all_nth)
  from filter_over_ticks [OF _ this, of fdraw every outbox_start] handler
  have v: "fending = LoopStreamEnded" "map digest (ob_published verdicts) = concat (map (\<lambda>i.
        map (\<lambda>(t, p). (t, Some (causation_from_message (fst (draw i))), p)) (filter_answers every (ta_interval a) (Suc i))) [0..<?n])"
    using tick(2) by (auto simp: r ms outbox_start_def zip_map_map zip_same_conv_map comp_def)
  have "length (filter (\<lambda>m. msg_type m = ''timer.filtered'') (ob_published verdicts))
      = length (filter (\<lambda>(t, _, _). t = ''timer.filtered'') (map digest (ob_published verdicts)))"
    by (simp add: filter_map comp_def digest_def)
  then show ?thesis
    using t r v by (simp add: ms filtered_count passing_ticks)
qed

text \<open>
  The exec handler answers every message once. With two valid types to publish as, it goes on through every
  outcome of its commands (not started, input not written, timed out, killed, failed or successful): each
  message gets exactly one answer, in order, with the message as its cause and with its correlation
  identifier; the answer has the success type exactly when the command was started, took its input or closed it, and ended in
  time with status 0, and then the payload is the output as JSON, or as text under \<^verbatim>\<open>output\<close> when it is none.
  A type that is not valid makes the handler panic at the first message it would answer with it.
\<close>

theorem exec_answers_every_message:
  assumes error_type: "is_ok (MessageType_new (ea_error_as a))"
    and run: "select_loop (exec_step ew draw a) outbox_start (map Delivered ms @ [StreamEnded]) = (ob, ending)"
  shows "if is_ok (MessageType_new (ea_publish_as a))
    then ending = LoopStreamEnded \<and> list_all2 (exec_answer ew a) ms (ob_published ob)
    else ending = (if list_ex (\<lambda>m. is_ok (execute_command ew (msg_payload m) (ea_command a) (ea_timeout a))) ms
        then LoopPanicked else LoopStreamEnded)"
proof -
  let ?succeeds = "\<lambda>m. is_ok (execute_command ew (msg_payload m) (ea_command a) (ea_timeout a))"
  have panic: "\<not> is_ok (MessageType_new (ea_publish_as a)) \<Longrightarrow>
      snd (select_loop (exec_step ew draw a) ob0 (map Delivered ms @ [StreamEnded])) = (if list_ex ?succeeds ms then LoopPanicked else LoopStreamEnded)" for ob0
    by (induction ms arbitrary: ob0)
       (auto simp: exec_step_def emit_eq error_type split: sum.splits)
  show ?thesis
    using panic [of outbox_start] run exec_over_messages [OF _ error_type, of ew draw outbox_start ms]
    by (auto simp: outbox_start_def)
qed

definition demo_draws :: "string draws" where
  "demo_draws n = (MessageId ''msg_1'', Timestamp 0)"

definition demo_timer :: timer_args where
  "demo_timer = \<lparr> ta_interval = 5, ta_max_ticks = 4 \<rparr>"

theorem tick_pipeline_witness:
  "\<exists>ticks ms b' received verdicts.
     timer_loop demo_draws demo_timer 0 outbox_start (replicate 4 IntervalTick) = (ticks, LoopDisconnected)
     \<and> map (stamp_source ''timer'') (ob_published ticks) = map Ok ms
     \<and> broker_run id (\<lambda>_ s. (s, Ok ())) 7 (broker_start ())
         (map (\<lambda>m. ClientMessage (process_manager_new [] 0) (MessageId ''msg_2'') (Timestamp 1) m \<lparr> re_reply_to = [], re_recipient = None \<rparr>) ms) = Some b'
     \<and> length received = 4
     \<and> select_loop (filter_step demo_draws 2) outbox_start (map Delivered received @ [StreamEnded]) = (verdicts, LoopStreamEnded)
     \<and> length (filter (\<lambda>m. msg_type m = ''timer.filtered'') (ob_published verdicts)) = 2"
proof -
  let ?from = "\<lambda>s. Ok s :: (unit, string) result" and ?env = "\<lambda>_. \<lparr> re_reply_to = [], re_recipient = None \<rparr>"
  let ?cm = "\<lambda>m. ClientMessage (process_manager_new [] 0) (MessageId ''msg_2'') (Timestamp 1) m \<lparr> re_reply_to = [], re_recipient = None \<rparr>"
  obtain ticks ending where t: "timer_loop demo_draws demo_timer 0 outbox_start (replicate (unat (ta_max_ticks demo_timer)) IntervalTick @ []) = (ticks, ending)"
    by (cases "timer_loop demo_draws demo_timer 0 outbox_start (replicate (unat (ta_max_ticks demo_timer)) IntervalTick @ [])")
  have "list_all (\<lambda>m. is_ok (stamp_source ''timer'' m)) (ob_published (fst (timer_loop demo_draws demo_timer 0 outbox_start
      (replicate (unat (ta_max_ticks demo_timer)) IntervalTick @ []))))"
    by code_simp
  then have ok: "list_all (\<lambda>m. is_ok (stamp_source ''timer'' m)) (ob_published ticks)"
    by (simp only: t fst_conv)
  define ms where "ms = map (\<lambda>m. projr (stamp_source ''timer'' m)) (ob_published ticks)"
  have st: "map (stamp_source ''timer'') (ob_published ticks) = map Ok ms"
    using ok by (auto simp: ms_def list_all_iff is_ok_iff)
  obtain b' where b: "broker_run id (\<lambda>_ s. (s, Ok ())) 7 (broker_start ()) (map ?cm ms) = Some b'"
    using broker_run_total [of id "\<lambda>_ s. (s, Ok ())" 7 "broker_start ()" "map ?cm ms"] by blast
  obtain received closed where r: "push_to_message_stream (bridge_notification ?from (take 3) (\<lambda>_. None) id False ''handler'' (MessageId ''msg_9'') (Timestamp 9))
      (map (\<lambda>n. (n, True)) (drop (length (br_forwarded (broker_start ()))) (br_forwarded b'))) = (received, closed)"
    by (cases "push_to_message_stream (bridge_notification ?from (take 3) (\<lambda>_. None) id False ''handler'' (MessageId ''msg_9'') (Timestamp 9))
      (map (\<lambda>n. (n, True)) (drop (length (br_forwarded (broker_start ()))) (br_forwarded b')))")
  obtain verdicts fending where v: "select_loop (filter_step demo_draws 2) outbox_start (map Delivered received @ [StreamEnded]) = (verdicts, fending)"
    by (cases "select_loop (filter_step demo_draws 2) outbox_start (map Delivered received @ [StreamEnded])")
  have "take 3 (MessageId_inner (fst (demo_draws i))) = MessageId_PREFIX" for i
    by (simp add: demo_draws_def MessageId_PREFIX_def)
  moreover have "is_ok (PrimitiveName_new ''timer'')"
    by code_simp
  moreover have "0 < ta_max_ticks demo_timer" "unat (ta_max_ticks demo_timer) = 4"
    by (simp_all add: demo_timer_def)
  ultimately show ?thesis
    using tick_pipeline [where from_str = ?from and to_str = id and prefix_of = "take 3", OF _ _ _ _ t st b r v] t st b v
    by (intro exI [of _ ticks] exI [of _ ms] exI [of _ b'] exI [of _ received] exI [of _ verdicts]) simp
qed

definition demo_exec :: "exec_world" where
  "demo_exec = \<lparr> ew_run = (\<lambda>_ _ bytes. \<lparr> cr_spawn = Ok (), cr_stdin = StdinBrokenPipe, cr_wait = Waited (Some 0) bytes [] \<rparr>),
     ew_to_vec = (\<lambda>_. ''{}''), ew_from_slice = (\<lambda>_. Some JNull) \<rparr>"

definition demo_exec_args :: exec_args where
  "demo_exec_args = \<lparr> ea_publish_as = ''exec.output'', ea_error_as = ''exec.error'', ea_timeout = 30000, ea_command = [''cat''] \<rparr>"

theorem exec_answers_every_message_witness:
  "\<exists>ob. select_loop (exec_step demo_exec demo_draws demo_exec_args) outbox_start
       (map Delivered [blank_message demo_draws 0 ''timer.tick''] @ [StreamEnded]) = (ob, LoopStreamEnded)
     \<and> map msg_type (ob_published ob) = [''exec.output'']"
proof -
  let ?ms = "[blank_message demo_draws 0 ''timer.tick'']"
  obtain ob ending where r: "select_loop (exec_step demo_exec demo_draws demo_exec_args) outbox_start (map Delivered ?ms @ [StreamEnded]) = (ob, ending)"
    by (cases "select_loop (exec_step demo_exec demo_draws demo_exec_args) outbox_start (map Delivered ?ms @ [StreamEnded])")
  have ok: "is_ok (MessageType_new (ea_error_as demo_exec_args))" "is_ok (MessageType_new (ea_publish_as demo_exec_args))"
    by code_simp+
  show ?thesis
    using exec_answers_every_message [OF ok(1) r] ok r
    by (auto simp: list_all2_Cons1 exec_answer_def Let_def demo_exec_def demo_exec_args_def)
qed

end
