(* ===== verification/Reaction_Diffusion.thy ===== *)
theory Reaction_Diffusion
  imports Example_Primitives
begin

text \<open>
  The reaction-diffusion handler (\<^verbatim>\<open>config/advanced-examples/reaction-diffusion/world.rs\<close>): two grids of \<^verbatim>\<open>f64\<close>
  seeded by a small generator of random numbers, stepped by a stencil with wrapped borders, and sent as frames.

  The arithmetic of \<^verbatim>\<open>f64\<close> is a record of operations over an arbitrary type, so that what is proved holds for
  IEEE arithmetic with its rounding; a literal is the value of its digits. An index out of bounds is a panic: \<open>None\<close>.
\<close>

section \<open>The grid\<close>

record 'f f64_ops =
  fl_lit :: "string \<Rightarrow> 'f"
  fl_of_u64 :: "u64 \<Rightarrow> 'f"
  fl_add :: "'f \<Rightarrow> 'f \<Rightarrow> 'f"
  fl_sub :: "'f \<Rightarrow> 'f \<Rightarrow> 'f"
  fl_mul :: "'f \<Rightarrow> 'f \<Rightarrow> 'f"
  fl_div :: "'f \<Rightarrow> 'f \<Rightarrow> 'f"
  fl_min :: "'f \<Rightarrow> 'f \<Rightarrow> 'f"
  fl_clamp :: "'f \<Rightarrow> 'f \<Rightarrow> 'f \<Rightarrow> 'f"
  fl_eq :: "'f \<Rightarrow> 'f \<Rightarrow> bool"
  fl_to_u8 :: "'f \<Rightarrow> 8 word"

definition ROWS :: usize where "ROWS = 100"
definition COLS :: usize where "COLS = 140"
definition CELLS :: usize where "CELLS = ROWS * COLS"
definition SUBSTEPS :: usize where "SUBSTEPS = 16"

record 'f rd_world =
  rd_u :: "'f list"
  rd_v :: "'f list"
  rd_feed :: 'f
  rd_kill :: 'f
  rd_generation :: u64

definition world_new :: "'f f64_ops \<Rightarrow> 'f rd_world" where
  "world_new fl = \<lparr> rd_u = replicate CELLS (fl_lit fl ''1.0''), rd_v = replicate CELLS (fl_lit fl ''0.0''),
     rd_feed = fl_lit fl ''0.0'', rd_kill = fl_lit fl ''0.0'', rd_generation = 0 \<rparr>"

section \<open>Random numbers\<close>

unbundle bit_operations_syntax

definition rng_u64 :: "u64 \<Rightarrow> u64" where
  "rng_u64 s0 =
     (let s1 = s0 XOR push_bit 13 s0; s2 = s1 XOR drop_bit 7 s1 in s2 XOR push_bit 17 s2)"

definition rng_f64 :: "'f f64_ops \<Rightarrow> u64 \<Rightarrow> 'f \<times> u64" where
  "rng_f64 fl state = (let state = rng_u64 state in (fl_div fl (fl_of_u64 fl (state mod 10000)) (fl_lit fl ''10000.0''), state))"

section \<open>Seeding\<close>

definition preset_rates :: "string \<Rightarrow> string \<times> string" where
  "preset_rates preset =
     (if preset = ''mitosis'' then (''0.0367'', ''0.0649'')
      else if preset = ''coral'' then (''0.0545'', ''0.062'')
      else if preset = ''maze'' then (''0.029'', ''0.057'')
      else if preset = ''holes'' then (''0.039'', ''0.058'')
      else if preset = ''ripple'' then (''0.025'', ''0.06'')
      else if preset = ''spots'' then (''0.03'', ''0.06'')
      else if preset = ''worms'' then (''0.078'', ''0.061'')
      else (''0.0545'', ''0.062''))"

fun try_for :: "('a \<Rightarrow> 's \<Rightarrow> 's option) \<Rightarrow> 'a list \<Rightarrow> 's \<Rightarrow> 's option" where
  "try_for f [] s = Some s"
| "try_for f (x # xs) s = Option.bind (f x s) (try_for f xs)"

definition set_at :: "nat \<Rightarrow> 'f \<Rightarrow> 'f list \<Rightarrow> 'f list option" where
  "set_at i x xs = (if i < length xs then Some (xs[i := x]) else None)"

definition jittered :: "'f f64_ops \<Rightarrow> string \<Rightarrow> u64 \<Rightarrow> 'f \<times> u64" where
  "jittered fl base rng = (case rng_f64 fl rng of (x, rng) \<Rightarrow>
     (fl_sub fl (fl_add fl (fl_lit fl base) (fl_mul fl x (fl_lit fl ''0.1''))) (fl_lit fl ''0.05''), rng))"

definition seed_cell :: "'f f64_ops \<Rightarrow> nat \<Rightarrow> u64 \<times> 'f list \<times> 'f list \<Rightarrow> (u64 \<times> 'f list \<times> 'f list) option" where
  "seed_cell fl idx st = (case st of (rng, u, v) \<Rightarrow>
     case jittered fl ''0.5'' rng of (x, rng) \<Rightarrow> do {
       u \<leftarrow> set_at idx x u;
       case jittered fl ''0.25'' rng of (y, rng) \<Rightarrow> do { v \<leftarrow> set_at idx y v; Some (rng, u, v) }
     })"

definition center_block :: "nat list" where
  "center_block = [r * COLS + c. r \<leftarrow> [ROWS div 2 - 10..<min (ROWS div 2 + 10) ROWS],
                                 c \<leftarrow> [COLS div 2 - 10..<min (COLS div 2 + 10) COLS]]"

text \<open>\<^verbatim>\<open>as usize\<close> of an \<^verbatim>\<open>i32\<close> extends the sign.\<close>

definition i32_as_usize :: "int \<Rightarrow> nat" where
  "i32_as_usize i = nat (i mod 2 ^ 64)"

definition spot :: "nat \<Rightarrow> nat \<Rightarrow> nat list" where
  "spot sr sc = [i32_as_usize (int sr + dr) * COLS + i32_as_usize (int sc + dc). dr \<leftarrow> [-3..3], dc \<leftarrow> [-3..3],
     i32_as_usize (int sr + dr) < ROWS \<and> i32_as_usize (int sc + dc) < COLS]"

definition scatter :: "'f f64_ops \<Rightarrow> nat \<Rightarrow> u64 \<times> 'f list \<times> 'f list \<Rightarrow> (u64 \<times> 'f list \<times> 'f list) option" where
  "scatter fl k st = (case st of (rng, u, v) \<Rightarrow>
     let rng = rng_u64 rng; sr = 10 + unat rng mod (ROWS - 20);
         rng = rng_u64 rng; sc = 10 + unat rng mod (COLS - 20)
     in try_for (seed_cell fl) (spot sr sc) (rng, u, v))"

definition world_seed :: "'f f64_ops \<Rightarrow> string \<Rightarrow> 'f rd_world \<Rightarrow> 'f rd_world option" where
  "world_seed fl preset w = (case preset_rates preset of (f, k) \<Rightarrow> do {
     st \<leftarrow> try_for (seed_cell fl) center_block
       (42, map (\<lambda>_. fl_lit fl ''1.0'') (rd_u w), map (\<lambda>_. fl_lit fl ''0.0'') (rd_v w));
     (rng, u, v) \<leftarrow> try_for (scatter fl) [0..<5] st;
     Some \<lparr> rd_u = u, rd_v = v, rd_feed = fl_lit fl f, rd_kill = fl_lit fl k, rd_generation = 0 \<rparr>
   })"

section \<open>Stepping\<close>

definition cell_at :: "'f list \<Rightarrow> nat \<Rightarrow> 'f option" where
  "cell_at xs i = (if i < length xs then Some (xs ! i) else None)"

definition laplacian :: "'f f64_ops \<Rightarrow> 'f \<Rightarrow> 'f \<Rightarrow> 'f \<Rightarrow> 'f \<Rightarrow> 'f \<Rightarrow> 'f" where
  "laplacian fl up dn lt rt x =
     fl_sub fl (fl_add fl (fl_add fl (fl_add fl up dn) lt) rt) (fl_mul fl (fl_lit fl ''4.0'') x)"

definition react :: "'f f64_ops \<Rightarrow> 'f \<Rightarrow> 'f \<Rightarrow> 'f \<Rightarrow> 'f \<Rightarrow> 'f \<Rightarrow> 'f \<Rightarrow> 'f \<times> 'f" where
  "react fl feed kill uv vv lap_u lap_v =
     (let uvv2 = fl_mul fl (fl_mul fl uv vv) vv;
          one = fl_lit fl ''1.0'';
          nu = fl_clamp fl (fl_add fl (fl_sub fl (fl_add fl uv (fl_mul fl (fl_lit fl ''0.16'') lap_u)) uvv2)
                 (fl_mul fl feed (fl_sub fl one uv))) (fl_lit fl ''0.0'') one;
          nv = fl_clamp fl (fl_sub fl (fl_add fl (fl_add fl vv (fl_mul fl (fl_lit fl ''0.08'') lap_v)) uvv2)
                 (fl_mul fl (fl_add fl feed kill) vv)) (fl_lit fl ''0.0'') one
      in (nu, nv))"

definition step_cell :: "'f f64_ops \<Rightarrow> 'f rd_world \<Rightarrow> nat \<times> nat \<Rightarrow> ('f \<times> 'f) option" where
  "step_cell fl w rc = (case rc of (r, c) \<Rightarrow>
     let up = (if r = 0 then ROWS - 1 else r - 1); dn = (if r = ROWS - 1 then 0 else r + 1);
         lt = (if c = 0 then COLS - 1 else c - 1); rt = (if c = COLS - 1 then 0 else c + 1);
         lap = (\<lambda>xs x. do {
           a \<leftarrow> cell_at xs (up * COLS + c);
           b \<leftarrow> cell_at xs (dn * COLS + c);
           l \<leftarrow> cell_at xs (r * COLS + lt);
           q \<leftarrow> cell_at xs (r * COLS + rt);
           Some (laplacian fl a b l q x) })
     in do {
       uv \<leftarrow> cell_at (rd_u w) (r * COLS + c);
       vv \<leftarrow> cell_at (rd_v w) (r * COLS + c);
       lap_u \<leftarrow> lap (rd_u w) uv;
       lap_v \<leftarrow> lap (rd_v w) vv;
       Some (react fl (rd_feed w) (rd_kill w) uv vv lap_u lap_v)
     })"

text \<open>The rows are computed in parallel and collected in their order.\<close>

definition world_step :: "'f f64_ops \<Rightarrow> 'f rd_world \<Rightarrow> 'f rd_world option" where
  "world_step fl w = map_option (\<lambda>cells. w\<lparr> rd_u := map fst cells, rd_v := map snd cells \<rparr>)
     (those (map (step_cell fl w) (List.product [0..<ROWS] [0..<COLS])))"

section \<open>The handler\<close>

definition frame_payload :: "'f f64_ops \<Rightarrow> 'f rd_world \<Rightarrow> json" where
  "frame_payload fl w = JObject
     [(''metric'', JString ''rd''), (''generation'', JInt (uint (rd_generation w))), (''rows'', JInt (int ROWS)),
      (''cols'', JInt (int COLS)),
      (''cells'', JArray (map (\<lambda>vv. JInt (uint (fl_to_u8 fl (fl_min fl (fl_mul fl vv (fl_lit fl ''255.0'')) (fl_lit fl ''255.0'')))))
         (rd_v w)))]"

definition world_is_empty :: "'f f64_ops \<Rightarrow> 'f rd_world \<Rightarrow> bool" where
  "world_is_empty fl w = (rd_generation w = 0 \<and> list_all (\<lambda>vv. fl_eq fl vv (fl_lit fl ''0.0'')) (rd_v w))"

definition unwrap_payload :: "(string \<Rightarrow> json option) \<Rightarrow> json \<Rightarrow> json" where
  "unwrap_payload parse_json payload = (case Option.bind (json_get ''stdout'' payload) json_as_str of
      Some out \<Rightarrow> (case parse_json out of Some v \<Rightarrow> v | None \<Rightarrow> payload) | None \<Rightarrow> payload)"

text \<open>\<open>generation += 1\<close> wraps, as the release build does.\<close>

definition world_substeps :: "'f f64_ops \<Rightarrow> 'f rd_world \<Rightarrow> 'f rd_world option" where
  "world_substeps fl w =
     try_for (\<lambda>_ w. map_option (\<lambda>w. w\<lparr> rd_generation := rd_generation w + 1 \<rparr>) (world_step fl w)) [0..<SUBSTEPS] w"

definition world_message ::
  "'f f64_ops \<Rightarrow> (string \<Rightarrow> json option) \<Rightarrow> 't draws \<Rightarrow> 't emergent_message \<Rightarrow> 'f rd_world \<times> 't outbox
     \<Rightarrow> ('f rd_world \<times> 't outbox) option" where
  "world_message fl parse_json draw m st = (case st of (w, ob) \<Rightarrow>
     let p = unwrap_payload parse_json (msg_payload m);
         frame = (\<lambda>w. map_option (Pair w) (emit draw ''rd.frame'' (caused_by m (frame_payload fl w)) ob))
     in if msg_type m = ''rd.seed'' then
          (let preset = (case Option.bind (json_get ''preset'' p) json_as_str of Some s \<Rightarrow> s | None \<Rightarrow> ''coral'')
           in Option.bind (world_seed fl preset w) frame)
        else if msg_type m = ''rd.tick'' \<and> \<not> world_is_empty fl w then Option.bind (world_substeps fl w) frame
        else Some (w, ob))"

definition world_main ::
  "string option \<Rightarrow> (string \<Rightarrow> (client_error, unit) result) \<Rightarrow> (string list \<Rightarrow> (client_error, unit) result) \<Rightarrow> (string, unit) result
     \<Rightarrow> 'f f64_ops \<Rightarrow> (string \<Rightarrow> json option) \<Rightarrow> 't draws \<Rightarrow> 't emergent_message loop_input list
     \<Rightarrow> (('f rd_world \<times> 't outbox) \<times> loop_ending) main_end" where
  "world_main env connect subscribe signals fl parse_json draw ins =
     exit_on ''Failed to connect'' (connect (env_name_or ''world'' env)) (\<lambda>_.
     exit_on ''Failed to subscribe'' (subscribe [''rd.seed'', ''rd.tick'']) (\<lambda>_.
     question_mark signals (\<lambda>_.
     Looped (select_loop (world_message fl parse_json draw) (world_new fl, outbox_start) ins))))"

section \<open>No index is out of bounds\<close>

definition world_ok :: "'f rd_world \<Rightarrow> bool" where
  "world_ok w \<longleftrightarrow> length (rd_u w) = CELLS \<and> length (rd_v w) = CELLS"

lemma world_new_ok: "world_ok (world_new fl)"
  by (simp add: world_ok_def world_new_def)

lemma try_for_inv:
  assumes "I s" and "\<And>x s. x \<in> set xs \<Longrightarrow> I s \<Longrightarrow> \<exists>s'. f x s = Some s' \<and> I s'"
  shows "\<exists>s'. try_for f xs s = Some s' \<and> I s'"
  using assms
proof (induction xs arbitrary: s)
  case (Cons x xs)
  then obtain s' where "f x s = Some s'" "I s'"
    by (meson list.set_intros(1))
  with Cons show ?case
    by simp
qed simp

definition draft_ok :: "u64 \<times> 'f list \<times> 'f list \<Rightarrow> bool" where
  "draft_ok st = (case st of (_, u, v) \<Rightarrow> length u = CELLS \<and> length v = CELLS)"

lemma seed_cell_ok: "i < CELLS \<Longrightarrow> draft_ok st \<Longrightarrow> \<exists>st'. seed_cell fl i st = Some st' \<and> draft_ok st'"
  by (auto simp: seed_cell_def draft_ok_def set_at_def split: prod.splits)

lemma cell_index: "r < ROWS \<Longrightarrow> c < COLS \<Longrightarrow> r * COLS + c < CELLS"
proof -
  assume r: "r < ROWS" "c < COLS"
  then have "r * COLS + c < (r + 1) * COLS"
    by simp
  also have "\<dots> \<le> CELLS"
    unfolding CELLS_def using r by (intro mult_le_mono1) simp
  finally show ?thesis .
qed

lemma center_block_ok: "i \<in> set center_block \<Longrightarrow> i < CELLS"
  by (auto simp: center_block_def ROWS_def COLS_def CELLS_def)

lemma spot_ok: "i \<in> set (spot sr sc) \<Longrightarrow> i < CELLS"
  by (auto simp: spot_def intro: cell_index split: if_splits)

lemma scatter_ok: "draft_ok st \<Longrightarrow> \<exists>st'. scatter fl k st = Some st' \<and> draft_ok st'"
proof -
  assume st: "draft_ok st"
  obtain rng u v where s: "st = (rng, u, v)"
    by (cases st)
  have "draft_ok (r, u, v)" for r
    using st by (simp add: s draft_ok_def)
  then show ?thesis
    unfolding s scatter_def Let_def prod.case by (rule try_for_inv) (blast dest: spot_ok intro: seed_cell_ok)
qed

lemma world_seed_ok: "world_ok w \<Longrightarrow> \<exists>w'. world_seed fl preset w = Some w' \<and> world_ok w' \<and> rd_generation w' = 0"
proof -
  assume w: "world_ok w"
  let ?s = "(42 :: u64, map (\<lambda>_. fl_lit fl ''1.0'') (rd_u w), map (\<lambda>_. fl_lit fl ''0.0'') (rd_v w))"
  have "draft_ok ?s"
    using w by (simp add: draft_ok_def world_ok_def)
  then obtain st where st: "try_for (seed_cell fl) center_block ?s = Some st" "draft_ok st"
    using try_for_inv [of draft_ok ?s center_block "seed_cell fl"] seed_cell_ok center_block_ok by blast
  obtain rng u v where "try_for (scatter fl) [0..<5] st = Some (rng, u, v)" "draft_ok (rng, u, v)"
    using try_for_inv [of draft_ok st "[0..<5]" "scatter fl"] st(2) scatter_ok by (metis prod_cases3)
  then show ?thesis
    using st(1) by (simp add: world_seed_def world_ok_def draft_ok_def split: prod.split)
qed

section \<open>The step is a map on the torus\<close>

definition at :: "'f list \<Rightarrow> nat \<Rightarrow> nat \<Rightarrow> 'f" where
  "at xs r c = xs ! ((r mod ROWS) * COLS + c mod COLS)"

definition torus_cell :: "'f f64_ops \<Rightarrow> 'f rd_world \<Rightarrow> nat \<Rightarrow> nat \<Rightarrow> 'f \<times> 'f" where
  "torus_cell fl w r c =
     (let lap = (\<lambda>xs. laplacian fl (at xs (r + (ROWS - 1)) c) (at xs (r + 1) c) (at xs r (c + (COLS - 1))) (at xs r (c + 1)) (at xs r c))
      in react fl (rd_feed w) (rd_kill w) (at (rd_u w) r c) (at (rd_v w) r c) (lap (rd_u w)) (lap (rd_v w)))"

lemma wrap_neighbours:
  fixes n r :: nat
  assumes n: "0 < n" "r < n"
  shows "(if r = 0 then n - 1 else r - 1) = (r + (n - 1)) mod n" "(if r = n - 1 then 0 else r + 1) = (r + 1) mod n"
proof -
  show "(if r = 0 then n - 1 else r - 1) = (r + (n - 1)) mod n"
  proof (cases r)
    case (Suc k)
    then have "(r + (n - 1)) mod n = (k + n) mod n"
      using n by simp
    with Suc n show ?thesis
      by simp
  qed (use n in simp)
  show "(if r = n - 1 then 0 else r + 1) = (r + 1) mod n"
    using n by auto
qed

lemma grid_pos: "0 < ROWS" "0 < COLS"
  by (simp_all add: ROWS_def COLS_def)

lemma cell_at_in: "length xs = CELLS \<Longrightarrow> cell_at xs ((r mod ROWS) * COLS + c mod COLS) = Some (at xs r c)"
  using cell_index [of "r mod ROWS" "c mod COLS"] grid_pos by (simp add: cell_at_def at_def)

lemma step_cell_torus:
  assumes "world_ok w" "r < ROWS" "c < COLS"
  shows "step_cell fl w (r, c) = Some (torus_cell fl w r c)"
proof -
  have i: "r mod ROWS = r" "c mod COLS = c"
    using assms by simp_all
  note n = wrap_neighbours [OF grid_pos(1) assms(2)] wrap_neighbours [OF grid_pos(2) assms(3)]
  have len: "length (rd_u w) = CELLS" "length (rd_v w) = CELLS"
    using assms(1) by (simp_all add: world_ok_def)
  note at = len [THEN cell_at_in, of r "c"] len [THEN cell_at_in, of "r + (ROWS - 1)" c] len [THEN cell_at_in, of "r + 1" c]
    len [THEN cell_at_in, of r "c + (COLS - 1)"] len [THEN cell_at_in, of r "c + 1"]
  show ?thesis
    unfolding step_cell_def Let_def prod.case n torus_cell_def
    using at by (simp only: i Option.bind.simps)
qed

lemma those_map_Some: "(\<And>x. x \<in> set xs \<Longrightarrow> f x = Some (g x)) \<Longrightarrow> those (map f xs) = Some (map g xs)"
  by (induction xs) simp_all

definition grid :: "(nat \<Rightarrow> nat \<Rightarrow> 'a) \<Rightarrow> 'a list" where
  "grid f = map (\<lambda>(r, c). f r c) (List.product [0..<ROWS] [0..<COLS])"

lemma grid_length [simp]: "length (grid f) = CELLS"
  by (simp add: grid_def CELLS_def)

lemma grid_at:
  assumes "\<And>r c. f (r mod ROWS) (c mod COLS) = f r c"
  shows "at (grid f) r c = f r c"
proof -
  let ?i = "(r mod ROWS) * COLS + c mod COLS"
  have "?i < ROWS * COLS"
    using cell_index [of "r mod ROWS" "c mod COLS"] grid_pos by (simp add: CELLS_def)
  moreover have "?i div COLS = r mod ROWS" "?i mod COLS = c mod COLS"
    using grid_pos by simp_all
  ultimately show ?thesis
    using grid_pos assms by (simp add: at_def grid_def product_nth)
qed

lemma grid_cong: "(\<And>r c. r < ROWS \<Longrightarrow> c < COLS \<Longrightarrow> f r c = g r c) \<Longrightarrow> grid f = grid g"
  by (auto simp: grid_def)

lemma world_step_torus:
  assumes "world_ok w"
  shows "world_step fl w = Some (w\<lparr> rd_u := grid (\<lambda>r c. fst (torus_cell fl w r c)), rd_v := grid (\<lambda>r c. snd (torus_cell fl w r c)) \<rparr>)"
proof -
  have "those (map (step_cell fl w) (List.product [0..<ROWS] [0..<COLS]))
      = Some (map (\<lambda>(r, c). torus_cell fl w r c) (List.product [0..<ROWS] [0..<COLS]))"
    using step_cell_torus [OF assms] by (intro those_map_Some) auto
  then show ?thesis
    by (simp add: world_step_def grid_def comp_def case_prod_beta)
qed

lemma world_step_ok: "world_ok w \<Longrightarrow> \<exists>w'. world_step fl w = Some w' \<and> world_ok w'"
  by (simp add: world_step_torus) (simp add: world_ok_def)

lemma world_substeps_ok: "world_ok w \<Longrightarrow> \<exists>w'. world_substeps fl w = Some w' \<and> world_ok w'"
  unfolding world_substeps_def
proof (rule try_for_inv [where I = world_ok])
  show "\<exists>w'. map_option (\<lambda>w. w\<lparr> rd_generation := rd_generation w + 1 \<rparr>) (world_step fl w) = Some w' \<and> world_ok w'"
    if "world_ok w" for w
    using world_step_ok [OF that, of fl] by (auto simp: world_ok_def)
qed

text \<open>A world seen from another corner of the torus.\<close>

definition shift_grid :: "nat \<Rightarrow> nat \<Rightarrow> 'f list \<Rightarrow> 'f list" where
  "shift_grid a b xs = grid (\<lambda>r c. at xs (r + a) (c + b))"

definition shift_world :: "nat \<Rightarrow> nat \<Rightarrow> 'f rd_world \<Rightarrow> 'f rd_world" where
  "shift_world a b w = w\<lparr> rd_u := shift_grid a b (rd_u w), rd_v := shift_grid a b (rd_v w) \<rparr>"

lemma at_mod: "at xs (r mod ROWS) c = at xs r c" "at xs r (c mod COLS) = at xs r c"
  "at xs (r mod ROWS + a) c = at xs (r + a) c" "at xs r (c mod COLS + a) = at xs r (c + a)"
  "at xs (Suc (r mod ROWS)) c = at xs (Suc r) c" "at xs r (Suc (c mod COLS)) = at xs r (Suc c)"
  by (simp_all add: at_def mod_simps)

lemma at_shift_grid: "at (shift_grid a b xs) r c = at xs (r + a) (c + b)"
  unfolding shift_grid_def by (rule grid_at) (simp add: at_mod)

lemma torus_cell_mod: "torus_cell fl w (r mod ROWS) (c mod COLS) = torus_cell fl w r c"
  by (simp add: torus_cell_def at_mod Let_def)

lemma torus_cell_shift: "torus_cell fl (shift_world a b w) r c = torus_cell fl w (r + a) (c + b)"
  by (simp add: torus_cell_def shift_world_def at_shift_grid Let_def ac_simps)

lemma shift_grid_grid: "(\<And>r c. f (r mod ROWS) (c mod COLS) = f r c) \<Longrightarrow> shift_grid a b (grid f) = grid (\<lambda>r c. f (r + a) (c + b))"
  by (simp add: shift_grid_def grid_at)

text \<open>
  The stencil has no border: stepping a shifted world shifts the stepped world, for any shift of rows and columns and
  whatever the rounding of the arithmetic.
\<close>

theorem step_commutes_with_shifts:
  assumes "world_ok w"
  shows "world_step fl (shift_world a b w) = map_option (shift_world a b) (world_step fl w)"
proof -
  have "world_ok (shift_world a b w)"
    by (simp add: world_ok_def shift_world_def shift_grid_def)
  then show ?thesis
    by (simp add: world_step_torus assms torus_cell_shift)
       (simp add: shift_world_def shift_grid_grid torus_cell_mod)
qed

section \<open>The generator never stops\<close>

lemma xor_eq_0_iff: "a XOR b = 0 \<longleftrightarrow> a = (b :: u64)"
  by (auto simp: bit_eq_iff bit_xor_iff)

lemma fixed_push_bit:
  assumes "0 < k" "push_bit k s = s"
  shows "s = (0 :: u64)"
proof -
  have shifted: "bit s n \<longleftrightarrow> k \<le> n \<and> n < 64 \<and> bit s (n - k)" for n
    using arg_cong [OF assms(2), of "\<lambda>x. bit x n"] by (simp add: bit_push_bit_iff bit_imp_le_length conj_ac)
  have "\<not> bit s n" for n
  proof (induction n rule: less_induct)
    case (less n)
    show ?case
      using shifted [of n] less [of "n - k"] assms(1) by (cases "k \<le> n") auto
  qed
  then show ?thesis
    by (auto intro: bit_eqI)
qed

lemma fixed_drop_bit:
  assumes "0 < k" "drop_bit k s = s"
  shows "s = (0 :: u64)"
proof -
  have shifted: "bit s n \<longleftrightarrow> bit s (n + k)" for n
    using arg_cong [OF assms(2), of "\<lambda>x. bit x n"] by (simp add: bit_drop_bit_eq ac_simps)
  have "\<not> bit s n" for n
  proof (induction "64 - n" arbitrary: n rule: less_induct)
    case less
    show ?case
    proof
      assume b: "bit s n"
      then have "n < 64"
        using bit_imp_le_length [OF b] by simp
      with b shifted [of n] less [of "n + k"] assms(1) show False
        by simp
    qed
  qed
  then show ?thesis
    by (auto intro: bit_eqI)
qed

lemma rng_nonzero:
  assumes "s \<noteq> 0"
  shows "rng_u64 s \<noteq> 0"
proof -
  define s1 s2 where "s1 = s XOR push_bit 13 s" and "s2 = s1 XOR drop_bit 7 s1"
  have "s1 \<noteq> 0"
    unfolding s1_def xor_eq_0_iff using fixed_push_bit [of 13 s] assms by force
  then have "s2 \<noteq> 0"
    unfolding s2_def xor_eq_0_iff using fixed_drop_bit [of 7 s1] by force
  then have "s2 XOR push_bit 17 s2 \<noteq> 0"
    unfolding xor_eq_0_iff using fixed_push_bit [of 17 s2] by force
  then show ?thesis
    unfolding rng_u64_def Let_def s1_def s2_def .
qed

section \<open>Frames\<close>

lemma rd_frame_valid: "is_ok (MessageType_new ''rd.frame'')"
  by code_simp

text \<open>A frame of the whole grid that answers one of the messages.\<close>

definition is_frame :: "'t emergent_message list \<Rightarrow> 't emergent_message \<Rightarrow> bool" where
  "is_frame ms out \<longleftrightarrow> msg_type out = ''rd.frame''
     \<and> (\<exists>m \<in> set ms. msg_causation_id out = Some (causation_from_message (msg_id m)))
     \<and> (\<exists>cells. json_get ''cells'' (msg_payload out) = Some (JArray cells) \<and> length cells = CELLS)"

definition handler_ok :: "'f f64_ops \<Rightarrow> 't emergent_message list \<Rightarrow> 'f rd_world \<times> 't outbox \<Rightarrow> bool" where
  "handler_ok fl ms st = (case st of (w, ob) \<Rightarrow> world_ok w \<and> list_all (is_frame ms) (ob_published ob))"


lemma world_message_ok:
  assumes "m \<in> set ms" "handler_ok fl ms st"
  shows "\<exists>st'. world_message fl parse_json draw m st = Some st' \<and> handler_ok fl ms st'"
proof -
  obtain w ob where st: "st = (w, ob)"
    by (cases st)
  have w: "world_ok w" and ob: "list_all (is_frame ms) (ob_published ob)"
    using assms(2) by (simp_all add: st handler_ok_def)
  have frame: "\<exists>st'. map_option (Pair w') (emit draw ''rd.frame'' (caused_by m (frame_payload fl w')) ob) = Some st' \<and> handler_ok fl ms st'"
    if "world_ok w'" for w'
    using that ob assms(1)
    by (auto simp: emit_eq rd_frame_valid handler_ok_def is_frame_def frame_payload_def json_get_def world_ok_def)
  obtain w1 where w1: "world_seed fl (case Option.bind (json_get ''preset'' (unwrap_payload parse_json (msg_payload m))) json_as_str of
      Some s \<Rightarrow> s | None \<Rightarrow> ''coral'') w = Some w1" "world_ok w1"
    using world_seed_ok [OF w] by blast
  obtain w2 where w2: "world_substeps fl w = Some w2" "world_ok w2"
    using world_substeps_ok [OF w] by blast
  show ?thesis
    using frame [OF w1(2)] frame [OF w2(2)] w ob
    by (simp add: st world_message_def Let_def w1(1) w2(1) handler_ok_def)
qed

lemma select_loop_inv:
  assumes "I s" and "\<And>m s. m \<in> set ms \<Longrightarrow> I s \<Longrightarrow> \<exists>s'. step m s = Some s' \<and> I s'"
  shows "\<exists>s'. select_loop step s (map Delivered ms) = (s', StillLooping) \<and> I s'"
  using assms
proof (induction ms arbitrary: s)
  case (Cons m ms)
  then obtain s' where "step m s = Some s'" "I s'"
    by (meson list.set_intros(1))
  with Cons show ?case
    by simp
qed simp

lemma world_new_empty: "fl_eq fl (fl_lit fl ''0.0'') (fl_lit fl ''0.0'') \<Longrightarrow> world_is_empty fl (world_new fl)"
  by (simp add: world_is_empty_def world_new_def list_all_iff)

text \<open>
  The handler goes through any sequence of messages without a panic: no index leaves the grid, every frame it publishes
  is a whole grid of 14000 cells and names one of the messages as its cause, and before the first seed it publishes nothing.
  Assumed of \<^verbatim>\<open>f64\<close>: zero equals itself.
\<close>

theorem world_handler_runs:
  assumes "fl_eq fl (fl_lit fl ''0.0'') (fl_lit fl ''0.0'')"
  shows "\<exists>w ob. select_loop (world_message fl parse_json draw) (world_new fl, outbox_start) (map Delivered ms) = ((w, ob), StillLooping)
    \<and> world_ok w \<and> list_all (is_frame ms) (ob_published ob)
    \<and> ((\<forall>m \<in> set ms. msg_type m \<noteq> ''rd.seed'') \<longrightarrow> ob_published ob = [])"
proof -
  let ?s = "(world_new fl, outbox_start)"
  have "handler_ok fl ms ?s"
    by (simp add: handler_ok_def world_new_ok outbox_start_def)
  then obtain w ob where r: "select_loop (world_message fl parse_json draw) ?s (map Delivered ms) = ((w, ob), StillLooping)"
    "handler_ok fl ms (w, ob)"
    using select_loop_inv [of "handler_ok fl ms" ?s ms "world_message fl parse_json draw"] world_message_ok by (metis surj_pair)
  have "\<exists>s. select_loop (world_message fl parse_json draw) ?s (map Delivered ms) = (s, StillLooping) \<and> s = ?s"
    if "\<forall>m \<in> set ms. msg_type m \<noteq> ''rd.seed''"
    using that world_new_empty [OF assms]
    by (intro select_loop_inv) (auto simp: world_message_def Let_def)
  with r show ?thesis
    by (auto simp: handler_ok_def outbox_start_def)
qed

end
