(* ===== verification/Spec2Isabelle.thy ===== *)
theory Spec2Isabelle
  imports Topology Shutdown Preflight Retention Ipc_Policy Event_Store Readiness Publish_Watch Pull_Stream
    Engine_Main Sdk_Helpers Sdk_Events Market_Cli Self_Update Scaffold Http_Api
    Proc_Stat Parent_Death Store_Open Id_Text Command_Line Message_Queue Reaction_Diffusion
begin

text \<open>
  Emergent runs a workflow of processes. An engine reads a TOML file that names sources, handlers and
  sinks, spawns one child per primitive, restarts children by policy, accepts their connections on a
  Unix socket, routes what they publish to the subscribers, stores every event, and answers questions
  about itself over the bus and over HTTP. A primitive talks to the engine through an SDK. This library
  models the engine (\<^verbatim>\<open>emergent-engine/src\<close>), the Rust SDK (\<^verbatim>\<open>sdks/rust/src\<close>) and the example primitives
  written in Rust; the root theory holds the properties that span components.

  \<^bold>\<open>Theories and sources.\<close>
  \<^item> \<open>Prelude\<close>: the Rust types and the operations of \<^verbatim>\<open>str\<close>, words and results the sources use; \<open>reach\<close>, and
    the interfaces \<open>machine_invariant\<close> and \<open>step_function\<close> of state machines.
  \<^item> \<open>Utf8\<close>: when bytes are text, and the lossy reading of those that are not.
  \<^item> \<open>Topics\<close> (\<^verbatim>\<open>subscribe.rs\<close>), \<open>Ids\<close> and \<open>Id_Text\<close> (\<^verbatim>\<open>types/*.rs\<close>), \<open>Messages\<close> (\<^verbatim>\<open>message.rs\<close>): the language of
    topics, validated names and identifiers with their JSON forms, the envelope and its JSON form.
  \<^item> \<open>Supervision\<close> (\<^verbatim>\<open>supervision.rs\<close>), \<open>Lifecycle\<close> (\<^verbatim>\<open>lifecycle.rs\<close>, \<^verbatim>\<open>primitives.rs\<close>), \<open>Primitive_Actor\<close> and
    \<open>Parent_Death\<close> (\<^verbatim>\<open>primitive_actor.rs\<close>): restart decisions on 32 and 64 bit words, the status of a primitive,
    the actor that owns a child, with the spawn and monitor futures as steps of \<open>actor_step\<close>, and what a forked child
    does before its program runs, with the death of the engine as a step of \<open>pd_step\<close> at every point.
  \<^item> \<open>Declarations\<close>, \<open>Ipc_Policy\<close>, \<open>Ipc_Identity\<close> and \<open>Proc_Stat\<close> (\<^verbatim>\<open>declarations.rs\<close>, \<^verbatim>\<open>ipc_policy.rs\<close>,
    \<^verbatim>\<open>ipc_identity.rs\<close>): what a primitive declared, what a connection may do, whose connection it is, and how the
    parent of a process is read from the bytes of its \<^verbatim>\<open>/proc\<close> entry.
  \<^item> \<open>Config\<close>, \<open>Preflight\<close> (\<^verbatim>\<open>config.rs\<close>, \<^verbatim>\<open>preflight.rs\<close>): the configuration, each of its checks, and the
    report of the \<^verbatim>\<open>validate\<close> command.
  \<^item> \<open>Readiness\<close> (\<^verbatim>\<open>readiness.rs\<close>), \<open>Process_Manager\<close> and \<open>Shutdown\<close> (\<^verbatim>\<open>process_manager.rs\<close>): starting sinks,
    handlers and sources in tiers, and stopping them in three phases.
  \<^item> \<open>Event_Store\<close>, \<open>Store_Open\<close>, \<open>Retention\<close> (\<^verbatim>\<open>event_store/*.rs\<close>, \<^verbatim>\<open>init_event_stores\<close> of \<^verbatim>\<open>main.rs\<close>,
    \<^verbatim>\<open>retention.rs\<close>): the JSON log, the SQLite store, opening them, and the pruning of both.
  \<^item> \<open>Api_Host\<close> (\<^verbatim>\<open>api_host.rs\<close>), \<open>Topology\<close> (\<^verbatim>\<open>topology.rs\<close>), \<open>Http_Api\<close> (the server task of \<^verbatim>\<open>main.rs\<close>): the host guard of
    the HTTP API, the topology answer, and the API.
  \<^item> \<open>Broker\<close>, \<open>Engine_Main\<close>, \<open>Command_Line\<close> (\<^verbatim>\<open>main.rs\<close>, \<^verbatim>\<open>publish_reply.rs\<close>, \<^verbatim>\<open>logging.rs\<close>; \<^verbatim>\<open>init_tracing\<close> of
    the SDK): subcommands and where each program logs; the handlers that store, forward and
    acknowledge messages and answer questions; finding and refusing a configuration, the \<^verbatim>\<open>validate\<close> command, the
    steps of startup, retention passes and the stop.
  \<^item> \<open>Sdk_Client\<close>, \<open>Pull_Stream\<close> (\<^verbatim>\<open>connection.rs\<close>, \<^verbatim>\<open>error.rs\<close>), \<open>Publish_Watch\<close> (\<^verbatim>\<open>publish_watch.rs\<close>), \<open>Sdk_Helpers\<close>
    (\<^verbatim>\<open>helpers.rs\<close>), \<open>Message_Queue\<close> (\<^verbatim>\<open>stream.rs\<close>), \<open>Sdk_Events\<close> (\<^verbatim>\<open>types/system_events.rs\<close>): the clients of a source, handler and sink, the bridge
    from notifications to a stream, streams pulled by their consumer, the watcher of publishes, the runners, the
    bounded stream of messages, and the typed system events.
  \<^item> \<open>Registry\<close> (\<^verbatim>\<open>marketplace/registry.rs\<close>, \<^verbatim>\<open>platform.rs\<close>, \<^verbatim>\<open>error.rs\<close>), \<open>Installer\<close> (\<^verbatim>\<open>installer.rs\<close>, \<^verbatim>\<open>storage.rs\<close>),
    \<open>Market_Cli\<close> (\<^verbatim>\<open>cli.rs\<close>), \<open>Self_Update\<close> (\<^verbatim>\<open>update.rs\<close>): fetching, verifying, installing and removing primitives,
    and the engine's update of itself, over a world of files in which every operation may fail.
  \<^item> \<open>Scaffold\<close> (\<^verbatim>\<open>scaffold/*.rs\<close>, \<^verbatim>\<open>init/*.rs\<close>): the generation of a primitive by three actors, and of a starter
    configuration.
  \<^item> \<open>Example_Primitives\<close> (\<^verbatim>\<open>examples/*/*/src/main.rs\<close>), \<open>Reaction_Diffusion\<close>
    (\<^verbatim>\<open>config/advanced-examples/reaction-diffusion/world.rs\<close>): programs over the SDK, each a loop over what it is given.

  \<^bold>\<open>How code becomes definitions.\<close> A struct is a record, an enum a datatype, a method that mutates a
  function from state to state, a \<^verbatim>\<open>Result\<close> a sum. A \<^verbatim>\<open>String\<close> is its list of UTF-8 bytes. Integers are
  words where the code can overflow or saturate and \<open>nat\<close> where it counts a collection. Code outside the
  repository is an argument: the TypeID package, the URL parser, TOML and JSON text parsing, SQL, the file
  system, clocks, the arithmetic of \<^verbatim>\<open>f64\<close>, the commands a handler runs, and the IPC client. What a task waits for (messages, deadlines, exits) is a list
  of inputs or the label of a step. Nothing needs fuel: loops recurse over their inputs, and the two
  loops that end by themselves, the ancestry walk and the tier wait, are bounded by the hop limit and the
  deadline the code has.

  \<^bold>\<open>What the lemmas show.\<close> Each component theory ends with its properties. The main ones: an actor never has
  two children, restarts at most its budget per window and acts on every exit; the configuration checks
  accept exactly the configurations described; strict enforcement lets through exactly what was
  declared; identities come from the nearest managed ancestor, and no connection survives its child;
  start and shutdown keep their order and always end; shutdown leaves no child running as long as no pid watch
  loses its sender before it is cleared; the stores return what they were given and pruning removes only what has expired; the HTTP API refuses every
  foreign name and answers what the bus answers; publishes are all accounted for; a pull stream delivers every item in order and, if its items are of a valid type, ends;
  the broker implements its specification and sends out only well-formed messages; an archive that fails its
  checksum changes no file that matters; an update never loses the engine's binary; a scaffold run is complete or fails. The root theory
  composes them: a validated configuration decides exactly which publishes of an SDK client are accepted, its
  subscriptions are all accepted, and a client's stream is what the engine forwards. The examples add a whole pipeline, from
  the ticks of a timer through the engine to the answers of a filter, and a handler that answers every message whatever its
  command does. A process cannot lie about its parent; no child outlives the engine unnoticed but for one window, which is
  stated exactly; events are found again after a restart of the engine.

  \<^bold>\<open>Interfaces.\<close> \<open>machine_invariant\<close> is interpreted for the actor, the pull stream and the guard of a forked child, \<open>step_function\<close> for topic
  sets, the registry of connections, the lifecycle, the pid watch, the publish watcher and its flushes, and the message stream; \<open>sql_database\<close> extends
  \<open>sql_events\<close> by opening and closing, and \<open>type_id_package\<close> gives the contract \<open>json_form\<close> for each identifier; the
  locales of single components (the topic language, identifiers, the table of declarations, issue checks, the
  registrars of the process manager, SQL) are interpreted where the definitions stand. The marketplace theories
  use frame rules instead: \<open>confined\<close> and the collection \<open>frame\<close> say which files an operation can touch.

  \<^bold>\<open>Not modelled.\<close> Sockets and the IPC library, the HTTP router, argument parsing, the tracing library and progress bars,
  which are calls of libraries; process creation and signals beyond the steps of \<open>actor_step\<close> and \<open>pd_step\<close>; MessagePack
  bytes and the TOML reader's defaults as such; the SDKs and examples in other languages.
\<close>

section \<open>A validated configuration under strict enforcement\<close>

text \<open>What the table built from a configuration without repeated names says about a name.\<close>

lemma config_lookup_Some_iff:
  assumes "distinct (config_names c)"
  shows "dt_primitives (config_declaration_table c) n = Some d \<longleftrightarrow> (n, d) \<in> set (config_declarations c)"
proof
  assume "dt_primitives (config_declaration_table c) n = Some d"
  then have "map_of (rev (config_declarations c)) n = Some d"
    by (simp add: config_declaration_table_def dt_primitives_new)
  then show "(n, d) \<in> set (config_declarations c)"
    using map_of_SomeD by fastforce
qed (rule config_lookup_mem [OF assms])

lemma config_publisher_iff:
  assumes "distinct (config_names c)"
  shows "(\<exists>d. dt_primitives (config_declaration_table c) n = Some d \<and> kind_permits d Publish
            \<and> permits (decl_publishes d) m) \<longleftrightarrow>
      (\<exists>s \<in> set (cfg_sources c). src_name s = n \<and> topics.covers (src_publishes s) m)
      \<or> (\<exists>h \<in> set (cfg_handlers c). hdl_name h = n \<and> topics.covers (hdl_publishes h) m)"
  unfolding config_lookup_Some_iff [OF assms]
  by (auto simp: config_declarations_def declarations_new_def kind_permits_def topic_set_new_permits)

lemma config_subscriber_iff:
  assumes "distinct (config_names c)"
  shows "(\<exists>d. dt_primitives (config_declaration_table c) n = Some d \<and> kind_permits d Subscribe
            \<and> permits (decl_subscribes d) m) \<longleftrightarrow>
      (\<exists>h \<in> set (cfg_handlers c). hdl_name h = n \<and> topics.covers (hdl_subscribes h) m)
      \<or> (\<exists>s \<in> set (cfg_sinks c). snk_name s = n \<and> topics.covers (snk_subscribes s) m)"
  unfolding config_lookup_Some_iff [OF assms]
  by (auto simp: config_declarations_def declarations_new_def kind_permits_def topic_set_new_permits)

text \<open>A topic that a declaration covers selects nothing the declaration does not cover.\<close>

lemma covers_selector:
  assumes "topics.covers ts t" and "topic_matches t m"
  shows "topics.covers ts m"
proof (cases "pattern_prefix t")
  case None
  with assms show ?thesis
    using topic_matches_literal [of t m] topic_matches_misplaced [of t m] by (cases "star \<in> set t") auto
next
  case (Some pre)
  then have "t = pre @ [star]" "star \<notin> set pre"
    by (auto simp: pattern_prefix_Some_iff)
  with assms show ?thesis
    using permits_selector [OF topic_set_new_star_free, of ts pre m] topic_matches_pattern [of pre m]
    by (simp add: topic_set_new_permits)
qed

lemma valid_config_distinct: "is_ok (validate path_exists url_host c) \<Longrightarrow> distinct (config_names c)"
  by (simp add: config_check.passes_iff issues_def Let_def issues_Nil_iffs)

lemma config_table_mode [simp]: "dt_mode (config_declaration_table c) = ec_enforce_declarations (cfg_engine c)"
  by (simp add: config_declaration_table_def)

text \<open>
  C10. From the configuration file to the wire. Once a configuration validates and asks for strict
  enforcement, a publish on the connection of the primitive \<open>n\<close> is accepted exactly when the message
  claims no source or \<open>n\<close> itself and its type is a protocol topic or covered by the topics that the
  one source or handler called \<open>n\<close> lists under \<^verbatim>\<open>publishes\<close>.
\<close>

theorem validated_publish_iff:
  assumes "is_ok (validate path_exists url_host c)" and "ec_enforce_declarations (cfg_engine c) = EM_Strict"
    and "published_type payload = Some m"
  shows "snd (authorize (engine_policy_new (config_declaration_table c)) (Some (Primitive n)) (Request payload)) = Ok () \<longleftrightarrow>
     (claimed_source payload = None \<or> claimed_source payload = Some n)
     \<and> (is_protocol_topic Publish m
        \<or> (\<exists>s \<in> set (cfg_sources c). src_name s = n \<and> topics.covers (src_publishes s) m)
        \<or> (\<exists>h \<in> set (cfg_handlers c). hdl_name h = n \<and> topics.covers (hdl_publishes h) m))"
proof -
  let ?p = "engine_policy_new (config_declaration_table c)"
  have p: "ep_declarations ?p = config_declaration_table c"
    by (simp add: engine_policy_new_def)
  have s: "dt_mode (ep_declarations ?p) = EM_Strict"
    by (simp add: p assms(2))
  show ?thesis
    using authorize_request_strict_Primitive [OF s assms(3), of n]
    by (simp add: authorize_def p config_publisher_iff [OF valid_config_distinct [OF assms(1)]])
qed

definition strict_config :: emergent_config where
  "strict_config = sample_config\<lparr> cfg_engine := engine_config_default\<lparr> ec_enforce_declarations := EM_Strict \<rparr> \<rparr>"

lemma strict_config_valid: "is_ok (validate (\<lambda>p. p = ''/bin/timer'') (\<lambda>_. None) strict_config)"
  by code_simp

lemma strict_config_simps [simp]:
  "ec_enforce_declarations (cfg_engine strict_config) = EM_Strict"
  "cfg_handlers strict_config = []" "cfg_sources strict_config = cfg_sources sample_config"
  "cfg_sinks strict_config = cfg_sinks sample_config"
  by (simp_all add: strict_config_def sample_config_def)

theorem validated_publish_iff_witness:
  "snd (authorize (engine_policy_new (config_declaration_table strict_config)) (Some (Primitive ''timer''))
      (Request (sample_publish ''timer'' ''timer.tick''))) = Ok ()
   \<and> snd (authorize (engine_policy_new (config_declaration_table strict_config)) (Some (Primitive ''log''))
      (Request (sample_publish ''log'' ''timer.tick''))) \<noteq> Ok ()"
proof -
  have t: "published_type (sample_publish s ''timer.tick'') = Some ''timer.tick''"
    and c: "claimed_source (sample_publish s ''timer.tick'') = (if s = [] then None else Some s)" for s
    by (simp_all add: published_type_def claimed_source_def sample_publish_def)
  have "topics.covers [''timer.*''] ''timer.tick''" "\<not> is_protocol_topic Publish ''timer.tick''"
    by (simp_all add: topics.covers_def classify_topic_def topic_matches_def pattern_prefix_def strip_suffix_def
        strip_prefix_def MAX_PATTERN_LEN_def is_protocol_topic_def PROTOCOL_PUBLISHES_def)
  then show ?thesis
    unfolding validated_publish_iff [OF strict_config_valid strict_config_simps(1) t]
    by (simp add: c sample_config_def)
qed

text \<open>
  C38. A primitive receives nothing beyond its configuration. With a validated configuration and
  strict enforcement, if a subscribe of the primitive \<open>n\<close>, by exact topics or by patterns, is
  accepted, then every message type one of its topics selects is covered by what the one handler or
  sink called \<open>n\<close> lists under \<^verbatim>\<open>subscribes\<close>, unless that topic is one of the three protocol topics.
\<close>

theorem validated_delivery_declared:
  assumes "is_ok (validate path_exists url_host c)" and "ec_enforce_declarations (cfg_engine c) = EM_Strict"
    and "op \<in> {SubscribeOp ts, SubscribePatterns ts}"
    and "snd (authorize (engine_policy_new (config_declaration_table c)) (Some (Primitive n)) op) = Ok ()"
    and "t \<in> set ts" and "topic_matches t m" and "t \<notin> set PROTOCOL_SUBSCRIBES"
  shows "(\<exists>h \<in> set (cfg_handlers c). hdl_name h = n \<and> topics.covers (hdl_subscribes h) m)
      \<or> (\<exists>s \<in> set (cfg_sinks c). snk_name s = n \<and> topics.covers (snk_subscribes s) m)"
proof -
  let ?p = "engine_policy_new (config_declaration_table c)"
  have p: "ep_declarations ?p = config_declaration_table c"
    by (simp add: engine_policy_new_def)
  have s: "dt_mode (ep_declarations ?p) = EM_Strict"
    by (simp add: p assms(2))
  have "snd (authorize_subscribe ?p (Primitive n) ts) = Ok ()"
    using assms(3,4) by (auto simp: authorize_def)
  then have "\<exists>d. dt_primitives (config_declaration_table c) n = Some d \<and> kind_permits d Subscribe
      \<and> permits (decl_subscribes d) t"
    using assms(5,7) unfolding authorize_subscribe_strict [OF s]
    by (auto simp: p is_protocol_topic_def primitive_name_of_def)
  then show ?thesis
    unfolding config_subscriber_iff [OF valid_config_distinct [OF assms(1)]]
    using covers_selector [OF _ assms(6)] by blast
qed

theorem validated_delivery_declared_witness:
  "snd (authorize (engine_policy_new (config_declaration_table strict_config)) (Some (Primitive ''log''))
      (SubscribeOp [''timer.tick''])) = Ok ()
   \<and> (\<exists>s \<in> set (cfg_sinks strict_config). snk_name s = ''log'' \<and> topics.covers (snk_subscribes s) ''timer.tick'')"
proof -
  have a: "snd (authorize (engine_policy_new (config_declaration_table strict_config)) (Some (Primitive ''log''))
      (SubscribeOp [''timer.tick''])) = Ok ()"
    by code_simp
  have t: "''timer.tick'' \<in> set [''timer.tick'']" "topic_matches ''timer.tick'' ''timer.tick''"
    "''timer.tick'' \<notin> set PROTOCOL_SUBSCRIBES"
    by code_simp+
  show ?thesis
    using validated_delivery_declared [OF strict_config_valid strict_config_simps(1) _ a t] a by simp
qed

section \<open>The SDK against the engine\<close>

text \<open>The policy the engine installs at startup, over what the SDK sends.\<close>

lemma startup_policy_declarations [simp]: "ep_declarations (startup_policy ancestry c) = config_declaration_table c"
  by (simp add: startup_policy_def reporting_to_def naming_unmanaged_def engine_policy_new_def)

lemma envelope_claims:
  "published_type (ipc_emergent_message to_str m) = Some (msg_type m)"
  "msg_source m \<noteq> [] \<Longrightarrow> claimed_source (ipc_emergent_message to_str m) = Some (msg_source m)"
  by (simp_all add: published_type_def claimed_source_def ipc_emergent_message_def message_value_fields)

lemma stamp_source_Ok:
  "stamp_source n m = Ok m' \<Longrightarrow> m' = (if PrimitiveName_is_default (msg_source m) then m\<lparr>msg_source := n\<rparr> else m)
     \<and> (PrimitiveName_is_default (msg_source m) \<longrightarrow> n \<noteq> [])"
  by (auto simp: stamp_source_def with_source_name_def PrimitiveName_new_Ok_iff split: if_splits sum.splits)

text \<open>
  C12. What an SDK client publishes passes strict enforcement exactly when it is declared. With a validated
  configuration under strict enforcement, a message published through the SDK by the primitive \<open>n\<close>, with or
  without acknowledgement, is accepted by the running engine exactly when it carries no source of its own or
  the name \<open>n\<close>, and its type is a protocol topic or covered by what the one source or handler \<open>n\<close> declares: the
  name the SDK fills in is never the reason for a refusal.
\<close>

theorem sdk_publish_accepted_iff_declared:
  assumes "is_ok (validate path_exists url_host c)" and "ec_enforce_declarations (cfg_engine c) = EM_Strict"
    and "message_ok prefix_of m" and "stamp_source n m = Ok m'"
    and "env \<in> {build_publish_envelope to_str m', build_publish_request_envelope to_str m'}"
  shows "snd (authorize (startup_policy ancestry c) (Some (Primitive n)) (Request (ie_payload env))) = Ok () \<longleftrightarrow>
     (PrimitiveName_is_default (msg_source m) \<or> msg_source m = n)
     \<and> (is_protocol_topic Publish (msg_type m)
        \<or> (\<exists>s \<in> set (cfg_sources c). src_name s = n \<and> topics.covers (src_publishes s) (msg_type m))
        \<or> (\<exists>h \<in> set (cfg_handlers c). hdl_name h = n \<and> topics.covers (hdl_publishes h) (msg_type m)))"
proof -
  have payload: "ie_payload env = ipc_emergent_message to_str m'"
    using assms(5) by (auto simp: build_publish_envelope_def build_publish_request_envelope_def)
  have m': "m' = (if PrimitiveName_is_default (msg_source m) then m\<lparr>msg_source := n\<rparr> else m)" "msg_source m' \<noteq> []"
    using stamp_source_Ok [OF assms(4)] assms(3) by (auto simp: message_ok_def is_ok_iff PrimitiveName_new_Ok_iff split: if_splits)
  have s: "dt_mode (ep_declarations (startup_policy ancestry c)) = EM_Strict"
    by (simp add: assms(2))
  show ?thesis
    using authorize_request_strict_Primitive [OF s envelope_claims(1), of n to_str m'] envelope_claims(2) [OF m'(2)] m'(1)
    by (auto simp: authorize_def payload config_publisher_iff [OF valid_config_distinct [OF assms(1)]])
qed

definition tick_message :: "string emergent_message" where
  "tick_message = \<lparr> msg_id = MessageId ''msg_1'', msg_type = ''timer.tick'', msg_source = PrimitiveName_unknown,
     msg_correlation_id = None, msg_causation_id = None, msg_timestamp_ms = Timestamp 7, msg_payload = JInt 3, msg_metadata = None \<rparr>"

theorem sdk_publish_accepted_iff_declared_witness:
  "\<exists>m'. stamp_source ''timer'' tick_message = Ok m'
     \<and> snd (authorize (startup_policy True strict_config) (Some (Primitive ''timer''))
         (Request (ie_payload (build_publish_envelope id m')))) = Ok ()"
proof -
  have ok: "message_ok (take 3) tick_message" "is_ok (stamp_source ''timer'' tick_message)"
    by code_simp+
  then obtain m' where m': "stamp_source ''timer'' tick_message = Ok m'"
    by (auto simp: is_ok_iff)
  have "topics.covers [''timer.*''] ''timer.tick''" "PrimitiveName_is_default (msg_source tick_message)"
    "msg_type tick_message = ''timer.tick''"
    by (simp_all add: topics.covers_def classify_topic_def topic_matches_def pattern_prefix_def strip_suffix_def
        strip_prefix_def MAX_PATTERN_LEN_def tick_message_def PrimitiveName_is_default_def PrimitiveName_unknown_def)
  then show ?thesis
    using sdk_publish_accepted_iff_declared [OF strict_config_valid strict_config_simps(1) ok(1) m', of "build_publish_envelope id m'" id True] m'
    by (auto simp: sample_config_def)
qed

text \<open>The engine's answers to a client bound to the primitive \<open>n\<close>: success as its policy decides.\<close>

definition policed_answers :: "engine_policy \<Rightarrow> string \<Rightarrow> engine_answers" where
  "policed_answers p n = (let answer = (\<lambda>op types patterns. case snd (authorize p (Some (Primitive n)) op) of
       Inl reason \<Rightarrow> Ok \<lparr> sbr_success = False, sbr_error = Some reason, sbr_subscribed_types = [], sbr_subscribed_patterns = [] \<rparr>
     | Inr _ \<Rightarrow> Ok \<lparr> sbr_success = True, sbr_error = None, sbr_subscribed_types = types, sbr_subscribed_patterns = patterns \<rparr>)
   in \<lparr> ea_subscribe = \<lambda>ts. answer (SubscribeOp ts) ts [], ea_subscribe_patterns = \<lambda>ts. answer (SubscribePatterns ts) [] ts \<rparr>)"

lemma topic_covers_itself: "t \<in> set ts \<Longrightarrow> is_ok (classify_topic t) \<Longrightarrow> topics.covers ts t"
proof -
  assume t: "t \<in> set ts" "is_ok (classify_topic t)"
  then obtain k where k: "classify_topic t = Ok k"
    by (auto simp: is_ok_iff)
  show ?thesis
  proof (cases k)
    case Exact
    with t k show ?thesis by (auto simp: topics.covers_split)
  next
    case Pattern
    then obtain pre where "t = pre @ [star]" "pattern_prefix t = Some pre"
      using k by (auto simp: classify_Pattern_iff pattern_prefix_Some_iff)
    with t k Pattern show ?thesis
      unfolding topics.covers_split by (metis starts_with_append)
  qed
qed

text \<open>A client whose every topic the policy lets through gets its stream.\<close>

lemma subscribe_accepted:
  assumes "list_all (\<lambda>t. is_ok (classify_topic t)) ts"
    and "\<And>ts'. set ts' \<subseteq> insert ''system.shutdown'' (set ts) \<Longrightarrow> snd (authorize_subscribe p (Primitive n) ts') = Ok ()"
  shows "is_ok (snd (subscribe_and_stream (policed_answers p n) True ts))"
proof -
  obtain part where part: "partition_topics ts = Ok part"
    using partition_topics_total assms(1) by (auto simp: list_all_iff is_ok_iff)
  note sp = partition_topics_split [OF part]
  have "snd (authorize_subscribe p (Primitive n) (with_shutdown_topic (tp_exact part))) = Ok ()"
    "snd (authorize_subscribe p (Primitive n) (tp_patterns part)) = Ok ()"
    using sp(1,2) by (auto intro!: assms(2))
  then show ?thesis
    by (simp add: subscribe_and_stream_def part policed_answers_def authorize_def subscribe_pattern_part_def Let_def)
qed

lemma valid_config_topics:
  assumes "is_ok (validate path_exists url_host c)"
  shows "h \<in> set (cfg_handlers c) \<Longrightarrow> list_all (\<lambda>t. is_ok (classify_topic t)) (hdl_subscribes h)"
    "s \<in> set (cfg_sinks c) \<Longrightarrow> list_all (\<lambda>t. is_ok (classify_topic t)) (snk_subscribes s)"
  using assms by (auto simp: config_check.passes_iff issues_def Let_def issues_Nil_iffs list_all_iff config_subscriptions_def)

lemma configured_subscribe_accepted:
  assumes valid: "is_ok (validate path_exists url_host c)" and strict: "ec_enforce_declarations (cfg_engine c) = EM_Strict"
    and mine: "(\<exists>h \<in> set (cfg_handlers c). hdl_name h = n \<and> hdl_subscribes h = ts)
      \<or> (\<exists>s \<in> set (cfg_sinks c). snk_name s = n \<and> snk_subscribes s = ts)"
  shows "is_ok (snd (subscribe_and_stream (policed_answers (startup_policy ancestry c) n) True ts))"
proof (rule subscribe_accepted)
  show ok: "list_all (\<lambda>t. is_ok (classify_topic t)) ts"
    using mine valid_config_topics [OF valid] by blast
  fix ts' assume ts': "set ts' \<subseteq> insert ''system.shutdown'' (set ts)"
  have s: "dt_mode (ep_declarations (startup_policy ancestry c)) = EM_Strict"
    by (simp add: strict)
  have "is_protocol_topic Subscribe ''system.shutdown''"
    by code_simp
  moreover have "\<exists>d. dt_primitives (config_declaration_table c) n = Some d \<and> kind_permits d Subscribe \<and> permits (decl_subscribes d) t"
    if "t \<in> set ts" for t
    unfolding config_subscriber_iff [OF valid_config_distinct [OF valid]]
    using mine ok that topic_covers_itself [OF that] by (auto simp: list_all_iff)
  ultimately show "snd (authorize_subscribe (startup_policy ancestry c) (Primitive n) ts') = Ok ()"
    unfolding authorize_subscribe_strict [OF s] using ts' by (auto simp: primitive_name_of_def)
qed

lemma client_subscribe_new_ok:
  "is_ok (snd (subscribe_and_stream eng True ts)) \<Longrightarrow> is_ok (snd (snd (client_subscribe k eng ts (client_new n))))"
  by (auto simp: client_subscribe_def ensure_first_subscribe_def client_new_def is_ok_iff split: prod.splits)

text \<open>
  C24. A primitive that subscribes to what it is configured for is never refused. With a validated
  configuration under strict enforcement, a Handler that leaves its topics to the configuration, and a Sink
  likewise, gets its stream from the running engine: the topics are valid, each is covered by its own
  declaration, and the \<^verbatim>\<open>system.shutdown\<close> the SDK adds is a protocol topic.
\<close>

theorem configured_subscription_accepted:
  assumes "is_ok (validate path_exists url_host c)" and "ec_enforce_declarations (cfg_engine c) = EM_Strict"
  shows "(h \<in> set (cfg_handlers c) \<longrightarrow>
      is_ok (snd (handler_messages (Ok ()) (Ok (hdl_subscribes h)) (policed_answers (startup_policy ancestry c) (hdl_name h)) (hdl_name h) [])))
    \<and> (s \<in> set (cfg_sinks c) \<longrightarrow>
      is_ok (snd (sink_messages (Ok ()) (Ok (snk_subscribes s)) (policed_answers (startup_policy ancestry c) (snk_name s)) (snk_name s) [])))"
proof (intro conjI impI)
  assume "h \<in> set (cfg_handlers c)"
  then have "is_ok (snd (subscribe_and_stream (policed_answers (startup_policy ancestry c) (hdl_name h)) True (hdl_subscribes h)))"
    by (intro configured_subscribe_accepted [OF assms]) blast
  from client_subscribe_new_ok [OF this, of "''handler''" "hdl_name h"]
  show "is_ok (snd (handler_messages (Ok ()) (Ok (hdl_subscribes h)) (policed_answers (startup_policy ancestry c) (hdl_name h)) (hdl_name h) []))"
    by (auto simp: handler_messages_def needs_configured_topics_def resolve_topics_def handler_subscribe_def is_ok_iff split: prod.splits)
next
  assume "s \<in> set (cfg_sinks c)"
  then have "is_ok (snd (subscribe_and_stream (policed_answers (startup_policy ancestry c) (snk_name s)) True (snk_subscribes s)))"
    by (intro configured_subscribe_accepted [OF assms]) blast
  from client_subscribe_new_ok [OF this, of "''sink''" "snk_name s"]
  show "is_ok (snd (sink_messages (Ok ()) (Ok (snk_subscribes s)) (policed_answers (startup_policy ancestry c) (snk_name s)) (snk_name s) []))"
    by (simp add: sink_messages_def needs_configured_topics_def resolve_topics_def sink_subscribe_def)
qed

theorem configured_subscription_accepted_witness:
  "\<exists>s \<in> set (cfg_sinks strict_config).
     is_ok (snd (sink_messages (Ok ()) (Ok (snk_subscribes s)) (policed_answers (startup_policy True strict_config) (snk_name s)) (snk_name s) []))"
proof -
  obtain s where "s \<in> set (cfg_sinks strict_config)"
    by (auto simp: sample_config_def)
  then show ?thesis
    using configured_subscription_accepted [OF strict_config_valid strict_config_simps(1), of _ True s] by blast
qed

text \<open>
  A notice of shutdown is for the kind its payload names, ignoring case. A message is received as it was sent,
  except that metadata that is the JSON null is received as no metadata.
\<close>

definition names_kind :: "(string \<Rightarrow> string) \<Rightarrow> string \<Rightarrow> json \<Rightarrow> bool" where
  "names_kind lower kind payload = (case Option.bind (json_get ''kind'' payload) json_as_str of
      Some k \<Rightarrow> eq_ignore_ascii_case (lower k) kind | None \<Rightarrow> False)"

definition received :: "'t emergent_message \<Rightarrow> 't emergent_message" where
  "received m = (if msg_metadata m = Some JNull then m\<lparr> msg_metadata := None \<rparr> else m)"

lemma received_from_value:
  assumes ids: "\<And>t. from_str (to_str t) = Ok t" and ok: "message_ok prefix_of m"
  shows "message_from_value from_str prefix_of (message_to_value to_str m) = Some (received m)"
proof -
  have "message_ok prefix_of (received m)" "msg_metadata (received m) \<noteq> Some JNull"
    using ok by (simp_all add: received_def message_ok_def)
  from message_value_roundtrip [OF ids this] show ?thesis
    by (cases "msg_metadata m = Some JNull") (simp_all add: received_def null_metadata_reads_as_none)
qed

text \<open>What the bridge makes of a message the engine forwards.\<close>

lemma bridge_of_engine_message:
  assumes ids: "\<And>t. from_str (to_str t) = Ok t" and m: "message_ok prefix_of m"
  shows "bridge_notification from_str prefix_of parse_json lower False kind mid ts (engine_notification to_str m) =
      (if msg_type m \<noteq> ''system.shutdown'' then BridgeForward (received m)
       else if names_kind lower kind (msg_payload m) then BridgeStop else BridgeSkip)"
proof (cases "msg_type m = ''system.shutdown''")
  case True
  have "json_get ''kind'' (message_to_value to_str m) = None"
    by (auto simp: message_to_value_def opt_field_def split: option.split)
  then have "extract_shutdown_kind lower (message_to_value to_str m) = kind_of lower (msg_payload m)"
    by (auto simp: extract_shutdown_kind_def kind_of_def message_value_fields split: option.split)
  then show ?thesis
    using True by (auto simp: bridge_notification_def engine_notification_def names_kind_def kind_of_def split: option.splits)
next
  case False
  have "msg_type (received m) = msg_type m"
    by (simp add: received_def)
  then show ?thesis
    using False m received_from_value [OF ids m]
    by (simp add: bridge_of_envelope engine_notification_def message_ok_def)
qed

text \<open>
  C13. The stream of a client is what the engine forwards, until the engine stops its kind. For a client
  that reads its stream without unwrapping, whatever sequence of valid messages the engine forwards, the
  messages received are exactly those before the first \<^verbatim>\<open>system.shutdown\<close> whose payload names its own kind
  (ignoring case), in order, other messages of the type \<^verbatim>\<open>system.shutdown\<close>, whatever they hold, left out. Each is
  received with every field as it was sent, except that metadata that is the JSON null is received as no metadata.
  The stream ends with that notice, or with the connection when there is none, and never with a panic. Of the three
  notices the engine itself sends, only the one for the client's own kind stops it (if \<^verbatim>\<open>to_lowercase\<close> leaves the names
  of the kinds as they are).
\<close>

theorem stream_is_what_the_engine_forwards:
  assumes ids: "\<And>t. from_str (to_str t) = Ok t"
    and msgs: "list_all (\<lambda>(_, _, m). message_ok prefix_of m) ms"
  shows "push_to_message_stream
      (\<lambda>(mid, ts, n). bridge_notification from_str prefix_of parse_json lower False kind mid ts n)
      (map (\<lambda>(mid, ts, m). ((mid, ts, engine_notification to_str m), True)) ms)
    = (let stops = (\<lambda>m. msg_type m = ''system.shutdown'' \<and> names_kind lower kind (msg_payload m));
           all = map (\<lambda>(_, _, m). m) ms
       in (map received (filter (\<lambda>m. msg_type m \<noteq> ''system.shutdown'') (takeWhile (\<lambda>m. \<not> stops m) all)),
           if list_ex stops all then EngineShutdown else PushChannelClosed))
    \<and> (kind \<in> {''source'', ''handler'', ''sink''} \<and> list_all (\<lambda>k. lower k = k) [''source'', ''handler'', ''sink''] \<longrightarrow>
        list_all (\<lambda>k. names_kind lower kind (payload_shutdown k) \<longleftrightarrow> k = kind) [''source'', ''handler'', ''sink''])"
proof
  show "push_to_message_stream
      (\<lambda>(mid, ts, n). bridge_notification from_str prefix_of parse_json lower False kind mid ts n)
      (map (\<lambda>(mid, ts, m). ((mid, ts, engine_notification to_str m), True)) ms)
    = (let stops = (\<lambda>m. msg_type m = ''system.shutdown'' \<and> names_kind lower kind (msg_payload m));
           all = map (\<lambda>(_, _, m). m) ms
       in (map received (filter (\<lambda>m. msg_type m \<noteq> ''system.shutdown'') (takeWhile (\<lambda>m. \<not> stops m) all)),
           if list_ex stops all then EngineShutdown else PushChannelClosed))"
    using msgs
  proof (induction ms)
    case (Cons x ms)
    obtain mid ts m where x: "x = (mid, ts, m)"
      by (cases x) auto
    with Cons.prems have "message_ok prefix_of m"
      by simp
    note b = bridge_of_engine_message [OF ids this, of parse_json lower kind mid ts]
    with Cons show ?case
      by (auto simp: x b Let_def)
  qed simp
  show "kind \<in> {''source'', ''handler'', ''sink''} \<and> list_all (\<lambda>k. lower k = k) [''source'', ''handler'', ''sink''] \<longrightarrow>
      list_all (\<lambda>k. names_kind lower kind (payload_shutdown k) \<longleftrightarrow> k = kind) [''source'', ''handler'', ''sink'']"
    by (auto simp: names_kind_def payload_shutdown_def eq_ignore_ascii_case_def to_ascii_lowercase_def
        to_ascii_lower_char_def is_ascii_uppercase_def)
qed

theorem stream_is_what_the_engine_forwards_witness:
  "\<exists>stop. create_shutdown_event (MessageId ''msg_2'') (Timestamp 8) ''sink'' = Some stop
     \<and> push_to_message_stream
         (\<lambda>(mid, ts, n). bridge_notification (\<lambda>s. Ok s :: (unit, string) result) (take 3) (\<lambda>_. None) id False ''sink'' mid ts n)
         (map (\<lambda>m. ((MessageId ''msg_9'', Timestamp 9, engine_notification id m), True)) [tick_message, stop, tick_message])
       = ([tick_message], EngineShutdown)"
proof -
  let ?from = "\<lambda>s. Ok s :: (unit, string) result"
  have "create_shutdown_event (MessageId ''msg_2'') (Timestamp 8) ''sink'' \<noteq> None"
    by code_simp
  then obtain stop where stop: "create_shutdown_event (MessageId ''msg_2'') (Timestamp 8) ''sink'' = Some stop"
    by blast
  then have f: "msg_type stop = ''system.shutdown''" "msg_payload stop = payload_shutdown ''sink''"
    by (auto simp: create_shutdown_event_def new_message_Some_iff with_payload_def with_source_name_def SHUTDOWN_EVENT_TYPE_def)
  have "case create_shutdown_event (MessageId ''msg_2'') (Timestamp 8) ''sink'' of
      None \<Rightarrow> False | Some m \<Rightarrow> message_ok (take 3) m \<and> msg_metadata m = None"
    "message_ok (take 3) tick_message \<and> msg_metadata tick_message = None \<and> msg_type tick_message = ''timer.tick''"
    by code_simp+
  note g = this(1) [unfolded stop option.case] this(2)
  let ?ms = "[(MessageId ''msg_9'', Timestamp 9, tick_message), (MessageId ''msg_9'', Timestamp 9, stop),
     (MessageId ''msg_9'', Timestamp 9, tick_message)]"
  have i: "?from (id t) = Ok t" for t
    by simp
  have "list_all (\<lambda>(_, _, m). message_ok (take 3) m) ?ms"
    using g by simp
  note stream = stream_is_what_the_engine_forwards [where from_str = ?from and to_str = id and parse_json = "\<lambda>_. None" and lower = id and kind = "''sink''", OF i this]
  have "names_kind id ''sink'' (msg_payload stop)"
    using stream f(2) by simp
  with stream show ?thesis
    using stop f g by (simp add: received_def Let_def del: push_to_message_stream.simps)
qed

end
